(* ===== verification/Prelude.thy ===== *)
theory Prelude
  imports Main "HOL-Library.Word"
begin

text \<open>
  Shared vocabulary of the development: names for the machine integers of the firmware, the
  ARM saturation primitives, little-endian packing of bytes into 32-bit words, and generic
  lemmas about lists and words that several components use.
\<close>

unbundle bit_operations_syntax

section \<open>Machine integers\<close>

type_synonym u8 = "8 word"
type_synonym u16 = "16 word"
type_synonym u32 = "32 word"
type_synonym i32 = "32 word"

named_theorems msg_simps \<open>evaluation of MIDI message packing\<close>
named_theorems fifo_simps \<open>abstraction of the ring buffers\<close>
named_theorems step_defs \<open>definitions of the operations of a component\<close>

text \<open>The range of a byte.\<close>

lemma unat_u8: "unat d < 256" for d :: u8
proof -
  have "unat d < 2 ^ LENGTH(8)" by (rule unsigned_less)
  then show ?thesis by simp
qed

section \<open>Results of code that can halt or go wrong\<close>

text \<open>
  The firmware stops in chSysHalt on internal inconsistencies, and C leaves accesses
  outside an object undefined. Both are values of the models.
\<close>

datatype fault =
    SysHalt string   \<comment> \<open>chSysHalt / report\_halt with its reason\<close>
  | OutOfBounds      \<comment> \<open>a read or a write outside the object\<close>
  | Uninitialised    \<comment> \<open>a read of an uninitialised object\<close>
  | NullCall         \<comment> \<open>a call through a null function pointer\<close>
  | Dangling         \<comment> \<open>an access to a released or never allocated object\<close>

section \<open>Message codes\<close>

text \<open>The message codes of ChibiOS that the firmware returns and compares.\<close>

definition MSG_OK :: int where "MSG_OK = 0"
definition MSG_TIMEOUT :: int where "MSG_TIMEOUT = -1"
definition MSG_RESET :: int where "MSG_RESET = -2"

lemma msg_codes_distinct [simp]:
  "MSG_OK \<noteq> MSG_TIMEOUT" "MSG_TIMEOUT \<noteq> MSG_OK" "MSG_OK \<noteq> MSG_RESET"
  "MSG_RESET \<noteq> MSG_OK" "MSG_TIMEOUT \<noteq> MSG_RESET" "MSG_RESET \<noteq> MSG_TIMEOUT"
  by (simp_all add: MSG_OK_def MSG_TIMEOUT_def MSG_RESET_def)

section \<open>ARM saturation\<close>

text \<open>
  The C reference versions of the SSAT and USAT instructions. The argument is
  the mathematical value of the 32-bit operand.
\<close>

definition ssat :: "int \<Rightarrow> nat \<Rightarrow> int" where
  "ssat val sat =
     (if 1 \<le> sat \<and> sat \<le> 32 then
        (let mx = 2 ^ (sat - 1) - 1; mn = - 1 - mx
         in if val > mx then mx else if val < mn then mn else val)
      else val)"

definition usat :: "int \<Rightarrow> nat \<Rightarrow> int" where
  "usat val sat =
     (if sat \<le> 31 then
        (let mx = 2 ^ sat - 1
         in if val > mx then mx else if val < 0 then 0 else val)
      else val mod 2 ^ 32)"

lemma ssat_range:
  assumes "1 \<le> n" and "n \<le> 32"
  shows "- (2 ^ (n - 1)) \<le> ssat v n \<and> ssat v n < 2 ^ (n - 1)"
  using assms zero_less_power [of "2 :: int" "n - 1"]
  by (auto simp: ssat_def Let_def)

lemma ssat_in_range:
  "- (2 ^ (n - 1)) \<le> v \<Longrightarrow> v < 2 ^ (n - 1) \<Longrightarrow> ssat v n = v"
  by (auto simp: ssat_def Let_def)

lemma usat_range: "n \<le> 31 \<Longrightarrow> 0 \<le> usat v n \<and> usat v n < 2 ^ n"
  by (auto simp: usat_def Let_def)

lemma usat_in_range: "n \<le> 31 \<Longrightarrow> 0 \<le> v \<Longrightarrow> v < 2 ^ n \<Longrightarrow> usat v n = v"
  by (auto simp: usat_def Let_def)

lemma ssat_mono: "v \<le> w \<Longrightarrow> ssat v n \<le> ssat w n"
  by (auto simp: ssat_def Let_def)

section \<open>Masks, bit by bit\<close>

text \<open>
  The simplifier reads a bit of a numeral word as a bit of the integer numeral; these are the
  masks the code uses.
\<close>

lemma bit_int_15 [simp]: "bit (15 :: int) n \<longleftrightarrow> n < 4"
proof -
  have "(15 :: int) = mask 4" by (simp add: mask_eq_exp_minus_1)
  then show ?thesis by (simp only: bit_mask_iff) simp
qed

lemma bit_int_240 [simp]: "bit (240 :: int) n \<longleftrightarrow> 4 \<le> n \<and> n < 8"
proof -
  have "(240 :: int) = push_bit 4 15" by (simp add: push_bit_eq_mult)
  then show ?thesis by (simp only: bit_push_bit_iff) auto
qed

lemma bit_int_127 [simp]: "bit (127 :: int) n \<longleftrightarrow> n < 7"
proof -
  have "(127 :: int) = mask 7" by (simp add: mask_eq_exp_minus_1)
  then show ?thesis by (simp only: bit_mask_iff) simp
qed

lemma bit_int_128 [simp]: "bit (128 :: int) n \<longleftrightarrow> n = 7"
proof -
  have "(128 :: int) = 2 ^ 7" by simp
  then show ?thesis by (simp only: bit_exp_iff) auto
qed

lemma bit_int_255 [simp]: "bit (255 :: int) n \<longleftrightarrow> n < 8"
proof -
  have "(255 :: int) = mask 8" by (simp add: mask_eq_exp_minus_1)
  then show ?thesis by (simp only: bit_mask_iff) simp
qed

section \<open>Little-endian packing\<close>

definition le32 :: "u8 \<Rightarrow> u8 \<Rightarrow> u8 \<Rightarrow> u8 \<Rightarrow> u32" where
  "le32 a b c d =
     ucast a OR push_bit 8 (ucast b) OR push_bit 16 (ucast c) OR push_bit 24 (ucast d)"

definition byte_of :: "nat \<Rightarrow> u32 \<Rightarrow> u8" where
  "byte_of i w = ucast (drop_bit (8 * i) w)"

definition le32_bytes :: "u32 \<Rightarrow> u8 list" where
  "le32_bytes w = [byte_of 0 w, byte_of 1 w, byte_of 2 w, byte_of 3 w]"

lemma length_le32_bytes [simp]: "length (le32_bytes w) = 4"
  by (simp add: le32_bytes_def)

lemma bit_le32:
  "bit (le32 a b c d) n =
     (if n < 8 then bit a n else if n < 16 then bit b (n - 8)
      else if n < 24 then bit c (n - 16) else if n < 32 then bit d (n - 24) else False)"
  by (auto simp: le32_def bit_simps dest: bit_imp_le_length)

lemma byte_of_le32 [simp]:
  "byte_of 0 (le32 a b c d) = a"
  "byte_of (Suc 0) (le32 a b c d) = b"
  "byte_of 2 (le32 a b c d) = c"
  "byte_of 3 (le32 a b c d) = d"
  by (auto intro!: bit_word_eqI simp: byte_of_def bit_le32 bit_simps)

lemma le32_byte_of [simp]:
  "le32 (byte_of 0 w) (byte_of (Suc 0) w) (byte_of 2 w) (byte_of 3 w) = w"
  by (rule bit_word_eqI) (auto simp: bit_le32 byte_of_def bit_simps)

section \<open>Sequencing of operations that may fault\<close>

definition sbind :: "'e + 'a \<Rightarrow> ('a \<Rightarrow> 'e + 'b) \<Rightarrow> 'e + 'b" where
  "sbind x f = (case x of Inl e \<Rightarrow> Inl e | Inr a \<Rightarrow> f a)"

lemma sbind_simps [simp]: "sbind (Inl e) f = Inl e" "sbind (Inr a) f = f a"
  by (simp_all add: sbind_def)

lemma sbind_assoc: "sbind (sbind x f) g = sbind x (\<lambda>a. sbind (f a) g)"
  by (cases x) simp_all

lemma sbind_Inr [simp]: "sbind x Inr = x"
  by (cases x) simp_all

lemma sbind_eq_Inr: "sbind x f = Inr b \<longleftrightarrow> (\<exists>a. x = Inr a \<and> f a = Inr b)"
  by (cases x) auto

text \<open>A loop over a list whose body may fault.\<close>

fun sfold :: "('x \<Rightarrow> 's \<Rightarrow> 'e + 's) \<Rightarrow> 'x list \<Rightarrow> 's \<Rightarrow> 'e + 's" where
  "sfold f [] s = Inr s"
| "sfold f (x # xs) s = sbind (f x s) (sfold f xs)"

lemma sfold_Nil [simp]: "sfold f [] = Inr"
  by (rule ext) simp

lemma sfold_append: "sfold f (xs @ ys) s = sbind (sfold f xs s) (sfold f ys)"
  by (induction xs arbitrary: s) (simp_all add: sbind_def split: sum.split)

text \<open>An invariant of the body is one of the loop, and a body that keeps it never faults.\<close>

lemma sfold_inv:
  assumes "\<And>x s. x \<in> set xs \<Longrightarrow> P s \<Longrightarrow> \<exists>s'. f x s = Inr s' \<and> P s'" and "P s"
  shows "\<exists>s'. sfold f xs s = Inr s' \<and> P s'"
  using assms
proof (induction xs arbitrary: s)
  case Nil
  then show ?case by simp
next
  case (Cons x xs)
  then obtain s1 where "f x s = Inr s1" "P s1" by (metis list.set_intros(1))
  with Cons show ?case by simp
qed

text \<open>An array access; the code reads outside the array where the index is too large.\<close>

definition nth_e :: "'a list \<Rightarrow> nat \<Rightarrow> fault + 'a" where
  "nth_e xs i = (if i < length xs then Inr (xs ! i) else Inl OutOfBounds)"

definition upd_e :: "'a list \<Rightarrow> nat \<Rightarrow> 'a \<Rightarrow> fault + 'a list" where
  "upd_e xs i x = (if i < length xs then Inr (xs[i := x]) else Inl OutOfBounds)"

lemma nth_e_in [simp]: "i < length xs \<Longrightarrow> nth_e xs i = Inr (xs ! i)"
  by (simp add: nth_e_def)

lemma upd_e_in [simp]: "i < length xs \<Longrightarrow> upd_e xs i x = Inr (xs[i := x])"
  by (simp add: upd_e_def)

lemma upd_e_length: "upd_e xs i x = Inr ys \<Longrightarrow> length ys = length xs"
  by (auto simp: upd_e_def split: if_splits)

lemma nth_e_append [simp]: "nth_e (xs @ x # ys) (length xs) = Inr x"
  by (simp add: nth_e_def)

text \<open>A C string at the start of a piece of memory: the bytes before its terminating zero.\<close>

definition c_string :: "u8 list \<Rightarrow> fault + u8 list" where
  "c_string mem = (if 0 \<in> set mem then Inr (takeWhile (\<lambda>c. c \<noteq> 0) mem) else Inl OutOfBounds)"

lemma c_string_zero [simp]: "0 \<notin> set s \<Longrightarrow> c_string (s @ 0 # rest) = Inr s"
  by (auto simp: c_string_def takeWhile_append)

section \<open>32-bit integers as numbers\<close>

text \<open>
  Where the arithmetic of a value matters, an int32\_t is modelled by its value, and every
  operation that can leave the range wraps around explicitly.
\<close>

definition wrap32 :: "int \<Rightarrow> int" where
  "wrap32 x = (x + 2 ^ 31) mod 2 ^ 32 - 2 ^ 31"

definition int32 :: "int \<Rightarrow> bool" where
  "int32 x \<longleftrightarrow> - (2 ^ 31) \<le> x \<and> x < 2 ^ 31"

lemma wrap32_id: "int32 x \<Longrightarrow> wrap32 x = x"
  by (simp add: wrap32_def int32_def)

lemma int32_wrap32 [simp]: "int32 (wrap32 x)"
proof -
  have "0 \<le> (x + 2147483648) mod 4294967296 \<and> (x + 2147483648) mod 4294967296 < 4294967296"
    by simp
  then show ?thesis unfolding wrap32_def int32_def by simp
qed

lemma wrap32_cong: "x mod 2 ^ 32 = y mod 2 ^ 32 \<Longrightarrow> wrap32 x = wrap32 y"
  by (simp add: wrap32_def) (metis mod_add_left_eq)

lemma wrap32_mod: "wrap32 x mod 2 ^ 32 = x mod 2 ^ 32"
  by (simp add: wrap32_def mod_diff_left_eq)

lemma wrap32_diff_add: "wrap32 (wrap32 (m - v) + w) = wrap32 (m - v + w)"
  by (rule wrap32_cong) (metis wrap32_mod mod_add_left_eq)

end
