(* ===== verification/Midi_Message.thy ===== *)
theory Midi_Message
  imports Prelude
begin

text \<open>
  MIDI event packets (api/midi.h) and the packet length table of the encoder
  (firmware/midi\_encoder.c). A packet is four bytes: the header byte ph, whose low nibble is
  the code index number (cin) and whose high nibble is the port, and up to three MIDI bytes.
  The bit-field view "fields" of the C union reads the same header byte, and "word" reads all
  four bytes as a little-endian integer.
\<close>

section \<open>The packet and its three views\<close>

record midi_message =
  ph :: u8
  b0 :: u8
  b1 :: u8
  b2 :: u8

definition mk_msg :: "u8 \<Rightarrow> u8 \<Rightarrow> u8 \<Rightarrow> u8 \<Rightarrow> midi_message" where
  "mk_msg p x y z = \<lparr>ph = p, b0 = x, b1 = y, b2 = z\<rparr>"

definition cin :: "midi_message \<Rightarrow> u8" where
  "cin m = ph m AND 0x0F"

definition port :: "midi_message \<Rightarrow> u8" where
  "port m = drop_bit 4 (ph m)"

definition set_port :: "u8 \<Rightarrow> midi_message \<Rightarrow> midi_message" where
  "set_port p m = m\<lparr>ph := (ph m AND 0x0F) OR push_bit 4 (p AND 0x0F)\<rparr>"

definition msg_word :: "midi_message \<Rightarrow> u32" where
  "msg_word m = le32 (ph m) (b0 m) (b1 m) (b2 m)"

definition msg_of_word :: "u32 \<Rightarrow> midi_message" where
  "msg_of_word w = mk_msg (byte_of 0 w) (byte_of 1 w) (byte_of 2 w) (byte_of 3 w)"

lemma mk_msg_sel [simp, msg_simps]:
  "ph (mk_msg p x y z) = p" "b0 (mk_msg p x y z) = x"
  "b1 (mk_msg p x y z) = y" "b2 (mk_msg p x y z) = z"
  by (simp_all add: mk_msg_def)

lemma msg_of_word_word [simp]: "msg_of_word (msg_word m) = m"
  by (simp add: msg_of_word_def msg_word_def mk_msg_def)

lemma msg_word_of_word [simp]: "msg_word (msg_of_word w) = w"
  by (simp add: msg_of_word_def msg_word_def)

lemma set_port_sel [simp, msg_simps]:
  "b0 (set_port p m) = b0 m" "b1 (set_port p m) = b1 m" "b2 (set_port p m) = b2 m"
  by (simp_all add: set_port_def)

lemma cin_set_port [simp, msg_simps]: "cin (set_port p m) = cin m"
  by (rule bit_word_eqI) (auto simp: cin_def set_port_def bit_simps)

lemma port_set_port: "port (set_port p m) = p AND 0x0F"
  by (rule bit_word_eqI) (auto simp: port_def set_port_def bit_simps)

lemma set_port_twice [simp]: "set_port p (set_port q m) = set_port p m"
proof -
  have "ph (set_port p (set_port q m)) = ph (set_port p m)"
    by (rule bit_word_eqI) (auto simp: set_port_def bit_simps)
  then show ?thesis by (simp add: set_port_def)
qed

section \<open>Building messages (midi.h)\<close>

definition midi_calcPH :: "u8 \<Rightarrow> u8 \<Rightarrow> u8" where
  "midi_calcPH prt x =
     (let c = drop_bit 4 (x AND 0xF0) in push_bit 4 (prt AND 0x0F) OR c)"

definition midiMessage :: "u8 \<Rightarrow> u8 \<Rightarrow> u8 \<Rightarrow> u8 \<Rightarrow> midi_message" where
  "midiMessage prt x y z = mk_msg (midi_calcPH prt x) x y z"

section \<open>The encoder's length table (midi\_encoder.c)\<close>

definition cin_msg_length :: "nat list" where
  "cin_msg_length = [0, 0, 2, 3, 3, 1, 2, 3, 3, 3, 3, 3, 2, 2, 3, 1]"

definition midi_encoder_get_length :: "midi_message \<Rightarrow> nat" where
  "midi_encoder_get_length m = cin_msg_length ! unat (cin m)"

text \<open>
  What a serial output writes for a packet (midi\_din\_send, midi\_gpio\_send): the first
  midi\_encoder\_get\_length bytes, starting at b0.
\<close>

definition midi_din_send :: "midi_message \<Rightarrow> u8 list" where
  "midi_din_send m = take (midi_encoder_get_length m) [b0 m, b1 m, b2 m]"

lemma cin_less: "unat (cin m) < 16"
proof -
  have "cin m \<le> 0x0F" by (simp add: cin_def word_and_le1)
  then show ?thesis by (simp add: word_le_nat_alt)
qed

lemma length_cin_msg_length [simp]: "length cin_msg_length = 16"
  by (simp add: cin_msg_length_def)

lemma midi_encoder_get_length_le: "midi_encoder_get_length m \<le> 3"
proof -
  have "\<forall>l \<in> set cin_msg_length. l \<le> 3" by (simp add: cin_msg_length_def)
  then show ?thesis
    using nth_mem [of "unat (cin m)" cin_msg_length] cin_less
    by (simp add: midi_encoder_get_length_def)
qed

lemma midi_din_send_set_port [simp]: "midi_din_send (set_port p m) = midi_din_send m"
  by (simp add: midi_din_send_def midi_encoder_get_length_def)

section \<open>System exclusive messages as packets\<close>

text \<open>
  The USB MIDI specification splits a system exclusive message (F0 ... F7) into packets of three
  bytes with code index 4; the last packet carries one, two or three bytes with code index 5, 6
  or 7. This is the reference both the decoder and midiSendSysEx are compared with.
\<close>

definition sysex_ph :: "u8 \<Rightarrow> u8 \<Rightarrow> u8" where
  "sysex_ph prt c = c OR push_bit 4 (prt AND 0x0F)"

fun sysex_packets :: "u8 \<Rightarrow> u8 list \<Rightarrow> midi_message list" where
  "sysex_packets p [] = []"
| "sysex_packets p [x] = [mk_msg (sysex_ph p 5) x 0 0]"
| "sysex_packets p [x, y] = [mk_msg (sysex_ph p 6) x y 0]"
| "sysex_packets p [x, y, z] = [mk_msg (sysex_ph p 7) x y z]"
| "sysex_packets p (x # y # z # z' # zs) = mk_msg (sysex_ph p 4) x y z # sysex_packets p (z' # zs)"

lemma sysex_packets_step:
  "zs \<noteq> [] \<Longrightarrow>
   sysex_packets p (x # y # z # zs) = mk_msg (sysex_ph p 4) x y z # sysex_packets p zs"
  by (cases zs) simp_all

lemma sysex_ph_0 [simp]: "sysex_ph 0 c = c"
  by (simp add: sysex_ph_def)

lemma cin_sysex_ph:
  assumes "c AND 0x0F = c"
  shows "cin (mk_msg (sysex_ph p c) x y z) = c"
proof -
  have "push_bit 4 (p AND 0x0F) AND 0x0F = (0 :: u8)"
    by (rule bit_word_eqI) (auto simp: bit_simps)
  with assms show ?thesis by (simp add: cin_def sysex_ph_def bit.conj_disj_distrib2)
qed

lemma din_send_sysex_packet:
  "midi_din_send (mk_msg (sysex_ph p 4) x y z) = [x, y, z]"
  "midi_din_send (mk_msg (sysex_ph p 5) x y z) = [x]"
  "midi_din_send (mk_msg (sysex_ph p 6) x y z) = [x, y]"
  "midi_din_send (mk_msg (sysex_ph p 7) x y z) = [x, y, z]"
  by (simp_all add: midi_din_send_def midi_encoder_get_length_def cin_sysex_ph cin_msg_length_def)

lemma din_send_sysex_packets: "concat (map midi_din_send (sysex_packets p xs)) = xs"
  by (induction p xs rule: sysex_packets.induct) (simp_all add: din_send_sysex_packet)

lemma length_sysex_packets: "length (sysex_packets p xs) = (length xs + 2) div 3"
  by (induction p xs rule: sysex_packets.induct) simp_all

section \<open>Nibbles of a byte\<close>

lemma unat_nibble: "unat (drop_bit 4 d) = unat d div 16" for d :: u8
  by (simp add: drop_bit_eq_div unat_div)

lemma div16: "k \<le> u div 16 \<longleftrightarrow> k * 16 \<le> u" "u div 16 < k \<longleftrightarrow> u < k * 16" for u :: nat
  by (simp_all add: less_eq_div_iff_mult_less_eq div_less_iff_less_mult)

lemma high_nibble:
  "128 \<le> u \<Longrightarrow> u < 240 \<Longrightarrow> 8 \<le> u div 16 \<and> u div 16 < 15"
  "192 \<le> u \<and> u < 224 \<longleftrightarrow> u div 16 = 12 \<or> u div 16 = 13"
  "240 \<le> u \<Longrightarrow> u < 256 \<Longrightarrow> u div 16 = 15"
  for u :: nat
proof -
  show "128 \<le> u \<Longrightarrow> u < 240 \<Longrightarrow> 8 \<le> u div 16 \<and> u div 16 < 15"
    unfolding div16 by simp
  have "q = 12 \<or> q = 13 \<longleftrightarrow> 12 \<le> q \<and> q < 14" for q :: nat by auto
  then show "192 \<le> u \<and> u < 224 \<longleftrightarrow> u div 16 = 12 \<or> u div 16 = 13"
    by (simp only: div16) simp
  show "240 \<le> u \<Longrightarrow> u < 256 \<Longrightarrow> u div 16 = 15"
    by (intro div_nat_eqI) simp_all
qed

end
