(* ===== verification/Midi_Buffer.thy ===== *)
theory Midi_Buffer
  imports Midi_Message
begin

text \<open>
  The MIDI ring buffers of firmware/midi\_buffer.c: 32 slots, a read index and a write index
  that both point at the slot used last, so at most 31 messages are stored. The contract of the
  two buffers is the locale bounded\_fifo: a first-in first-out queue of bounded capacity that
  refuses what does not fit. Both buffers of the code are instances of it, and the loops that
  empty a buffer are verified once against the contract.
\<close>

section \<open>The buffers\<close>

definition MIDI_RING_BUFFER_SIZE :: int where
  "MIDI_RING_BUFFER_SIZE = 32"

record midi_input_buffer =
  read_index :: int
  write_index :: int
  buf :: "midi_message list"

text \<open>
  The notify function of an output buffer wakes the thread that empties it; it is modelled by
  the identity of that thread, None being the null pointer.
\<close>

record midi_output_buffer = midi_input_buffer +
  notify :: "nat option"

text \<open>Calls that leave the component.\<close>

datatype buffer_event =
    Report_Overflow   \<comment> \<open>report\_usbh\_midi\_ringbuffer\_overflow\<close>
  | Signal nat        \<comment> \<open>the notify function signals its thread\<close>

section \<open>Input buffer operations\<close>

definition midi_input_buffer_objinit :: "'a midi_input_buffer_scheme \<Rightarrow> 'a midi_input_buffer_scheme" where
  "midi_input_buffer_objinit obj = obj\<lparr>read_index := 0, write_index := 0\<rparr>"

definition midi_intput_buffer_deinit :: "'a midi_input_buffer_scheme \<Rightarrow> 'a midi_input_buffer_scheme" where
  "midi_intput_buffer_deinit obj = obj\<lparr>read_index := 0, write_index := -1\<rparr>"

definition midi_input_buffer_put ::
    "'a midi_input_buffer_scheme \<Rightarrow> midi_message \<Rightarrow> int \<times> 'a midi_input_buffer_scheme \<times> buffer_event list"
  where
  "midi_input_buffer_put obj m =
     (if write_index obj + 1 = 0 then (-1, obj, [])
      else
        let next = (write_index obj + 1) mod MIDI_RING_BUFFER_SIZE in
        if next = read_index obj then (MSG_TIMEOUT, obj, [Report_Overflow])
        else (MSG_OK, obj\<lparr>buf := (buf obj)[nat next := m], write_index := next\<rparr>, []))"

definition midi_input_buffer_get ::
    "'a midi_input_buffer_scheme \<Rightarrow> int \<times> midi_message option \<times> 'a midi_input_buffer_scheme"
  where
  "midi_input_buffer_get obj =
     (if read_index obj \<noteq> write_index obj then
        let r = (read_index obj + 1) mod MIDI_RING_BUFFER_SIZE in
        (MSG_OK, Some (buf obj ! nat r), obj\<lparr>read_index := r\<rparr>)
      else (MSG_TIMEOUT, None, obj))"

section \<open>Output buffer operations\<close>

definition midi_output_buffer_objinit :: "midi_output_buffer \<Rightarrow> nat option \<Rightarrow> midi_output_buffer" where
  "midi_output_buffer_objinit obj nfy = obj\<lparr>notify := nfy, read_index := 0, write_index := 0\<rparr>"

definition midi_output_buffer_reset :: "midi_output_buffer \<Rightarrow> midi_output_buffer" where
  "midi_output_buffer_reset obj = obj\<lparr>read_index := 0, write_index := 0\<rparr>"

definition midi_output_buffer_deinit :: "midi_output_buffer \<Rightarrow> midi_output_buffer" where
  "midi_output_buffer_deinit obj = obj\<lparr>read_index := 0, write_index := -1\<rparr>"

definition midi_output_buffer_notify :: "midi_output_buffer \<Rightarrow> fault + buffer_event list" where
  "midi_output_buffer_notify obj =
     (case notify obj of None \<Rightarrow> Inl NullCall | Some t \<Rightarrow> Inr [Signal t])"

definition midi_output_buffer_put ::
    "midi_output_buffer \<Rightarrow> midi_message \<Rightarrow> fault + (int \<times> midi_output_buffer \<times> buffer_event list)"
  where
  "midi_output_buffer_put obj m =
     (if write_index obj + 1 = 0 then Inr (-1, obj, [])
      else
        let next = (write_index obj + 1) mod MIDI_RING_BUFFER_SIZE in
        if next = read_index obj then Inr (MSG_TIMEOUT, obj, [Report_Overflow])
        else
          let obj' = obj\<lparr>buf := (buf obj)[nat next := m], write_index := next\<rparr> in
          (case midi_output_buffer_notify obj' of
             Inl e \<Rightarrow> Inl e
           | Inr evs \<Rightarrow> Inr (MSG_OK, obj', evs)))"

definition midi_output_buffer_get ::
    "midi_output_buffer \<Rightarrow> int \<times> midi_message option \<times> midi_output_buffer" where
  "midi_output_buffer_get obj =
     (if read_index obj \<noteq> write_index obj then
        let r = (read_index obj + 1) mod MIDI_RING_BUFFER_SIZE in
        (MSG_OK, Some (buf obj ! nat r), obj\<lparr>read_index := r\<rparr>)
      else (MSG_TIMEOUT, None, obj))"

definition midi_output_buffer_getpending :: "midi_output_buffer \<Rightarrow> int" where
  "midi_output_buffer_getpending obj =
     (if write_index obj \<ge> read_index obj then write_index obj - read_index obj
      else write_index obj + MIDI_RING_BUFFER_SIZE - read_index obj)"

definition midi_output_buffer_get_available :: "midi_output_buffer \<Rightarrow> int" where
  "midi_output_buffer_get_available obj =
     MIDI_RING_BUFFER_SIZE - midi_output_buffer_getpending obj - 1"

section \<open>The loops that empty a buffer\<close>

text \<open>
  The writer threads run "get; while OK: process; get" (ThreadMidiOut, and the MIDI part of the
  DSP cycle); the USB writers take at most n messages into a packet. A while loop spends one
  unit of fuel per iteration.
\<close>

fun drain_loop :: "('b \<Rightarrow> int \<times> 'e option \<times> 'b) \<Rightarrow> nat \<Rightarrow> 'b \<Rightarrow> ('e list \<times> 'b) option" where
  "drain_loop get 0 b = None"
| "drain_loop get (Suc n) b =
     (case get b of
        (r, Some m, b') \<Rightarrow>
          (if r = MSG_OK then map_option (\<lambda>(ms, b''). (m # ms, b'')) (drain_loop get n b')
           else Some ([], b'))
      | (r, None, b') \<Rightarrow> Some ([], b'))"

fun take_upto :: "('b \<Rightarrow> int \<times> 'e option \<times> 'b) \<Rightarrow> nat \<Rightarrow> 'b \<Rightarrow> 'e list \<times> 'b" where
  "take_upto get 0 b = ([], b)"
| "take_upto get (Suc n) b =
     (case get b of
        (r, Some m, b') \<Rightarrow>
          (if r \<noteq> 0 then ([], b')
           else (case take_upto get n b' of (ms, b'') \<Rightarrow> (m # ms, b'')))
      | (r, None, b') \<Rightarrow> ([], b'))"

fun enq_all :: "('e \<Rightarrow> 'b \<Rightarrow> int \<times> 'b) \<Rightarrow> 'e list \<Rightarrow> 'b \<Rightarrow> 'b" where
  "enq_all put [] b = b"
| "enq_all put (m # ms) b = enq_all put ms (snd (put m b))"

section \<open>The contract of a bounded queue\<close>

locale bounded_fifo =
  fixes enq :: "'e \<Rightarrow> 'b \<Rightarrow> int \<times> 'b"
    and deq :: "'b \<Rightarrow> int \<times> 'e option \<times> 'b"
    and contents :: "'b \<Rightarrow> 'e list"
    and inv :: "'b \<Rightarrow> bool"
    and cap :: nat
  assumes enq_room: "inv b \<Longrightarrow> length (contents b) < cap \<Longrightarrow>
      \<exists>b'. enq m b = (MSG_OK, b') \<and> inv b' \<and> contents b' = contents b @ [m]"
    and enq_full: "inv b \<Longrightarrow> length (contents b) = cap \<Longrightarrow> enq m b = (MSG_TIMEOUT, b)"
    and deq_nonempty: "inv b \<Longrightarrow> contents b = m # ms \<Longrightarrow>
      \<exists>b'. deq b = (MSG_OK, Some m, b') \<and> inv b' \<and> contents b' = ms"
    and deq_empty: "inv b \<Longrightarrow> contents b = [] \<Longrightarrow> deq b = (MSG_TIMEOUT, None, b)"
    and bounded: "inv b \<Longrightarrow> length (contents b) \<le> cap"
begin

lemma enq_contents:
  assumes "inv b"
  shows "inv (snd (enq m b)) \<and>
    contents (snd (enq m b)) = take cap (contents b @ [m])"
proof (cases "length (contents b) < cap")
  case True
  then show ?thesis using enq_room [OF assms True, of m] by auto
next
  case False
  then have "length (contents b) = cap" using bounded [OF assms] by simp
  then show ?thesis using enq_full [OF assms, of m] assms by simp
qed

text \<open>A burst keeps the earliest messages, in order, and drops the rest.\<close>

lemma enq_all_contents:
  "inv b \<Longrightarrow> inv (enq_all enq ms b) \<and> contents (enq_all enq ms b) = take cap (contents b @ ms)"
proof (induction ms arbitrary: b)
  case Nil
  then show ?case using bounded [of b] by simp
next
  case (Cons m ms)
  have "inv (snd (enq m b))" and eq: "contents (snd (enq m b)) = take cap (contents b @ [m])"
    using enq_contents [OF Cons.prems] by auto
  moreover have "take cap (take cap (contents b @ [m]) @ ms) = take cap (contents b @ m # ms)"
    by (cases "length (contents b) < cap") (auto simp: min_def)
  ultimately show ?case using Cons.IH [of "snd (enq m b)"] by simp
qed

lemma drain_all:
  "inv b \<Longrightarrow> length (contents b) < n \<Longrightarrow>
   \<exists>b'. drain_loop deq n b = Some (contents b, b') \<and> inv b' \<and> contents b' = []"
proof (induction n arbitrary: b)
  case 0
  then show ?case by simp
next
  case (Suc n)
  show ?case
  proof (cases "contents b")
    case Nil
    then show ?thesis using deq_empty [OF Suc.prems(1) Nil] Suc.prems(1) by simp
  next
    case (Cons m ms)
    then obtain b1 where b1: "deq b = (MSG_OK, Some m, b1)" "inv b1" "contents b1 = ms"
      using deq_nonempty [OF Suc.prems(1) Cons] by blast
    moreover have "length ms < n" using Suc.prems(2) Cons by simp
    ultimately obtain b2 where "drain_loop deq n b1 = Some (ms, b2)" "inv b2" "contents b2 = []"
      using Suc.IH [of b1] by auto
    with b1 Cons show ?thesis by simp
  qed
qed

lemma take_upto_take:
  "inv b \<Longrightarrow> \<exists>b'. take_upto deq n b = (take n (contents b), b') \<and> inv b' \<and>
     contents b' = drop n (contents b)"
proof (induction n arbitrary: b)
  case 0
  then show ?case by simp
next
  case (Suc n)
  show ?case
  proof (cases "contents b")
    case Nil
    then show ?thesis using deq_empty [OF Suc.prems Nil] Suc.prems by simp
  next
    case (Cons m ms)
    then obtain b1 where b1: "deq b = (MSG_OK, Some m, b1)" "inv b1" "contents b1 = ms"
      using deq_nonempty [OF Suc.prems Cons] by blast
    then obtain b2 where "take_upto deq n b1 = (take n ms, b2)" "inv b2" "contents b2 = drop n ms"
      using Suc.IH [of b1] by auto
    with b1 Cons show ?thesis by (simp add: MSG_OK_def)
  qed
qed

end

section \<open>The ring buffers meet the contract\<close>

definition fifo_inv :: "'a midi_input_buffer_scheme \<Rightarrow> bool" where
  "fifo_inv b \<longleftrightarrow> length (buf b) = 32 \<and> 0 \<le> read_index b \<and> read_index b < 32 \<and>
     0 \<le> write_index b \<and> write_index b < 32"

definition pending :: "'a midi_input_buffer_scheme \<Rightarrow> nat" where
  "pending b = nat ((write_index b - read_index b) mod 32)"

definition queued :: "'a midi_input_buffer_scheme \<Rightarrow> midi_message list" where
  "queued b = map (\<lambda>i. buf b ! nat ((read_index b + 1 + int i) mod 32)) [0..<pending b]"

lemma length_queued [simp, fifo_simps]: "length (queued b) = pending b"
  by (simp add: queued_def)

lemma pending_le_31: "pending b \<le> 31"
  by (simp add: pending_def)

text \<open>The index arithmetic of the ring, on plain integers.\<close>

lemma ring_diff:
  "0 \<le> r \<Longrightarrow> r < 32 \<Longrightarrow> 0 \<le> w \<Longrightarrow> w < 32 \<Longrightarrow>
   (w - r :: int) mod 32 = (if r \<le> w then w - r else w - r + 32)"
  using mod_pos_pos_trivial [of "w - r" 32] mod_pos_pos_trivial [of "w - r + 32" 32]
  by auto

lemma ring_succ:
  "0 \<le> w \<Longrightarrow> w < 32 \<Longrightarrow> (w + 1 :: int) mod 32 = (if w = 31 then 0 else w + 1)"
  using mod_pos_pos_trivial [of "w + 1" 32] by auto

lemma ring_empty:
  "0 \<le> r \<Longrightarrow> r < 32 \<Longrightarrow> 0 \<le> w \<Longrightarrow> w < 32 \<Longrightarrow> (w - r :: int) mod 32 = 0 \<longleftrightarrow> r = w"
  by (auto simp add: ring_diff)

lemma ring_full:
  "0 \<le> r \<Longrightarrow> r < 32 \<Longrightarrow> 0 \<le> w \<Longrightarrow> w < 32 \<Longrightarrow>
   (w - r :: int) mod 32 = 31 \<longleftrightarrow> (w + 1) mod 32 = r"
  by (auto simp add: ring_diff ring_succ)

lemma ring_put:
  "0 \<le> r \<Longrightarrow> r < 32 \<Longrightarrow> 0 \<le> w \<Longrightarrow> w < 32 \<Longrightarrow> (w + 1) mod 32 \<noteq> r \<Longrightarrow>
   ((w + 1) mod 32 - r :: int) mod 32 = (w - r) mod 32 + 1"
  using ring_diff [of r 0] by (cases "w = 31") (auto simp add: ring_diff ring_succ)

lemma ring_get:
  "0 \<le> r \<Longrightarrow> r < 32 \<Longrightarrow> 0 \<le> w \<Longrightarrow> w < 32 \<Longrightarrow> r \<noteq> w \<Longrightarrow>
   (w - (r + 1) mod 32 :: int) mod 32 = (w - r) mod 32 - 1"
  by (cases "r = 31") (auto simp add: ring_diff ring_succ)

lemma ring_last:
  "(r + 1 + (w - r) mod 32) mod 32 = (w + 1 :: int) mod 32"
  by (simp add: mod_simps add.commute)

lemma ring_other:
  assumes "0 \<le> i" and "i < (w - r) mod 32"
  shows "(r + 1 + i) mod 32 \<noteq> (w + 1 :: int) mod 32"
proof
  assume "(r + 1 + i) mod 32 = (w + 1) mod 32"
  then have "(r + 1 + i - (r + 1)) mod 32 = (w + 1 - (r + 1)) mod 32"
    by (metis mod_diff_left_eq)
  then have "i mod 32 = (w - r) mod 32" by (simp add: algebra_simps)
  moreover have "i mod 32 = i"
    using assms pos_mod_bound [of 32 "w - r"] by simp
  ultimately show False using assms by simp
qed

lemma ring_shift: "((r + 1) mod 32 + 1 + int i) mod 32 = (r + 1 + int (Suc i) :: int) mod 32"
proof -
  have "((r + 1) mod 32 + (1 + int i)) mod 32 = (r + 1 + (1 + int i)) mod 32"
    by (rule mod_add_left_eq)
  then show ?thesis by (simp add: add.assoc)
qed

lemma pending_int: "int (pending b) = (write_index b - read_index b) mod 32"
  by (simp add: pending_def)

lemma queued_Nil_iff [fifo_simps]: "fifo_inv b \<Longrightarrow> queued b = [] \<longleftrightarrow> read_index b = write_index b"
  using ring_empty [of "read_index b" "write_index b"]
  by (auto simp: fifo_inv_def queued_def pending_def)

lemma pending_31_iff [fifo_simps]:
  "fifo_inv b \<Longrightarrow> pending b = 31 \<longleftrightarrow> (write_index b + 1) mod 32 = read_index b"
  using ring_full [of "read_index b" "write_index b"] pending_int [of b]
  by (auto simp: fifo_inv_def)

text \<open>Storing at the next write position appends to the queue.\<close>

lemma queued_put:
  fixes b :: "'a midi_input_buffer_scheme" and m :: midi_message
  assumes inv: "fifo_inv b" and room: "(write_index b + 1) mod 32 \<noteq> read_index b"
  defines "n \<equiv> (write_index b + 1) mod 32"
  defines "b' \<equiv> b\<lparr>buf := (buf b)[nat n := m], write_index := n\<rparr>"
  shows "fifo_inv b'" and "queued b' = queued b @ [m]"
proof -
  have bnds: "0 \<le> read_index b" "read_index b < 32" "0 \<le> write_index b" "write_index b < 32"
      "length (buf b) = 32"
    using inv by (auto simp: fifo_inv_def)
  show "fifo_inv b'" using inv by (simp add: fifo_inv_def b'_def n_def)
  have read_b': "read_index b' = read_index b" and buf_b': "buf b' = (buf b)[nat n := m]"
    by (simp_all add: b'_def)
  have p: "pending b' = Suc (pending b)"
    using ring_put [OF bnds(1-4) room] by (simp add: pending_def b'_def n_def)
  have last: "(read_index b + 1 + int (pending b)) mod 32 = n"
    using ring_last [of "read_index b" "write_index b"] by (simp add: pending_int n_def)
  have other: "nat ((read_index b + 1 + int i) mod 32) \<noteq> nat n" if "i < pending b" for i
  proof -
    have "int i < (write_index b - read_index b) mod 32"
      using that by (simp add: pending_int [symmetric])
    then show ?thesis
      using ring_other [of "int i" "write_index b" "read_index b"] by (simp add: n_def nat_eq_iff)
  qed
  show "queued b' = queued b @ [m]"
  proof (rule nth_equalityI)
    show "length (queued b') = length (queued b @ [m])" by (simp add: p)
  next
    fix i assume "i < length (queued b')"
    then have i: "i < Suc (pending b)" by (simp add: p)
    show "queued b' ! i = (queued b @ [m]) ! i"
    proof (cases "i = pending b")
      case True
      then show ?thesis
        using last bnds(5) by (simp add: queued_def nth_append p n_def read_b' buf_b' del: upt_Suc)
    next
      case False
      with i have "i < pending b" by simp
      then show ?thesis
        using other [of i] by (simp add: queued_def nth_append p read_b' buf_b' n_def del: upt_Suc)
    qed
  qed
qed

text \<open>Advancing the read position removes the oldest message.\<close>

lemma queued_get:
  fixes b :: "'a midi_input_buffer_scheme"
  assumes inv: "fifo_inv b" and ne: "read_index b \<noteq> write_index b"
  defines "r \<equiv> (read_index b + 1) mod 32"
  defines "b' \<equiv> b\<lparr>read_index := r\<rparr>"
  shows "fifo_inv b'" and "queued b = (buf b ! nat r) # queued b'"
proof -
  have bnds: "0 \<le> read_index b" "read_index b < 32" "0 \<le> write_index b" "write_index b < 32"
    using inv by (auto simp: fifo_inv_def)
  show "fifo_inv b'" using inv by (simp add: fifo_inv_def b'_def r_def)
  have p: "pending b = Suc (pending b')"
    using ring_get [OF bnds ne] ring_empty [OF bnds] ne pos_mod_sign [of 32 "write_index b - read_index b"]
    by (simp add: pending_def b'_def r_def nat_diff_distrib)
  have read_b': "read_index b' = r" and buf_b': "buf b' = buf b" by (simp_all add: b'_def)
  show "queued b = (buf b ! nat r) # queued b'"
  proof (rule nth_equalityI)
    show "length (queued b) = length ((buf b ! nat r) # queued b')" by (simp add: p)
  next
    fix i assume "i < length (queued b)"
    then have i: "i < Suc (pending b')" by (simp add: p)
    show "queued b ! i = ((buf b ! nat r) # queued b') ! i"
    proof (cases i)
      case 0
      then show ?thesis by (simp add: queued_def p r_def del: upt_Suc)
    next
      case (Suc j)
      then show ?thesis
        using i ring_shift [of "read_index b" j]
        by (simp add: queued_def p read_b' buf_b' del: upt_Suc of_nat_Suc) (simp add: r_def)
    qed
  qed
qed

definition in_enq :: "midi_message \<Rightarrow> 'a midi_input_buffer_scheme \<Rightarrow> int \<times> 'a midi_input_buffer_scheme" where
  "in_enq m b = (case midi_input_buffer_put b m of (r, b', _) \<Rightarrow> (r, b'))"

definition out_enq :: "midi_message \<Rightarrow> midi_output_buffer \<Rightarrow> int \<times> midi_output_buffer" where
  "out_enq m b = (case midi_output_buffer_put b m of Inl _ \<Rightarrow> (MSG_RESET, b) | Inr (r, b', _) \<Rightarrow> (r, b'))"

text \<open>An output buffer is ready for use once midi\_output\_buffer\_objinit gave it a thread.\<close>

definition out_inv :: "midi_output_buffer \<Rightarrow> bool" where
  "out_inv b \<longleftrightarrow> fifo_inv b \<and> notify b \<noteq> None"

interpretation inq: bounded_fifo in_enq midi_input_buffer_get queued fifo_inv 31
proof unfold_locales
  fix b :: "'a midi_input_buffer_scheme" and m :: midi_message and ms
  assume inv: "fifo_inv b"
  then have nz: "write_index b + 1 \<noteq> 0" by (simp add: fifo_inv_def)
  show "\<exists>b'. in_enq m b = (MSG_OK, b') \<and> fifo_inv b' \<and> queued b' = queued b @ [m]"
    if "length (queued b) < 31"
  proof -
    have "(write_index b + 1) mod 32 \<noteq> read_index b"
      using that pending_31_iff [OF inv] by simp
    with nz queued_put [OF inv this, of m] show ?thesis
      by (simp add: in_enq_def midi_input_buffer_put_def MIDI_RING_BUFFER_SIZE_def Let_def)
  qed
  show "in_enq m b = (MSG_TIMEOUT, b)" if "length (queued b) = 31"
    using that nz pending_31_iff [OF inv]
    by (simp add: in_enq_def midi_input_buffer_put_def MIDI_RING_BUFFER_SIZE_def Let_def)
  show "\<exists>b'. midi_input_buffer_get b = (MSG_OK, Some m, b') \<and> fifo_inv b' \<and> queued b' = ms"
    if "queued b = m # ms"
  proof -
    have ne: "read_index b \<noteq> write_index b" using that queued_Nil_iff [OF inv] by auto
    with queued_get [OF inv ne] that show ?thesis
      by (simp add: midi_input_buffer_get_def MIDI_RING_BUFFER_SIZE_def Let_def)
  qed
  show "midi_input_buffer_get b = (MSG_TIMEOUT, None, b)" if "queued b = []"
    using that queued_Nil_iff [OF inv] by (simp add: midi_input_buffer_get_def)
  show "length (queued b) \<le> 31" by (simp add: pending_le_31)
qed

lemma out_inv_in: "out_inv b \<Longrightarrow> fifo_inv b"
  by (simp add: out_inv_def)

lemma output_get_eq_input_get: "midi_output_buffer_get b = midi_input_buffer_get b"
  by (simp add: midi_output_buffer_get_def midi_input_buffer_get_def)

lemma output_put_eq_input_put:
  assumes "notify b = Some t"
  shows "midi_output_buffer_put b m =
    (case midi_input_buffer_put b m of (r, b', evs) \<Rightarrow>
       Inr (r, b', if r = MSG_OK then [Signal t] else evs))"
  using assms
  by (simp add: midi_output_buffer_put_def midi_input_buffer_put_def midi_output_buffer_notify_def
      Let_def MSG_OK_def MSG_TIMEOUT_def)

lemma input_get_out_inv: "out_inv b \<Longrightarrow> notify (snd (snd (midi_input_buffer_get b))) = notify b"
  by (simp add: midi_input_buffer_get_def Let_def)

lemma in_enq_notify: "notify (snd (in_enq m b)) = notify b"
  by (simp add: in_enq_def midi_input_buffer_put_def Let_def)

lemma out_enq_in_enq: "out_inv b \<Longrightarrow> out_enq m b = in_enq m b"
  by (auto simp: out_enq_def in_enq_def out_inv_def output_put_eq_input_put split: prod.splits)

interpretation outq: bounded_fifo out_enq midi_output_buffer_get queued out_inv 31
proof unfold_locales
  fix b :: midi_output_buffer and m :: midi_message and ms
  assume o: "out_inv b"
  then have inv: "fifo_inv b" by (rule out_inv_in)
  show "\<exists>b'. out_enq m b = (MSG_OK, b') \<and> out_inv b' \<and> queued b' = queued b @ [m]"
    if "length (queued b) < 31"
    using inq.enq_room [OF inv that, of m] o in_enq_notify [of m b]
    by (auto simp: out_enq_in_enq out_inv_def)
  show "out_enq m b = (MSG_TIMEOUT, b)" if "length (queued b) = 31"
    using inq.enq_full [OF inv that, of m] by (simp add: out_enq_in_enq o)
  show "\<exists>b'. midi_output_buffer_get b = (MSG_OK, Some m, b') \<and> out_inv b' \<and> queued b' = ms"
    if "queued b = m # ms"
    using inq.deq_nonempty [OF inv that] o input_get_out_inv [OF o]
    by (auto simp: output_get_eq_input_get out_inv_def)
  show "midi_output_buffer_get b = (MSG_TIMEOUT, None, b)" if "queued b = []"
    using inq.deq_empty [OF inv that] by (simp add: output_get_eq_input_get)
  show "length (queued b) \<le> 31" by (simp add: pending_le_31)
qed

section \<open>Facts of the buffers outside the contract\<close>

lemma objinit_empty:
  "length (buf b) = 32 \<Longrightarrow> fifo_inv (midi_input_buffer_objinit b) \<and> queued (midi_input_buffer_objinit b) = []"
  by (simp add: midi_input_buffer_objinit_def fifo_inv_def queued_def pending_def)

text \<open>The free space the code computes is the room left in the queue.\<close>

lemma getpending_pending: "fifo_inv b \<Longrightarrow> midi_output_buffer_getpending b = int (pending b)"
  by (auto simp: midi_output_buffer_getpending_def pending_int fifo_inv_def ring_diff
      MIDI_RING_BUFFER_SIZE_def)

lemma get_available_room:
  "fifo_inv b \<Longrightarrow> midi_output_buffer_get_available b = 31 - int (length (queued b))"
  by (simp add: midi_output_buffer_get_available_def getpending_pending MIDI_RING_BUFFER_SIZE_def)

text \<open>
  A closed input buffer has its write index at -1, which the read index never reaches: the
  put is refused, but the get delivers the stale slots round and round.
\<close>

lemma deinit_put_refused:
  "midi_input_buffer_put (midi_intput_buffer_deinit b) m = (-1, midi_intput_buffer_deinit b, [])"
  by (simp add: midi_input_buffer_put_def midi_intput_buffer_deinit_def)

lemma closed_never_drains:
  "write_index b = -1 \<Longrightarrow> 0 \<le> read_index b \<Longrightarrow> drain_loop midi_input_buffer_get n b = None"
proof (induction n arbitrary: b)
  case 0
  then show ?case by simp
next
  case (Suc n)
  then show ?case
    by (simp add: midi_input_buffer_get_def Let_def MIDI_RING_BUFFER_SIZE_def)
qed

section \<open>Properties\<close>

text \<open>
  C1: A burst of messages put into an open input buffer leaves exactly the earliest 31 messages
  in arrival order, counting those already waiting, and a reader that gets until it is refused
  receives exactly these, in that order, and leaves the buffer empty.
\<close>

lemma input_buffer_fifo:
  assumes "fifo_inv b"
  shows "\<exists>b'. drain_loop midi_input_buffer_get 32 (enq_all in_enq ms b) =
      Some (take 31 (queued b @ ms), b') \<and> fifo_inv b' \<and> queued b' = []"
proof -
  have *: "fifo_inv (enq_all in_enq ms b)" "queued (enq_all in_enq ms b) = take 31 (queued b @ ms)"
    using inq.enq_all_contents [OF assms] by blast+
  then show ?thesis using inq.drain_all [OF *(1), of 32] by simp
qed

lemma input_buffer_fifo_witness:
  "\<exists>b'. drain_loop midi_input_buffer_get 32
      (enq_all in_enq [mk_msg 9 0x90 60 100, mk_msg 8 0x80 60 0]
        \<lparr>read_index = 30, write_index = 30, buf = replicate 32 (mk_msg 0 0 0 0)\<rparr>) =
    Some (take 31 (queued \<lparr>read_index = 30, write_index = 30, buf = replicate 32 (mk_msg 0 0 0 0)\<rparr> @
      [mk_msg 9 0x90 60 100, mk_msg 8 0x80 60 0]), b') \<and> fifo_inv b' \<and> queued b' = []"
  by (rule input_buffer_fifo) (simp add: fifo_inv_def)

end
