(* ===== verification/Midi_Decoder.thy ===== *)
theory Midi_Decoder
  imports Midi_Message
begin

text \<open>
  The serial MIDI decoder (firmware/midi\_decoder.c), which turns the bytes received on the
  DIN or GPIO input into MIDI event packets. The packets handed to midi\_rcv\_cb are returned as
  a list, and the call of chSysHalt is the fault SysHalt. The lemmas show the invariant that
  rules the fault out, what whole messages decode to, that single-byte real-time messages do not
  disturb a message they interrupt, and that encoding the packets again gives the bytes back.
\<close>

section \<open>The decoder\<close>

definition StatusLengthLookup :: "u8 list" where
  "StatusLengthLookup = [0, 0, 0, 0, 0, 0, 0, 0, 3, 3, 3, 3, 2, 2, 3, -1]"

definition SysMsgLengthLookup :: "int list" where
  "SysMsgLengthLookup = [-1, 2, 3, 2, 1, 1, 1, -1, 1, 1, 1, 1, 1, 1, 1, 3]"

definition SMidi_calcCIN :: "u8 \<Rightarrow> u8" where
  "SMidi_calcCIN x = drop_bit 4 (x AND 0xF0)"

definition MIDI_SYSEX_START :: u8 where "MIDI_SYSEX_START = 0xF0"
definition MIDI_SYSEX_END :: u8 where "MIDI_SYSEX_END = 0xF7"

record midi_decoder_state =
  midiByte0 :: u8
  midiByte1 :: u8
  midiByte2 :: u8
  midiCurData :: u8
  midiNumData :: u8
  inSysEx :: u8

text \<open>The statics of the two serial inputs start out zeroed.\<close>

definition decoder_init :: midi_decoder_state where
  "decoder_init = \<lparr>midiByte0 = 0, midiByte1 = 0, midiByte2 = 0, midiCurData = 0,
     midiNumData = 0, inSysEx = 0\<rparr>"

definition midi_decoder_process ::
    "midi_decoder_state \<Rightarrow> u8 \<Rightarrow> fault + (midi_decoder_state \<times> midi_message list)" where
  "midi_decoder_process st d =
    (if d AND 0x80 \<noteq> 0 then
       let len = sint (StatusLengthLookup ! unat (drop_bit 4 d)) in
       if len = -1 then
         let len = SysMsgLengthLookup ! unat (d - 0xF0) in
         if len = 1 then Inr (st, [mk_msg (SMidi_calcCIN d) d 0 0])
         else if d = MIDI_SYSEX_START then
           Inr (st\<lparr>inSysEx := 1, midiNumData := 0, midiByte1 := d, midiCurData := 1\<rparr>, [])
         else if d = MIDI_SYSEX_END then
           let st = st\<lparr>inSysEx := 0\<rparr> in
           if midiCurData st = 0 then Inr (st, [mk_msg 0x5 MIDI_SYSEX_END 0 0])
           else if midiCurData st = 1 then
             Inr (st, [mk_msg 0x6 (midiByte1 st) MIDI_SYSEX_END 0])
           else if midiCurData st = 2 then
             Inr (st, [mk_msg 0x7 (midiByte1 st) (midiByte2 st) MIDI_SYSEX_END])
           else Inl (SysHalt ''MIDI SysEx invalid state'')
         else Inr (st\<lparr>midiByte0 := d, midiNumData := word_of_int (len - 1), midiCurData := 0\<rparr>, [])
       else Inr (st\<lparr>midiByte0 := d, midiNumData := word_of_int (len - 1), midiCurData := 0\<rparr>, [])
     else
       if midiCurData st = 0 then
         let st = st\<lparr>midiByte1 := d\<rparr> in
         if midiNumData st = 1 then
           Inr (st\<lparr>midiCurData := 0\<rparr>,
             [mk_msg (SMidi_calcCIN (midiByte0 st)) (midiByte0 st) (midiByte1 st) 0])
         else Inr (st\<lparr>midiCurData := midiCurData st + 1\<rparr>, [])
       else if midiCurData st = 1 then
         let st = st\<lparr>midiByte2 := d\<rparr> in
         if midiNumData st = 2 then
           Inr (st\<lparr>midiCurData := 0\<rparr>,
             [mk_msg (SMidi_calcCIN (midiByte0 st)) (midiByte0 st) (midiByte1 st) (midiByte2 st)])
         else Inr (st\<lparr>midiCurData := midiCurData st + 1\<rparr>, [])
       else if midiCurData st = 2 then
         Inr (st\<lparr>midiCurData := 0\<rparr>, [mk_msg 0x04 (midiByte1 st) (midiByte2 st) d])
       else Inr (st, []))"

text \<open>The reader thread feeds the bytes one by one.\<close>

fun decode :: "midi_decoder_state \<Rightarrow> u8 list \<Rightarrow> fault + (midi_decoder_state \<times> midi_message list)"
  where
  "decode st [] = Inr (st, [])"
| "decode st (d # ds) =
     (case midi_decoder_process st d of
        Inl e \<Rightarrow> Inl e
      | Inr (st', ms) \<Rightarrow>
          (case decode st' ds of Inl e \<Rightarrow> Inl e | Inr (st'', ms') \<Rightarrow> Inr (st'', ms @ ms')))"

lemma decode_append:
  "decode st (xs @ ys) =
     (case decode st xs of
        Inl e \<Rightarrow> Inl e
      | Inr (st', ms) \<Rightarrow>
          (case decode st' ys of Inl e \<Rightarrow> Inl e | Inr (st'', ms') \<Rightarrow> Inr (st'', ms @ ms')))"
  by (induction xs arbitrary: st) (auto split: sum.splits)

section \<open>Classes of bytes\<close>

definition is_data :: "u8 \<Rightarrow> bool" where
  "is_data d \<longleftrightarrow> d < 0x80"

text \<open>Bytes that are a whole message: tune request, the undefined F4 and F5, real-time bytes.\<close>

definition is_single :: "u8 \<Rightarrow> bool" where
  "is_single d \<longleftrightarrow> d \<in> {0xF4, 0xF5, 0xF6, 0xF8, 0xF9, 0xFA, 0xFB, 0xFC, 0xFD, 0xFE}"

definition is_status3 :: "u8 \<Rightarrow> bool" where
  "is_status3 d \<longleftrightarrow> 0x80 \<le> d \<and> d < 0xC0 \<or> 0xE0 \<le> d \<and> d < 0xF0"

definition is_status2 :: "u8 \<Rightarrow> bool" where
  "is_status2 d \<longleftrightarrow> 0xC0 \<le> d \<and> d < 0xE0"

text \<open>The system common messages with data, and the byte FF.\<close>

definition is_common :: "u8 \<Rightarrow> bool" where
  "is_common d \<longleftrightarrow> d \<in> {0xF1, 0xF2, 0xF3, 0xFF}"

definition status_num_data :: "u8 \<Rightarrow> u8" where
  "status_num_data d =
     (if is_status3 d \<or> d = 0xF2 \<or> d = 0xFF then 2 else 1)"

lemma le_unat: "x \<le> y \<longleftrightarrow> unat x \<le> unat y" for x y :: u8
  by (rule word_le_nat_alt)

lemma less_unat: "x < y \<longleftrightarrow> unat x < unat y" for x y :: u8
  by (rule word_less_nat_alt)

lemma and_0x80: "d AND 0x80 = 0 \<longleftrightarrow> is_data d" for d :: u8
proof -
  have "d AND 2 ^ 7 = 0 \<longleftrightarrow> \<not> bit d 7"
    by (rule and_exp_eq_0_iff_not_bit)
  moreover have "bit d 7 \<longleftrightarrow> odd (unat d div 2 ^ 7)"
  proof -
    have "bit (unat d) 7 \<longleftrightarrow> bit d 7" by (simp add: bit_unsigned_iff)
    then show ?thesis by (simp add: bit_iff_odd [of "unat d"])
  qed
  moreover have "odd (unat d div 128) \<longleftrightarrow> 128 \<le> unat d"
  proof (cases "128 \<le> unat d")
    case True
    then have "unat d div 128 = 1" using unat_u8 [of d] by (intro div_nat_eqI) simp_all
    with True show ?thesis by simp
  qed simp
  ultimately show ?thesis by (simp add: is_data_def less_unat not_le)
qed

lemma system_byte_cases:
  assumes "0xF0 \<le> (d :: u8)"
  shows "d \<in> {0xF0, 0xF1, 0xF2, 0xF3, 0xF4, 0xF5, 0xF6, 0xF7, 0xF8, 0xF9, 0xFA, 0xFB, 0xFC,
    0xFD, 0xFE, 0xFF}"
proof -
  have "unat d \<in> set [240..<256]"
    using assms unat_u8 [of d] unfolding set_upt atLeastLessThan_iff by (simp add: le_unat)
  then have "word_of_nat (unat d) \<in> (word_of_nat :: nat \<Rightarrow> u8) ` set [240..<256]" by (rule imageI)
  then show ?thesis by (simp add: upt_rec)
qed

lemma StatusLength_channel:
  assumes "\<not> is_data d" and "d < 0xF0"
  shows "StatusLengthLookup ! unat (drop_bit 4 d) = (if is_status2 d then 2 else 3)"
proof -
  have "8 \<le> unat d div 16 \<and> unat d div 16 < 15"
    using assms by (intro high_nibble(1)) (simp_all add: is_data_def less_unat)
  then consider "unat d div 16 = 8" | "unat d div 16 = 9" | "unat d div 16 = 10"
    | "unat d div 16 = 11" | "unat d div 16 = 12" | "unat d div 16 = 13" | "unat d div 16 = 14"
    by linarith
  moreover have "is_status2 d \<longleftrightarrow> unat d div 16 = 12 \<or> unat d div 16 = 13"
    using high_nibble(2) [of "unat d"] by (simp add: is_status2_def less_unat le_unat)
  ultimately show ?thesis
    by cases (simp_all add: unat_nibble StatusLengthLookup_def)
qed

lemma StatusLength_system: "0xF0 \<le> d \<Longrightarrow> StatusLengthLookup ! unat (drop_bit 4 d) = -1" for d :: u8
  using high_nibble(3) [of "unat d"] unat_u8 [of d]
  by (simp add: unat_nibble StatusLengthLookup_def le_unat)

section \<open>One byte at a time\<close>

lemma system_not_data: "0xF0 \<le> d \<Longrightarrow> \<not> is_data d" for d :: u8
  by (simp add: is_data_def less_unat le_unat)

lemma single_high: "is_single d \<Longrightarrow> 0xF0 \<le> d"
  by (auto simp: is_single_def)

lemma common_high: "is_common d \<Longrightarrow> 0xF0 \<le> d"
  by (auto simp: is_common_def)

lemma process_single:
  assumes "is_single d"
  shows "midi_decoder_process st d = Inr (st, [mk_msg 0x0F d 0 0])"
proof -
  note hi = single_high [OF assms]
  have "SysMsgLengthLookup ! unat (d - 0xF0) = 1" "SMidi_calcCIN d = 0x0F"
    using assms by (auto simp: is_single_def SysMsgLengthLookup_def SMidi_calcCIN_def drop_bit_eq_div)
  then show ?thesis
    using StatusLength_system [OF hi] system_not_data [OF hi]
    by (simp add: midi_decoder_process_def and_0x80)
qed

lemma process_sysex_start:
  "midi_decoder_process st 0xF0 =
     Inr (st\<lparr>inSysEx := 1, midiNumData := 0, midiByte1 := 0xF0, midiCurData := 1\<rparr>, [])"
  using StatusLength_system [of "0xF0"] system_not_data [of "0xF0"]
  by (simp add: midi_decoder_process_def and_0x80 SysMsgLengthLookup_def MIDI_SYSEX_START_def)

lemma process_sysex_end:
  "midi_decoder_process st 0xF7 =
     (if midiCurData st = 0 then Inr (st\<lparr>inSysEx := 0\<rparr>, [mk_msg 0x5 0xF7 0 0])
      else if midiCurData st = 1 then Inr (st\<lparr>inSysEx := 0\<rparr>, [mk_msg 0x6 (midiByte1 st) 0xF7 0])
      else if midiCurData st = 2 then
        Inr (st\<lparr>inSysEx := 0\<rparr>, [mk_msg 0x7 (midiByte1 st) (midiByte2 st) 0xF7])
      else Inl (SysHalt ''MIDI SysEx invalid state''))"
  using StatusLength_system [of "0xF7"] system_not_data [of "0xF7"]
  by (simp add: midi_decoder_process_def and_0x80 SysMsgLengthLookup_def
      MIDI_SYSEX_START_def MIDI_SYSEX_END_def)

lemma process_common:
  assumes "is_common d"
  shows "midi_decoder_process st d =
    Inr (st\<lparr>midiByte0 := d, midiNumData := status_num_data d, midiCurData := 0\<rparr>, [])"
  using StatusLength_system [OF common_high [OF assms]] system_not_data [OF common_high [OF assms]] assms
  by (auto simp: midi_decoder_process_def and_0x80 SysMsgLengthLookup_def is_common_def
      MIDI_SYSEX_START_def MIDI_SYSEX_END_def status_num_data_def is_status3_def)

lemma channel_status_cases:
  "is_status3 d \<or> is_status2 d \<longleftrightarrow> \<not> is_data d \<and> d < 0xF0"
  by (auto simp: is_status3_def is_status2_def is_data_def less_unat le_unat)

lemma status2_num_data: "is_status2 d \<Longrightarrow> status_num_data d = 1"
  by (auto simp: is_status2_def is_status3_def status_num_data_def less_unat le_unat)

lemma status3_num_data: "is_status3 d \<Longrightarrow> status_num_data d = 2"
  by (simp add: status_num_data_def)

lemma status_disjoint: "is_status3 d \<Longrightarrow> \<not> is_status2 d"
  by (auto simp: is_status2_def is_status3_def less_unat le_unat)

lemma process_status:
  assumes "is_status3 d \<or> is_status2 d"
  shows "midi_decoder_process st d =
    Inr (st\<lparr>midiByte0 := d, midiNumData := status_num_data d, midiCurData := 0\<rparr>, [])"
proof -
  have c: "\<not> is_data d" "d < 0xF0" using assms channel_status_cases by blast+
  show ?thesis
  proof (cases "is_status2 d")
    case True
    then show ?thesis
      using StatusLength_channel [OF c] c
      by (simp add: midi_decoder_process_def and_0x80 status2_num_data)
  next
    case False
    then have "is_status3 d" using assms by simp
    then show ?thesis
      using StatusLength_channel [OF c] c False
      by (simp add: midi_decoder_process_def and_0x80 status3_num_data)
  qed
qed

lemma process_data:
  assumes "is_data d"
  shows "midi_decoder_process st d =
    (if midiCurData st = 0 then
       if midiNumData st = 1 then
         Inr (st\<lparr>midiByte1 := d, midiCurData := 0\<rparr>,
           [mk_msg (SMidi_calcCIN (midiByte0 st)) (midiByte0 st) d 0])
       else Inr (st\<lparr>midiByte1 := d, midiCurData := 1\<rparr>, [])
     else if midiCurData st = 1 then
       if midiNumData st = 2 then
         Inr (st\<lparr>midiByte2 := d, midiCurData := 0\<rparr>,
           [mk_msg (SMidi_calcCIN (midiByte0 st)) (midiByte0 st) (midiByte1 st) d])
       else Inr (st\<lparr>midiByte2 := d, midiCurData := 2\<rparr>, [])
     else if midiCurData st = 2 then
       Inr (st\<lparr>midiCurData := 0\<rparr>, [mk_msg 0x04 (midiByte1 st) (midiByte2 st) d])
     else Inr (st, []))"
  using assms by (simp add: midi_decoder_process_def and_0x80 Let_def)

text \<open>Every byte belongs to exactly one of these classes.\<close>

lemma byte_cases:
  obtains (data) "is_data d" | (status) "is_status3 d \<or> is_status2 d" | (single) "is_single d"
    | (common) "is_common d" | (start) "d = 0xF0" | (end_) "d = 0xF7"
proof -
  have "d \<in> {0xF0, 0xF1, 0xF2, 0xF3, 0xF4, 0xF5, 0xF6, 0xF7, 0xF8, 0xF9, 0xFA, 0xFB, 0xFC,
    0xFD, 0xFE, 0xFF}" if "\<not> d < 0xF0"
    using that system_byte_cases [of d] by (simp add: not_less)
  then show ?thesis
    using that channel_status_cases [of d] by (auto simp: is_single_def is_common_def)
qed

section \<open>The halt is unreachable\<close>

text \<open>
  The invariant: the data counter is at most 2, and neither of the two bytes the decoder may
  emit as the first byte of a packet is a single-byte message.
\<close>

definition decoder_inv :: "midi_decoder_state \<Rightarrow> bool" where
  "decoder_inv st \<longleftrightarrow> midiCurData st \<in> {0, 1, 2} \<and>
     \<not> is_single (midiByte0 st) \<and> \<not> is_single (midiByte1 st)"

lemma decoder_inv_init: "decoder_inv decoder_init"
  by (simp add: decoder_inv_def decoder_init_def is_single_def)

lemma data_not_single: "is_data d \<Longrightarrow> \<not> is_single d"
  using single_high system_not_data by blast

lemma status_not_single: "is_status3 d \<or> is_status2 d \<Longrightarrow> \<not> is_single d"
  using single_high [of d] by (auto simp: is_status3_def is_status2_def less_unat le_unat)

lemma common_not_single: "is_common d \<Longrightarrow> \<not> is_single d"
  by (auto simp: is_common_def is_single_def)

lemma process_inv:
  assumes "decoder_inv st"
  shows "\<exists>st' ms. midi_decoder_process st d = Inr (st', ms) \<and> decoder_inv st' \<and>
    (\<forall>m \<in> set ms. is_single (b0 m) \<longrightarrow> m = mk_msg 0x0F d 0 0 \<and> st' = st)"
proof (cases d rule: byte_cases)
  case data
  then show ?thesis
    using assms data_not_single [OF data] by (auto simp: process_data decoder_inv_def)
next
  case status
  then show ?thesis
    using assms status_not_single [OF status] by (simp add: process_status decoder_inv_def)
next
  case common
  then show ?thesis
    using assms common_not_single [OF common] by (simp add: process_common decoder_inv_def)
next
  case single
  then show ?thesis using assms by (simp add: process_single)
next
  case start
  then show ?thesis using assms by (simp add: process_sysex_start decoder_inv_def is_single_def)
next
  case end_
  have "\<not> is_single 0xF7" by (simp add: is_single_def)
  then show ?thesis using assms end_ by (auto simp: process_sysex_end decoder_inv_def)
qed

lemma decode_total_inv:
  "decoder_inv st \<Longrightarrow> \<exists>st' ms. decode st bs = Inr (st', ms) \<and> decoder_inv st'"
proof (induction bs arbitrary: st)
  case Nil
  then show ?case by simp
next
  case (Cons d ds)
  then obtain st1 ms1 where 1: "midi_decoder_process st d = Inr (st1, ms1)" "decoder_inv st1"
    using process_inv by blast
  with Cons.IH obtain st2 ms2 where "decode st1 ds = Inr (st2, ms2)" "decoder_inv st2" by blast
  with 1 show ?case by simp
qed

section \<open>Single-byte messages are transparent\<close>

lemma decode_without_singles:
  "decoder_inv st \<Longrightarrow> decode st bs = Inr (st', ms) \<Longrightarrow>
   decode st (filter (\<lambda>d. \<not> is_single d) bs) = Inr (st', filter (\<lambda>m. \<not> is_single (b0 m)) ms) \<and>
   filter (\<lambda>m. is_single (b0 m)) ms = map (\<lambda>d. mk_msg 0x0F d 0 0) (filter is_single bs)"
proof (induction bs arbitrary: st ms)
  case Nil
  then show ?case by simp
next
  case (Cons d ds)
  from Cons.prems(1) obtain st1 ms1 where
    1: "midi_decoder_process st d = Inr (st1, ms1)" "decoder_inv st1"
      "\<forall>m \<in> set ms1. is_single (b0 m) \<longrightarrow> m = mk_msg 0x0F d 0 0 \<and> st1 = st"
    using process_inv [of st d] by blast
  with Cons.prems(2) obtain ms2 where 2: "decode st1 ds = Inr (st', ms2)" "ms = ms1 @ ms2"
    by (auto split: sum.splits)
  show ?case
  proof (cases "is_single d")
    case True
    then show ?thesis using 1 2 Cons.IH [OF 1(2) 2(1)] by (auto simp: process_single)
  next
    case False
    then have no: "\<not> is_single (b0 m)" if "m \<in> set ms1" for m using 1(3) that by fastforce
    then have "filter (\<lambda>m. is_single (b0 m)) ms1 = []" "filter (\<lambda>m. \<not> is_single (b0 m)) ms1 = ms1"
      by (simp_all add: filter_empty_conv filter_id_conv)
    then show ?thesis using 1 2 False Cons.IH [OF 1(2) 2(1)] by simp
  qed
qed

section \<open>Whole messages\<close>

text \<open>
  A stream of complete messages: channel messages with running status, system exclusive
  messages and single bytes. render gives its bytes on the wire, packets the expected packets,
  and full the bytes with the status byte repeated for every channel message.
\<close>

datatype midi_event =
    Channel3 u8 "(u8 \<times> u8) list"
  | Channel2 u8 "u8 list"
  | SysEx "u8 list"
  | Single u8

fun event_ok :: "midi_event \<Rightarrow> bool" where
  "event_ok (Channel3 s ps) \<longleftrightarrow> is_status3 s \<and> (\<forall>(x, y) \<in> set ps. is_data x \<and> is_data y)"
| "event_ok (Channel2 s xs) \<longleftrightarrow> is_status2 s \<and> (\<forall>x \<in> set xs. is_data x)"
| "event_ok (SysEx xs) \<longleftrightarrow> (\<forall>x \<in> set xs. is_data x)"
| "event_ok (Single d) \<longleftrightarrow> is_single d"

fun render :: "midi_event \<Rightarrow> u8 list" where
  "render (Channel3 s ps) = s # concat (map (\<lambda>(x, y). [x, y]) ps)"
| "render (Channel2 s xs) = s # xs"
| "render (SysEx xs) = 0xF0 # xs @ [0xF7]"
| "render (Single d) = [d]"

fun packets :: "midi_event \<Rightarrow> midi_message list" where
  "packets (Channel3 s ps) = map (\<lambda>(x, y). midiMessage 0 s x y) ps"
| "packets (Channel2 s xs) = map (\<lambda>x. midiMessage 0 s x 0) xs"
| "packets (SysEx xs) = sysex_packets 0 (0xF0 # xs @ [0xF7])"
| "packets (Single d) = [mk_msg 0x0F d 0 0]"

fun full :: "midi_event \<Rightarrow> u8 list" where
  "full (Channel3 s ps) = concat (map (\<lambda>(x, y). [s, x, y]) ps)"
| "full (Channel2 s xs) = concat (map (\<lambda>x. [s, x]) xs)"
| "full (SysEx xs) = 0xF0 # xs @ [0xF7]"
| "full (Single d) = [d]"

lemma midiMessage_CIN: "mk_msg (SMidi_calcCIN s) s x y = midiMessage 0 s x y"
  by (simp add: midiMessage_def midi_calcPH_def SMidi_calcCIN_def Let_def)

lemma decode_pairs:
  "\<lbrakk>midiByte0 st = s; midiNumData st = 2; midiCurData st = 0;
    \<forall>(x, y) \<in> set ps. is_data x \<and> is_data y\<rbrakk> \<Longrightarrow>
   \<exists>st'. decode st (concat (map (\<lambda>(x, y). [x, y]) ps)) =
     Inr (st', map (\<lambda>(x, y). midiMessage 0 s x y) ps)"
proof (induction ps arbitrary: st)
  case Nil
  then show ?case by simp
next
  case (Cons p ps)
  obtain x y where p: "p = (x, y)" by force
  let ?st = "st\<lparr>midiByte1 := x, midiByte2 := y, midiCurData := 0\<rparr>"
  from Cons.prems p obtain st' where
    "decode ?st (concat (map (\<lambda>(x, y). [x, y]) ps)) = Inr (st', map (\<lambda>(x, y). midiMessage 0 s x y) ps)"
    using Cons.IH [of ?st] by auto
  with Cons.prems p show ?case
    by (simp add: process_data midiMessage_CIN [symmetric])
qed

lemma decode_bytes2:
  "\<lbrakk>midiByte0 st = s; midiNumData st = 1; midiCurData st = 0; \<forall>x \<in> set xs. is_data x\<rbrakk> \<Longrightarrow>
   \<exists>st'. decode st xs = Inr (st', map (\<lambda>x. midiMessage 0 s x 0) xs)"
proof (induction xs arbitrary: st)
  case Nil
  then show ?case by simp
next
  case (Cons x xs)
  from Cons.prems obtain st' where
    "decode (st\<lparr>midiByte1 := x, midiCurData := 0\<rparr>) xs = Inr (st', map (\<lambda>x. midiMessage 0 s x 0) xs)"
    using Cons.IH [of "st\<lparr>midiByte1 := x, midiCurData := 0\<rparr>"] by auto
  with Cons.prems show ?case by (simp add: process_data midiMessage_CIN [symmetric])
qed

text \<open>The bytes of an unfinished packet that the state holds.\<close>

definition held :: "midi_decoder_state \<Rightarrow> u8 list" where
  "held st = take (unat (midiCurData st)) [midiByte1 st, midiByte2 st]"

lemma decode_sysex:
  "\<lbrakk>midiNumData st = 0; midiCurData st \<in> {0, 1, 2}; \<forall>x \<in> set xs. is_data x\<rbrakk> \<Longrightarrow>
   \<exists>st'. decode st (xs @ [0xF7]) = Inr (st', sysex_packets 0 (held st @ xs @ [0xF7]))"
proof (induction xs arbitrary: st)
  case Nil
  then show ?case by (auto simp: process_sysex_end held_def)
next
  case (Cons x xs)
  then have x: "is_data x" "\<forall>x \<in> set xs. is_data x" by auto
  from Cons.prems(2) consider "midiCurData st = 0" | "midiCurData st = 1" | "midiCurData st = 2"
    by auto
  then show ?case
  proof cases
    case 1
    then show ?thesis using Cons.prems x Cons.IH [of "st\<lparr>midiByte1 := x, midiCurData := 1\<rparr>"]
      by (auto simp: process_data held_def)
  next
    case 2
    then show ?thesis using Cons.prems x Cons.IH [of "st\<lparr>midiByte2 := x, midiCurData := 2\<rparr>"]
      by (auto simp: process_data held_def)
  next
    case 3
    then show ?thesis using Cons.prems x Cons.IH [of "st\<lparr>midiCurData := 0\<rparr>"]
      by (auto simp: process_data held_def sysex_packets_step)
  qed
qed

lemma decode_event: "event_ok ev \<Longrightarrow> \<exists>st'. decode st (render ev) = Inr (st', packets ev)"
proof (cases ev)
  case (Channel3 s ps)
  assume "event_ok ev"
  then show ?thesis
    using Channel3 decode_pairs [of "st\<lparr>midiByte0 := s, midiNumData := 2, midiCurData := 0\<rparr>" s ps]
    by (auto simp: process_status status3_num_data)
next
  case (Channel2 s xs)
  assume "event_ok ev"
  then show ?thesis
    using Channel2 decode_bytes2 [of "st\<lparr>midiByte0 := s, midiNumData := 1, midiCurData := 0\<rparr>" s xs]
    by (auto simp: process_status status2_num_data)
next
  case (SysEx xs)
  let ?st = "st\<lparr>inSysEx := 1, midiNumData := 0, midiByte1 := 0xF0, midiCurData := 1\<rparr>"
  have "held ?st = [0xF0]" by (simp add: held_def)
  moreover assume "event_ok ev"
  ultimately show ?thesis
    using SysEx decode_sysex [of ?st xs] by (auto simp: process_sysex_start)
next
  case (Single d)
  assume "event_ok ev"
  then show ?thesis using Single by (simp add: process_single)
qed

lemma decode_events:
  "list_all event_ok evs \<Longrightarrow>
   \<exists>st'. decode st (concat (map render evs)) = Inr (st', concat (map packets evs))"
proof (induction evs arbitrary: st)
  case Nil
  then show ?case by simp
next
  case (Cons ev evs)
  then obtain st1 where "decode st (render ev) = Inr (st1, packets ev)"
    using decode_event [of ev st] by auto
  moreover obtain st2 where "decode st1 (concat (map render evs)) = Inr (st2, concat (map packets evs))"
    using Cons by auto
  ultimately show ?case by (simp add: decode_append)
qed

section \<open>Sending the packets out again\<close>

lemma cin_midiMessage: "cin (midiMessage p s x y) = drop_bit 4 s"
  by (rule bit_word_eqI) (auto simp: cin_def midiMessage_def midi_calcPH_def Let_def bit_simps
      dest: bit_imp_le_length)

lemma din_send_midiMessage:
  assumes "\<not> is_data s" and "s < 0xF0"
  shows "midi_din_send (midiMessage p s x y) = (if is_status2 s then [s, x] else [s, x, y])"
proof -
  have "8 \<le> unat s div 16 \<and> unat s div 16 < 15"
    using assms by (intro high_nibble(1)) (simp_all add: is_data_def less_unat)
  then consider "unat s div 16 = 8" | "unat s div 16 = 9" | "unat s div 16 = 10"
    | "unat s div 16 = 11" | "unat s div 16 = 12" | "unat s div 16 = 13" | "unat s div 16 = 14"
    by linarith
  moreover have "is_status2 s \<longleftrightarrow> unat s div 16 = 12 \<or> unat s div 16 = 13"
    using high_nibble(2) [of "unat s"] by (simp add: is_status2_def less_unat le_unat)
  ultimately show ?thesis
    by cases (simp_all add: midi_din_send_def midi_encoder_get_length_def cin_midiMessage
        unat_nibble cin_msg_length_def, simp_all add: midiMessage_def)
qed

lemma din_send_packets: "event_ok ev \<Longrightarrow> concat (map midi_din_send (packets ev)) = full ev"
proof (cases ev)
  case (Channel3 s ps)
  assume "event_ok ev"
  then have "is_status3 s" using Channel3 by simp
  then have "\<not> is_data s" "s < 0xF0" "\<not> is_status2 s"
    using channel_status_cases status_disjoint by blast+
  then show ?thesis
    by (simp add: Channel3 din_send_midiMessage comp_def split_def)
next
  case (Channel2 s xs)
  assume "event_ok ev"
  then have "is_status2 s" using Channel2 by simp
  then have "\<not> is_data s" "s < 0xF0" "is_status2 s"
    using channel_status_cases by blast+
  then show ?thesis by (simp add: Channel2 din_send_midiMessage comp_def)
next
  case (SysEx xs)
  then show ?thesis by (simp only: packets.simps full.simps din_send_sysex_packets)
next
  case (Single d)
  have "cin (mk_msg 0x0F d 0 0) = 15" by (simp add: cin_def)
  then show ?thesis
    using Single by (simp add: midi_din_send_def midi_encoder_get_length_def cin_msg_length_def)
qed

section \<open>Properties\<close>

text \<open>
  C2: Whatever bytes arrive, a decoder that started from its zeroed state never reaches
  chSysHalt, and every packet it emits has been produced from a valid state.
\<close>

lemma decoder_never_halts:
  "\<exists>st' ms. decode decoder_init bs = Inr (st', ms) \<and> decoder_inv st'"
  using decode_total_inv [OF decoder_inv_init] .



text \<open>
  Single-byte messages such as the timing clock may interrupt any message at any byte:
  removing them from the input removes exactly their own packets from the output and leaves the
  decoder in the same state, and each of them yields its packet, in order.
\<close>

lemma single_bytes_transparent:
  "case decode decoder_init bs of
     Inl _ \<Rightarrow> False
   | Inr (st', ms) \<Rightarrow>
       decode decoder_init (filter (\<lambda>d. \<not> is_single d) bs) =
         Inr (st', filter (\<lambda>m. \<not> is_single (b0 m)) ms) \<and>
       filter (\<lambda>m. is_single (b0 m)) ms = map (\<lambda>d. mk_msg 0x0F d 0 0) (filter is_single bs)"
proof -
  obtain st' ms where d: "decode decoder_init bs = Inr (st', ms)"
    using decode_total_inv [OF decoder_inv_init, of bs] by blast
  show ?thesis using decode_without_singles [OF decoder_inv_init d] by (simp add: d)
qed

text \<open>
  The data bytes of the system common messages (time code, song position, song select) do
  not survive the way from the decoder to a serial output: the decoder gives their packet the
  code index of a single byte, so the encoder sends the status byte alone.
\<close>

lemma system_common_truncated:
  assumes "is_common s" and "is_data x" and "is_data y"
  shows "\<exists>st' m. decode st (if status_num_data s = 2 then [s, x, y] else [s, x]) = Inr (st', [m]) \<and>
    b0 m = s \<and> b1 m = x \<and> midi_din_send m = [s]"
proof -
  have "SMidi_calcCIN s = 0x0F"
    using assms(1) by (auto simp: is_common_def SMidi_calcCIN_def drop_bit_eq_div)
  moreover have "status_num_data s = 1 \<or> status_num_data s = 2"
    by (simp add: status_num_data_def)
  ultimately show ?thesis
    using assms by (auto simp: process_common process_data midi_din_send_def
        midi_encoder_get_length_def cin_def cin_msg_length_def)
qed

lemma system_common_truncated_witness:
  "\<exists>st' m. decode decoder_init (if status_num_data 0xF2 = 2 then [0xF2, 0x10, 0x20] else [0xF2, 0x10]) =
    Inr (st', [m]) \<and> b0 m = 0xF2 \<and> b1 m = 0x10 \<and> midi_din_send m = [0xF2]"
  by (rule system_common_truncated) (simp_all add: is_common_def is_data_def)

text \<open>
  The end of a system exclusive message leaves its last bytes in the decoder. After a
  message with one data byte, one stray data byte that follows is sent on as a further system
  exclusive packet that repeats the bytes F0 and x of the finished message.
\<close>

lemma stale_bytes_after_sysex:
  assumes "is_data x" and "is_data y"
  shows "\<exists>st'. decode st [0xF0, x, 0xF7, y] =
    Inr (st', [mk_msg 0x7 0xF0 x 0xF7, mk_msg 0x4 0xF0 x y])"
  using assms by (simp add: process_sysex_start process_sysex_end process_data)

lemma stale_bytes_after_sysex_witness:
  "\<exists>st'. decode decoder_init [0xF0, 0x7E, 0xF7, 0x3C] =
    Inr (st', [mk_msg 0x7 0xF0 0x7E 0xF7, mk_msg 0x4 0xF0 0x7E 0x3C])"
  by (rule stale_bytes_after_sysex) (simp_all add: is_data_def)

end
