(* ===== verification/Midi_Core.thy ===== *)
theory Midi_Core
  imports Midi_Buffer Midi_Decoder
begin

text \<open>
  MIDI routing: the eight virtual ports of the patches are mapped to the physical ports by one
  bit map per physical port (firmware/midi.c, midi\_routing.c, midi\_din.c, midi\_gpio.c,
  midi\_usb.c, midi\_usbh.c). The routing tables and output buffers, which the code keeps in one
  variable per device, are indexed here by the device. Settings files are read through a
  parameter, the content of a file by its name.
\<close>

section \<open>State\<close>

datatype midi_dev = Din | Gpio | Usbh1 | Usbh2 | Usbd

record midi_routing =
  rname :: string
  nports :: int
  bmvports :: "i32 list"

record midi_state =
  inmap :: "midi_dev \<Rightarrow> midi_routing"
  outmap :: "midi_dev \<Rightarrow> midi_routing"
  outbuf :: "midi_dev \<Rightarrow> midi_output_buffer"
  minbuf :: midi_input_buffer
  gpio_active :: bool
  events :: "buffer_event list"

text \<open>The statics of the source files before initialisation.\<close>

definition din_routing :: midi_routing where
  "din_routing = \<lparr>rname = ''DIN'', nports = 1, bmvports = [1]\<rparr>"

definition gpio_routing :: midi_routing where
  "gpio_routing = \<lparr>rname = ''GPIO'', nports = 0, bmvports = [0]\<rparr>"

definition usbd_routing :: midi_routing where
  "usbd_routing = \<lparr>rname = ''USB device'', nports = 1, bmvports = [1]\<rparr>"

definition usbh_inputmap1 :: midi_routing where
  "usbh_inputmap1 = \<lparr>rname = ''not connected'', nports = 0, bmvports = replicate 16 1\<rparr>"

definition usbh_unmapped :: midi_routing where
  "usbh_unmapped = \<lparr>rname = ''not connected'', nports = 0, bmvports = replicate 16 0\<rparr>"

definition zero_msg :: midi_message where
  "zero_msg = mk_msg 0 0 0 0"

definition zero_output_buffer :: midi_output_buffer where
  "zero_output_buffer = \<lparr>read_index = 0, write_index = 0, buf = replicate 32 zero_msg, notify = None\<rparr>"

definition midi_statics :: midi_state where
  "midi_statics = \<lparr>
     inmap = (\<lambda>d. case d of Din \<Rightarrow> din_routing | Gpio \<Rightarrow> gpio_routing | Usbh1 \<Rightarrow> usbh_inputmap1
       | Usbh2 \<Rightarrow> usbh_unmapped | Usbd \<Rightarrow> usbd_routing),
     outmap = (\<lambda>d. case d of Din \<Rightarrow> din_routing | Gpio \<Rightarrow> gpio_routing | Usbh1 \<Rightarrow> usbh_unmapped
       | Usbh2 \<Rightarrow> usbh_unmapped | Usbd \<Rightarrow> usbd_routing),
     outbuf = (\<lambda>_. zero_output_buffer),
     minbuf = \<lparr>read_index = 0, write_index = 0, buf = replicate 32 zero_msg\<rparr>,
     gpio_active = False, events = []\<rparr>"

section \<open>Sending (midi.c)\<close>

definition out_put :: "midi_dev \<Rightarrow> midi_message \<Rightarrow> midi_state \<Rightarrow> fault + midi_state" where
  "out_put d m st =
     sbind (midi_output_buffer_put (outbuf st d) m)
       (\<lambda>(r, b, evs). Inr (st\<lparr>outbuf := (outbuf st)(d := b), events := events st @ evs\<rparr>))"

definition in_put :: "midi_message \<Rightarrow> midi_state \<Rightarrow> midi_state" where
  "in_put m st =
     (case midi_input_buffer_put (minbuf st) m of
        (r, b, evs) \<Rightarrow> st\<lparr>minbuf := b, events := events st @ evs\<rparr>)"

definition send_first :: "midi_dev \<Rightarrow> u32 \<Rightarrow> midi_message \<Rightarrow> midi_state \<Rightarrow> fault + midi_state" where
  "send_first d vportmask m st =
     sbind (nth_e (bmvports (outmap st d)) 0)
       (\<lambda>w. if w AND vportmask \<noteq> 0 then out_put d m st else Inr st)"

text \<open>The loop over the ports of a USB host device. The message keeps the last port it was given.\<close>

definition send_port ::
    "midi_dev \<Rightarrow> u32 \<Rightarrow> nat \<Rightarrow> midi_message \<times> midi_state \<Rightarrow> fault + (midi_message \<times> midi_state)" where
  "send_port d vportmask i = (\<lambda>(m, st).
     sbind (nth_e (bmvports (outmap st d)) i)
       (\<lambda>w. if w AND vportmask \<noteq> 0 then
              let m = set_port (word_of_nat i) m in
              sbind (out_put d m st) (\<lambda>st. Inr (m, st))
            else Inr (m, st)))"

definition send_ports ::
    "midi_dev \<Rightarrow> u32 \<Rightarrow> midi_message \<times> midi_state \<Rightarrow> fault + (midi_message \<times> midi_state)" where
  "send_ports d vportmask = (\<lambda>(m, st).
     sfold (send_port d vportmask) [0..<nat (nports (outmap st d))] (m, st))"

definition midiSend :: "midi_message \<Rightarrow> midi_state \<Rightarrow> fault + midi_state" where
  "midiSend m st =
     (let vport = unat (port m) in
      if vport < 8 then
        let vportmask = push_bit vport 1 in
        sbind (send_first Din vportmask m st) (\<lambda>st.
        sbind (send_first Gpio vportmask m st) (\<lambda>st.
        sbind (send_ports Usbh1 vportmask (m, st)) (\<lambda>(m, st).
        sbind (send_ports Usbh2 vportmask (m, st)) (\<lambda>(m, st).
        sbind (nth_e (bmvports (outmap st Usbd)) 0) (\<lambda>w.
          if w AND vportmask \<noteq> 0 then out_put Usbd (set_port 0 m) st else Inr st)))))
      else Inr (in_put (set_port (word_of_nat (vport - 8)) m) st))"

definition sysex_end_msg :: "u8 \<Rightarrow> u8 list \<Rightarrow> nat \<Rightarrow> int \<Rightarrow> fault + midi_message" where
  "sysex_end_msg prt bytes i res =
     (let cn = push_bit 4 (prt AND 0x0F) in
      if res = 1 then
        sbind (nth_e bytes i) (\<lambda>x. Inr (mk_msg (0x05 OR cn) x 0 0))
      else if res = 2 then
        sbind (nth_e bytes i) (\<lambda>x. sbind (nth_e bytes (i + 1)) (\<lambda>y. Inr (mk_msg (0x06 OR cn) x y 0)))
      else if res = 3 then
        sbind (nth_e bytes i) (\<lambda>x. sbind (nth_e bytes (i + 1)) (\<lambda>y.
        sbind (nth_e bytes (i + 2)) (\<lambda>z. Inr (mk_msg (0x07 OR cn) x y z))))
      else Inl Uninitialised)"

function sysex_loop ::
    "u8 \<Rightarrow> u8 list \<Rightarrow> nat \<Rightarrow> nat \<Rightarrow> midi_state \<Rightarrow> fault + (nat \<times> midi_state)" where
  "sysex_loop prt bytes len i st =
     (if int i < int len - 3 then
        sbind (nth_e bytes i) (\<lambda>x. sbind (nth_e bytes (i + 1)) (\<lambda>y. sbind (nth_e bytes (i + 2)) (\<lambda>z.
        sbind (midiSend (mk_msg (0x04 OR push_bit 4 (prt AND 0x0F)) x y z) st) (\<lambda>st.
        sysex_loop prt bytes len (i + 3) st))))
      else Inr (i, st))"
  by pat_completeness auto
termination by (relation "measure (\<lambda>(_, _, len, i, _). len - i)") auto

declare sysex_loop.simps [simp del]

definition midiSendSysEx :: "u8 \<Rightarrow> u8 list \<Rightarrow> u8 \<Rightarrow> midi_state \<Rightarrow> fault + midi_state" where
  "midiSendSysEx prt bytes len st =
     sbind (sysex_loop prt bytes (unat len) 0 st) (\<lambda>(i, st).
     sbind (sysex_end_msg prt bytes i (int (unat len) - int i)) (\<lambda>endm.
     midiSend endm st))"

section \<open>Receiving\<close>

fun dispatch_loop :: "nat list \<Rightarrow> i32 \<Rightarrow> midi_message \<Rightarrow> midi_state \<Rightarrow> midi_state" where
  "dispatch_loop [] portmap m st = st"
| "dispatch_loop (v # vs) portmap m st =
     (if portmap AND 1 \<noteq> 0 then
        let m = set_port (word_of_nat v) m in
        dispatch_loop vs (signed_drop_bit 1 portmap) m (in_put m st)
      else dispatch_loop vs (signed_drop_bit 1 portmap) m st)"

definition midi_input_dispatch :: "i32 \<Rightarrow> midi_message \<Rightarrow> midi_state \<Rightarrow> midi_state" where
  "midi_input_dispatch portmap m st = dispatch_loop [0..<8] portmap m st"

text \<open>dispatch\_midi\_input of the DIN, GPIO and USB device inputs.\<close>

definition dispatch_midi_input :: "midi_dev \<Rightarrow> midi_message \<Rightarrow> midi_state \<Rightarrow> fault + midi_state" where
  "dispatch_midi_input d m st =
     sbind (nth_e (bmvports (inmap st d)) 0) (\<lambda>portmap. Inr (midi_input_dispatch portmap m st))"

definition usbh_midi_dispatch :: "midi_dev \<Rightarrow> midi_message \<Rightarrow> midi_state \<Rightarrow> fault + midi_state" where
  "usbh_midi_dispatch d m st =
     sbind (nth_e (bmvports (inmap st d)) (unat (port m)))
       (\<lambda>portmap. Inr (midi_input_dispatch portmap m st))"

text \<open>The buffer pointer only advances past a nonzero word.\<close>

fun usbhmidi_cb_loop :: "midi_dev \<Rightarrow> u32 list \<Rightarrow> nat \<Rightarrow> nat \<Rightarrow> midi_state \<Rightarrow> fault + midi_state" where
  "usbhmidi_cb_loop d ws 0 p st = Inr st"
| "usbhmidi_cb_loop d ws (Suc n) p st =
     sbind (nth_e ws p) (\<lambda>w.
       if w \<noteq> 0 then
         sbind (usbh_midi_dispatch d (msg_of_word w) st) (usbhmidi_cb_loop d ws n (p + 1))
       else usbhmidi_cb_loop d ws n p st)"

definition usbhmidi_cb :: "midi_dev \<Rightarrow> u32 list \<Rightarrow> int \<Rightarrow> midi_state \<Rightarrow> fault + midi_state" where
  "usbhmidi_cb d ws len st = usbhmidi_cb_loop d ws (nat len) 0 st"

definition usbmidi_disconnect :: "midi_dev \<Rightarrow> midi_state \<Rightarrow> midi_state" where
  "usbmidi_disconnect d st = st\<lparr>
     inmap := (inmap st)(d := (inmap st d)\<lparr>nports := 0\<rparr>),
     outmap := (outmap st)(d := (outmap st d)\<lparr>nports := 0\<rparr>)\<rparr>"

text \<open>One byte read by the reader thread of a serial input.\<close>

definition ThreadMidiIn ::
    "midi_dev \<Rightarrow> u8 \<Rightarrow> midi_decoder_state \<times> midi_state \<Rightarrow> fault + (midi_decoder_state \<times> midi_state)" where
  "ThreadMidiIn d ch = (\<lambda>(dec, st).
     sbind (midi_decoder_process dec ch) (\<lambda>(dec', ms).
     sbind (sfold (dispatch_midi_input d) ms st) (\<lambda>st'. Inr (dec', st'))))"

text \<open>One transfer of msg bytes received by the USB device.\<close>

definition usbd_midi_in :: "midi_message list \<Rightarrow> int \<Rightarrow> midi_state \<Rightarrow> fault + midi_state" where
  "usbd_midi_in rxbuf msg st =
     (if msg > 0 then
        sfold (\<lambda>i st. sbind (nth_e rxbuf i) (\<lambda>m. dispatch_midi_input Usbd m st)) [0..<nat (msg div 4)] st
      else Inr st)"

section \<open>Transmitting\<close>

text \<open>One wake-up of a serial writer thread: the bytes written, and the state left.\<close>

definition ThreadMidiOut :: "midi_dev \<Rightarrow> nat \<Rightarrow> midi_state \<Rightarrow> (u8 list \<times> midi_state) option" where
  "ThreadMidiOut d fuel st =
     map_option (\<lambda>(ms, b). (concat (map midi_din_send ms), st\<lparr>outbuf := (outbuf st)(d := b)\<rparr>))
       (drain_loop midi_output_buffer_get fuel (outbuf st d))"

definition msg_bytes :: "midi_message \<Rightarrow> u8 list" where
  "msg_bytes m = [ph m, b0 m, b1 m, b2 m]"

text \<open>One wake-up of the USB device writer: the data of the transfer, empty when there is none.\<close>

definition usbd_midi_out :: "midi_state \<Rightarrow> u8 list \<times> midi_state" where
  "usbd_midi_out st =
     (case take_upto midi_output_buffer_get 16 (outbuf st Usbd) of
        (ms, b) \<Rightarrow> (concat (map msg_bytes ms), st\<lparr>outbuf := (outbuf st)(Usbd := b)\<rparr>))"

section \<open>Routing settings (midi\_routing.c)\<close>

datatype direction = dir_in | dir_out

definition get_midi_routing_filename :: "midi_routing \<Rightarrow> direction \<Rightarrow> string" where
  "get_midi_routing_filename routing dir =
     take 63 ((if dir = dir_out then ''/settings/midi-out/'' else ''/settings/midi-in/'') @
       rname routing @ ''.axr'')"

definition load_midi_routing_default :: "midi_routing \<Rightarrow> fault + midi_routing" where
  "load_midi_routing_default routing =
     (if nports routing = 0 then Inr routing
      else
        sbind (upd_e (bmvports routing) 0 1) (\<lambda>bm.
        sbind (sfold (\<lambda>i bm. upd_e bm i 0) [1..<nat (nports routing)] bm) (\<lambda>bm.
        Inr (routing\<lparr>bmvports := bm\<rparr>))))"

definition words_bytes :: "u32 list \<Rightarrow> u8 list" where
  "words_bytes ws = concat (map le32_bytes ws)"

text \<open>f\_read and f\_write transfer the words of the table as bytes, least significant first.\<close>

fun bytes_words :: "u8 list \<Rightarrow> u32 list" where
  "bytes_words (w # x # y # z # bs) = le32 w x y z # bytes_words bs"
| "bytes_words _ = []"

definition overwrite :: "'a list \<Rightarrow> 'a list \<Rightarrow> fault + 'a list" where
  "overwrite new old =
     (if length new \<le> length old then Inr (new @ drop (length new) old) else Inl OutOfBounds)"

definition load_midi_routing ::
    "bool \<Rightarrow> (string \<Rightarrow> u8 list option) \<Rightarrow> direction \<Rightarrow> midi_routing \<Rightarrow> fault + midi_routing" where
  "load_midi_routing fs_ready open_read dir routing =
     (if \<not> fs_ready then load_midi_routing_default routing
      else
        (case open_read (get_midi_routing_filename routing dir) of
           Some content \<Rightarrow>
             sbind (overwrite (take (nat (nports routing) * 4) content) (words_bytes (bmvports routing)))
               (\<lambda>bs. Inr (routing\<lparr>bmvports := bytes_words bs\<rparr>))
         | None \<Rightarrow> load_midi_routing_default routing))"

text \<open>What store\_midi\_routing writes: the file name and the content.\<close>

definition store_midi_routing :: "bool \<Rightarrow> direction \<Rightarrow> midi_routing \<Rightarrow> (string \<times> u8 list) option" where
  "store_midi_routing fs_ready dir routing =
     (if \<not> fs_ready then None
      else Some (get_midi_routing_filename routing dir,
        take (nat (nports routing) * 4) (words_bytes (bmvports routing))))"

section \<open>Initialisation\<close>

definition load_maps ::
    "bool \<Rightarrow> (string \<Rightarrow> u8 list option) \<Rightarrow> midi_dev \<Rightarrow> midi_state \<Rightarrow> fault + midi_state" where
  "load_maps fs_ready open_read d st =
     sbind (load_midi_routing fs_ready open_read dir_in (inmap st d)) (\<lambda>i.
     sbind (load_midi_routing fs_ready open_read dir_out (outmap st d)) (\<lambda>j.
     Inr (st\<lparr>inmap := (inmap st)(d := i), outmap := (outmap st)(d := j)\<rparr>)))"

definition init_outbuf :: "midi_dev \<Rightarrow> nat \<Rightarrow> midi_state \<Rightarrow> midi_state" where
  "init_outbuf d thd st =
     st\<lparr>outbuf := (outbuf st)(d := midi_output_buffer_objinit (outbuf st d) (Some thd))\<rparr>"

definition midi_din_init :: "bool \<Rightarrow> (string \<Rightarrow> u8 list option) \<Rightarrow> midi_state \<Rightarrow> fault + midi_state" where
  "midi_din_init fs_ready open_read st =
     sbind (load_maps fs_ready open_read Din st) (\<lambda>st. Inr (init_outbuf Din 1 st))"

definition midi_usb_init :: "bool \<Rightarrow> (string \<Rightarrow> u8 list option) \<Rightarrow> midi_state \<Rightarrow> fault + midi_state" where
  "midi_usb_init fs_ready open_read st =
     sbind (load_maps fs_ready open_read Usbd st) (\<lambda>st. Inr (init_outbuf Usbd 3 st))"

definition midi_init :: "bool \<Rightarrow> (string \<Rightarrow> u8 list option) \<Rightarrow> midi_state \<Rightarrow> fault + midi_state" where
  "midi_init fs_ready open_read st =
     midi_din_init fs_ready open_read (st\<lparr>minbuf := midi_input_buffer_objinit (minbuf st)\<rparr>)"

definition set_gpio_nports :: "int \<Rightarrow> midi_state \<Rightarrow> midi_state" where
  "set_gpio_nports n st = st\<lparr>
     inmap := (inmap st)(Gpio := (inmap st Gpio)\<lparr>nports := n\<rparr>),
     outmap := (outmap st)(Gpio := (outmap st Gpio)\<lparr>nports := n\<rparr>)\<rparr>"

definition midi_gpio_init :: "bool \<Rightarrow> (string \<Rightarrow> u8 list option) \<Rightarrow> midi_state \<Rightarrow> fault + midi_state" where
  "midi_gpio_init fs_ready open_read st =
     sbind (if \<not> gpio_active st then
              sbind (load_maps fs_ready open_read Gpio st) (\<lambda>st.
              Inr (set_gpio_nports 1 (init_outbuf Gpio 2 st)))
            else Inr st)
       (\<lambda>st. Inr (st\<lparr>gpio_active := True\<rparr>))"

definition midi_gpio_deinit :: "midi_state \<Rightarrow> fault + midi_state" where
  "midi_gpio_deinit st =
     sbind (upd_e (bmvports (outmap st Gpio)) 0 0) (\<lambda>bm.
       let st = set_gpio_nports 0 (st\<lparr>outmap := (outmap st)(Gpio := (outmap st Gpio)\<lparr>bmvports := bm\<rparr>)\<rparr>)
       in Inr (if gpio_active st then st\<lparr>gpio_active := False\<rparr> else st))"

definition midi_gpio_enable ::
    "bool \<Rightarrow> (string \<Rightarrow> u8 list option) \<Rightarrow> int \<Rightarrow> midi_state \<Rightarrow> fault + midi_state" where
  "midi_gpio_enable fs_ready open_read enable st =
     (if enable \<noteq> 0 then midi_gpio_init fs_ready open_read st else midi_gpio_deinit st)"

section \<open>What a send delivers\<close>

lemma mask_bit: "w AND push_bit v 1 \<noteq> 0 \<longleftrightarrow> bit w v" for w :: u32
  by (simp add: and_exp_eq_0_iff_not_bit)

lemma mask_bit_exp: "w AND 2 ^ v = 0 \<longleftrightarrow> \<not> bit w v" for w :: u32
  by (rule and_exp_eq_0_iff_not_bit)

text \<open>
  The packets a message for an output virtual port leaves in the queue of each device, and the
  condition under which the tables and the buffers concerned can be used.
\<close>

definition deliveries :: "midi_message \<Rightarrow> midi_state \<Rightarrow> midi_dev \<Rightarrow> midi_message list" where
  "deliveries m st d =
     (let v = unat (port m); bm = bmvports (outmap st d) in
      case d of
        Din \<Rightarrow> if bit (bm ! 0) v then [m] else []
      | Gpio \<Rightarrow> if bit (bm ! 0) v then [m] else []
      | Usbd \<Rightarrow> if bit (bm ! 0) v then [set_port 0 m] else []
      | _ \<Rightarrow> map (\<lambda>i. set_port (word_of_nat i) m)
               (filter (\<lambda>i. bit (bm ! i) v) [0..<nat (nports (outmap st d))]))"

definition maps_ok :: "midi_state \<Rightarrow> bool" where
  "maps_ok st \<longleftrightarrow> (\<forall>d. bmvports (outmap st d) \<noteq> [] \<and>
     nat (nports (outmap st d)) \<le> length (bmvports (outmap st d)))"

definition sent :: "midi_state \<Rightarrow> midi_state \<Rightarrow> (midi_dev \<Rightarrow> midi_message list) \<Rightarrow> bool" where
  "sent st st' f \<longleftrightarrow>
     (\<forall>d. queued (outbuf st' d) = take 31 (queued (outbuf st d) @ f d)) \<and>
     (\<forall>d. out_inv (outbuf st d) \<longrightarrow> out_inv (outbuf st' d)) \<and>
     inmap st' = inmap st \<and> outmap st' = outmap st \<and> minbuf st' = minbuf st \<and>
     gpio_active st' = gpio_active st"

lemma take_take_append: "take n (take n xs @ ys) = take n (xs @ ys)"
  by (cases "length xs < n") (auto simp: min_def)

lemma sent_nothing: "sent st st (\<lambda>d. [])"
  by (simp add: sent_def pending_le_31)

lemma sent_trans:
  assumes "sent st st1 f" and "sent st1 st2 g"
  shows "sent st st2 (\<lambda>d. f d @ g d)"
proof -
  have "queued (outbuf st2 d) = take 31 (queued (outbuf st d) @ f d @ g d)" for d
  proof -
    have "queued (outbuf st2 d) = take 31 (take 31 (queued (outbuf st d) @ f d) @ g d)"
      using assms by (simp add: sent_def)
    then show ?thesis by (simp only: take_take_append append_assoc)
  qed
  then show ?thesis using assms by (simp add: sent_def)
qed

lemma sent_outmap: "sent st st' f \<Longrightarrow> outmap st' = outmap st"
  by (simp add: sent_def)

lemma sent_out_inv: "sent st st' f \<Longrightarrow> out_inv (outbuf st d) \<Longrightarrow> out_inv (outbuf st' d)"
  by (simp add: sent_def)

lemma out_put_ready:
  assumes "out_inv (outbuf st d)"
  shows "\<exists>st'. out_put d m st = Inr st' \<and> sent st st' (\<lambda>d'. if d' = d then [m] else [])"
proof -
  obtain r b evs where put: "midi_output_buffer_put (outbuf st d) m = Inr (r, b, evs)"
    using assms output_put_eq_input_put [of "outbuf st d" _ m]
    by (auto simp: out_inv_def split: prod.splits)
  then have "out_enq m (outbuf st d) = (r, b)" by (simp add: out_enq_def)
  then have "out_inv b" "queued b = take 31 (queued (outbuf st d) @ [m])"
    using outq.enq_contents [OF assms, of m] by simp_all
  then show ?thesis
    by (simp add: out_put_def put sent_def pending_le_31)
qed

lemma send_first_ready:
  assumes "bmvports (outmap st d) \<noteq> []"
    and "bit (bmvports (outmap st d) ! 0) v \<Longrightarrow> out_inv (outbuf st d)"
  shows "\<exists>st'. send_first d (push_bit v 1) m st = Inr st' \<and>
    sent st st' (\<lambda>d'. if d' = d \<and> bit (bmvports (outmap st d) ! 0) v then [m] else [])"
  using assms out_put_ready [of st d m] sent_nothing [of st]
  by (cases "bit (bmvports (outmap st d) ! 0) v") (auto simp: send_first_def mask_bit_exp)

lemma send_ports_ready:
  assumes "\<And>i. i \<in> set is \<Longrightarrow> i < length (bmvports (outmap st d))"
    and "\<And>i. i \<in> set is \<Longrightarrow> bit (bmvports (outmap st d) ! i) v \<Longrightarrow> out_inv (outbuf st d)"
  shows "\<exists>m' st'. sfold (send_port d (push_bit v 1)) is (m, st) = Inr (m', st') \<and>
    (\<forall>q. set_port q m' = set_port q m) \<and>
    sent st st' (\<lambda>d'. if d' = d
      then map (\<lambda>i. set_port (word_of_nat i) m) (filter (\<lambda>i. bit (bmvports (outmap st d) ! i) v) is)
      else [])"
  using assms
proof (induction "is" arbitrary: m st)
  case Nil
  then show ?case using sent_nothing [of st] by (simp cong: if_cong)
next
  case (Cons i "is")
  have tail: "\<And>i. i \<in> set is \<Longrightarrow> i < length (bmvports (outmap st d))"
      "\<And>i. i \<in> set is \<Longrightarrow> bit (bmvports (outmap st d) ! i) v \<Longrightarrow> out_inv (outbuf st d)"
    using Cons.prems by auto
  show ?case
  proof (cases "bit (bmvports (outmap st d) ! i) v")
    case False
    then have "send_port d (push_bit v 1) i (m, st) = Inr (m, st)"
      using Cons.prems(1) by (simp add: send_port_def mask_bit_exp)
    with False show ?thesis
      by (simp cong: if_cong del: push_bit_of_1) (rule Cons.IH, use tail in auto)
  next
    case True
    let ?m = "set_port (word_of_nat i) m"
    from True Cons.prems(2) [of i] have "out_inv (outbuf st d)" by simp
    then obtain st1 where put: "out_put d ?m st = Inr st1"
      and s1: "sent st st1 (\<lambda>d'. if d' = d then [?m] else [])"
      using out_put_ready by blast
    have om: "outmap st1 = outmap st" using s1 by (rule sent_outmap)
    have step: "send_port d (push_bit v 1) i (m, st) = Inr (?m, st1)"
      using Cons.prems(1) True put by (simp add: send_port_def mask_bit_exp)
    obtain m' st' where rest: "sfold (send_port d (push_bit v 1)) is (?m, st1) = Inr (m', st')"
      "\<forall>q. set_port q m' = set_port q ?m"
      "sent st1 st' (\<lambda>d'. if d' = d
        then map (\<lambda>i. set_port (word_of_nat i) ?m) (filter (\<lambda>i. bit (bmvports (outmap st1 d) ! i) v) is)
        else [])"
      using Cons.IH [of st1 ?m] tail om sent_out_inv [OF s1]
      by (simp del: set_port_twice) blast
    have "sent st st' (\<lambda>d'. if d' = d
      then map (\<lambda>i. set_port (word_of_nat i) m)
        (filter (\<lambda>i. bit (bmvports (outmap st d) ! i) v) (i # is)) else [])"
      using sent_trans [OF s1 rest(3)] True by (simp add: om if_distrib cong: if_cong)
    then show ?thesis using step rest by simp
  qed
qed

definition send_ready :: "midi_message \<Rightarrow> midi_state \<Rightarrow> bool" where
  "send_ready m st \<longleftrightarrow> maps_ok st \<and>
     (\<forall>d. deliveries m st d \<noteq> [] \<longrightarrow> out_inv (outbuf st d))"

lemma midiSend_ready:
  assumes ready: "send_ready m st" and low: "unat (port m) < 8"
  shows "\<exists>st'. midiSend m st = Inr st' \<and> sent st st' (deliveries m st)"
proof -
  let ?v = "unat (port m)"
  let ?b = "\<lambda>d i. bit (bmvports (outmap st d) ! i) ?v"
  let ?f = "\<lambda>d. map (\<lambda>i. set_port (word_of_nat i) m) (filter (?b d) [0..<nat (nports (outmap st d))])"
  have ne: "bmvports (outmap st d) \<noteq> []" "nat (nports (outmap st d)) \<le> length (bmvports (outmap st d))"
    for d using ready by (auto simp: send_ready_def maps_ok_def)
  have inv: "deliveries m st d \<noteq> [] \<Longrightarrow> out_inv (outbuf st d)" for d
    using ready by (auto simp: send_ready_def)
  obtain st1 where 1: "send_first Din (push_bit ?v 1) m st = Inr st1"
    and s1: "sent st st1 (\<lambda>d'. if d' = Din \<and> ?b Din 0 then [m] else [])"
    using send_first_ready [of st Din ?v m] ne inv [of Din] by (auto simp: deliveries_def)
  have o1: "outmap st1 = outmap st" using s1 by (rule sent_outmap)
  obtain st2 where 2: "send_first Gpio (push_bit ?v 1) m st1 = Inr st2"
    and s2: "sent st1 st2 (\<lambda>d'. if d' = Gpio \<and> ?b Gpio 0 then [m] else [])"
    using send_first_ready [of st1 Gpio ?v m] ne inv [of Gpio] sent_out_inv [OF s1]
    by (auto simp: deliveries_def o1)
  note s12 = sent_trans [OF s1 s2]
  have o2: "outmap st2 = outmap st" using s12 by (rule sent_outmap)
  have usbh: "?b d i \<Longrightarrow> i < nat (nports (outmap st d)) \<Longrightarrow> d = Usbh1 \<or> d = Usbh2 \<Longrightarrow>
      out_inv (outbuf st d)" for d i
  proof -
    assume a: "?b d i" "i < nat (nports (outmap st d))" "d = Usbh1 \<or> d = Usbh2"
    then have "?f d \<noteq> []" by (auto simp: filter_empty_conv)
    then have "deliveries m st d \<noteq> []" using a(3) by (auto simp: deliveries_def Let_def)
    then show "out_inv (outbuf st d)" by (rule inv)
  qed
  obtain m3 st3 where 3: "send_ports Usbh1 (push_bit ?v 1) (m, st2) = Inr (m3, st3)"
    and p3: "\<And>q. set_port q m3 = set_port q m"
    and s3: "sent st2 st3 (\<lambda>d'. if d' = Usbh1 then ?f Usbh1 else [])"
    using send_ports_ready [of "[0..<nat (nports (outmap st Usbh1))]" st2 Usbh1 ?v m]
      ne [of Usbh1] usbh [of Usbh1] sent_out_inv [OF s12]
    by (auto simp: send_ports_def o2 cong: if_cong)
  note s123 = sent_trans [OF s12 s3]
  have o3: "outmap st3 = outmap st" using s123 by (rule sent_outmap)
  obtain m4 st4 where 4: "send_ports Usbh2 (push_bit ?v 1) (m3, st3) = Inr (m4, st4)"
    and p4: "\<And>q. set_port q m4 = set_port q m"
    and s4: "sent st3 st4 (\<lambda>d'. if d' = Usbh2 then ?f Usbh2 else [])"
    using send_ports_ready [of "[0..<nat (nports (outmap st Usbh2))]" st3 Usbh2 ?v m3]
      ne [of Usbh2] usbh [of Usbh2] sent_out_inv [OF s123]
    by (auto simp: send_ports_def o3 p3 cong: if_cong)
  note s1234 = sent_trans [OF s123 s4]
  have o4: "outmap st4 = outmap st" using s1234 by (rule sent_outmap)
  have usbd: "\<exists>st5. (if ?b Usbd 0 then out_put Usbd (set_port 0 m) st4 else Inr st4) = Inr st5 \<and>
      sent st4 st5 (\<lambda>d'. if d' = Usbd \<and> ?b Usbd 0 then [set_port 0 m] else [])"
    using out_put_ready [of st4 Usbd "set_port 0 m"] sent_nothing [of st4] inv [of Usbd]
      sent_out_inv [OF s1234] by (auto simp: deliveries_def)
  then obtain st5 where 5: "(if ?b Usbd 0 then out_put Usbd (set_port 0 m) st4 else Inr st4) = Inr st5"
    and s5: "sent st4 st5 (\<lambda>d'. if d' = Usbd \<and> ?b Usbd 0 then [set_port 0 m] else [])" by blast
  have "midiSend m st = Inr st5"
    using low 1 2 3 4 5 ne [of Usbd] by (simp add: midiSend_def Let_def o4 mask_bit_exp p4 split: if_splits)
  moreover have "deliveries m st = (\<lambda>d. (((((if d = Din \<and> ?b Din 0 then [m] else []) @
      (if d = Gpio \<and> ?b Gpio 0 then [m] else [])) @ (if d = Usbh1 then ?f Usbh1 else [])) @
      (if d = Usbh2 then ?f Usbh2 else [])) @ (if d = Usbd \<and> ?b Usbd 0 then [set_port 0 m] else [])))"
    by (rule ext) (simp add: deliveries_def Let_def split: midi_dev.splits)
  ultimately show ?thesis using sent_trans [OF s1234 s5] by (simp only: append_assoc) blast
qed

lemma midiSend_high:
  "8 \<le> unat (port m) \<Longrightarrow>
   midiSend m st = Inr (in_put (set_port (word_of_nat (unat (port m) - 8)) m) st)"
  by (simp add: midiSend_def)

section \<open>System exclusive messages\<close>

lemma nth_3:
  "i + 2 < length xs \<Longrightarrow> drop i xs = xs ! i # xs ! (i + 1) # xs ! (i + 2) # drop (i + 3) xs"
  by (simp add: Cons_nth_drop_Suc numeral_3_eq_3)

text \<open>The packets are those of the specification, sent one after the other.\<close>

lemma sysex_loop_packets:
  assumes "len \<le> length bytes" and "i < len"
  shows "sbind (sysex_loop prt bytes len i st) (\<lambda>(i, st).
      sbind (sysex_end_msg prt bytes i (int len - int i)) (\<lambda>endm. midiSend endm st)) =
    sfold midiSend (sysex_packets prt (drop i (take len bytes))) st"
  using assms
proof (induction prt bytes len i st rule: sysex_loop.induct)
  case (1 prt bytes len i st)
  show ?case
  proof (cases "int i < int len - 3")
    case True
    then have i: "i + 3 < len" by linarith
    then have d: "drop i (take len bytes) =
        bytes ! i # bytes ! (i + 1) # bytes ! (i + 2) # drop (i + 3) (take len bytes)"
      using nth_3 [of i "take len bytes"] 1(2) by simp
    have ne: "drop (i + 3) (take len bytes) \<noteq> []" using i 1(2) by simp
    show ?thesis
      using True i 1(2) 1(1) [OF True]
      by (subst sysex_loop.simps)
        (simp add: d sysex_packets_step [OF ne] sysex_ph_def sbind_assoc)
  next
    case False
    then consider "len = i + 1" | "len = i + 2" | "len = i + 3" using 1(3) by linarith
    then show ?thesis
    proof cases
      case 1
      then show ?thesis using \<open>len \<le> length bytes\<close>
        by (subst sysex_loop.simps)
          (simp add: sysex_end_msg_def sysex_ph_def take_Suc_conv_app_nth Let_def)
    next
      case 2
      then show ?thesis using \<open>len \<le> length bytes\<close>
        by (subst sysex_loop.simps)
          (simp add: sysex_end_msg_def sysex_ph_def take_Suc_conv_app_nth Let_def numeral_2_eq_2)
    next
      case 3
      then have "drop i (take len bytes) = [bytes ! i, bytes ! (i + 1), bytes ! (i + 2)]"
        using nth_3 [of i "take len bytes"] \<open>len \<le> length bytes\<close> by simp
      then show ?thesis using \<open>len \<le> length bytes\<close> 3
        by (subst sysex_loop.simps) (simp add: sysex_end_msg_def sysex_ph_def Let_def)
    qed
  qed
qed

lemma midiSendSysEx_packets:
  "0 < len \<Longrightarrow> unat len \<le> length bytes \<Longrightarrow>
   midiSendSysEx prt bytes len st = sfold midiSend (sysex_packets prt (take (unat len) bytes)) st"
  using sysex_loop_packets [of "unat len" bytes 0 prt st]
  by (simp add: midiSendSysEx_def word_less_nat_alt)

lemma midiSendSysEx_empty: "midiSendSysEx prt bytes 0 st = Inl Uninitialised"
  by (simp add: midiSendSysEx_def sysex_loop.simps sysex_end_msg_def)

section \<open>What the inputs deliver\<close>

lemma signed_shift_low: "n < 31 \<Longrightarrow> bit (signed_drop_bit 1 w) n \<longleftrightarrow> bit w (Suc n)" for w :: i32
  by (auto simp: bit_signed_drop_bit_iff)

lemma and_1_bit: "w AND 1 \<noteq> 0 \<longleftrightarrow> bit w 0" for w :: i32
  by (simp add: and_one_eq one_and_eq bit_0 odd_iff_mod_2_eq_one)

definition input_copies :: "i32 \<Rightarrow> midi_message \<Rightarrow> midi_message list" where
  "input_copies portmap m =
     map (\<lambda>v. set_port (word_of_nat v) m) (filter (\<lambda>v. bit portmap v) [0..<8])"

definition received :: "midi_state \<Rightarrow> midi_state \<Rightarrow> midi_message list \<Rightarrow> bool" where
  "received st st' ms \<longleftrightarrow>
     queued (minbuf st') = take 31 (queued (minbuf st) @ ms) \<and> fifo_inv (minbuf st') \<and>
     inmap st' = inmap st \<and> outmap st' = outmap st \<and> outbuf st' = outbuf st \<and>
     gpio_active st' = gpio_active st"

lemma received_trans:
  assumes "received st st1 xs" and "received st1 st2 ys"
  shows "received st st2 (xs @ ys)"
proof -
  have "queued (minbuf st2) = take 31 (take 31 (queued (minbuf st) @ xs) @ ys)"
    using assms by (simp add: received_def)
  then have "queued (minbuf st2) = take 31 (queued (minbuf st) @ xs @ ys)"
    by (simp only: take_take_append append_assoc)
  then show ?thesis using assms by (simp add: received_def)
qed

lemma received_nothing: "fifo_inv (minbuf st) \<Longrightarrow> received st st []"
  by (simp add: received_def pending_le_31)

lemma in_put_received:
  assumes "fifo_inv (minbuf st)"
  shows "received st (in_put m st) [m]"
proof -
  have "minbuf (in_put m st) = snd (in_enq m (minbuf st))"
    by (simp add: in_put_def in_enq_def split: prod.splits)
  then show ?thesis
    using inq.enq_contents [OF assms, of m]
    by (simp add: received_def in_put_def split: prod.splits)
qed

lemma in_puts_received:
  "fifo_inv (minbuf st) \<Longrightarrow> received st (fold in_put ms st) ms"
proof (induction ms arbitrary: st)
  case Nil
  then show ?case by (simp add: received_nothing)
next
  case (Cons m ms)
  have r: "received st (in_put m st) [m]" using Cons.prems by (rule in_put_received)
  then have "fifo_inv (minbuf (in_put m st))" by (simp add: received_def)
  from received_trans [OF r Cons.IH [OF this]] show ?case by simp
qed

lemma dispatch_loop_fold:
  "\<lbrakk>k + n \<le> 8; \<And>j. j < n \<Longrightarrow> bit pm j \<longleftrightarrow> bit pm0 (k + j); \<And>q. set_port q m = set_port q m0\<rbrakk> \<Longrightarrow>
   dispatch_loop [k..<k + n] pm m st =
     fold in_put (map (\<lambda>v. set_port (word_of_nat v) m0) (filter (bit pm0) [k..<k + n])) st"
proof (induction n arbitrary: k pm m st)
  case 0
  then show ?case by simp
next
  case (Suc n)
  have upt: "[k..<k + Suc n] = k # [Suc k..<Suc k + n]" by (simp add: upt_conv_Cons)
  have shifted: "bit (signed_drop_bit 1 pm) j \<longleftrightarrow> bit pm0 (Suc k + j)" if "j < n" for j
    using Suc.prems(1) Suc.prems(2) [of "Suc j"] that signed_shift_low [of j pm] by simp
  have now: "pm AND 1 \<noteq> 0 \<longleftrightarrow> bit pm0 k"
    using Suc.prems(2) [of 0] by (simp only: and_1_bit) simp
  have IH: "dispatch_loop [Suc k..<Suc k + n] (signed_drop_bit 1 pm) m' st' =
      fold in_put (map (\<lambda>v. set_port (word_of_nat v) m0) (filter (bit pm0) [Suc k..<Suc k + n])) st'"
    if "\<And>q. set_port q m' = set_port q m0" for m' st'
    using Suc.prems(1) shifted that by (intro Suc.IH) simp_all
  show ?case
    unfolding upt using IH [of m] IH [of "set_port (word_of_nat k) m"] Suc.prems(3)
    by (simp only: dispatch_loop.simps now Let_def filter.simps) (simp add: Suc.prems(3))
qed

lemma midi_input_dispatch_fold:
  "midi_input_dispatch portmap m st = fold in_put (input_copies portmap m) st"
  using dispatch_loop_fold [of 0 8 portmap portmap m m st]
  by (simp add: midi_input_dispatch_def input_copies_def)

lemma midi_input_dispatch_received:
  "fifo_inv (minbuf st) \<Longrightarrow>
   received st (midi_input_dispatch portmap m st) (input_copies portmap m)"
  by (simp add: midi_input_dispatch_fold in_puts_received)

lemma dispatch_all_received:
  assumes "fifo_inv (minbuf st)" and "bmvports (inmap st d) \<noteq> []"
  shows "\<exists>st'. sfold (dispatch_midi_input d) ms st = Inr st' \<and>
    received st st' (concat (map (input_copies (bmvports (inmap st d) ! 0)) ms))"
  using assms
proof (induction ms arbitrary: st)
  case Nil
  then show ?case by (simp add: received_nothing)
next
  case (Cons m ms)
  let ?st = "midi_input_dispatch (bmvports (inmap st d) ! 0) m st"
  have r: "received st ?st (input_copies (bmvports (inmap st d) ! 0) m)"
    using Cons.prems(1) by (rule midi_input_dispatch_received)
  have step: "dispatch_midi_input d m st = Inr ?st"
    using Cons.prems(2) by (simp add: dispatch_midi_input_def)
  have "inmap ?st = inmap st" "fifo_inv (minbuf ?st)" using r by (simp_all add: received_def)
  with Cons.IH [of ?st] Cons.prems(2) obtain st' where "sfold (dispatch_midi_input d) ms ?st = Inr st'"
    "received ?st st' (concat (map (input_copies (bmvports (inmap st d) ! 0)) ms))" by auto
  with step received_trans [OF r this(2)] show ?case by auto
qed

text \<open>A serial reader thread over a whole sequence of bytes.\<close>

definition serial_input ::
    "midi_dev \<Rightarrow> u8 list \<Rightarrow> midi_decoder_state \<times> midi_state \<Rightarrow> fault + (midi_decoder_state \<times> midi_state)" where
  "serial_input d bs s = sfold (ThreadMidiIn d) bs s"

lemma serial_input_received:
  assumes "decode dec bs = Inr (dec', ms)"
    and "fifo_inv (minbuf st)" and "bmvports (inmap st d) \<noteq> []"
  shows "\<exists>st'. serial_input d bs (dec, st) = Inr (dec', st') \<and>
    received st st' (concat (map (input_copies (bmvports (inmap st d) ! 0)) ms))"
  using assms
proof (induction bs arbitrary: dec st ms)
  case Nil
  then show ?case by (simp add: serial_input_def received_nothing)
next
  case (Cons b bs)
  obtain dec1 ms1 ms2 where 1: "midi_decoder_process dec b = Inr (dec1, ms1)"
    and 2: "decode dec1 bs = Inr (dec', ms2)" "ms = ms1 @ ms2"
    using Cons.prems(1) by (auto split: sum.splits)
  obtain st1 where st1: "sfold (dispatch_midi_input d) ms1 st = Inr st1"
    and r: "received st st1 (concat (map (input_copies (bmvports (inmap st d) ! 0)) ms1))"
    using dispatch_all_received [OF Cons.prems(2,3)] by blast
  have "inmap st1 = inmap st" "fifo_inv (minbuf st1)" using r by (simp_all add: received_def)
  with Cons.IH [OF 2(1), of st1] Cons.prems(3) obtain st' where
    "serial_input d bs (dec1, st1) = Inr (dec', st')"
    "received st1 st' (concat (map (input_copies (bmvports (inmap st d) ! 0)) ms2))" by auto
  with 1 st1 received_trans [OF r this(2)] show ?case
    by (auto simp: serial_input_def ThreadMidiIn_def 2(2))
qed

section \<open>What the writers transmit\<close>

lemma ThreadMidiOut_drains:
  assumes "out_inv (outbuf st d)" and "31 < fuel"
  shows "\<exists>st'. ThreadMidiOut d fuel st =
      Some (concat (map midi_din_send (queued (outbuf st d))), st') \<and>
    queued (outbuf st' d) = [] \<and> out_inv (outbuf st' d) \<and>
    (\<forall>d'. d' \<noteq> d \<longrightarrow> outbuf st' d' = outbuf st d')"
proof -
  have "length (queued (outbuf st d)) < fuel"
    using assms(2) pending_le_31 [of "outbuf st d"] by simp
  then obtain b where "drain_loop midi_output_buffer_get fuel (outbuf st d) = Some (queued (outbuf st d), b)"
    "out_inv b" "queued b = []" using outq.drain_all [OF assms(1)] by blast
  then show ?thesis by (simp add: ThreadMidiOut_def)
qed

lemma length_concat_msg_bytes: "length (concat (map msg_bytes ms)) = 4 * length ms"
  by (induction ms) (simp_all add: msg_bytes_def)

lemma usbd_midi_out_packet:
  assumes "out_inv (outbuf st Usbd)"
  shows "\<exists>st'. usbd_midi_out st = (concat (map msg_bytes (take 16 (queued (outbuf st Usbd)))), st') \<and>
    queued (outbuf st' Usbd) = drop 16 (queued (outbuf st Usbd)) \<and> out_inv (outbuf st' Usbd)"
proof -
  obtain b where "take_upto midi_output_buffer_get 16 (outbuf st Usbd) =
      (take 16 (queued (outbuf st Usbd)), b)" "out_inv b"
      "queued b = drop 16 (queued (outbuf st Usbd))"
    using outq.take_upto_take [OF assms] by blast
  then show ?thesis by (simp add: usbd_midi_out_def)
qed

section \<open>Sequences of sends\<close>

lemma deliveries_cong:
  assumes "outmap st' = outmap st"
  shows "deliveries m st' = deliveries m st"
  unfolding deliveries_def assms by (rule refl)

lemma send_ready_sent:
  assumes "send_ready m st" and "sent st st' f"
  shows "send_ready m st'"
proof -
  have om: "outmap st' = outmap st" using assms(2) by (rule sent_outmap)
  have "maps_ok st'" using assms(1) by (simp add: send_ready_def maps_ok_def om)
  moreover have "deliveries m st' = deliveries m st" using om by (rule deliveries_cong)
  ultimately show ?thesis
    using assms(1) sent_out_inv [OF assms(2)] by (simp add: send_ready_def)
qed

lemma midiSend_all_ready:
  "\<lbrakk>\<forall>m \<in> set ms. send_ready m st \<and> unat (port m) < 8\<rbrakk> \<Longrightarrow>
   \<exists>st'. sfold midiSend ms st = Inr st' \<and>
     sent st st' (\<lambda>d. concat (map (\<lambda>m. deliveries m st d) ms))"
proof (induction ms arbitrary: st)
  case Nil
  then show ?case using sent_nothing by simp
next
  case (Cons m ms)
  then obtain st1 where 1: "midiSend m st = Inr st1" and s1: "sent st st1 (deliveries m st)"
    using midiSend_ready by (metis list.set_intros(1))
  have "\<forall>m \<in> set ms. send_ready m st1 \<and> unat (port m) < 8"
    using Cons.prems send_ready_sent [OF _ s1] by simp
  then obtain st2 where 2: "sfold midiSend ms st1 = Inr st2"
    and s2: "sent st1 st2 (\<lambda>d. concat (map (\<lambda>m. deliveries m st1 d) ms))"
    using Cons.IH by blast
  have "deliveries m st1 = deliveries m st" for m
    by (rule deliveries_cong) (rule sent_outmap [OF s1])
  then show ?case using 1 2 sent_trans [OF s1 s2] by simp
qed

section \<open>Routing tables as files\<close>

lemma bytes_words_bytes: "bytes_words (words_bytes ws) = ws"
  by (induction ws) (simp_all add: words_bytes_def le32_bytes_def)

lemma length_words_bytes: "length (words_bytes ws) = 4 * length ws"
  by (induction ws) (simp_all add: words_bytes_def le32_bytes_def)

lemma load_stored:
  assumes "nat (nports r) = length (bmvports r)" and "rname r' = rname r" and "nports r' = nports r"
    and "length (bmvports r') = length (bmvports r)"
    and "store_midi_routing True dir r = Some (fn, content)" and "open_read fn = Some content"
  shows "load_midi_routing True open_read dir r' = Inr (r'\<lparr>bmvports := bmvports r\<rparr>)"
proof -
  have fn: "fn = get_midi_routing_filename r' dir" and c: "content = words_bytes (bmvports r)"
    using assms(1,2,5) length_words_bytes [of "bmvports r"]
    by (auto simp: store_midi_routing_def get_midi_routing_filename_def)
  then show ?thesis
    using assms length_words_bytes [of "bmvports r"] length_words_bytes [of "bmvports r'"]
    by (simp add: load_midi_routing_def overwrite_def bytes_words_bytes)
qed

lemma default_loop:
  "n \<le> length bm \<Longrightarrow> 0 < n \<Longrightarrow>
   sfold (\<lambda>i bm. upd_e bm i 0) [1..<n] (bm[0 := 1]) = Inr ((1 # replicate (n - 1) 0) @ drop n bm)"
  for bm :: "i32 list"
proof (induction n)
  case 0
  then show ?case by simp
next
  case (Suc n)
  show ?case
  proof (cases "n = 0")
    case True
    then show ?thesis using Suc.prems by (cases bm) simp_all
  next
    case False
    let ?z = "1 # replicate (n - 1) 0 :: i32 list"
    have l: "length ?z = n" using False by simp
    have d: "drop n bm = bm ! n # drop (Suc n) bm" using Suc.prems by (simp add: Cons_nth_drop_Suc)
    have IH: "sfold (\<lambda>i bm. upd_e bm i 0) [1..<n] (bm[0 := 1]) = Inr (?z @ bm ! n # drop (Suc n) bm)"
      using Suc False d by simp
    have upd: "upd_e (?z @ bm ! n # drop (Suc n) bm) n 0 = Inr (?z @ 0 # drop (Suc n) bm)"
      using list_update_length [of ?z "bm ! n" "drop (Suc n) bm" 0] False by (cases n) (simp_all add: upd_e_def)
    have upt: "[1..<Suc n] = [1..<n] @ [n]" using False by simp
    have "1 # replicate n 0 = ?z @ [0]"
      using False by (cases n) (simp_all add: replicate_append_same)
    then show ?thesis
      unfolding upt sfold_append IH by (simp only: sbind_simps sfold.simps upd) simp
  qed
qed

lemma load_default:
  assumes "0 < nports r" and "nat (nports r) \<le> length (bmvports r)"
  shows "load_midi_routing_default r =
    Inr (r\<lparr>bmvports := (1 # replicate (nat (nports r) - 1) 0) @ drop (nat (nports r)) (bmvports r)\<rparr>)"
  using assms default_loop [of "nat (nports r)" "bmvports r"]
  by (cases "bmvports r") (simp_all add: load_midi_routing_default_def)

lemma load_no_ports:
  "nports r = 0 \<Longrightarrow> load_midi_routing fs_ready open_read dir r = Inr r"
  by (auto simp: load_midi_routing_def load_midi_routing_default_def overwrite_def
      bytes_words_bytes split: option.split)

section \<open>Properties\<close>


text \<open>The state after midi\_usb\_init and midi\_init without an SD card.\<close>

definition booted :: midi_state where
  "booted = (case sbind (midi_usb_init False (\<lambda>_. None) midi_statics) (midi_init False (\<lambda>_. None)) of
     Inl _ \<Rightarrow> midi_statics | Inr st \<Rightarrow> st)"

lemmas boot_defs = booted_def midi_usb_init_def midi_init_def midi_din_init_def load_maps_def
  load_midi_routing_def load_midi_routing_default_def init_outbuf_def midi_statics_def
  din_routing_def gpio_routing_def usbd_routing_def usbh_unmapped_def usbh_inputmap1_def
  midi_output_buffer_objinit_def midi_input_buffer_objinit_def zero_output_buffer_def


text \<open>
  C5: midiSendSysEx cuts its bytes into the packets of the USB MIDI specification, three bytes a
  packet with the code indices 4 to 7, and hands them to midiSend in order; written to a serial
  port the packets give the bytes back unchanged.
\<close>

lemma midiSendSysEx_correct:
  assumes "0 < len" and "unat len \<le> length bytes"
  shows "midiSendSysEx prt bytes len st =
      sfold midiSend (sysex_packets prt (take (unat len) bytes)) st \<and>
    concat (map midi_din_send (sysex_packets prt (take (unat len) bytes))) = take (unat len) bytes"
  using midiSendSysEx_packets [OF assms] din_send_sysex_packets by blast

lemma midiSendSysEx_correct_witness:
  "midiSendSysEx 0 [0xF0, 1, 2, 3, 0xF7] 5 booted =
      sfold midiSend (sysex_packets 0 (take (unat (5 :: u8)) [0xF0, 1, 2, 3, 0xF7])) booted \<and>
    concat (map midi_din_send (sysex_packets 0 (take (unat (5 :: u8)) [0xF0, 1, 2, 3, 0xF7]))) =
      take (unat (5 :: u8)) [0xF0, 1, 2, 3, 0xF7]"
  by (rule midiSendSysEx_correct) simp_all

text \<open>
  C6: The bytes read from a serial port end up in the MIDI input buffer of the patches: each
  decoded packet once for every input virtual port whose bit is set in the routing table, in
  increasing port order and with that port number, behind the messages already waiting and up
  to 31 of them.
\<close>

lemma serial_input_delivers:
  assumes "list_all event_ok evs" and "fifo_inv (minbuf st)" and "bmvports (inmap st d) \<noteq> []"
  shows "\<exists>dec' st'. serial_input d (concat (map render evs)) (dec, st) = Inr (dec', st') \<and>
    queued (minbuf st') = take 31 (queued (minbuf st) @
      concat (map (input_copies (bmvports (inmap st d) ! 0)) (concat (map packets evs))))"
proof -
  obtain dec' where "decode dec (concat (map render evs)) = Inr (dec', concat (map packets evs))"
    using decode_events [OF assms(1)] by blast
  from serial_input_received [OF this assms(2,3)] show ?thesis by (auto simp: received_def)
qed

lemma serial_input_delivers_witness:
  "\<exists>dec' st'. serial_input Din (concat (map render [Channel3 0x90 [(60, 100)]])) (decoder_init, booted) =
      Inr (dec', st') \<and>
    queued (minbuf st') = take 31 (queued (minbuf booted) @
      concat (map (input_copies (bmvports (inmap booted Din) ! 0))
        (concat (map packets [Channel3 0x90 [(60, 100)]]))))"
  by (rule serial_input_delivers)
    (simp_all add: is_status3_def is_data_def boot_defs fifo_inv_def)

text \<open>
  A routing table stored in the settings directory is what loading reads back, whatever the
  table held before, for every device whose ports fill its table.
\<close>

lemma routing_roundtrip:
  assumes "nat (nports r) = length (bmvports r)" and "rname r' = rname r" and "nports r' = nports r"
    and "length (bmvports r') = length (bmvports r)"
    and "store_midi_routing True dir r = Some (fn, content)" and "open_read fn = Some content"
  shows "load_midi_routing True open_read dir r' = Inr (r'\<lparr>bmvports := bmvports r\<rparr>)"
  by (rule load_stored [where fn = fn and content = content]; fact assms)

lemma routing_roundtrip_witness:
  "load_midi_routing True (\<lambda>f. if f = ''/settings/midi-out/DIN.axr'' then Some [5, 1, 0, 0] else None)
     dir_out din_routing = Inr (din_routing\<lparr>bmvports := bmvports (din_routing\<lparr>bmvports := [0x105]\<rparr>)\<rparr>)"
  by (rule routing_roundtrip [where fn = "''/settings/midi-out/DIN.axr''" and content = "[5, 1, 0, 0]"])
    (simp_all add: din_routing_def store_midi_routing_def get_midi_routing_filename_def
      words_bytes_def le32_bytes_def byte_of_def)

text \<open>
  Enabling the GPIO MIDI port for the first time never applies a stored or default routing:
  the tables are loaded while the device still has no ports, so both maps stay empty and
  neither input nor output reaches a virtual port.
\<close>

lemma gpio_enabled_unrouted:
  "\<exists>st'. midi_gpio_enable fs_ready open_read 1 midi_statics = Inr st' \<and>
    nports (inmap st' Gpio) = 1 \<and> bmvports (inmap st' Gpio) = [0] \<and> bmvports (outmap st' Gpio) = [0] \<and>
    dispatch_midi_input Gpio m st' = Inr st' \<and> deliveries m st' Gpio = []"
proof -
  have "load_midi_routing fs_ready open_read dir gpio_routing = Inr gpio_routing" for dir
    by (rule load_no_ports) (simp add: gpio_routing_def)
  then show ?thesis
    by (simp add: midi_gpio_enable_def midi_gpio_init_def load_maps_def midi_statics_def
        set_gpio_nports_def init_outbuf_def dispatch_midi_input_def deliveries_def
        midi_input_dispatch_fold input_copies_def) (simp add: gpio_routing_def)
qed

end
