(* ===== verification/Usbh_Desc.thy ===== *)
theory Usbh_Desc
  imports Prelude
begin

text \<open>
  The descriptors of an attached USB device as the host library keeps them (usbh\_def.h), and the
  functions of usbh\_ctlreq.c that read them out of the bytes the device sent. A read outside the
  buffer is the fault OutOfBounds; the scan of a configuration may fail to return, and then its
  value is None.
\<close>

section \<open>Codes and records\<close>

datatype urb_state = URB_IDLE | URB_DONE | URB_NOTREADY | URB_NYET | URB_ERROR | URB_STALL

datatype usbh_status = USBH_OK | USBH_BUSY | USBH_FAIL | USBH_NOT_SUPPORTED
  | USBH_UNRECOVERED_ERROR | USBH_ERROR_SPEED_UNKNOWN

definition USBH_MAX_NUM_ENDPOINTS :: nat where "USBH_MAX_NUM_ENDPOINTS = 6"
definition USBH_MAX_NUM_INTERFACES :: nat where "USBH_MAX_NUM_INTERFACES = 6"
definition USBH_MAX_SIZE_CONFIGURATION :: nat where "USBH_MAX_SIZE_CONFIGURATION = 0x200"
definition USBH_MAX_DATA_BUFFER :: nat where "USBH_MAX_DATA_BUFFER = 0x200"

definition USB_DESC_TYPE_STRING :: u8 where "USB_DESC_TYPE_STRING = 3"
definition USB_DESC_TYPE_INTERFACE :: u8 where "USB_DESC_TYPE_INTERFACE = 4"
definition USB_DESC_TYPE_ENDPOINT :: u8 where "USB_DESC_TYPE_ENDPOINT = 5"
definition USB_LEN_CFG_DESC :: u16 where "USB_LEN_CFG_DESC = 9"

lemmas usb_codes = USBH_MAX_NUM_ENDPOINTS_def USBH_MAX_NUM_INTERFACES_def
  USBH_MAX_SIZE_CONFIGURATION_def USBH_MAX_DATA_BUFFER_def USB_DESC_TYPE_STRING_def
  USB_DESC_TYPE_INTERFACE_def USB_DESC_TYPE_ENDPOINT_def USB_LEN_CFG_DESC_def

record dev_desc =
  dev_bLength :: u8
  dev_bDescriptorType :: u8
  bcdUSB :: u16
  bDeviceClass :: u8
  bDeviceSubClass :: u8
  bDeviceProtocol :: u8
  bMaxPacketSize :: u8
  idVendor :: u16
  idProduct :: u16
  bcdDevice :: u16
  iManufacturer :: u8
  iProduct :: u8
  iSerialNumber :: u8
  bNumConfigurations :: u8

record ep_desc =
  ep_bLength :: u8
  ep_bDescriptorType :: u8
  bEndpointAddress :: u8
  ep_bmAttributes :: u8
  wMaxPacketSize :: u16
  bInterval :: u8

record itf_desc =
  if_bLength :: u8
  if_bDescriptorType :: u8
  bInterfaceNumber :: u8
  bAlternateSetting :: u8
  bNumEndpoints :: u8
  bInterfaceClass :: u8
  bInterfaceSubClass :: u8
  bInterfaceProtocol :: u8
  iInterface :: u8
  Ep_Desc :: "ep_desc list"

record cfg_desc =
  cfg_bLength :: u8
  cfg_bDescriptorType :: u8
  wTotalLength :: u16
  bNumInterfaces :: u8
  bConfigurationValue :: u8
  iConfiguration :: u8
  cfg_bmAttributes :: u8
  bMaxPower :: u8
  Itf_Desc :: "itf_desc list"

text \<open>The tables have the sizes of their declarations.\<close>

definition cfg_sized :: "cfg_desc \<Rightarrow> bool" where
  "cfg_sized c \<longleftrightarrow> length (Itf_Desc c) = USBH_MAX_NUM_INTERFACES \<and>
     (\<forall>i\<in>set (Itf_Desc c). length (Ep_Desc i) = USBH_MAX_NUM_ENDPOINTS)"

section \<open>Reading the descriptors\<close>

definition LE16 :: "u8 list \<Rightarrow> nat \<Rightarrow> u16" where
  "LE16 b i = ucast (b ! i) + push_bit 8 (ucast (b ! (i + 1)))"

definition USBH_ParseDevDesc :: "dev_desc \<Rightarrow> u8 list \<Rightarrow> u16 \<Rightarrow> fault + dev_desc" where
  "USBH_ParseDevDesc dev b len =
     (if length b < (if len > 8 then 18 else 8) then Inl OutOfBounds
      else
       let dev = dev\<lparr>dev_bLength := b ! 0, dev_bDescriptorType := b ! 1, bcdUSB := LE16 b 2,
             bDeviceClass := b ! 4, bDeviceSubClass := b ! 5, bDeviceProtocol := b ! 6,
             bMaxPacketSize := b ! 7\<rparr>
       in Inr (if len > 8 then
            dev\<lparr>idVendor := LE16 b 8, idProduct := LE16 b 10, bcdDevice := LE16 b 12,
              iManufacturer := b ! 14, iProduct := b ! 15, iSerialNumber := b ! 16,
              bNumConfigurations := b ! 17\<rparr>
          else dev))"

definition USBH_ParseInterfaceDesc :: "itf_desc \<Rightarrow> u8 list \<Rightarrow> nat \<Rightarrow> fault + itf_desc" where
  "USBH_ParseInterfaceDesc i b off =
     (if length b < off + 9 then Inl OutOfBounds
      else Inr (i\<lparr>if_bLength := b ! off, if_bDescriptorType := b ! (off + 1),
        bInterfaceNumber := b ! (off + 2), bAlternateSetting := b ! (off + 3),
        bNumEndpoints := b ! (off + 4), bInterfaceClass := b ! (off + 5),
        bInterfaceSubClass := b ! (off + 6), bInterfaceProtocol := b ! (off + 7),
        iInterface := b ! (off + 8)\<rparr>))"

definition USBH_ParseEPDesc :: "ep_desc \<Rightarrow> u8 list \<Rightarrow> nat \<Rightarrow> fault + ep_desc" where
  "USBH_ParseEPDesc e b off =
     (if length b < off + 7 then Inl OutOfBounds
      else Inr (e\<lparr>ep_bLength := b ! off, ep_bDescriptorType := b ! (off + 1),
        bEndpointAddress := b ! (off + 2), ep_bmAttributes := b ! (off + 3),
        wMaxPacketSize := LE16 b (off + 4), bInterval := b ! (off + 6)\<rparr>))"

text \<open>The next header: the offset of the descriptor and the counter, both advanced by its length.\<close>

definition USBH_GetNextDesc :: "u8 list \<Rightarrow> nat \<Rightarrow> u16 \<Rightarrow> fault + (nat \<times> u16)" where
  "USBH_GetNextDesc b off ptr =
     sbind (nth_e b off) (\<lambda>n. Inr (off + unat n, ptr + ucast n))"

section \<open>The configuration descriptor\<close>

text \<open>
  The local variables of the scan. The index if\_num of the current interface is None for the
  value -1, the pointer pif to the last interface is its index.
\<close>

record cfg_scan =
  scfg :: cfg_desc
  if_ix :: nat
  ep_ix :: nat
  if_num :: "nat option"
  pif :: "nat option"

definition new_interface :: "u8 list \<Rightarrow> nat \<Rightarrow> cfg_scan \<Rightarrow> fault + cfg_scan" where
  "new_interface b off s =
     (if if_ix s < USBH_MAX_NUM_INTERFACES then
        sbind (USBH_ParseInterfaceDesc (Itf_Desc (scfg s) ! if_ix s) b off) (\<lambda>d.
          let c = (scfg s)\<lparr>Itf_Desc := (Itf_Desc (scfg s))[if_ix s := d]\<rparr>;
              c = (if if_ix s + 1 > unat (bNumInterfaces c)
                   then c\<lparr>bNumInterfaces := of_nat (if_ix s + 1)\<rparr> else c)
          in Inr (s\<lparr>scfg := c, if_ix := if_ix s + 1, ep_ix := 0, if_num := Some (if_ix s),
               pif := Some (if_ix s)\<rparr>))
      else Inr (s\<lparr>if_num := None\<rparr>))"

definition new_endpoint :: "u8 list \<Rightarrow> nat \<Rightarrow> cfg_scan \<Rightarrow> fault + cfg_scan" where
  "new_endpoint b off s =
     (case (if_num s, pif s) of
        (Some n, Some p) \<Rightarrow>
          if ep_ix s < unat (bNumEndpoints (Itf_Desc (scfg s) ! p)) \<and> ep_ix s < USBH_MAX_NUM_ENDPOINTS then
            let itf = Itf_Desc (scfg s) ! n in
            sbind (USBH_ParseEPDesc (Ep_Desc itf ! ep_ix s) b off) (\<lambda>e.
              Inr (s\<lparr>scfg := (scfg s)\<lparr>Itf_Desc := (Itf_Desc (scfg s))[n :=
                       itf\<lparr>Ep_Desc := (Ep_Desc itf)[ep_ix s := e]\<rparr>]\<rparr>,
                   ep_ix := ep_ix s + 1\<rparr>))
          else Inr s
      | _ \<Rightarrow> Inr s)"

definition scan_desc :: "u8 list \<Rightarrow> nat \<Rightarrow> cfg_scan \<Rightarrow> fault + cfg_scan" where
  "scan_desc b off s =
     sbind (nth_e b (off + 1)) (\<lambda>t.
       if t = USB_DESC_TYPE_INTERFACE then new_interface b off s
       else if t = USB_DESC_TYPE_ENDPOINT then new_endpoint b off s
       else Inr s)"

partial_function (option) scan_cfg :: "u8 list \<Rightarrow> nat \<Rightarrow> u16 \<Rightarrow> cfg_scan \<Rightarrow> (fault + cfg_scan) option" where
  "scan_cfg b off ptr s =
     (if ptr < wTotalLength (scfg s) then
        (case USBH_GetNextDesc b off ptr of
           Inl e \<Rightarrow> Some (Inl e)
         | Inr (off', ptr') \<Rightarrow>
             (case scan_desc b off' s of
                Inl e \<Rightarrow> Some (Inl e)
              | Inr s' \<Rightarrow> scan_cfg b off' ptr' s'))
      else Some (Inr s))"

definition cfg_header :: "u8 list \<Rightarrow> cfg_desc \<Rightarrow> cfg_desc" where
  "cfg_header b c = c\<lparr>cfg_bLength := b ! 0, cfg_bDescriptorType := b ! 1, wTotalLength := LE16 b 2,
     bNumInterfaces := b ! 4, bConfigurationValue := b ! 5, iConfiguration := b ! 6,
     cfg_bmAttributes := b ! 7, bMaxPower := b ! 8\<rparr>"

definition USBH_ParseCfgDesc :: "cfg_desc \<Rightarrow> u8 list \<Rightarrow> u16 \<Rightarrow> (fault + cfg_desc) option" where
  "USBH_ParseCfgDesc c b len =
     (if length b < 9 then Some (Inl OutOfBounds)
      else if len > 9 then
        map_option (\<lambda>r. sbind r (\<lambda>s. Inr (scfg s)))
          (scan_cfg b 0 USB_LEN_CFG_DESC
            \<lparr>scfg = cfg_header b c, if_ix = 0, ep_ix = 0, if_num = None, pif = None\<rparr>)
      else Some (Inr (cfg_header b c)))"

section \<open>String descriptors\<close>

text \<open>
  The buffers a request can use: the general buffer of the device record, the raw configuration,
  and the two buffers that belong to the active class, its own memory and the one of its
  transfers. The function below is called with its source
  and its destination in the same buffer when the core reads a string, and with two different
  ones by the MIDI class.
\<close>

datatype buf_ref = BUF_NULL | BUF_DATA | BUF_RAW | BUF_CLASS | BUF_XFER

type_synonym usb_mem = "buf_ref \<Rightarrow> u8 list"

definition mem_put :: "buf_ref \<Rightarrow> nat \<Rightarrow> u8 \<Rightarrow> usb_mem \<Rightarrow> fault + usb_mem" where
  "mem_put r i x m = sbind (upd_e (m r) i x) (\<lambda>b. Inr (m(r := b)))"

text \<open>
  The copy loop: n characters are left, k are done. The counter of the code has 16 bits; it can
  only wrap around behind the end of every buffer.
\<close>

fun copy_units :: "nat \<Rightarrow> nat \<Rightarrow> buf_ref \<Rightarrow> buf_ref \<Rightarrow> usb_mem \<Rightarrow> fault + usb_mem" where
  "copy_units 0 k src dst m = Inr m"
| "copy_units (Suc n) k src dst m =
     sbind (nth_e (m src) (2 + 2 * k)) (\<lambda>c.
     sbind (mem_put dst k c m) (\<lambda>m. copy_units n (k + 1) src dst m))"

text \<open>The length of the string; the subtraction is done in int and stored in 16 bits.\<close>

definition strlength :: "u8 \<Rightarrow> u16 \<Rightarrow> u16" where
  "strlength n len = (if uint n - 2 \<le> uint len then word_of_int (uint n - 2) else len)"

definition USBH_ParseStringDesc :: "buf_ref \<Rightarrow> buf_ref \<Rightarrow> u16 \<Rightarrow> usb_mem \<Rightarrow> fault + usb_mem" where
  "USBH_ParseStringDesc src dst len m =
     sbind (nth_e (m src) 1) (\<lambda>t.
       if t = USB_DESC_TYPE_STRING then
         sbind (nth_e (m src) 0) (\<lambda>n.
           let units = (unat (strlength n len) + 1) div 2 in
           sbind (copy_units units 0 src dst m) (mem_put dst units 0))
       else Inr m)"

section \<open>What the string function returns\<close>

lemma copy_units_done:
  "2 * (k + n) < length (m src) \<Longrightarrow> k + n \<le> length (m dst) \<Longrightarrow>
   \<exists>m'. copy_units n k src dst m = Inr m' \<and>
     m' = m(dst := take k (m dst) @ map (\<lambda>j. m src ! (2 + 2 * (k + j))) [0..<n] @ drop (k + n) (m dst))"
proof (induction n arbitrary: k m)
  case 0
  then show ?case by simp
next
  case (Suc n)
  let ?m = "m(dst := (m dst)[k := m src ! (2 + 2 * k)])"
  have keep: "?m src ! (2 + 2 * (k + 1 + j)) = m src ! (2 + 2 * (k + Suc j))" for j by simp
  have "\<exists>m'. copy_units n (k + 1) src dst ?m = Inr m' \<and>
     m' = ?m(dst := take (k + 1) (?m dst) @ map (\<lambda>j. ?m src ! (2 + 2 * (k + 1 + j))) [0..<n] @
       drop (k + 1 + n) (?m dst))"
    using Suc.prems by (intro Suc.IH) auto
  moreover have "take (k + 1) ((m dst)[k := m src ! (2 + 2 * k)]) = take k (m dst) @ [m src ! (2 + 2 * k)]"
    using Suc.prems by (simp add: take_Suc_conv_app_nth)
  moreover have "[0..<Suc n] = 0 # map Suc [0..<n]"
    by (simp add: map_Suc_upt upt_conv_Cons del: upt_Suc)
  ultimately show ?case
    using Suc.prems by (simp add: mem_put_def keep comp_def del: upt_Suc) (auto simp: fun_eq_iff)
qed

lemma strlength_id: "2 \<le> n \<Longrightarrow> unat n - 2 \<le> unat len \<Longrightarrow> unat (strlength n len) = unat n - 2"
proof -
  assume a: "2 \<le> n" "unat n - 2 \<le> unat len"
  have "unat (2 :: u8) \<le> unat n" using a(1) by (simp only: word_le_nat_alt)
  then have n: "2 \<le> unat n" "unat n < 256" using unat_u8 [of n] by simp_all
  have u: "int (unat n) = uint n" "int (unat len) = uint len" by simp_all
  have d: "int (unat n - 2) = uint n - 2" using n u by linarith
  then have "uint n - 2 \<le> uint len" using a(2) u by linarith
  then have s: "strlength n len = of_nat (unat n - 2)" by (simp only: strlength_def flip: d) simp
  have "unat (of_nat k :: u16) = k" if "k < 256" for k using that by (simp add: unat_of_nat)
  from this [of "unat n - 2"] show ?thesis using n by (simp only: s)
qed

lemma copy_units_oob:
  "length (m src) \<le> 2 * (k + n) \<or> length (m dst) < k + n \<Longrightarrow> 0 < n \<Longrightarrow>
   copy_units n k src dst m = Inl OutOfBounds"
proof (induction n arbitrary: k m)
  case 0
  then show ?case by simp
next
  case (Suc n)
  show ?case
  proof (cases "2 + 2 * k < length (m src) \<and> k < length (m dst)")
    case False
    then show ?thesis by (auto simp: mem_put_def nth_e_def upd_e_def)
  next
    case True
    then have "0 < n" using Suc.prems by (cases n) auto
    moreover have "length ((m(dst := (m dst)[k := c])) src) \<le> 2 * (k + 1 + n) \<or>
        length ((m(dst := (m dst)[k := c])) dst) < k + 1 + n" for c
      using Suc.prems by auto
    ultimately show ?thesis using True Suc.IH by (simp add: mem_put_def)
  qed
qed

lemma strlength_short: "n = 0 \<or> n = 1 \<Longrightarrow> 32767 \<le> (unat (strlength n len) + 1) div 2"
proof -
  assume "n = 0 \<or> n = 1"
  moreover have "0 \<le> uint len" by simp
  then have "- 2 \<le> uint len" "- 1 \<le> uint len" by linarith+
  moreover have "unat (- 2 :: u16) = 65534" "unat (- 1 :: u16) = 65535"
    by (simp_all add: unsigned_minus_1_eq_mask mask_eq_exp_minus_1)
  ultimately show ?thesis by (auto simp: strlength_def)
qed

lemma u8_less_2: "unat n < 2 \<Longrightarrow> n = 0 \<or> n = 1" for n :: u8
proof -
  assume "unat n < 2"
  then have "unat n = 0 \<or> unat n = 1" by linarith
  then have "unat n = unat (0 :: u8) \<or> unat n = unat (1 :: u8)" by simp
  then show ?thesis by (blast dest: unsigned_word_eqI)
qed

lemma parse_string_unfold:
  assumes "1 < length (m src)" and "m src ! 1 = USB_DESC_TYPE_STRING"
    and "(unat (strlength (m src ! 0) len) + 1) div 2 = u"
  shows "USBH_ParseStringDesc src dst len m = sbind (copy_units u 0 src dst m) (mem_put dst u 0)"
proof -
  have "0 < length (m src)" using assms(1) by linarith
  then show ?thesis
    using assms by (simp only: USBH_ParseStringDesc_def nth_e_in sbind_simps Let_def refl if_True)
qed

lemma parse_string_result:
  assumes "1 < length (m src)" and "length (m src) \<le> 512" and "m src ! 1 = USB_DESC_TYPE_STRING"
  shows "USBH_ParseStringDesc src dst 255 m =
    (if 2 \<le> unat (m src ! 0) \<and> 2 * ((unat (m src ! 0) - 1) div 2) < length (m src) \<and>
        (unat (m src ! 0) - 1) div 2 < length (m dst)
     then Inr (m(dst := map (\<lambda>j. m src ! (2 + 2 * j)) [0..<(unat (m src ! 0) - 1) div 2] @
            0 # drop ((unat (m src ! 0) - 1) div 2 + 1) (m dst)))
     else Inl OutOfBounds)"
proof (cases "2 \<le> unat (m src ! 0)")
  case False
  have "sbind (copy_units ((unat (strlength (m src ! 0) 255) + 1) div 2) 0 src dst m)
      (mem_put dst ((unat (strlength (m src ! 0) 255) + 1) div 2) 0) = Inl OutOfBounds"
  proof -
    have "32767 \<le> (unat (strlength (m src ! 0) 255) + 1) div 2"
      using False u8_less_2 [of "m src ! 0"] by (intro strlength_short) auto
    then show ?thesis
      using assms(2) copy_units_oob [of m src 0 "(unat (strlength (m src ! 0) 255) + 1) div 2" dst]
      by simp
  qed
  then show ?thesis
    using False parse_string_unfold [where m = m and src = src and len = 255, OF assms(1,3) refl] by simp
next
  case True
  define u where "u = (unat (m src ! 0) - 1) div 2"
  have "2 \<le> m src ! 0" using True by (simp add: word_le_nat_alt)
  then have "unat (strlength (m src ! 0) 255) = unat (m src ! 0) - 2"
    using unat_u8 [of "m src ! 0"] by (intro strlength_id) auto
  then have "(unat (strlength (m src ! 0) 255) + 1) div 2 = u"
    using True by (simp add: u_def)
  note run = parse_string_unfold [where m = m and src = src and len = 255, OF assms(1,3) this]
  show ?thesis
  proof (cases "2 * u < length (m src) \<and> u < length (m dst)")
    case fits: True
    then have "copy_units u 0 src dst m =
        Inr (m(dst := map (\<lambda>j. m src ! (2 + 2 * j)) [0..<u] @ drop u (m dst)))"
      using copy_units_done [of 0 u m src dst] by auto
    moreover have "(map (\<lambda>j. m src ! (2 + 2 * j)) [0..<u] @ drop u (m dst))[u := 0] =
        map (\<lambda>j. m src ! (2 + 2 * j)) [0..<u] @ 0 # drop (u + 1) (m dst)"
      using fits by (simp add: list_update_append Cons_nth_drop_Suc [symmetric])
    ultimately show ?thesis
      unfolding run u_def [symmetric] using fits True by (simp add: mem_put_def)
  next
    case False
    have "sbind (copy_units u 0 src dst m) (mem_put dst u 0) = Inl OutOfBounds"
    proof (cases "u = length (m dst) \<and> 2 * u < length (m src)")
      case True
      then show ?thesis using copy_units_done [of 0 u m src dst] by (auto simp: mem_put_def upd_e_def)
    next
      case no: False
      have "0 < u" using False no assms(1) by (cases u) auto
      then have "copy_units u 0 src dst m = Inl OutOfBounds"
        using False no by (intro copy_units_oob) auto
      then show ?thesis by simp
    qed
    then show ?thesis unfolding run u_def [symmetric] using False by simp
  qed
qed

text \<open>A string of ASCII characters as a device sends it, in 16-bit units.\<close>

definition string_desc :: "u8 list \<Rightarrow> u8 list" where
  "string_desc s = of_nat (2 + 2 * length s) # USB_DESC_TYPE_STRING # concat (map (\<lambda>c. [c, 0]) s)"

lemma unit_nth: "j < length s \<Longrightarrow> (concat (map (\<lambda>c. [c, 0]) s) @ rest) ! (2 * j) = s ! j"
proof (induction s arbitrary: j)
  case Nil
  then show ?case by simp
next
  case (Cons c s)
  then show ?case by (cases j) simp_all
qed

lemma string_desc_units:
  assumes "length s \<le> 126"
  shows "unat ((string_desc s @ rest) ! 0) = 2 + 2 * length s" and "(string_desc s @ rest) ! 1 = USB_DESC_TYPE_STRING"
    and "map (\<lambda>j. (string_desc s @ rest) ! (2 + 2 * j)) [0..<length s] = s"
    and "length (string_desc s) = 2 + 2 * length s"
proof -
  show "unat ((string_desc s @ rest) ! 0) = 2 + 2 * length s"
  proof -
    have "unat (of_nat k :: u8) = k" if "k < 256" for k using that by (simp add: unat_of_nat)
    from this [of "2 + 2 * length s"] show ?thesis using assms by (simp only: string_desc_def append_Cons nth_Cons_0)
  qed
  show "map (\<lambda>j. (string_desc s @ rest) ! (2 + 2 * j)) [0..<length s] = s"
    by (rule nth_equalityI) (simp_all add: string_desc_def unit_nth)
  show "length (string_desc s) = 2 + 2 * length s"
    by (simp add: string_desc_def length_concat comp_def sum_list_triv)
qed (simp add: string_desc_def)

text \<open>
  The text of a string descriptor reaches the destination as a C string, also when it is read
  in place, provided it is shorter than the destination; a longer one is written behind its end.
  A device whose descriptor states a length below two makes the subtraction wrap around, and the
  function writes over what follows the buffer.
\<close>

lemma string_descriptor_read:
  assumes "length (m src) \<le> 512"
  shows "(\<forall>s rest. 0 \<notin> set s \<and> length s \<le> 126 \<and> m src = string_desc s @ rest \<longrightarrow>
      (if length s < length (m dst)
       then \<exists>m'. USBH_ParseStringDesc src dst 255 m = Inr m' \<and> c_string (m' dst) = Inr s \<and>
         (\<forall>b. b \<noteq> dst \<longrightarrow> m' b = m b)
       else USBH_ParseStringDesc src dst 255 m = Inl OutOfBounds)) \<and>
    (\<forall>n rest. n < 2 \<and> m src = n # USB_DESC_TYPE_STRING # rest \<longrightarrow>
      USBH_ParseStringDesc src dst 255 m = Inl OutOfBounds)"
proof (intro conjI allI impI; elim conjE)
  fix s rest
  assume s: "0 \<notin> set s" "length s \<le> 126" and m: "m src = string_desc s @ rest"
  note d = string_desc_units [OF s(2)]
  have one: "1 < length (m src)" using d(4) m by simp
  have u: "(unat (m src ! 0) - 1) div 2 = length s" using d(1) m by simp
  have run: "USBH_ParseStringDesc src dst 255 m =
    (if length s < length (m dst)
     then Inr (m(dst := s @ 0 # drop (length s + 1) (m dst))) else Inl OutOfBounds)"
    using parse_string_result [where m = m and src = src and dst = dst, OF one assms] d m u by auto
  then show "if length s < length (m dst)
       then \<exists>m'. USBH_ParseStringDesc src dst 255 m = Inr m' \<and> c_string (m' dst) = Inr s \<and>
         (\<forall>b. b \<noteq> dst \<longrightarrow> m' b = m b)
       else USBH_ParseStringDesc src dst 255 m = Inl OutOfBounds"
    using s(1) by simp
next
  fix n rest
  assume n: "n < 2" and m: "m src = n # USB_DESC_TYPE_STRING # rest"
  have "\<not> 2 \<le> unat n" using n by (simp add: word_less_nat_alt)
  moreover have "1 < length (m src)" "m src ! 1 = USB_DESC_TYPE_STRING" using m by simp_all
  ultimately show "USBH_ParseStringDesc src dst 255 m = Inl OutOfBounds"
    using parse_string_result [where m = m and src = src and dst = dst] assms m by simp
qed

section \<open>What a configuration means\<close>

text \<open>
  A configuration is a list of descriptors. Its interfaces, each with the endpoints that follow
  it; descriptors of other types belong to none of them.
\<close>

definition add_desc :: "(u8 list \<times> u8 list list) list \<Rightarrow> u8 list \<Rightarrow> (u8 list \<times> u8 list list) list" where
  "add_desc g d =
     (if d ! 1 = USB_DESC_TYPE_INTERFACE then g @ [(d, [])]
      else if d ! 1 = USB_DESC_TYPE_ENDPOINT \<and> g \<noteq> []
        then butlast g @ [(fst (last g), snd (last g) @ [d])]
      else g)"

definition interfaces :: "u8 list list \<Rightarrow> (u8 list \<times> u8 list list) list" where
  "interfaces ds = foldl add_desc [] ds"

definition read_ep :: "u8 list \<Rightarrow> ep_desc" where
  "read_ep d = \<lparr>ep_bLength = d ! 0, ep_bDescriptorType = d ! 1, bEndpointAddress = d ! 2,
     ep_bmAttributes = d ! 3, wMaxPacketSize = LE16 d 4, bInterval = d ! 6\<rparr>"

definition read_itf :: "u8 list \<Rightarrow> ep_desc list \<Rightarrow> itf_desc" where
  "read_itf d eps = \<lparr>if_bLength = d ! 0, if_bDescriptorType = d ! 1, bInterfaceNumber = d ! 2,
     bAlternateSetting = d ! 3, bNumEndpoints = d ! 4, bInterfaceClass = d ! 5,
     bInterfaceSubClass = d ! 6, bInterfaceProtocol = d ! 7, iInterface = d ! 8, Ep_Desc = eps\<rparr>"

text \<open>
  The table the scan leaves: the first six interfaces, of each as many endpoints as it announces
  and at most six. Entries that are not described keep what an earlier device left there.
\<close>

definition taken_eps :: "u8 list \<times> u8 list list \<Rightarrow> u8 list list" where
  "taken_eps i = take (min (unat (fst i ! 4)) USBH_MAX_NUM_ENDPOINTS) (snd i)"

definition fill_itf :: "u8 list \<times> u8 list list \<Rightarrow> itf_desc \<Rightarrow> itf_desc" where
  "fill_itf i old = read_itf (fst i) (map read_ep (taken_eps i) @ drop (length (taken_eps i)) (Ep_Desc old))"

definition itf_table :: "(u8 list \<times> u8 list list) list \<Rightarrow> itf_desc list \<Rightarrow> itf_desc list" where
  "itf_table g old =
     map (\<lambda>j. if j < length g then fill_itf (g ! j) (old ! j) else old ! j) [0..<USBH_MAX_NUM_INTERFACES]"

definition cfg_meaning :: "(u8 list \<times> u8 list list) list \<Rightarrow> cfg_desc \<Rightarrow> cfg_desc" where
  "cfg_meaning g c = c\<lparr>bNumInterfaces := of_nat (max (unat (bNumInterfaces c)) (min USBH_MAX_NUM_INTERFACES (length g))),
     Itf_Desc := itf_table g (Itf_Desc c)\<rparr>"

definition desc_ok :: "u8 list \<Rightarrow> bool" where
  "desc_ok d \<longleftrightarrow> 2 \<le> length d \<and> length d = unat (d ! 0) \<and>
     (d ! 1 = USB_DESC_TYPE_INTERFACE \<longrightarrow> 9 \<le> length d) \<and>
     (d ! 1 = USB_DESC_TYPE_ENDPOINT \<longrightarrow> 7 \<le> length d)"

text \<open>The state of the scan after some descriptors.\<close>

definition scan_at :: "cfg_desc \<Rightarrow> (u8 list \<times> u8 list list) list \<Rightarrow> cfg_scan \<Rightarrow> bool" where
  "scan_at c g s \<longleftrightarrow> scfg s = cfg_meaning g c \<and> if_ix s = min USBH_MAX_NUM_INTERFACES (length g) \<and>
     (g = [] \<or> USBH_MAX_NUM_INTERFACES < length g \<longrightarrow> if_num s = None) \<and>
     (g \<noteq> [] \<and> length g \<le> USBH_MAX_NUM_INTERFACES \<longrightarrow>
        if_num s = Some (length g - 1) \<and> pif s = Some (length g - 1) \<and>
        ep_ix s = length (taken_eps (last g)))"

lemma length_itf_table [simp]: "length (itf_table g old) = USBH_MAX_NUM_INTERFACES"
  by (simp add: itf_table_def)

lemma itf_table_nth:
  "j < USBH_MAX_NUM_INTERFACES \<Longrightarrow>
   itf_table g old ! j = (if j < length g then fill_itf (g ! j) (old ! j) else old ! j)"
  by (simp add: itf_table_def)

lemma itf_table_snoc:
  "length g < USBH_MAX_NUM_INTERFACES \<Longrightarrow>
   itf_table (g @ [i]) old = (itf_table g old)[length g := fill_itf i (old ! length g)]"
  by (rule nth_equalityI) (simp_all add: itf_table_nth nth_list_update nth_append)

lemma itf_table_full: "USBH_MAX_NUM_INTERFACES \<le> length g \<Longrightarrow> itf_table (g @ h) old = itf_table g old"
  by (rule nth_equalityI) (simp_all add: itf_table_nth nth_append)

lemma parse_itf_at:
  assumes "b = pre @ d @ post" and "9 \<le> length d"
  shows "USBH_ParseInterfaceDesc i b (length pre) = Inr (read_itf d (Ep_Desc i))"
  using assms by (auto simp: USBH_ParseInterfaceDesc_def read_itf_def nth_append)

lemma parse_ep_at:
  assumes "b = pre @ d @ post" and "7 \<le> length d"
  shows "USBH_ParseEPDesc e b (length pre) = Inr (read_ep d)"
  using assms by (auto simp: USBH_ParseEPDesc_def read_ep_def nth_append LE16_def)

lemma new_interface_step:
  assumes s: "scan_at c g s" and b: "b = pre @ d @ post" and d: "9 \<le> length d"
  shows "\<exists>s'. new_interface b (length pre) s = Inr s' \<and> scan_at c (g @ [(d, [])]) s'"
proof (cases "length g < USBH_MAX_NUM_INTERFACES")
  case True
  have e: "if_ix s = length g" "scfg s = cfg_meaning g c" using s True by (simp_all add: scan_at_def)
  have old: "itf_table g (Itf_Desc c) ! length g = Itf_Desc c ! length g"
    using True by (simp add: itf_table_nth)
  have f: "fill_itf (d, []) i = read_itf d (Ep_Desc i)" for i
    by (simp add: fill_itf_def taken_eps_def)
  have n: "unat (of_nat k :: u8) = k" if "k < 256" for k using that by (simp add: unat_of_nat)
  define m where "m = max (unat (bNumInterfaces c)) (length g)"
  have m: "m < 256" using True unat_u8 [of "bNumInterfaces c"] by (simp add: m_def USBH_MAX_NUM_INTERFACES_def)
  have new: "max (unat (bNumInterfaces c)) (Suc (length g)) = (if m < Suc (length g) then Suc (length g) else m)"
    by (auto simp: m_def max_def)
  have "USBH_ParseInterfaceDesc (itf_table g (Itf_Desc c) ! length g) b (length pre) =
      Inr (fill_itf (d, []) (Itf_Desc c ! length g))"
    using parse_itf_at [OF b d] by (simp add: old f)
  then show ?thesis
    using True m by (auto simp: new_interface_def scan_at_def e cfg_meaning_def itf_table_snoc
        taken_eps_def new n m_def [symmetric])
next
  case False
  then have "cfg_meaning (g @ [(d, [])]) c = cfg_meaning g c"
    by (simp add: cfg_meaning_def itf_table_full)
  then show ?thesis using False s by (auto simp: new_interface_def scan_at_def)
qed

lemma fill_itf_more:
  assumes "length (Ep_Desc old) = USBH_MAX_NUM_ENDPOINTS"
    and "length (taken_eps i) < min (unat (fst i ! 4)) USBH_MAX_NUM_ENDPOINTS"
  shows "fill_itf (fst i, snd i @ [d]) old =
    (fill_itf i old)\<lparr>Ep_Desc := (Ep_Desc (fill_itf i old))[length (taken_eps i) := read_ep d]\<rparr>"
    and "length (taken_eps (fst i, snd i @ [d])) = length (taken_eps i) + 1"
proof -
  have "taken_eps (fst i, snd i @ [d]) = taken_eps i @ [d]"
    using assms(2) by (auto simp: taken_eps_def)
  then show "length (taken_eps (fst i, snd i @ [d])) = length (taken_eps i) + 1"
    and "fill_itf (fst i, snd i @ [d]) old =
      (fill_itf i old)\<lparr>Ep_Desc := (Ep_Desc (fill_itf i old))[length (taken_eps i) := read_ep d]\<rparr>"
    using assms
    by (simp_all add: fill_itf_def read_itf_def list_update_append Cons_nth_drop_Suc [symmetric])
qed

lemma taken_eps_full:
  "\<not> length (taken_eps i) < min (unat (fst i ! 4)) USBH_MAX_NUM_ENDPOINTS \<Longrightarrow>
   taken_eps (fst i, snd i @ [d]) = taken_eps i"
  by (auto simp: taken_eps_def)

lemma new_endpoint_step:
  assumes s: "scan_at c g s" and b: "b = pre @ d @ post" and d: "7 \<le> length d"
    and c: "cfg_sized c" and t: "d ! 1 = USB_DESC_TYPE_ENDPOINT"
  shows "\<exists>s'. new_endpoint b (length pre) s = Inr s' \<and> scan_at c (add_desc g d) s'"
proof (cases "g \<noteq> [] \<and> length g \<le> USBH_MAX_NUM_INTERFACES")
  case False
  then have "if_num s = None" using s by (auto simp: scan_at_def)
  moreover have "scan_at c (add_desc g d) s"
  proof (cases "g = []")
    case False
    then have g: "g = butlast g @ [last g]" "USBH_MAX_NUM_INTERFACES \<le> length (butlast g)"
      using \<open>\<not> (g \<noteq> [] \<and> length g \<le> USBH_MAX_NUM_INTERFACES)\<close> by auto
    have "itf_table (butlast g @ [i]) = itf_table (butlast g)" for i
      using g(2) by (intro ext) (rule itf_table_full)
    then have "itf_table (butlast g @ [i]) = itf_table g" for i by (metis g(1))
    then show ?thesis
      using s False g t by (simp add: scan_at_def add_desc_def usb_codes cfg_meaning_def)
  qed (use s t in \<open>simp add: add_desc_def usb_codes\<close>)
  ultimately show ?thesis by (simp add: new_endpoint_def)
next
  case True
  define h i where "h = butlast g" and "i = last g"
  have g: "g = h @ [i]" "length h < USBH_MAX_NUM_INTERFACES" using True by (cases "length g"; auto simp: h_def i_def)+
  have e: "if_num s = Some (length h)" "pif s = Some (length h)" "ep_ix s = length (taken_eps i)"
      "scfg s = cfg_meaning g c"
    using s g by (simp_all add: scan_at_def)
  have tab: "itf_table (h @ [j]) (Itf_Desc c) =
      (itf_table h (Itf_Desc c))[length h := fill_itf j (Itf_Desc c ! length h)]" for j
    by (rule itf_table_snoc) (rule g(2))
  have old: "length (Ep_Desc (Itf_Desc c ! length h)) = USBH_MAX_NUM_ENDPOINTS"
    using c g(2) by (simp add: cfg_sized_def)
  have num: "bNumEndpoints (fill_itf i x) = fst i ! 4" for x by (simp add: fill_itf_def read_itf_def)
  have add: "add_desc (h @ [i]) d = h @ [(fst i, snd i @ [d])]" using t by (simp add: add_desc_def usb_codes)
  show ?thesis
  proof (cases "length (taken_eps i) < min (unat (fst i ! 4)) USBH_MAX_NUM_ENDPOINTS")
    case room: True
    then show ?thesis
      using g(2) s fill_itf_more [OF old room, of d]
      by (auto simp: new_endpoint_def Let_def e g(1) add scan_at_def cfg_meaning_def tab num
          parse_ep_at [OF b d])
  next
    case False
    then have "fill_itf (fst i, snd i @ [d]) = fill_itf i"
      by (intro ext) (simp add: fill_itf_def taken_eps_full)
    then show ?thesis
      using s False taken_eps_full [OF False, of d]
      by (auto simp: new_endpoint_def Let_def e g add scan_at_def cfg_meaning_def tab num)
  qed
qed

lemma scan_desc_step:
  assumes "scan_at c g s" and "b = pre @ d @ post" and "desc_ok d" and "cfg_sized c"
  shows "\<exists>s'. scan_desc b (length pre) s = Inr s' \<and> scan_at c (add_desc g d) s'"
proof -
  have "nth_e b (length pre + 1) = Inr (d ! 1)"
    using assms(2,3) by (cases d; cases "tl d") (auto simp: desc_ok_def nth_e_def nth_append)
  then show ?thesis
    using new_interface_step [OF assms(1,2)] new_endpoint_step [OF assms(1,2) _ assms(4)] assms(1,3)
    by (auto simp: scan_desc_def add_desc_def desc_ok_def usb_codes)
qed

lemma scan_at_total: "scan_at c g s \<Longrightarrow> wTotalLength (scfg s) = wTotalLength c"
  by (simp add: scan_at_def cfg_meaning_def)

text \<open>
  The counter of the loop starts nine bytes ahead of the descriptor in hand and stays there,
  since it is advanced by the length of the descriptor that is left. The loop therefore stops
  behind the last descriptor only when that one has at most nine bytes, and goes on before it
  when the last two together have more.
\<close>

fun lag_ok :: "u8 list \<Rightarrow> u8 list list \<Rightarrow> bool" where
  "lag_ok cur [] = (length cur \<le> 9)"
| "lag_ok cur (d # ds) = (9 < length cur + length d + length (concat ds) \<and> lag_ok d ds)"

lemma of_nat_less_u16:
  "a < 65536 \<Longrightarrow> b < 65536 \<Longrightarrow> (of_nat a :: u16) < of_nat b \<longleftrightarrow> a < b"
  by (simp add: word_less_nat_alt unat_of_nat)

lemma scan_cfg_run:
  assumes "scan_at c g s" and "cfg_sized c"
    and "raw = pre @ cur @ concat ds @ post" and "ptr = of_nat (length pre + 9)"
    and "wTotalLength c = of_nat (length pre + length cur + length (concat ds))"
    and "length pre + length cur + length (concat ds) \<le> 512"
    and "lag_ok cur ds" and "2 \<le> length cur" and "unat (cur ! 0) = length cur" and "\<forall>d\<in>set ds. desc_ok d"
  shows "\<exists>s'. scan_cfg raw (length pre) ptr s = Some (Inr s') \<and> scan_at c (foldl add_desc g ds) s'"
  using assms
proof (induction ds arbitrary: g s pre cur ptr)
  case Nil
  have "\<not> ptr < wTotalLength (scfg s)"
    unfolding Nil.prems(4) scan_at_total [OF Nil.prems(1)] Nil.prems(5)
    using Nil.prems(6,7) by (subst of_nat_less_u16) simp_all
  then show ?case using Nil.prems by (subst scan_cfg.simps) simp
next
  case (Cons d ds)
  have less: "ptr < wTotalLength (scfg s)"
    unfolding Cons.prems(4) scan_at_total [OF Cons.prems(1)] Cons.prems(5)
    using Cons.prems(6,7) by (subst of_nat_less_u16) simp_all
  have raw: "raw = (pre @ cur) @ d @ concat ds @ post" using Cons.prems(3) by simp
  have "nth_e raw (length pre) = Inr (cur ! 0)"
    using Cons.prems(3,8) by (cases cur) (simp_all add: nth_e_def)
  moreover have "ptr + ucast (cur ! 0) = of_nat (length (pre @ cur) + 9)"
  proof -
    have "ucast (cur ! 0) = (of_nat (length cur) :: u16)" using Cons.prems(9) by (metis of_nat_unat)
    then show ?thesis using Cons.prems(4) by simp
  qed
  ultimately have next_: "USBH_GetNextDesc raw (length pre) ptr =
      Inr (length (pre @ cur), of_nat (length (pre @ cur) + 9))"
    using Cons.prems(9) by (simp add: USBH_GetNextDesc_def)
  obtain s1 where s1: "scan_desc raw (length (pre @ cur)) s = Inr s1" "scan_at c (add_desc g d) s1"
    using scan_desc_step [OF Cons.prems(1) raw _ Cons.prems(2)] Cons.prems(10) by auto
  have "\<exists>s'. scan_cfg raw (length (pre @ cur)) (of_nat (length (pre @ cur) + 9)) s1 = Some (Inr s') \<and>
      scan_at c (foldl add_desc (add_desc g d) ds) s'"
    using Cons.prems by (intro Cons.IH [OF s1(2) Cons.prems(2) raw refl]) (auto simp: desc_ok_def add.assoc)
  then show ?case using less next_ s1(1) by (subst scan_cfg.simps) simp
qed

lemma parse_cfg_result:
  assumes "raw = hdr @ concat ds @ post" and "length hdr = 9" and "hdr ! 0 = 9"
    and "LE16 hdr 2 = of_nat (9 + length (concat ds))" and "9 + length (concat ds) \<le> 512"
    and "\<forall>d\<in>set ds. desc_ok d" and "lag_ok hdr ds" and "cfg_sized c" and "9 < len"
  shows "USBH_ParseCfgDesc c raw len = Some (Inr (cfg_meaning (interfaces ds) (cfg_header hdr c)))"
proof -
  have h: "cfg_header raw c = cfg_header hdr c"
    using assms(1,2) by (simp add: cfg_header_def nth_append LE16_def)
  let ?s = "\<lparr>scfg = cfg_header hdr c, if_ix = 0, ep_ix = 0, if_num = None, pif = None\<rparr>"
  have start: "scan_at (cfg_header hdr c) [] ?s"
  proof -
    have "itf_table [] (Itf_Desc c) = Itf_Desc c"
      using assms(8) by (intro nth_equalityI) (simp_all add: cfg_sized_def itf_table_nth)
    then show ?thesis by (simp add: scan_at_def cfg_meaning_def cfg_header_def unat_u8)
  qed
  have "cfg_sized (cfg_header hdr c)" using assms(8) by (simp add: cfg_sized_def cfg_header_def)
  moreover have "wTotalLength (cfg_header hdr c) = of_nat (length [] + length hdr + length (concat ds))"
    using assms(2,4) by (simp add: cfg_header_def)
  moreover have "raw = [] @ hdr @ concat ds @ post" using assms(1) by simp
  ultimately obtain s' where "scan_cfg raw (length []) (of_nat (length [] + 9)) ?s = Some (Inr s')"
    "scan_at (cfg_header hdr c) (foldl add_desc [] ds) s'"
    using scan_cfg_run [OF start, of raw "[]" hdr ds post] assms(2-7) by auto
  then show ?thesis
    unfolding USBH_ParseCfgDesc_def h
    using assms(1,2,9) by (simp add: scan_at_def interfaces_def usb_codes)
qed

text \<open>
  C34: For every well-formed configuration (a header of nine bytes, descriptors of at least the
  standard sizes, consecutive ones of more than nine bytes together, the last of at most nine)
  the parser returns, without reading outside the buffer, and its table holds exactly the first
  six interfaces of the descriptor list, each with the endpoints that follow it, as many as it
  announces and at most six; the number of interfaces is raised to the number described.
\<close>

lemma configuration_parsed:
  assumes "raw = hdr @ concat ds @ post" and "length hdr = 9" and "hdr ! 0 = 9"
    and "LE16 hdr 2 = of_nat (9 + length (concat ds))" and "9 + length (concat ds) \<le> 512"
    and "\<forall>d\<in>set ds. desc_ok d" and "lag_ok hdr ds" and "cfg_sized c" and "9 < len"
  shows "USBH_ParseCfgDesc c raw len = Some (Inr (cfg_meaning (interfaces ds) (cfg_header hdr c)))"
  by (rule parse_cfg_result [OF assms])

text \<open>A configuration that is all zero, and that of a MIDI device with one interface.\<close>

definition zero_cfg :: cfg_desc where
  "zero_cfg = \<lparr>cfg_bLength = 0, cfg_bDescriptorType = 0, wTotalLength = 0, bNumInterfaces = 0,
     bConfigurationValue = 0, iConfiguration = 0, bmAttributes = 0, bMaxPower = 0,
     Itf_Desc = replicate 6 \<lparr>if_bLength = 0, if_bDescriptorType = 0, bInterfaceNumber = 0,
       bAlternateSetting = 0, bNumEndpoints = 0, bInterfaceClass = 0, bInterfaceSubClass = 0,
       bInterfaceProtocol = 0, iInterface = 0,
       Ep_Desc = replicate 6 \<lparr>ep_bLength = 0, ep_bDescriptorType = 0, bEndpointAddress = 0,
         ep_bmAttributes = 0, wMaxPacketSize = 0, bInterval = 0\<rparr>\<rparr>\<rparr>"

definition sample_hdr :: "u8 list" where "sample_hdr = [9, 2, 32, 0, 1, 1, 0, 0x80, 50]"

definition sample_descs :: "u8 list list" where
  "sample_descs = [[9, 4, 0, 0, 2, 1, 3, 0, 0], [7, 5, 1, 2, 64, 0, 0], [7, 5, 0x81, 2, 64, 0, 0]]"

lemma configuration_parsed_witness:
  "USBH_ParseCfgDesc zero_cfg (sample_hdr @ concat sample_descs @ replicate 480 0) 32 =
     Some (Inr (cfg_meaning (interfaces sample_descs) (cfg_header sample_hdr zero_cfg)))"
  by (rule configuration_parsed)
    (simp_all add: sample_hdr_def sample_descs_def LE16_def desc_ok_def cfg_sized_def zero_cfg_def usb_codes)

section \<open>What it does with other configurations\<close>

text \<open>
  A descriptor of length zero is left by the loop to itself: from there it never returns.
\<close>

definition at_zero :: "u8 list \<Rightarrow> nat \<Rightarrow> u16 \<Rightarrow> cfg_scan \<Rightarrow> bool" where
  "at_zero raw off ptr s \<longleftrightarrow> off + 1 < length raw \<and> raw ! off = 0 \<and>
     raw ! (off + 1) \<noteq> USB_DESC_TYPE_INTERFACE \<and> raw ! (off + 1) \<noteq> USB_DESC_TYPE_ENDPOINT \<and>
     ptr < wTotalLength (scfg s)"

lemma scan_cfg_stuck:
  assumes "at_zero raw off ptr s"
  shows "scan_cfg raw off ptr s = None"
proof -
  have "\<not> at_zero raw off ptr s" if "scan_cfg raw off ptr s = Some r" for r
  proof (rule scan_cfg.raw_induct [where P = "\<lambda>raw off ptr s r. \<not> at_zero raw off ptr s", OF _ that])
    fix scan raw off ptr s r
    assume ih: "\<And>raw off ptr s r. scan raw off ptr s = Some r \<Longrightarrow> \<not> at_zero raw off ptr s"
      and run: "(if ptr < wTotalLength (scfg s) then
          case USBH_GetNextDesc raw off ptr of Inl e \<Rightarrow> Some (Inl e)
          | Inr (off', ptr') \<Rightarrow> case scan_desc raw off' s of Inl e \<Rightarrow> Some (Inl e) | Inr s' \<Rightarrow> scan raw off' ptr' s'
          else Some (Inr s)) = Some r"
    show "\<not> at_zero raw off ptr s"
    proof
      assume z: "at_zero raw off ptr s"
      then have "USBH_GetNextDesc raw off ptr = Inr (off, ptr)" "scan_desc raw off s = Inr s"
        by (simp_all add: at_zero_def USBH_GetNextDesc_def scan_desc_def)
      with run z have "scan raw off ptr s = Some r" by (simp add: at_zero_def)
      with ih z show False by blast
    qed
  qed
  with assms show ?thesis by (cases "scan_cfg raw off ptr s") auto
qed

text \<open>
  Behind a last descriptor of more than nine bytes the loop takes the bytes that follow the
  configuration for a descriptor: what an earlier, longer configuration left in the buffer.
\<close>

lemma scan_cfg_beyond:
  assumes "raw = pre @ cur @ post" and "9 < length cur" and "unat (cur ! 0) = length cur"
    and "length pre + length cur \<le> 512"
    and "wTotalLength (scfg s) = of_nat (length pre + length cur)"
    and "scan_desc raw (length pre + length cur) s = Inr s'" and "wTotalLength (scfg s') = wTotalLength (scfg s)"
  shows "scan_cfg raw (length pre) (of_nat (length pre + 9)) s = Some (Inr s')"
proof -
  have less: "(of_nat (length pre + 9) :: u16) < wTotalLength (scfg s)"
    unfolding assms(5) using assms(2,4) by (subst of_nat_less_u16) simp_all
  have "nth_e raw (length pre) = Inr (cur ! 0)"
    using assms(1,2) by (cases cur) (simp_all add: nth_e_def)
  moreover have "(of_nat (length pre + 9) :: u16) + ucast (cur ! 0) = of_nat (length pre + 9 + length cur)"
  proof -
    have "ucast (cur ! 0) = (of_nat (length cur) :: u16)" using assms(3) by (metis of_nat_unat)
    then show ?thesis by simp
  qed
  ultimately have n: "USBH_GetNextDesc raw (length pre) (of_nat (length pre + 9)) =
      Inr (length pre + length cur, of_nat (length pre + 9 + length cur))"
    using assms(3) by (simp add: USBH_GetNextDesc_def)
  have "\<not> (of_nat (length pre + 9 + length cur) :: u16) < wTotalLength (scfg s')"
    unfolding assms(5,7) using assms(4) by (subst of_nat_less_u16) simp_all
  then have "scan_cfg raw (length pre + length cur) (of_nat (length pre + 9 + length cur)) s' = Some (Inr s')"
    by (subst scan_cfg.simps) simp
  then show ?thesis using less n assms(6) by (subst scan_cfg.simps) simp
qed

end
