(* ===== verification/Usbh_Core.thy ===== *)
theory Usbh_Core
  imports Usbh_Desc
begin

text \<open>
  The core of the USB host library as the firmware configures it: pipes (usbh\_pipes.c), transfers
  (usbh\_ioreq.c), control requests (usbh\_ctlreq.c), and the host state machine with enumeration
  and the choice of a class driver (usbh\_core.c). What the driver of the chip answers (the state
  of a transfer, the bytes received, the speed) is an argument; the calls to it are recorded in
  order. The events of the host thread are part of the state, since the thread only runs when
  one is pending.
\<close>

section \<open>State\<close>

datatype HOST_State = HOST_IDLE | HOST_DEV_WAIT_FOR_ATTACHMENT | HOST_DEV_ATTACHED
  | HOST_DEV_DISCONNECTED | HOST_DETECT_DEVICE_SPEED | HOST_ENUMERATION | HOST_CLASS_REQUEST
  | HOST_INPUT | HOST_SET_CONFIGURATION | HOST_CHECK_CLASS | HOST_CLASS | HOST_SUSPENDED
  | HOST_ABORT_STATE

datatype ENUM_State = ENUM_IDLE | ENUM_GET_FULL_DEV_DESC | ENUM_SET_ADDR | ENUM_GET_CFG_DESC
  | ENUM_GET_FULL_CFG_DESC | ENUM_GET_MFC_STRING_DESC | ENUM_GET_PRODUCT_STRING_DESC
  | ENUM_GET_SERIALNUM_STRING_DESC

datatype CTRL_State = CTRL_IDLE | CTRL_SETUP | CTRL_SETUP_WAIT | CTRL_DATA_IN | CTRL_DATA_IN_WAIT
  | CTRL_DATA_OUT | CTRL_DATA_OUT_WAIT | CTRL_STATUS_IN | CTRL_STATUS_IN_WAIT | CTRL_STATUS_OUT
  | CTRL_STATUS_OUT_WAIT | CTRL_ERROR | CTRL_STALLED | CTRL_COMPLETE

datatype CMD_State = CMD_IDLE | CMD_SEND | CMD_WAIT

datatype os_event = USBH_PORT_EVENT | USBH_URB_EVENT | USBH_CONTROL_EVENT | USBH_CLASS_EVENT
  | USBH_STATE_CHANGED_EVENT

record setup_pkt =
  bmRequestType :: u8
  bRequest :: u8
  wValue :: u16
  wIndex :: u16
  wLength :: u16

record usb_ctrl =
  pipe_in :: u8
  pipe_out :: u8
  pipe_size :: u8
  cbuff :: buf_ref
  clength :: u16
  ctimer :: u16
  csetup :: setup_pkt
  cstate :: CTRL_State
  errorcount :: u8

record usb_device =
  bufs :: usb_mem
  dev_address :: u8
  speed :: u8
  is_connected :: bool
  current_interface :: u8
  DevDesc :: dev_desc
  CfgDesc :: cfg_desc

text \<open>The class drivers the firmware registers.\<close>

datatype usb_class = Vendor_Class | MIDI_Class | HID_Class

text \<open>The calls to the chip driver, to the user callback and to the kernel.\<close>

datatype payload = SetupPkt setup_pkt | Buffer buf_ref | Bytes "u8 list"

datatype ll_call =
    LL_SubmitURB u8 bool u8 u8 payload u16 bool \<comment> \<open>pipe, to host, type, token, data, length, ping\<close>
  | LL_OpenPipe u8 u8 u8 u8 u8 u16              \<comment> \<open>pipe, endpoint, address, speed, type, size\<close>
  | LL_ClosePipe u8
  | LL_SetToggle u8 u8
  | LL_Start | LL_Stop | LL_Init | LL_ResetPort
  | LL_DriverVBUS bool
  | UserCall nat
  | Delay nat

record usb_host =
  gState :: HOST_State
  EnumState :: ENUM_State
  RequestState :: CMD_State
  Control :: usb_ctrl
  device :: usb_device
  pClass :: "usb_class list"
  pActiveClass :: "usb_class option"
  Pipes :: "u32 list"
  Timer :: u32
  host_id :: u8
  os_events :: "os_event \<Rightarrow> bool"
  ll_calls :: "ll_call list"

text \<open>What the chip driver answers during one call of a handler.\<close>

record ll_env =
  urb_of :: "u8 \<Rightarrow> urb_state"
  xfer_of :: "u8 \<Rightarrow> nat"
  rx_of :: "u8 list"
  hcd_speed :: nat

definition upd_ctl :: "(usb_ctrl \<Rightarrow> usb_ctrl) \<Rightarrow> usb_host \<Rightarrow> usb_host" where
  "upd_ctl f h = h\<lparr>Control := f (Control h)\<rparr>"

definition upd_dev :: "(usb_device \<Rightarrow> usb_device) \<Rightarrow> usb_host \<Rightarrow> usb_host" where
  "upd_dev f h = h\<lparr>device := f (device h)\<rparr>"

definition ll :: "ll_call \<Rightarrow> usb_host \<Rightarrow> usb_host" where
  "ll c h = h\<lparr>ll_calls := ll_calls h @ [c]\<rparr>"

definition osMessagePut :: "os_event \<Rightarrow> usb_host \<Rightarrow> usb_host" where
  "osMessagePut e h = h\<lparr>os_events := (os_events h)(e := True)\<rparr>"

section \<open>Pipes\<close>

definition USBH_MAX_PIPES_NBR :: nat where "USBH_MAX_PIPES_NBR = 15"

fun free_pipe_from :: "u32 list \<Rightarrow> nat \<Rightarrow> nat \<Rightarrow> fault + u16" where
  "free_pipe_from ps idx 0 = Inr 0xFFFF"
| "free_pipe_from ps idx (Suc n) =
     sbind (nth_e ps idx) (\<lambda>p. if p AND 0x8000 = 0 then Inr (of_nat idx) else free_pipe_from ps (idx + 1) n)"

definition USBH_GetFreePipe :: "u32 list \<Rightarrow> fault + u16" where
  "USBH_GetFreePipe ps = free_pipe_from ps 0 11"

definition USBH_AllocPipe :: "u8 \<Rightarrow> u32 list \<Rightarrow> fault + (u8 \<times> u32 list)" where
  "USBH_AllocPipe ep_addr ps =
     sbind (USBH_GetFreePipe ps) (\<lambda>pipe.
       if pipe \<noteq> 0xFFFF then
         sbind (upd_e ps (unat pipe) (0x8000 OR ucast ep_addr)) (\<lambda>ps. Inr (ucast pipe, ps))
       else Inr (ucast pipe, ps))"

definition USBH_FreePipe :: "u8 \<Rightarrow> u32 list \<Rightarrow> fault + u32 list" where
  "USBH_FreePipe idx ps =
     (if idx < 11 then sbind (nth_e ps (unat idx)) (\<lambda>p. upd_e ps (unat idx) (p AND 0x7FFF)) else Inr ps)"

definition alloc_pipe :: "u8 \<Rightarrow> usb_host \<Rightarrow> fault + (u8 \<times> usb_host)" where
  "alloc_pipe ep h = sbind (USBH_AllocPipe ep (Pipes h)) (\<lambda>(p, ps). Inr (p, h\<lparr>Pipes := ps\<rparr>))"

definition free_pipe :: "u8 \<Rightarrow> usb_host \<Rightarrow> fault + usb_host" where
  "free_pipe idx h = sbind (USBH_FreePipe idx (Pipes h)) (\<lambda>ps. Inr (h\<lparr>Pipes := ps\<rparr>))"

definition USBH_OpenPipe :: "u8 \<Rightarrow> u8 \<Rightarrow> u8 \<Rightarrow> u8 \<Rightarrow> u8 \<Rightarrow> u16 \<Rightarrow> usb_host \<Rightarrow> usb_host" where
  "USBH_OpenPipe pipe ep addr sp typ mps = ll (LL_OpenPipe pipe ep addr sp typ mps)"

definition USBH_ClosePipe :: "u8 \<Rightarrow> usb_host \<Rightarrow> usb_host" where
  "USBH_ClosePipe pipe = ll (LL_ClosePipe pipe)"

section \<open>Transfers\<close>

definition USBH_EP_CONTROL :: u8 where "USBH_EP_CONTROL = 0"
definition USBH_EP_ISO :: u8 where "USBH_EP_ISO = 1"
definition USBH_EP_BULK :: u8 where "USBH_EP_BULK = 2"
definition USBH_EP_INTERRUPT :: u8 where "USBH_EP_INTERRUPT = 3"
definition USBH_PID_SETUP :: u8 where "USBH_PID_SETUP = 0"
definition USBH_PID_DATA :: u8 where "USBH_PID_DATA = 1"
definition USBH_SPEED_HIGH :: u8 where "USBH_SPEED_HIGH = 0"
definition USBH_SPEED_FULL :: u8 where "USBH_SPEED_FULL = 1"
definition USBH_SPEED_LOW :: u8 where "USBH_SPEED_LOW = 2"

definition USBH_CtlSendSetup :: "setup_pkt \<Rightarrow> u8 \<Rightarrow> usb_host \<Rightarrow> usb_host" where
  "USBH_CtlSendSetup s pipe = ll (LL_SubmitURB pipe False USBH_EP_CONTROL USBH_PID_SETUP (SetupPkt s) 8 False)"

definition USBH_CtlSendData :: "buf_ref \<Rightarrow> u16 \<Rightarrow> u8 \<Rightarrow> bool \<Rightarrow> usb_host \<Rightarrow> usb_host" where
  "USBH_CtlSendData b len pipe do_ping h =
     ll (LL_SubmitURB pipe False USBH_EP_CONTROL USBH_PID_DATA (Buffer b) len
       (if speed (device h) \<noteq> USBH_SPEED_HIGH then False else do_ping)) h"

definition USBH_CtlReceiveData :: "buf_ref \<Rightarrow> u16 \<Rightarrow> u8 \<Rightarrow> usb_host \<Rightarrow> usb_host" where
  "USBH_CtlReceiveData b len pipe = ll (LL_SubmitURB pipe True USBH_EP_CONTROL USBH_PID_DATA (Buffer b) len False)"

definition USBH_BulkSendData :: "u8 list \<Rightarrow> u16 \<Rightarrow> u8 \<Rightarrow> bool \<Rightarrow> usb_host \<Rightarrow> usb_host" where
  "USBH_BulkSendData bs len pipe do_ping h =
     ll (LL_SubmitURB pipe False USBH_EP_BULK USBH_PID_DATA (Bytes bs) len
       (if speed (device h) \<noteq> USBH_SPEED_HIGH then False else do_ping)) h"

definition USBH_BulkReceiveData :: "buf_ref \<Rightarrow> u16 \<Rightarrow> u8 \<Rightarrow> usb_host \<Rightarrow> usb_host" where
  "USBH_BulkReceiveData b len pipe = ll (LL_SubmitURB pipe True USBH_EP_BULK USBH_PID_DATA (Buffer b) len False)"

definition USBH_InterruptReceiveData :: "buf_ref \<Rightarrow> u8 \<Rightarrow> u8 \<Rightarrow> usb_host \<Rightarrow> usb_host" where
  "USBH_InterruptReceiveData b len pipe =
     ll (LL_SubmitURB pipe True USBH_EP_INTERRUPT USBH_PID_DATA (Buffer b) (ucast len) False)"

definition USBH_InterruptSendData :: "buf_ref \<Rightarrow> u8 \<Rightarrow> u8 \<Rightarrow> usb_host \<Rightarrow> usb_host" where
  "USBH_InterruptSendData b len pipe =
     ll (LL_SubmitURB pipe False USBH_EP_INTERRUPT USBH_PID_DATA (Buffer b) (ucast len) False)"

definition USBH_IsocReceiveData :: "buf_ref \<Rightarrow> u32 \<Rightarrow> u8 \<Rightarrow> usb_host \<Rightarrow> usb_host" where
  "USBH_IsocReceiveData b len pipe =
     ll (LL_SubmitURB pipe True USBH_EP_ISO USBH_PID_DATA (Buffer b) (ucast len) False)"

definition USBH_IsocSendData :: "buf_ref \<Rightarrow> u32 \<Rightarrow> u8 \<Rightarrow> usb_host \<Rightarrow> usb_host" where
  "USBH_IsocSendData b len pipe =
     ll (LL_SubmitURB pipe False USBH_EP_ISO USBH_PID_DATA (Buffer b) (ucast len) False)"

text \<open>The bytes of a finished transfer, as the driver has stored them.\<close>

definition dma_in :: "buf_ref \<Rightarrow> u8 list \<Rightarrow> usb_host \<Rightarrow> fault + usb_host" where
  "dma_in b bs h =
     (if length bs \<le> length (bufs (device h) b)
      then Inr (upd_dev (\<lambda>d. d\<lparr>bufs := (bufs d)(b := bs @ drop (length bs) (bufs d b))\<rparr>) h)
      else Inl OutOfBounds)"

section \<open>Control transfers\<close>

definition USB_H2D :: u8 where "USB_H2D = 0"
definition USB_D2H :: u8 where "USB_D2H = 0x80"
definition USBH_MAX_ERROR_COUNT :: u8 where "USBH_MAX_ERROR_COUNT = 2"
definition HOST_USER_UNRECOVERED_ERROR :: nat where "HOST_USER_UNRECOVERED_ERROR = 6"

definition ctl_to :: "CTRL_State \<Rightarrow> usb_host \<Rightarrow> usb_host" where
  "ctl_to c = upd_ctl (\<lambda>k. k\<lparr>cstate := c\<rparr>)"

definition stamp :: "usb_host \<Rightarrow> usb_host" where
  "stamp h = upd_ctl (\<lambda>k. k\<lparr>ctimer := ucast (Timer h)\<rparr>) h"

definition after_setup :: "setup_pkt \<Rightarrow> CTRL_State" where
  "after_setup s =
     (let direction = bmRequestType s AND 0x80 in
      if wLength s \<noteq> 0 then (if direction = USB_D2H then CTRL_DATA_IN else CTRL_DATA_OUT)
      else (if direction = USB_D2H then CTRL_STATUS_OUT else CTRL_STATUS_IN))"

definition control_error :: "usb_host \<Rightarrow> usbh_status \<times> usb_host" where
  "control_error h =
     (let h = upd_ctl (\<lambda>k. k\<lparr>errorcount := errorcount k + 1\<rparr>) h in
      if errorcount (Control h) \<le> USBH_MAX_ERROR_COUNT then
        (USBH_BUSY, ctl_to CTRL_SETUP (ll LL_Stop h)\<lparr>RequestState := CMD_SEND\<rparr>)
      else
        (USBH_FAIL, upd_ctl (\<lambda>k. k\<lparr>errorcount := 0\<rparr>) (ll (UserCall HOST_USER_UNRECOVERED_ERROR) h)))"

definition USBH_HandleControl :: "ll_env \<Rightarrow> usb_host \<Rightarrow> fault + (usbh_status \<times> usb_host)" where
  "USBH_HandleControl env h =
     (let k = Control h; go = (\<lambda>c. osMessagePut USBH_CONTROL_EVENT (ctl_to c h)) in
      case cstate k of
        CTRL_SETUP \<Rightarrow>
          Inr (USBH_BUSY, ctl_to CTRL_SETUP_WAIT (USBH_CtlSendSetup (csetup k) (pipe_out k) h))
      | CTRL_SETUP_WAIT \<Rightarrow>
          Inr (USBH_BUSY,
            (case urb_of env (pipe_out k) of
               URB_DONE \<Rightarrow> go (after_setup (csetup k))
             | URB_ERROR \<Rightarrow> go CTRL_ERROR
             | _ \<Rightarrow> h))
      | CTRL_DATA_IN \<Rightarrow>
          Inr (USBH_BUSY, ctl_to CTRL_DATA_IN_WAIT
            (USBH_CtlReceiveData (cbuff k) (clength k) (pipe_in k) (stamp h)))
      | CTRL_DATA_IN_WAIT \<Rightarrow>
          (case urb_of env (pipe_in k) of
             URB_DONE \<Rightarrow> sbind (dma_in (cbuff k) (rx_of env) h) (\<lambda>h.
               Inr (USBH_BUSY, osMessagePut USBH_CONTROL_EVENT (ctl_to CTRL_STATUS_OUT h)))
           | URB_STALL \<Rightarrow> Inr (USBH_NOT_SUPPORTED, osMessagePut USBH_CONTROL_EVENT h)
           | URB_ERROR \<Rightarrow> Inr (USBH_BUSY, go CTRL_ERROR)
           | _ \<Rightarrow> Inr (USBH_BUSY, h))
      | CTRL_DATA_OUT \<Rightarrow>
          Inr (USBH_BUSY, ctl_to CTRL_DATA_OUT_WAIT
            (stamp (USBH_CtlSendData (cbuff k) (clength k) (pipe_out k) True h)))
      | CTRL_DATA_OUT_WAIT \<Rightarrow>
          (case urb_of env (pipe_out k) of
             URB_DONE \<Rightarrow> Inr (USBH_BUSY, go CTRL_STATUS_IN)
           | URB_STALL \<Rightarrow> Inr (USBH_NOT_SUPPORTED, go CTRL_STALLED)
           | URB_NOTREADY \<Rightarrow> Inr (USBH_BUSY, go CTRL_DATA_OUT)
           | URB_ERROR \<Rightarrow> Inr (USBH_FAIL, go CTRL_ERROR)
           | _ \<Rightarrow> Inr (USBH_BUSY, h))
      | CTRL_STATUS_IN \<Rightarrow>
          Inr (USBH_BUSY, ctl_to CTRL_STATUS_IN_WAIT
            (stamp (USBH_CtlReceiveData BUF_NULL 0 (pipe_in k) h)))
      | CTRL_STATUS_IN_WAIT \<Rightarrow>
          (case urb_of env (pipe_in k) of
             URB_DONE \<Rightarrow> Inr (USBH_OK, go CTRL_COMPLETE)
           | URB_ERROR \<Rightarrow> Inr (USBH_BUSY, go CTRL_ERROR)
           | URB_STALL \<Rightarrow> Inr (USBH_NOT_SUPPORTED, osMessagePut USBH_CONTROL_EVENT h)
           | _ \<Rightarrow> Inr (USBH_BUSY, h))
      | CTRL_STATUS_OUT \<Rightarrow>
          Inr (USBH_BUSY, ctl_to CTRL_STATUS_OUT_WAIT
            (stamp (USBH_CtlSendData BUF_NULL 0 (pipe_out k) True h)))
      | CTRL_STATUS_OUT_WAIT \<Rightarrow>
          (case urb_of env (pipe_out k) of
             URB_DONE \<Rightarrow> Inr (USBH_OK, go CTRL_COMPLETE)
           | URB_NOTREADY \<Rightarrow> Inr (USBH_BUSY, go CTRL_STATUS_OUT)
           | URB_ERROR \<Rightarrow> Inr (USBH_BUSY, go CTRL_ERROR)
           | _ \<Rightarrow> Inr (USBH_BUSY, h))
      | CTRL_ERROR \<Rightarrow> Inr (control_error h)
      | _ \<Rightarrow> Inr (USBH_BUSY, h))"

definition USBH_CtlReq :: "ll_env \<Rightarrow> buf_ref \<Rightarrow> u16 \<Rightarrow> usb_host \<Rightarrow> fault + (usbh_status \<times> usb_host)" where
  "USBH_CtlReq env b len h =
     (case RequestState h of
        CMD_SEND \<Rightarrow>
          Inr (USBH_BUSY, osMessagePut USBH_CONTROL_EVENT
            (upd_ctl (\<lambda>k. k\<lparr>cbuff := b, clength := len, cstate := CTRL_SETUP\<rparr>) (h\<lparr>RequestState := CMD_WAIT\<rparr>)))
      | CMD_WAIT \<Rightarrow>
          sbind (USBH_HandleControl env h) (\<lambda>(st, h).
            Inr (st,
              if st = USBH_OK then ctl_to CTRL_IDLE (h\<lparr>RequestState := CMD_SEND\<rparr>)
              else if st = USBH_FAIL then h\<lparr>RequestState := CMD_SEND\<rparr>
              else h))
      | CMD_IDLE \<Rightarrow> Inr (USBH_BUSY, h))"

section \<open>Standard requests\<close>

definition put_setup :: "setup_pkt \<Rightarrow> usb_host \<Rightarrow> usb_host" where
  "put_setup s = upd_ctl (\<lambda>k. k\<lparr>csetup := s\<rparr>)"

definition std_request :: "setup_pkt \<Rightarrow> usb_host \<Rightarrow> usb_host" where
  "std_request s h = (if RequestState h = CMD_SEND then put_setup s h else h)"

definition USB_REQ_CLEAR_FEATURE :: u8 where "USB_REQ_CLEAR_FEATURE = 0x01"
definition USB_REQ_SET_ADDRESS :: u8 where "USB_REQ_SET_ADDRESS = 0x05"
definition USB_REQ_GET_DESCRIPTOR :: u8 where "USB_REQ_GET_DESCRIPTOR = 0x06"
definition USB_REQ_SET_CONFIGURATION :: u8 where "USB_REQ_SET_CONFIGURATION = 0x09"
definition USB_REQ_SET_INTERFACE :: u8 where "USB_REQ_SET_INTERFACE = 0x0B"
definition USB_DESC_DEVICE :: u16 where "USB_DESC_DEVICE = 0x0100"
definition USB_DESC_CONFIGURATION :: u16 where "USB_DESC_CONFIGURATION = 0x0200"
definition USB_DESC_STRING :: u16 where "USB_DESC_STRING = 0x0300"

lemmas usb_request_codes = USB_REQ_CLEAR_FEATURE_def USB_REQ_SET_ADDRESS_def
  USB_REQ_GET_DESCRIPTOR_def USB_REQ_SET_CONFIGURATION_def USB_REQ_SET_INTERFACE_def
  USB_DESC_DEVICE_def USB_DESC_CONFIGURATION_def USB_DESC_STRING_def USB_H2D_def USB_D2H_def

definition get_descriptor_setup :: "u8 \<Rightarrow> u16 \<Rightarrow> u16 \<Rightarrow> setup_pkt" where
  "get_descriptor_setup req_type value_idx len =
     \<lparr>bmRequestType = USB_D2H OR req_type, bRequest = USB_REQ_GET_DESCRIPTOR, wValue = value_idx,
      wIndex = (if value_idx AND 0xFF00 = USB_DESC_STRING then 0x0409 else 0), wLength = len\<rparr>"

definition USBH_GetDescriptor ::
    "ll_env \<Rightarrow> u8 \<Rightarrow> u16 \<Rightarrow> buf_ref \<Rightarrow> u16 \<Rightarrow> usb_host \<Rightarrow> fault + (usbh_status \<times> usb_host)" where
  "USBH_GetDescriptor env req_type value_idx b len h =
     USBH_CtlReq env b len (std_request (get_descriptor_setup req_type value_idx len) h)"

definition no_data :: "u8 \<Rightarrow> u8 \<Rightarrow> u16 \<Rightarrow> u16 \<Rightarrow> setup_pkt" where
  "no_data recipient req v i =
     \<lparr>bmRequestType = USB_H2D OR recipient, bRequest = req, wValue = v, wIndex = i, wLength = 0\<rparr>"

definition USBH_SetAddress :: "ll_env \<Rightarrow> u8 \<Rightarrow> usb_host \<Rightarrow> fault + (usbh_status \<times> usb_host)" where
  "USBH_SetAddress env a h =
     USBH_CtlReq env BUF_NULL 0 (std_request (no_data 0 USB_REQ_SET_ADDRESS (ucast a) 0) h)"

definition USBH_SetCfg :: "ll_env \<Rightarrow> u16 \<Rightarrow> usb_host \<Rightarrow> fault + (usbh_status \<times> usb_host)" where
  "USBH_SetCfg env cfg_idx h =
     USBH_CtlReq env BUF_NULL 0 (std_request (no_data 0 USB_REQ_SET_CONFIGURATION cfg_idx 0) h)"

definition USBH_SetInterface :: "ll_env \<Rightarrow> u8 \<Rightarrow> u8 \<Rightarrow> usb_host \<Rightarrow> fault + (usbh_status \<times> usb_host)" where
  "USBH_SetInterface env ep_num alt h =
     USBH_CtlReq env BUF_NULL 0 (std_request (no_data 1 USB_REQ_SET_INTERFACE (ucast alt) (ucast ep_num)) h)"

definition USBH_ClrFeature :: "ll_env \<Rightarrow> u8 \<Rightarrow> usb_host \<Rightarrow> fault + (usbh_status \<times> usb_host)" where
  "USBH_ClrFeature env ep_num h =
     USBH_CtlReq env BUF_NULL 0 (std_request (no_data 2 USB_REQ_CLEAR_FEATURE 0 (ucast ep_num)) h)"

text \<open>The requests that read a descriptor and parse it when it has arrived.\<close>

definition USBH_Get_DevDesc :: "ll_env \<Rightarrow> u8 \<Rightarrow> usb_host \<Rightarrow> fault + (usbh_status \<times> usb_host)" where
  "USBH_Get_DevDesc env len h =
     sbind (USBH_GetDescriptor env 0 USB_DESC_DEVICE BUF_DATA (ucast len) h) (\<lambda>(st, h).
       if st = USBH_OK then
         sbind (USBH_ParseDevDesc (DevDesc (device h)) (bufs (device h) BUF_DATA) (ucast len)) (\<lambda>dd.
           Inr (st, upd_dev (\<lambda>d. d\<lparr>DevDesc := dd\<rparr>) h))
       else Inr (st, h))"

definition USBH_Get_CfgDesc :: "ll_env \<Rightarrow> u16 \<Rightarrow> usb_host \<Rightarrow> (fault + (usbh_status \<times> usb_host)) option" where
  "USBH_Get_CfgDesc env len h =
     (case USBH_GetDescriptor env 0 USB_DESC_CONFIGURATION BUF_RAW len h of
        Inl e \<Rightarrow> Some (Inl e)
      | Inr (st, h) \<Rightarrow>
          if st = USBH_OK then
            map_option (\<lambda>r. sbind r (\<lambda>c. Inr (st, upd_dev (\<lambda>d. d\<lparr>CfgDesc := c\<rparr>) h)))
              (USBH_ParseCfgDesc (CfgDesc (device h)) (bufs (device h) BUF_RAW) len)
          else Some (Inr (st, h)))"

definition USBH_Get_StringDesc ::
    "ll_env \<Rightarrow> u8 \<Rightarrow> buf_ref \<Rightarrow> u16 \<Rightarrow> usb_host \<Rightarrow> fault + (usbh_status \<times> usb_host)" where
  "USBH_Get_StringDesc env string_index b len h =
     sbind (USBH_GetDescriptor env 0 (USB_DESC_STRING OR ucast string_index) BUF_DATA len h) (\<lambda>(st, h).
       if st = USBH_OK then
         sbind (USBH_ParseStringDesc BUF_DATA b len (bufs (device h))) (\<lambda>m.
           Inr (st, upd_dev (\<lambda>d. d\<lparr>bufs := m\<rparr>) h))
       else Inr (st, h))"

section \<open>What the pipe functions do\<close>

text \<open>The pipes in use; only the first eleven are ever given out.\<close>

definition in_use :: "u32 list \<Rightarrow> nat set" where
  "in_use ps = {i. i < 11 \<and> bit (ps ! i) 15}"

lemma pipe_flag [simp]: "p AND 0x8000 = 0 \<longleftrightarrow> \<not> bit p 15" for p :: u32
proof -
  have "(0x8000 :: u32) = 2 ^ 15" by simp
  then show ?thesis by (simp only: and_exp_eq_0_iff_not_bit)
qed

lemma bit_pipe [simp]: "bit (0x8000 OR ucast e :: u32) 15"
proof -
  have "(0x8000 :: u32) = push_bit 15 1" by simp
  then show ?thesis by (simp only: bit_or_iff bit_push_bit_iff) simp
qed

lemma free_pipe_from_spec:
  assumes "idx + n \<le> length ps" and "idx + n < 0xFFFF"
  shows "(\<exists>i. free_pipe_from ps idx n = Inr (of_nat i) \<and> idx \<le> i \<and> i < idx + n \<and> \<not> bit (ps ! i) 15) \<or>
    (free_pipe_from ps idx n = Inr 0xFFFF \<and> (\<forall>i. idx \<le> i \<and> i < idx + n \<longrightarrow> bit (ps ! i) 15))"
  using assms
proof (induction n arbitrary: idx)
  case 0
  then show ?case by auto
next
  case (Suc n)
  show ?case
  proof (cases "bit (ps ! idx) 15")
    case True
    have "free_pipe_from ps idx (Suc n) = free_pipe_from ps (idx + 1) n" using True Suc.prems by simp
    moreover have "i = idx \<or> idx + 1 \<le> i" if "idx \<le> i" for i using that by linarith
    ultimately show ?thesis using Suc.IH [of "idx + 1"] Suc.prems True by fastforce
  next
    case False
    then show ?thesis using Suc.prems by auto
  qed
qed

lemma alloc_pipe_spec:
  assumes "length ps = USBH_MAX_PIPES_NBR"
  shows "\<exists>p ps'. USBH_AllocPipe ep ps = Inr (p, ps') \<and> length ps' = USBH_MAX_PIPES_NBR \<and>
      (if in_use ps = {..<11} then p = 0xFF \<and> ps' = ps
       else unat p \<notin> in_use ps \<and> unat p < 11 \<and> in_use ps' = insert (unat p) (in_use ps))"
proof -
  have len: "length ps = 15" using assms by (simp add: USBH_MAX_PIPES_NBR_def)
  consider (free) i where "free_pipe_from ps 0 11 = Inr (of_nat i)" "i < 11" "\<not> bit (ps ! i) 15"
    | (full) "free_pipe_from ps 0 11 = Inr 0xFFFF" "\<forall>i<11. bit (ps ! i) 15"
    using free_pipe_from_spec [of 0 11 ps] len by (auto simp del: free_pipe_from.simps)
  then show ?thesis
  proof cases
    case free
    have u: "unat (of_nat i :: u16) = i" "unat (ucast (of_nat i :: u16) :: u8) = i" "(of_nat i :: u16) \<noteq> 0xFFFF"
      using free(2) by (auto simp: unat_of_nat unsigned_ucast_eq take_bit_nat_eq_self dest: arg_cong [where f = unat])
    have n: "in_use ps \<noteq> {..<11}" using free(2,3) by (auto simp: in_use_def)
    have "in_use (ps[i := 0x8000 OR ucast ep]) = insert i (in_use ps)"
      using free(2) len by (auto simp: in_use_def nth_list_update)
    then show ?thesis
      using free len u n by (simp add: USBH_AllocPipe_def USBH_GetFreePipe_def USBH_MAX_PIPES_NBR_def in_use_def)
  next
    case full
    then have "in_use ps = {..<11}" by (auto simp: in_use_def)
    then show ?thesis using full len by (simp add: USBH_AllocPipe_def USBH_GetFreePipe_def USBH_MAX_PIPES_NBR_def)
  qed
qed

lemma free_pipe_spec:
  assumes "length ps = USBH_MAX_PIPES_NBR"
  shows "\<exists>ps'. USBH_FreePipe idx ps = Inr ps' \<and> length ps' = USBH_MAX_PIPES_NBR \<and>
      in_use ps' = in_use ps - {unat idx}"
proof -
  have len: "length ps = 15" using assms by (simp add: USBH_MAX_PIPES_NBR_def)
  show ?thesis
  proof (cases "idx < 11")
    case True
    then have "unat idx < 11" by (simp add: word_less_nat_alt)
    moreover have "\<not> bit (p AND 0x7FFF) 15" for p :: u32
    proof -
      have "(0x7FFF :: u32) = mask 15" by (simp add: mask_eq_exp_minus_1)
      then show ?thesis by (simp only: bit_and_iff bit_mask_iff) simp
    qed
    ultimately show ?thesis
      using True len by (auto simp: USBH_FreePipe_def in_use_def nth_list_update USBH_MAX_PIPES_NBR_def)
  next
    case False
    then have "\<not> unat idx < 11" by (simp add: word_less_nat_alt)
    then show ?thesis using False len by (auto simp: USBH_FreePipe_def in_use_def USBH_MAX_PIPES_NBR_def)
  qed
qed

text \<open>
  A pipe is given out only when it is free: allocation returns a pipe that was not in use and
  takes exactly this one, or, when all eleven are taken, 0xFF and takes none; releasing a pipe
  makes exactly this one free again. No pipe number is ever outside the table.
\<close>

lemma pipes_allocated:
  assumes "length ps = USBH_MAX_PIPES_NBR"
  shows "(\<exists>p ps'. USBH_AllocPipe ep ps = Inr (p, ps') \<and> length ps' = USBH_MAX_PIPES_NBR \<and>
      (if in_use ps = {..<11} then p = 0xFF \<and> ps' = ps
       else unat p \<notin> in_use ps \<and> unat p < 11 \<and> in_use ps' = insert (unat p) (in_use ps))) \<and>
    (\<exists>ps'. USBH_FreePipe idx ps = Inr ps' \<and> length ps' = USBH_MAX_PIPES_NBR \<and>
      in_use ps' = in_use ps - {unat idx})"
  using alloc_pipe_spec [OF assms] free_pipe_spec [OF assms] by (rule conjI)

end
