(* ===== verification/Usbh_Host.thy ===== *)
theory Usbh_Host
  imports Usbh_Core
begin

text \<open>
  The host state machine (usbh\_core.c): set-up, enumeration of an attached device, the choice of
  a class driver, the interrupts, and the thread that runs it. The class drivers are a table of
  operations on the host and on a state of their own.
\<close>

section \<open>Class drivers\<close>

record 's driver =
  ClassCode :: u8
  cl_Init :: "ll_env \<Rightarrow> usb_host \<times> 's \<Rightarrow> (fault + (usbh_status \<times> usb_host \<times> 's)) option"
  cl_DeInit :: "usb_host \<times> 's \<Rightarrow> fault + (usb_host \<times> 's)"
  cl_Requests :: "ll_env \<Rightarrow> usb_host \<times> 's \<Rightarrow> fault + (usbh_status \<times> usb_host \<times> 's)"
  cl_BgndProcess :: "ll_env \<Rightarrow> usb_host \<times> 's \<Rightarrow> fault + (usb_host \<times> 's)"
  cl_SOFProcess :: "usb_host \<times> 's \<Rightarrow> fault + (usb_host \<times> 's)"

type_synonym 's drivers = "usb_class \<Rightarrow> 's driver"

definition USBH_MAX_NUM_SUPPORTED_CLASS :: nat where "USBH_MAX_NUM_SUPPORTED_CLASS = 3"

section \<open>Set-up\<close>

text \<open>The host as the start of the firmware finds it: all its memory is zero.\<close>

definition hUSBHost :: usb_host where
  "hUSBHost = \<lparr>gState = HOST_IDLE, EnumState = ENUM_IDLE, RequestState = CMD_IDLE,
     Control = \<lparr>pipe_in = 0, pipe_out = 0, pipe_size = 0, cbuff = BUF_NULL, clength = 0, ctimer = 0,
       csetup = no_data 0 0 0 0, cstate = CTRL_IDLE, errorcount = 0\<rparr>,
     device = \<lparr>bufs = (\<lambda>_. [])(BUF_DATA := replicate 512 0, BUF_RAW := replicate 512 0),
       dev_address = 0, speed = 0, is_connected = False, current_interface = 0,
       DevDesc = \<lparr>dev_bLength = 0, dev_bDescriptorType = 0, bcdUSB = 0, bDeviceClass = 0, bDeviceSubClass = 0,
         bDeviceProtocol = 0, bMaxPacketSize = 0, idVendor = 0, idProduct = 0, bcdDevice = 0,
         iManufacturer = 0, iProduct = 0, iSerialNumber = 0, bNumConfigurations = 0\<rparr>, CfgDesc = zero_cfg\<rparr>,
     pClass = [], pActiveClass = None, Pipes = replicate 15 0, Timer = 0, host_id = 0,
     os_events = (\<lambda>_. False), ll_calls = []\<rparr>"

definition DeInitStateMachine :: "usb_host \<Rightarrow> usb_host" where
  "DeInitStateMachine h =
     upd_dev (\<lambda>d. d\<lparr>bufs := (bufs d)(BUF_DATA := replicate USBH_MAX_DATA_BUFFER 0), dev_address := 0,
         speed := USBH_SPEED_FULL\<rparr>)
     (upd_ctl (\<lambda>k. k\<lparr>cstate := CTRL_SETUP, pipe_size := 0x40, errorcount := 0\<rparr>)
       (h\<lparr>Pipes := replicate USBH_MAX_PIPES_NBR 0, gState := HOST_IDLE, EnumState := ENUM_IDLE,
          RequestState := CMD_SEND, Timer := 0\<rparr>))"

definition USBH_LL_SetTimer :: "u32 \<Rightarrow> usb_host \<Rightarrow> usb_host" where
  "USBH_LL_SetTimer t h = h\<lparr>Timer := t\<rparr>"

text \<open>The driver of the chip is started with its frame number as the timer.\<close>

definition USBH_LL_Init :: "u32 \<Rightarrow> usb_host \<Rightarrow> usb_host" where
  "USBH_LL_Init frame h = USBH_LL_SetTimer frame (ll LL_Init h)"

definition USBH_Init :: "u32 \<Rightarrow> u8 \<Rightarrow> usb_host \<Rightarrow> usb_host" where
  "USBH_Init frame i h =
     USBH_LL_Init frame (DeInitStateMachine (h\<lparr>host_id := i, pActiveClass := None, pClass := []\<rparr>))"

definition USBH_RegisterClass :: "usb_class \<Rightarrow> usb_host \<Rightarrow> usbh_status \<times> usb_host" where
  "USBH_RegisterClass c h =
     (if length (pClass h) < USBH_MAX_NUM_SUPPORTED_CLASS
      then (USBH_OK, h\<lparr>pClass := pClass h @ [c]\<rparr>) else (USBH_FAIL, h))"

definition USBH_LL_DriverVBUS :: "bool \<Rightarrow> usb_host \<Rightarrow> usb_host" where
  "USBH_LL_DriverVBUS on h = ll (Delay 200) (ll (LL_DriverVBUS on) h)"

definition USBH_Start :: "usb_host \<Rightarrow> usb_host" where
  "USBH_Start h = USBH_LL_DriverVBUS True (ll LL_Start h)"

definition free_control_pipes :: "usb_host \<Rightarrow> fault + usb_host" where
  "free_control_pipes h =
     sbind (free_pipe (pipe_in (Control h)) h) (\<lambda>h. free_pipe (pipe_out (Control h)) h)"

definition USBH_Stop :: "usb_host \<Rightarrow> fault + usb_host" where
  "USBH_Stop h = free_control_pipes (USBH_LL_DriverVBUS False (ll LL_Stop h))"

definition USBH_ReEnumerate :: "usb_host \<Rightarrow> fault + usb_host" where
  "USBH_ReEnumerate h =
     sbind (USBH_Stop h) (\<lambda>h.
       Inr (osMessagePut USBH_PORT_EVENT (USBH_Start (DeInitStateMachine (ll (Delay 200) h)))))"

text \<open>The set-up of the firmware (MY\_USBH\_Init in usbh\_conf.c).\<close>

definition MY_USBH_Init :: "u32 \<Rightarrow> usb_host \<Rightarrow> usb_host" where
  "MY_USBH_Init frame h =
     (let h = USBH_Init frame 0 h;
          h = snd (USBH_RegisterClass Vendor_Class h);
          h = snd (USBH_RegisterClass MIDI_Class h);
          h = snd (USBH_RegisterClass HID_Class h)
      in USBH_Start h)"

section \<open>Interfaces\<close>

definition USBH_SelectInterface :: "u8 \<Rightarrow> usb_host \<Rightarrow> fault + (usbh_status \<times> usb_host)" where
  "USBH_SelectInterface i h =
     (if i < bNumInterfaces (CfgDesc (device h)) then
        \<comment> \<open>the class of the interface is read for the log\<close>
        sbind (nth_e (Itf_Desc (CfgDesc (device h))) (unat i)) (\<lambda>_.
          Inr (USBH_OK, upd_dev (\<lambda>d. d\<lparr>current_interface := i\<rparr>) h))
      else Inr (USBH_FAIL, h))"

definition USBH_GetActiveClass :: "usb_host \<Rightarrow> u8" where
  "USBH_GetActiveClass h = bInterfaceClass (Itf_Desc (CfgDesc (device h)) ! 0)"

fun find_itf :: "(itf_desc \<Rightarrow> bool) \<Rightarrow> itf_desc list \<Rightarrow> nat \<Rightarrow> nat \<Rightarrow> fault + u8" where
  "find_itf p itfs i 0 = Inr 0xFF"
| "find_itf p itfs i (Suc n) =
     sbind (nth_e itfs i) (\<lambda>x. if p x then Inr (of_nat i) else find_itf p itfs (i + 1) n)"

definition USBH_FindInterface :: "u8 \<Rightarrow> u8 \<Rightarrow> u8 \<Rightarrow> usb_host \<Rightarrow> fault + u8" where
  "USBH_FindInterface cl sub proto h =
     find_itf (\<lambda>i. (bInterfaceClass i = cl \<or> cl = 0xFF) \<and> (bInterfaceSubClass i = sub \<or> sub = 0xFF) \<and>
         (bInterfaceProtocol i = proto \<or> proto = 0xFF))
       (Itf_Desc (CfgDesc (device h))) 0 USBH_MAX_NUM_INTERFACES"

definition USBH_FindInterfaceIndex :: "u8 \<Rightarrow> u8 \<Rightarrow> usb_host \<Rightarrow> fault + u8" where
  "USBH_FindInterfaceIndex num alt h =
     find_itf (\<lambda>i. bInterfaceNumber i = num \<and> bAlternateSetting i = alt)
       (Itf_Desc (CfgDesc (device h))) 0 USBH_MAX_NUM_INTERFACES"

text \<open>How the class drivers take a pipe for an endpoint and give it back.\<close>

definition open_class_pipe :: "u8 \<Rightarrow> u8 \<Rightarrow> u16 \<Rightarrow> usb_host \<Rightarrow> fault + (u8 \<times> usb_host)" where
  "open_class_pipe ep typ mps h =
     sbind (alloc_pipe ep h) (\<lambda>(p, h).
       Inr (p, ll (LL_SetToggle p 0)
         (USBH_OpenPipe p ep (dev_address (device h)) (speed (device h)) typ mps h)))"

definition release_pipe :: "u8 \<Rightarrow> usb_host \<Rightarrow> fault + usb_host" where
  "release_pipe p h = free_pipe p (USBH_ClosePipe p h)"

section \<open>Enumeration\<close>

definition USBH_DEVICE_ADDRESS :: u8 where "USBH_DEVICE_ADDRESS = 1"

text \<open>Both control pipes, opened again with the address and the packet size known so far.\<close>

definition open_control_pipes :: "usb_host \<Rightarrow> usb_host" where
  "open_control_pipes h =
     (let k = Control h; d = device h in
      USBH_OpenPipe (pipe_out k) 0x00 (dev_address d) (speed d) USBH_EP_CONTROL (ucast (pipe_size k))
     (USBH_OpenPipe (pipe_in k) 0x80 (dev_address d) (speed d) USBH_EP_CONTROL (ucast (pipe_size k)) h))"

text \<open>
  The string requests of the enumeration: the index, the state that follows, and whether the
  handler signals a change of state after a string that was read.
\<close>

definition enum_string ::
    "ll_env \<Rightarrow> u8 \<Rightarrow> (usb_host \<Rightarrow> usbh_status \<times> usb_host) \<Rightarrow> bool \<Rightarrow> usb_host \<Rightarrow> fault + (usbh_status \<times> usb_host)" where
  "enum_string env idx next notify_read h =
     (if idx \<noteq> 0 then
        sbind (USBH_Get_StringDesc env idx BUF_DATA 0xFF h) (\<lambda>(st, h).
          if st = USBH_OK then
            Inr (let (s, h) = next h in
                 (s, if notify_read then osMessagePut USBH_STATE_CHANGED_EVENT h else h))
          else Inr (USBH_BUSY, h))
      else Inr (let (s, h) = next h in (s, osMessagePut USBH_STATE_CHANGED_EVENT h)))"

definition USBH_HandleEnum :: "ll_env \<Rightarrow> usb_host \<Rightarrow> (fault + (usbh_status \<times> usb_host)) option" where
  "USBH_HandleEnum env h =
     (case EnumState h of
        ENUM_IDLE \<Rightarrow>
          Some (sbind (USBH_Get_DevDesc env 8 h) (\<lambda>(st, h). Inr (USBH_BUSY,
            if st = USBH_OK then
              open_control_pipes
                ((upd_ctl (\<lambda>k. k\<lparr>pipe_size := bMaxPacketSize (DevDesc (device h))\<rparr>) h)
                 \<lparr>EnumState := ENUM_GET_FULL_DEV_DESC\<rparr>)
            else h)))
      | ENUM_GET_FULL_DEV_DESC \<Rightarrow>
          Some (sbind (USBH_Get_DevDesc env 18 h) (\<lambda>(st, h). Inr (USBH_BUSY,
            if st = USBH_OK then h\<lparr>EnumState := ENUM_SET_ADDR\<rparr> else h)))
      | ENUM_SET_ADDR \<Rightarrow>
          Some (sbind (USBH_SetAddress env USBH_DEVICE_ADDRESS h) (\<lambda>(st, h). Inr (USBH_BUSY,
            if st = USBH_OK then
              open_control_pipes
                ((upd_dev (\<lambda>d. d\<lparr>dev_address := USBH_DEVICE_ADDRESS\<rparr>) (ll (Delay 2) h))
                 \<lparr>EnumState := ENUM_GET_CFG_DESC\<rparr>)
            else h)))
      | ENUM_GET_CFG_DESC \<Rightarrow>
          map_option (\<lambda>r. sbind r (\<lambda>(st, h). Inr (USBH_BUSY,
            if st = USBH_OK then h\<lparr>EnumState := ENUM_GET_FULL_CFG_DESC\<rparr> else h)))
            (USBH_Get_CfgDesc env 9 h)
      | ENUM_GET_FULL_CFG_DESC \<Rightarrow>
          map_option (\<lambda>r. sbind r (\<lambda>(st, h). Inr (USBH_BUSY,
            if st = USBH_OK then h\<lparr>EnumState := ENUM_GET_MFC_STRING_DESC\<rparr> else h)))
            (USBH_Get_CfgDesc env (wTotalLength (CfgDesc (device h))) h)
      | ENUM_GET_MFC_STRING_DESC \<Rightarrow>
          Some (enum_string env (iManufacturer (DevDesc (device h)))
            (\<lambda>h. (USBH_BUSY, h\<lparr>EnumState := ENUM_GET_PRODUCT_STRING_DESC\<rparr>)) True h)
      | ENUM_GET_PRODUCT_STRING_DESC \<Rightarrow>
          Some (enum_string env (iProduct (DevDesc (device h)))
            (\<lambda>h. (USBH_BUSY, h\<lparr>EnumState := ENUM_GET_SERIALNUM_STRING_DESC\<rparr>)) False h)
      | ENUM_GET_SERIALNUM_STRING_DESC \<Rightarrow>
          Some (enum_string env (iSerialNumber (DevDesc (device h))) (\<lambda>h. (USBH_OK, h)) False h))"

section \<open>The choice of a class\<close>

text \<open>Whether one of the interfaces from i on, n of them, has the class of the driver.\<close>

fun has_itf :: "u8 \<Rightarrow> itf_desc list \<Rightarrow> nat \<Rightarrow> nat \<Rightarrow> fault + bool" where
  "has_itf code itfs i 0 = Inr False"
| "has_itf code itfs i (Suc n) =
     sbind (nth_e itfs i) (\<lambda>x. if code = bInterfaceClass x then Inr True else has_itf code itfs (i + 1) n)"

text \<open>
  The registered drivers in order: each with an interface of its class is started, until one does
  not answer that it does not support the device. The status is that of the last start.
\<close>

fun try_classes ::
    "'s drivers \<Rightarrow> ll_env \<Rightarrow> usb_class list \<Rightarrow> usbh_status \<Rightarrow> usb_host \<times> 's \<Rightarrow>
     (fault + (usbh_status \<times> usb_host \<times> 's)) option" where
  "try_classes drv env [] st (h, s) = Some (Inr (st, h, s))"
| "try_classes drv env (c # cs) st (h, s) =
     (case has_itf (ClassCode (drv c)) (Itf_Desc (CfgDesc (device h))) 0
             (unat (bNumInterfaces (CfgDesc (device h)))) of
        Inl e \<Rightarrow> Some (Inl e)
      | Inr False \<Rightarrow> try_classes drv env cs st (h, s)
      | Inr True \<Rightarrow>
          (case cl_Init (drv c) env (h\<lparr>pActiveClass := Some c\<rparr>, s) of
             None \<Rightarrow> None
           | Some (Inl e) \<Rightarrow> Some (Inl e)
           | Some (Inr (st, h, s)) \<Rightarrow>
               if st = USBH_NOT_SUPPORTED then try_classes drv env cs st (h\<lparr>pActiveClass := None\<rparr>, s)
               else Some (Inr (st, h, s))))"

definition HOST_USER_SELECT_CONFIGURATION :: nat where "HOST_USER_SELECT_CONFIGURATION = 1"
definition HOST_USER_CLASS_ACTIVE :: nat where "HOST_USER_CLASS_ACTIVE = 2"
definition HOST_USER_CLASS_SELECTED :: nat where "HOST_USER_CLASS_SELECTED = 3"
definition HOST_USER_CONNECTION :: nat where "HOST_USER_CONNECTION = 4"
definition HOST_USER_DISCONNECTION :: nat where "HOST_USER_DISCONNECTION = 5"

text \<open>
  All three entries of the table are visited; one that is not registered is a null pointer.
\<close>

definition check_class ::
    "'s drivers \<Rightarrow> ll_env \<Rightarrow> usb_host \<times> 's \<Rightarrow> (fault + (usb_host \<times> 's)) option" where
  "check_class drv env = (\<lambda>(h, s).
     if pClass h = [] then Some (Inr (osMessagePut USBH_STATE_CHANGED_EVENT h, s))
     else
       (case try_classes drv env (pClass h) USBH_NOT_SUPPORTED (h\<lparr>pActiveClass := None\<rparr>, s) of
          None \<Rightarrow> None
        | Some (Inl e) \<Rightarrow> Some (Inl e)
        | Some (Inr (st, h, s)) \<Rightarrow>
            if pActiveClass h = None \<and> length (pClass h) < USBH_MAX_NUM_SUPPORTED_CLASS
            then Some (Inl Dangling)
            else Some (Inr (osMessagePut USBH_STATE_CHANGED_EVENT
              (if pActiveClass h \<noteq> None \<and> st = USBH_OK
               then ll (UserCall HOST_USER_CLASS_SELECTED) (h\<lparr>gState := HOST_CLASS_REQUEST\<rparr>)
               else h\<lparr>gState := HOST_ABORT_STATE\<rparr>), s))))"

section \<open>The host process\<close>

definition USBH_LL_GetSpeed :: "ll_env \<Rightarrow> u8" where
  "USBH_LL_GetSpeed env =
     (if hcd_speed env = 0 then USBH_SPEED_HIGH else if hcd_speed env = 2 then USBH_SPEED_LOW
      else USBH_SPEED_FULL)"

definition attached :: "ll_env \<Rightarrow> usb_host \<Rightarrow> fault + usb_host" where
  "attached env h =
     (let h = upd_dev (\<lambda>d. d\<lparr>speed := USBH_LL_GetSpeed env\<rparr>) (ll (Delay 100) h)\<lparr>gState := HOST_ENUMERATION\<rparr> in
      sbind (alloc_pipe 0x00 h) (\<lambda>(po, h).
      sbind (alloc_pipe 0x80 (upd_ctl (\<lambda>k. k\<lparr>pipe_out := po\<rparr>) h)) (\<lambda>(pi, h).
        Inr (osMessagePut USBH_PORT_EVENT (open_control_pipes (upd_ctl (\<lambda>k. k\<lparr>pipe_in := pi\<rparr>) h))))))"

text \<open>The driver of the chip is stopped, initialised and started again, with pauses.\<close>

definition restart_hcd :: "usb_host \<Rightarrow> usb_host" where
  "restart_hcd h =
     fold ll [Delay 100, LL_Stop, Delay 100, LL_Init, Delay 100, LL_Start, Delay 100] h"

definition USBH_Process ::
    "'s drivers \<Rightarrow> ll_env \<Rightarrow> usb_host \<times> 's \<Rightarrow> (fault + (usb_host \<times> 's)) option" where
  "USBH_Process drv env = (\<lambda>(h, s).
     case gState h of
       HOST_IDLE \<Rightarrow>
         Some (Inr (if is_connected (device h)
           then osMessagePut USBH_PORT_EVENT
             (ll LL_ResetPort (ll (Delay 200) (h\<lparr>gState := HOST_DEV_WAIT_FOR_ATTACHMENT\<rparr>)))
           else h, s))
     | HOST_DEV_ATTACHED \<Rightarrow> Some (sbind (attached env h) (\<lambda>h. Inr (h, s)))
     | HOST_ENUMERATION \<Rightarrow>
         map_option (\<lambda>r. sbind r (\<lambda>(st, h). Inr
           (if st = USBH_OK then
              let h = upd_dev (\<lambda>d. d\<lparr>current_interface := 0\<rparr>) h in
              if bNumConfigurations (DevDesc (device h)) = 1
              then osMessagePut USBH_PORT_EVENT (h\<lparr>gState := HOST_SET_CONFIGURATION\<rparr>)
              else h\<lparr>gState := HOST_INPUT\<rparr>
            else osMessagePut USBH_PORT_EVENT (ll (Delay 1) h), s)))
           (USBH_HandleEnum env h)
     | HOST_INPUT \<Rightarrow>
         Some (Inr (osMessagePut USBH_STATE_CHANGED_EVENT
           (ll (UserCall HOST_USER_SELECT_CONFIGURATION) h\<lparr>gState := HOST_SET_CONFIGURATION\<rparr>), s))
     | HOST_SET_CONFIGURATION \<Rightarrow>
         Some (sbind (USBH_SetCfg env (ucast (bConfigurationValue (CfgDesc (device h)))) h) (\<lambda>(st, h).
           Inr (osMessagePut USBH_PORT_EVENT
             (if st = USBH_OK then h\<lparr>gState := HOST_CHECK_CLASS\<rparr> else h), s)))
     | HOST_CHECK_CLASS \<Rightarrow> check_class drv env (h, s)
     | HOST_CLASS_REQUEST \<Rightarrow>
         (case pActiveClass h of
            Some c \<Rightarrow> Some (sbind (cl_Requests (drv c) env (h, s)) (\<lambda>(st, h, s).
              Inr (if st = USBH_OK then h\<lparr>gState := HOST_CLASS\<rparr> else h, s)))
          | None \<Rightarrow> Some (Inr (osMessagePut USBH_STATE_CHANGED_EVENT (h\<lparr>gState := HOST_ABORT_STATE\<rparr>), s)))
     | HOST_CLASS \<Rightarrow>
         (case pActiveClass h of
            Some c \<Rightarrow> Some (cl_BgndProcess (drv c) env (h, s))
          | None \<Rightarrow> Some (Inr (h, s)))
     | HOST_DEV_DISCONNECTED \<Rightarrow>
         (let h = DeInitStateMachine h in
          case pActiveClass h of
            Some c \<Rightarrow> Some (sbind (cl_DeInit (drv c) (h, s)) (\<lambda>(h, s).
              Inr (restart_hcd (h\<lparr>pActiveClass := None\<rparr>), s)))
          | None \<Rightarrow> Some (Inr (h, s)))
     | _ \<Rightarrow> Some (Inr (h, s)))"

section \<open>Interrupts and the host thread\<close>

definition USBH_LL_Connect :: "usb_host \<Rightarrow> usb_host" where
  "USBH_LL_Connect h =
     osMessagePut USBH_PORT_EVENT
       (if gState h = HOST_IDLE
        then ll (UserCall HOST_USER_CONNECTION) (upd_dev (\<lambda>d. d\<lparr>is_connected := True\<rparr>) h)
        else if gState h = HOST_DEV_WAIT_FOR_ATTACHMENT then h\<lparr>gState := HOST_DEV_ATTACHED\<rparr>
        else h)"

definition USBH_LL_Disconnect :: "usb_host \<Rightarrow> fault + usb_host" where
  "USBH_LL_Disconnect h =
     sbind (free_control_pipes (ll LL_Stop h)) (\<lambda>h.
       Inr (osMessagePut USBH_PORT_EVENT
         ((ll LL_Start (ll (UserCall HOST_USER_DISCONNECTION) (upd_dev (\<lambda>d. d\<lparr>is_connected := False\<rparr>) h)))
          \<lparr>gState := HOST_DEV_DISCONNECTED\<rparr>)))"

definition USBH_HandleSof :: "'s drivers \<Rightarrow> usb_host \<times> 's \<Rightarrow> fault + (usb_host \<times> 's)" where
  "USBH_HandleSof drv = (\<lambda>(h, s).
     (case pActiveClass h of
        Some c \<Rightarrow> if gState h = HOST_CLASS then cl_SOFProcess (drv c) (h, s) else Inr (h, s)
      | None \<Rightarrow> Inr (h, s)))"

definition USBH_LL_IncTimer :: "'s drivers \<Rightarrow> usb_host \<times> 's \<Rightarrow> fault + (usb_host \<times> 's)" where
  "USBH_LL_IncTimer drv = (\<lambda>(h, s). USBH_HandleSof drv (h\<lparr>Timer := Timer h + 1\<rparr>, s))"

definition USBH_LL_NotifyURBChange :: "usb_host \<Rightarrow> usb_host" where
  "USBH_LL_NotifyURBChange = osMessagePut USBH_URB_EVENT"

text \<open>The thread takes the lowest pending event and calls the process; it waits when there is none.\<close>

definition chEvtWaitOne :: "(os_event \<Rightarrow> bool) \<Rightarrow> os_event option" where
  "chEvtWaitOne ev =
     (if ev USBH_PORT_EVENT then Some USBH_PORT_EVENT
      else if ev USBH_URB_EVENT then Some USBH_URB_EVENT
      else if ev USBH_CONTROL_EVENT then Some USBH_CONTROL_EVENT
      else if ev USBH_CLASS_EVENT then Some USBH_CLASS_EVENT
      else if ev USBH_STATE_CHANGED_EVENT then Some USBH_STATE_CHANGED_EVENT
      else None)"

definition USBH_Process_OS ::
    "'s drivers \<Rightarrow> ll_env \<Rightarrow> usb_host \<times> 's \<Rightarrow> (fault + (usb_host \<times> 's)) option" where
  "USBH_Process_OS drv env = (\<lambda>(h, s).
     case chEvtWaitOne (os_events h) of
       None \<Rightarrow> Some (Inr (h, s))
     | Some e \<Rightarrow> USBH_Process drv env (h\<lparr>os_events := (os_events h)(e := False)\<rparr>, s))"

end
