(* ===== verification/Usbh_Enum.thy ===== *)
theory Usbh_Enum
  imports Usbh_Host
begin

text \<open>
  What the host state machine does over time: a control transfer step by step, the enumeration of
  a device that answers, and what becomes of one that stalls a request.
  The host thread is run against a device given by its answers to setup packets.
\<close>

section \<open>Running the thread\<close>

fun run_thread ::
    "'s drivers \<Rightarrow> (usb_host \<Rightarrow> ll_env) \<Rightarrow> nat \<Rightarrow> usb_host \<times> 's \<Rightarrow> (fault + (usb_host \<times> 's)) option" where
  "run_thread drv env 0 x = Some (Inr x)"
| "run_thread drv env (Suc n) x =
     (case USBH_Process_OS drv (env (fst x)) x of
        Some (Inr y) \<Rightarrow> run_thread drv env n y
      | r \<Rightarrow> r)"

lemma run_thread_add:
  "run_thread drv env m x = Some (Inr y) \<Longrightarrow> run_thread drv env (m + n) x = run_thread drv env n y"
proof (induction m arbitrary: x)
  case 0
  then show ?case by simp
next
  case (Suc m)
  then show ?case by (auto split: option.splits sum.splits)
qed

lemma run_thread_snoc:
  assumes "run_thread drv env m x = Some (Inr y)" and "USBH_Process_OS drv (env (fst y)) y = Some (Inr z)"
  shows "run_thread drv env (Suc m) x = Some (Inr z)"
  using run_thread_add [OF assms(1), of 1] assms(2) by simp

text \<open>A device that completes every transfer, given by its answers.\<close>

definition dev_env :: "(setup_pkt \<Rightarrow> u8 list) \<Rightarrow> usb_host \<Rightarrow> ll_env" where
  "dev_env resp h = \<lparr>urb_of = (\<lambda>_. URB_DONE), xfer_of = (\<lambda>_. 0), rx_of = resp (csetup (Control h)),
     hcd_speed = 1\<rparr>"

section \<open>A request of the enumeration\<close>

text \<open>The buffer, the length and the setup packet of the request that a state issues.\<close>

definition enum_req :: "usb_host \<Rightarrow> (buf_ref \<times> u16 \<times> setup_pkt) option" where
  "enum_req h =
     (let str = (\<lambda>i. if i = 0 then None
        else Some (BUF_DATA, 0xFF, get_descriptor_setup 0 (USB_DESC_STRING OR ucast (i :: u8)) 0xFF)) in
      case EnumState h of
        ENUM_IDLE \<Rightarrow> Some (BUF_DATA, 8, get_descriptor_setup 0 USB_DESC_DEVICE 8)
      | ENUM_GET_FULL_DEV_DESC \<Rightarrow> Some (BUF_DATA, 18, get_descriptor_setup 0 USB_DESC_DEVICE 18)
      | ENUM_SET_ADDR \<Rightarrow> Some (BUF_NULL, 0, no_data 0 USB_REQ_SET_ADDRESS (ucast USBH_DEVICE_ADDRESS) 0)
      | ENUM_GET_CFG_DESC \<Rightarrow> Some (BUF_RAW, 9, get_descriptor_setup 0 USB_DESC_CONFIGURATION 9)
      | ENUM_GET_FULL_CFG_DESC \<Rightarrow>
          (let n = wTotalLength (CfgDesc (device h))
           in Some (BUF_RAW, n, get_descriptor_setup 0 USB_DESC_CONFIGURATION n))
      | ENUM_GET_MFC_STRING_DESC \<Rightarrow> str (iManufacturer (DevDesc (device h)))
      | ENUM_GET_PRODUCT_STRING_DESC \<Rightarrow> str (iProduct (DevDesc (device h)))
      | ENUM_GET_SERIALNUM_STRING_DESC \<Rightarrow> str (iSerialNumber (DevDesc (device h))))"

lemma enum_busy:
  assumes "enum_req h = Some (b, len, s)" and "USBH_CtlReq env b len (std_request s h) = Inr (st, h1)"
    and "st \<noteq> USBH_OK"
  shows "USBH_HandleEnum env h = Some (Inr (USBH_BUSY, h1))"
  using assms
  by (cases "EnumState h")
    (auto simp: enum_req_def USBH_HandleEnum_def USBH_Get_DevDesc_def USBH_Get_CfgDesc_def
      USBH_Get_StringDesc_def USBH_GetDescriptor_def USBH_SetAddress_def enum_string_def Let_def
      split: if_splits)

text \<open>The host in the middle of a request.\<close>

definition mid ::
    "usb_host \<Rightarrow> buf_ref \<times> u16 \<times> setup_pkt \<Rightarrow> CTRL_State \<Rightarrow> ll_call list \<Rightarrow> (os_event \<Rightarrow> bool) \<Rightarrow> u16 \<Rightarrow> usb_host" where
  "mid h r c a e t = h\<lparr>RequestState := CMD_WAIT,
     Control := (Control h)\<lparr>csetup := snd (snd r), cbuff := fst r, clength := fst (snd r),
       cstate := c, ctimer := t\<rparr>, ll_calls := a, os_events := e\<rparr>"

lemma mid_fields [simp]:
  "gState (mid h r c a e t) = gState h" "EnumState (mid h r c a e t) = EnumState h"
  "RequestState (mid h r c a e t) = CMD_WAIT" "device (mid h r c a e t) = device h"
  "os_events (mid h r c a e t) = e" "csetup (Control (mid h r c a e t)) = snd (snd r)"
  "enum_req (mid h r c a e t) = enum_req h"
  by (cases "EnumState h"; simp_all add: mid_def enum_req_def Let_def)+

lemma mid_put [simp]:
  "osMessagePut v (mid h r c a e t) = mid h r c a (e(v := True)) t"
  "ll x (mid h r c a e t) = mid h r c (a @ [x]) e t"
  "ctl_to c' (mid h r c a e t) = mid h r c' a e t"
  "mid h r c a e t\<lparr>os_events := e'\<rparr> = mid h r c a e' t"
  by (simp_all add: mid_def osMessagePut_def ll_def ctl_to_def upd_ctl_def)

text \<open>One call of the thread while the enumeration is not finished.\<close>

lemma thread_enum:
  assumes "gState h = HOST_ENUMERATION" and "os_events h USBH_PORT_EVENT"
    and "USBH_HandleEnum env (h\<lparr>os_events := (os_events h)(USBH_PORT_EVENT := False)\<rparr>) =
      Some (Inr (USBH_BUSY, h1))"
  shows "USBH_Process_OS drv env (h, x) = Some (Inr (osMessagePut USBH_PORT_EVENT (ll (Delay 1) h1), x))"
  using assms by (simp add: USBH_Process_OS_def USBH_Process_def chEvtWaitOne_def)

text \<open>The request the host process issues, in the enumeration and when it sets the configuration.\<close>

definition host_req :: "usb_host \<Rightarrow> (buf_ref \<times> u16 \<times> setup_pkt) option" where
  "host_req h =
     (case gState h of
        HOST_ENUMERATION \<Rightarrow> enum_req h
      | HOST_SET_CONFIGURATION \<Rightarrow> Some (BUF_NULL, 0,
          no_data 0 USB_REQ_SET_CONFIGURATION (ucast (bConfigurationValue (CfgDesc (device h)))) 0)
      | _ \<Rightarrow> None)"

lemma enum_req_events [simp]: "enum_req (h\<lparr>os_events := e\<rparr>) = enum_req h"
  by (cases "EnumState h") (simp_all add: enum_req_def Let_def)

lemma host_req_events [simp]: "host_req (h\<lparr>os_events := e\<rparr>) = host_req h"
  by (cases "gState h") (simp_all add: host_req_def)

lemma host_req_mid [simp]: "host_req (mid h r c a e t) = host_req h"
  by (cases "gState h") (simp_all add: host_req_def)

lemma process_busy:
  assumes "os_events h USBH_PORT_EVENT" and "host_req h = Some (b, len, s)" and "st \<noteq> USBH_OK"
    and "USBH_CtlReq env b len (std_request s (h\<lparr>os_events := (os_events h)(USBH_PORT_EVENT := False)\<rparr>)) =
      Inr (st, mid g r c a e t)"
  shows "\<exists>a' e'. USBH_Process_OS drv env (h, x) = Some (Inr (mid g r c a' e' t, x)) \<and> e' USBH_PORT_EVENT"
proof (cases "gState h = HOST_ENUMERATION")
  case True
  let ?h = "h\<lparr>os_events := (os_events h)(USBH_PORT_EVENT := False)\<rparr>"
  have "USBH_HandleEnum env ?h = Some (Inr (USBH_BUSY, mid g r c a e t))"
    using assms True by (intro enum_busy [OF _ assms(4,3)]) (simp add: host_req_def)
  then have "USBH_Process_OS drv env (h, x) =
      Some (Inr (mid g r c (a @ [Delay 1]) (e(USBH_PORT_EVENT := True)) t, x))"
    using thread_enum [OF True assms(1), of env "mid g r c a e t" drv x] by simp
  then show ?thesis by (intro exI [of _ "a @ [Delay 1]"] exI [of _ "e(USBH_PORT_EVENT := True)"]) simp
next
  case False
  then have "gState h = HOST_SET_CONFIGURATION" using assms(2) by (simp add: host_req_def split: HOST_State.splits)
  then have "USBH_Process_OS drv env (h, x) = Some (Inr (mid g r c a (e(USBH_PORT_EVENT := True)) t, x))"
    using assms by (auto simp: USBH_Process_OS_def USBH_Process_def chEvtWaitOne_def USBH_SetCfg_def host_req_def)
  then show ?thesis by (intro exI [of _ a] exI [of _ "e(USBH_PORT_EVENT := True)"]) simp
qed

lemma poll_send:
  assumes "os_events h USBH_PORT_EVENT" and "RequestState h = CMD_SEND" and "host_req h = Some r"
  shows "\<exists>a e t. USBH_Process_OS drv env (h, x) = Some (Inr (mid h r CTRL_SETUP a e t, x)) \<and>
    e USBH_PORT_EVENT"
proof -
  obtain b len s where r: "r = (b, len, s)" by (cases r)
  let ?h = "h\<lparr>os_events := (os_events h)(USBH_PORT_EVENT := False)\<rparr>"
  have "USBH_CtlReq env b len (std_request s ?h) = Inr (USBH_BUSY, mid h r CTRL_SETUP (ll_calls h)
      ((os_events h)(USBH_PORT_EVENT := False, USBH_CONTROL_EVENT := True)) (ctimer (Control h)))"
    using assms(2) by (simp add: USBH_CtlReq_def std_request_def put_setup_def upd_ctl_def
        osMessagePut_def mid_def r)
  then show ?thesis
    using process_busy [OF assms(1) assms(3) [unfolded r], of USBH_BUSY env h r] by fastforce
qed

lemma poll_wait:
  assumes "e USBH_PORT_EVENT" and "host_req h = Some r"
    and "\<And>e. \<exists>a' e' t'. USBH_HandleControl env (mid h r c a e t) = Inr (USBH_BUSY, mid h' r c' a' e' t')"
  shows "\<exists>a' e' t'. USBH_Process_OS drv env (mid h r c a e t, x) = Some (Inr (mid h' r c' a' e' t', x)) \<and>
    e' USBH_PORT_EVENT"
proof -
  obtain b len s where r: "r = (b, len, s)" by (cases r)
  let ?h = "mid h r c a (e(USBH_PORT_EVENT := False)) t"
  obtain a1 e1 t1 where c: "USBH_HandleControl env ?h = Inr (USBH_BUSY, mid h' r c' a1 e1 t1)"
    using assms(3) by blast
  have "std_request s ?h = ?h" by (simp add: std_request_def)
  then have "USBH_CtlReq env b len (std_request s ?h) = Inr (USBH_BUSY, mid h' r c' a1 e1 t1)"
    using c by (simp add: USBH_CtlReq_def)
  then show ?thesis
    using process_busy [of "mid h r c a e t" b len s USBH_BUSY env h' r] assms(1,2) by (fastforce simp: r)
qed

section \<open>A control transfer, step by step\<close>

definition all_done :: "ll_env \<Rightarrow> bool" where
  "all_done env \<longleftrightarrow> (\<forall>p. urb_of env p = URB_DONE)"


text \<open>A device that completes every transfer takes the host from setup to status.\<close>

lemma ctl_simps:
  "ll_calls (mid h r c a e t) = a" "Control (mid h r c a e t) =
     (Control h)\<lparr>csetup := snd (snd r), cbuff := fst r, clength := fst (snd r), cstate := c, ctimer := t\<rparr>"
  "stamp (mid h r c a e t) = mid h r c a e (ucast (Timer h))"
  by (simp_all add: mid_def stamp_def upd_ctl_def)

lemma ctl_steps:
  assumes "all_done env"
  shows "\<exists>a' e' t'. USBH_HandleControl env (mid h r CTRL_SETUP a e t) = Inr (USBH_BUSY, mid h r CTRL_SETUP_WAIT a' e' t')"
    and "\<exists>a' e' t'. USBH_HandleControl env (mid h r CTRL_SETUP_WAIT a e t) =
      Inr (USBH_BUSY, mid h r (after_setup (snd (snd r))) a' e' t')"
    and "\<exists>a' e' t'. USBH_HandleControl env (mid h r CTRL_DATA_IN a e t) = Inr (USBH_BUSY, mid h r CTRL_DATA_IN_WAIT a' e' t')"
    and "\<exists>a' e' t'. USBH_HandleControl env (mid h r CTRL_STATUS_IN a e t) = Inr (USBH_BUSY, mid h r CTRL_STATUS_IN_WAIT a' e' t')"
    and "\<exists>a' e' t'. USBH_HandleControl env (mid h r CTRL_STATUS_OUT a e t) = Inr (USBH_BUSY, mid h r CTRL_STATUS_OUT_WAIT a' e' t')"
  using assms
  by (auto simp: USBH_HandleControl_def ctl_simps USBH_CtlSendSetup_def USBH_CtlReceiveData_def
      USBH_CtlSendData_def Let_def all_done_def)

definition received :: "buf_ref \<Rightarrow> u8 list \<Rightarrow> usb_host \<Rightarrow> usb_host" where
  "received b bs = upd_dev (\<lambda>d. d\<lparr>bufs := (bufs d)(b := bs @ drop (length bs) (bufs d b))\<rparr>)"

lemma ctl_data_in:
  assumes "all_done env" and "length (rx_of env) \<le> length (bufs (device h) (fst r))"
  shows "\<exists>a' e' t'. USBH_HandleControl env (mid h r CTRL_DATA_IN_WAIT a e t) =
    Inr (USBH_BUSY, mid (received (fst r) (rx_of env) h) r CTRL_STATUS_OUT a' e' t')"
proof -
  have "received b bs (mid h r c a e t) = mid (received b bs h) r c a e t" for b bs c
    by (simp add: received_def upd_dev_def mid_def)
  then show ?thesis
    using assms by (auto simp: USBH_HandleControl_def ctl_simps dma_in_def Let_def all_done_def simp flip: received_def)
qed

lemma received_req [simp]:
  "enum_req (received b bs h) = enum_req h" "gState (received b bs h) = gState h"
  by (cases "EnumState h"; simp add: received_def upd_dev_def enum_req_def Let_def)+

lemma host_req_received [simp]: "host_req (received b bs h) = host_req h"
  by (cases "gState h") (simp_all add: host_req_def, simp add: received_def upd_dev_def)

lemma dev_env_done [simp]:
  "all_done (dev_env resp h)" "rx_of (dev_env resp (mid h r c a e t)) = resp (snd (snd r))"
  by (simp_all add: dev_env_def mid_def all_done_def)

text \<open>
  The request r takes n polls from one state of the transfer to another, whatever the record of
  calls, the other events and the time.
\<close>

definition goes ::
    "'s drivers \<Rightarrow> (setup_pkt \<Rightarrow> u8 list) \<Rightarrow> buf_ref \<times> u16 \<times> setup_pkt \<Rightarrow> nat \<Rightarrow> usb_host \<Rightarrow> CTRL_State \<Rightarrow>
     usb_host \<Rightarrow> CTRL_State \<Rightarrow> bool" where
  "goes drv resp r n h c h' c' \<longleftrightarrow> (\<forall>a e t x. e USBH_PORT_EVENT \<longrightarrow>
     (\<exists>a' e' t'. run_thread drv (dev_env resp) n (mid h r c a e t, x) = Some (Inr (mid h' r c' a' e' t', x)) \<and>
       e' USBH_PORT_EVENT))"

lemma goes_trans:
  assumes "goes drv resp r m h c h1 c1" and "goes drv resp r n h1 c1 h2 c2"
  shows "goes drv resp r (m + n) h c h2 c2"
  unfolding goes_def
proof (intro allI impI)
  fix a x and e :: "os_event \<Rightarrow> bool" and t :: u16
  assume "e USBH_PORT_EVENT"
  then obtain a1 e1 t1 where "run_thread drv (dev_env resp) m (mid h r c a e t, x) = Some (Inr (mid h1 r c1 a1 e1 t1, x))"
    "e1 USBH_PORT_EVENT" using assms(1) unfolding goes_def by blast
  moreover from this(2) obtain a2 e2 t2 where
    "run_thread drv (dev_env resp) n (mid h1 r c1 a1 e1 t1, x) = Some (Inr (mid h2 r c2 a2 e2 t2, x))" "e2 USBH_PORT_EVENT"
    using assms(2) unfolding goes_def by blast
  ultimately show "\<exists>a' e' t'. run_thread drv (dev_env resp) (m + n) (mid h r c a e t, x) =
      Some (Inr (mid h2 r c2 a' e' t', x)) \<and> e' USBH_PORT_EVENT"
    using run_thread_add [of drv "dev_env resp" m] by fastforce
qed

lemma goes_step:
  assumes "host_req h = Some r"
    and "\<And>env a e t. all_done env \<Longrightarrow> rx_of env = resp (snd (snd r)) \<Longrightarrow>
      \<exists>a' e' t'. USBH_HandleControl env (mid h r c a e t) = Inr (USBH_BUSY, mid h' r c' a' e' t')"
  shows "goes drv resp r 1 h c h' c'"
  unfolding goes_def
proof (intro allI impI)
  fix a x and e :: "os_event \<Rightarrow> bool" and t :: u16
  assume p: "e USBH_PORT_EVENT"
  obtain a' e' t' where "USBH_Process_OS drv (dev_env resp (mid h r c a e t)) (mid h r c a e t, x) =
      Some (Inr (mid h' r c' a' e' t', x)) \<and> e' USBH_PORT_EVENT"
    using poll_wait [where e = e and env = "dev_env resp (mid h r c a e t)", OF p assms(1) assms(2)]
    by fastforce
  then show "\<exists>a' e' t'. run_thread drv (dev_env resp) 1 (mid h r c a e t, x) =
      Some (Inr (mid h' r c' a' e' t', x)) \<and> e' USBH_PORT_EVENT"
    by (intro exI [of _ a'] exI [of _ e'] exI [of _ t']) simp
qed

lemma goes_in:
  assumes "host_req h = Some r" and "after_setup (snd (snd r)) = CTRL_DATA_IN"
    and "length (resp (snd (snd r))) \<le> length (bufs (device h) (fst r))"
  shows "goes drv resp r 5 h CTRL_SETUP (received (fst r) (resp (snd (snd r))) h) CTRL_STATUS_OUT_WAIT"
proof -
  let ?g = "received (fst r) (resp (snd (snd r))) h"
  have g: "host_req ?g = Some r" using assms by simp
  have 1: "goes drv resp r 1 h CTRL_SETUP h CTRL_SETUP_WAIT"
    by (rule goes_step [OF assms(1)]) (rule ctl_steps(1))
  have 2: "goes drv resp r 1 h CTRL_SETUP_WAIT h CTRL_DATA_IN"
    by (rule goes_step [OF assms(1)]) (rule ctl_steps(2) [where r = r, unfolded assms(2)])
  have 3: "goes drv resp r 1 h CTRL_DATA_IN h CTRL_DATA_IN_WAIT"
    by (rule goes_step [OF assms(1)]) (rule ctl_steps(3))
  have 4: "goes drv resp r 1 h CTRL_DATA_IN_WAIT ?g CTRL_STATUS_OUT"
    by (rule goes_step [OF assms(1)]) (metis assms(3) ctl_data_in)
  have 5: "goes drv resp r 1 ?g CTRL_STATUS_OUT ?g CTRL_STATUS_OUT_WAIT"
    by (rule goes_step [OF g]) (rule ctl_steps(5))
  show ?thesis
    using goes_trans [OF 1 goes_trans [OF 2 goes_trans [OF 3 goes_trans [OF 4 5]]]] by (simp add: eval_nat_numeral)
qed

lemma goes_no_data:
  assumes "host_req h = Some r" and "after_setup (snd (snd r)) = CTRL_STATUS_IN"
  shows "goes drv resp r 3 h CTRL_SETUP h CTRL_STATUS_IN_WAIT"
proof -
  have 1: "goes drv resp r 1 h CTRL_SETUP h CTRL_SETUP_WAIT"
    by (rule goes_step [OF assms(1)]) (rule ctl_steps(1))
  have 2: "goes drv resp r 1 h CTRL_SETUP_WAIT h CTRL_STATUS_IN"
    by (rule goes_step [OF assms(1)]) (rule ctl_steps(2) [where r = r, unfolded assms(2)])
  have 3: "goes drv resp r 1 h CTRL_STATUS_IN h CTRL_STATUS_IN_WAIT"
    by (rule goes_step [OF assms(1)]) (rule ctl_steps(4))
  show ?thesis using goes_trans [OF 1 goes_trans [OF 2 3]] by (simp add: eval_nat_numeral)
qed

section \<open>The stages of the enumeration\<close>

text \<open>
  What no stage changes but the raw configuration, which comes first and is changed by the two
  stages that read it, and where the enumeration stands.
\<close>

type_synonym host_rest =
  "u8 list \<times> usb_class list \<times> usb_class option \<times> u32 list \<times> u32 \<times> u8 \<times> u8 \<times> bool \<times> u8 list"

definition kept :: "usb_host \<Rightarrow> host_rest" where
  "kept h = (bufs (device h) BUF_RAW, pClass h, pActiveClass h, Pipes h, Timer h, pipe_in (Control h), pipe_out (Control h),
     is_connected (device h), bufs (device h) BUF_CLASS)"

definition read_raw :: "u8 list \<Rightarrow> host_rest \<Rightarrow> host_rest" where
  "read_raw bs kp = (bs @ drop (length bs) (fst kp), snd kp)"

definition enum_at :: "host_rest \<Rightarrow> ENUM_State \<Rightarrow> dev_desc \<Rightarrow> cfg_desc \<Rightarrow> usb_host \<Rightarrow> bool" where
  "enum_at kp st dd cfg h \<longleftrightarrow> gState h = HOST_ENUMERATION \<and> EnumState h = st \<and> RequestState h = CMD_SEND \<and>
     DevDesc (device h) = dd \<and> CfgDesc (device h) = cfg \<and>
     length (bufs (device h) BUF_DATA) = USBH_MAX_DATA_BUFFER \<and>
     length (bufs (device h) BUF_RAW) = USBH_MAX_SIZE_CONFIGURATION \<and> kept h = kp"

definition fin :: "usb_host \<Rightarrow> buf_ref \<times> u16 \<times> setup_pkt \<Rightarrow> ll_call list \<Rightarrow> (os_event \<Rightarrow> bool) \<Rightarrow> u16 \<Rightarrow> usb_host" where
  "fin h r a e t = (mid h r CTRL_IDLE a e t)\<lparr>RequestState := CMD_SEND\<rparr>"

lemma ctl_last:
  assumes "all_done env" and "c = CTRL_STATUS_OUT_WAIT \<or> c = CTRL_STATUS_IN_WAIT"
  shows "USBH_CtlReq env (fst r) (fst (snd r)) (std_request s (mid h r c a e t)) =
    Inr (USBH_OK, fin h r a (e(USBH_CONTROL_EVENT := True)) t)"
proof -
  have "std_request s (mid h r c a e t) = mid h r c a e t" by (simp add: std_request_def)
  then show ?thesis
    using assms
    by (auto simp: USBH_CtlReq_def USBH_HandleControl_def ctl_simps Let_def all_done_def)
      (simp_all add: fin_def ctl_to_def upd_ctl_def mid_def)
qed

lemma fin_fields [simp]:
  "device (fin h r a e t) = device h" "EnumState (fin h r a e t) = EnumState h"
  "gState (fin h r a e t) = gState h" "RequestState (fin h r a e t) = CMD_SEND"
  "kept (fin h r a e t) = kept h" "os_events (fin h r a e t) = e"
  by (simp_all add: fin_def mid_def kept_def)

lemma kept_put [simp]:
  "kept (osMessagePut v h) = kept h" "kept (ll c h) = kept h" "kept (h\<lparr>EnumState := st\<rparr>) = kept h"
  "kept (open_control_pipes h) = kept h" "kept (h\<lparr>os_events := e\<rparr>) = kept h"
  "kept (upd_dev (\<lambda>d. d\<lparr>DevDesc := dd\<rparr>) h) = kept h" "kept (upd_dev (\<lambda>d. d\<lparr>CfgDesc := cc\<rparr>) h) = kept h"
  "kept (upd_dev (\<lambda>d. d\<lparr>dev_address := ad\<rparr>) h) = kept h"
  "kept (upd_ctl (\<lambda>k. k\<lparr>pipe_size := z\<rparr>) h) = kept h"
  "b \<noteq> BUF_CLASS \<Longrightarrow> b \<noteq> BUF_RAW \<Longrightarrow> kept (received b bs h) = kept h"
  "kept (received BUF_RAW bs h) = read_raw bs (kept h)"
  by (simp_all add: kept_def osMessagePut_def ll_def open_control_pipes_def USBH_OpenPipe_def upd_dev_def
      upd_ctl_def received_def Let_def read_raw_def)

text \<open>The last poll of a stage: its request is complete, and the handler goes on.\<close>

lemma whole_request:
  assumes h: "os_events h USBH_PORT_EVENT" "RequestState h = CMD_SEND" "host_req h = Some r"
    and go: "goes drv resp r n h CTRL_SETUP g c"
    and last: "\<And>a e t. e USBH_PORT_EVENT \<Longrightarrow>
      \<exists>h'. USBH_Process_OS drv (dev_env resp (mid g r c a e t)) (mid g r c a e t, x) = Some (Inr (h', x)) \<and> P h'"
  shows "\<exists>h'. run_thread drv (dev_env resp) (n + 2) (h, x) = Some (Inr (h', x)) \<and> P h'"
proof -
  obtain a e t where 1: "USBH_Process_OS drv (dev_env resp h) (h, x) = Some (Inr (mid h r CTRL_SETUP a e t, x))"
    "e USBH_PORT_EVENT" using poll_send [OF h, of drv "dev_env resp h" x] by auto
  obtain a6 e6 t6 where 2: "run_thread drv (dev_env resp) n (mid h r CTRL_SETUP a e t, x) =
      Some (Inr (mid g r c a6 e6 t6, x))" "e6 USBH_PORT_EVENT"
    using go 1(2) unfolding goes_def by blast
  let ?m = "mid g r c a6 e6 t6"
  obtain h' where 3: "USBH_Process_OS drv (dev_env resp ?m) (?m, x) = Some (Inr (h', x))" "P h'"
    using last [where a = a6 and e = e6 and t = t6, OF 2(2)] by blast
  have 5: "run_thread drv (dev_env resp) (Suc n) (h, x) = Some (Inr (?m, x))"
    using 1(1) 2(1) by (simp only: run_thread.simps fst_conv option.case sum.case)
  have "run_thread drv (dev_env resp) (Suc (Suc n)) (h, x) = Some (Inr (h', x))"
    by (rule run_thread_snoc [OF 5]) (simp add: 3)
  moreover have "n + 2 = Suc (Suc n)" by simp
  ultimately show ?thesis using 3(2) by metis
qed

lemma enum_at_next:
  "enum_at kp st dd cfg g \<Longrightarrow> enum_at kp st' dd cfg (g\<lparr>EnumState := st'\<rparr>)"
  "enum_at kp st dd cfg g \<Longrightarrow> enum_at kp st dd cfg (osMessagePut v g)"
  "enum_at kp st dd cfg g \<Longrightarrow> enum_at kp st dd cfg (ll k g)"
  by (simp_all add: enum_at_def) (simp_all add: osMessagePut_def ll_def)

lemma osMessagePut_event [simp]: "os_events (osMessagePut v h) v" by (simp add: osMessagePut_def)

lemma stage:
  assumes h: "enum_at kp st dd cfg h" "os_events h USBH_PORT_EVENT" and r: "enum_req h = Some r"
    and go: "goes drv resp r n h CTRL_SETUP g c" and g: "gState g = HOST_ENUMERATION"
    and last: "\<And>env a e t. all_done env \<Longrightarrow>
      \<exists>h'. USBH_HandleEnum env (mid g r c a e t) = Some (Inr (USBH_BUSY, h')) \<and> enum_at kp' st' dd' cfg' h'"
  shows "\<exists>h'. run_thread drv (dev_env resp) (n + 2) (h, x) = Some (Inr (h', x)) \<and>
    enum_at kp' st' dd' cfg' h' \<and> os_events h' USBH_PORT_EVENT"
proof (rule whole_request [OF h(2) _ _ go])
  show "RequestState h = CMD_SEND" "host_req h = Some r" using h(1) r by (simp_all add: enum_at_def host_req_def)
  fix a t and e :: "os_event \<Rightarrow> bool"
  assume e: "e USBH_PORT_EVENT"
  let ?m = "mid g r c a e t"
  obtain h' where 3: "USBH_HandleEnum (dev_env resp ?m) (?m\<lparr>os_events := (os_events ?m)(USBH_PORT_EVENT := False)\<rparr>) =
      Some (Inr (USBH_BUSY, h'))" "enum_at kp' st' dd' cfg' h'"
    using last [of "dev_env resp ?m" a "e(USBH_PORT_EVENT := False)" t] by auto
  have "USBH_Process_OS drv (dev_env resp ?m) (?m, x) =
      Some (Inr (osMessagePut USBH_PORT_EVENT (ll (Delay 1) h'), x))"
    using g e by (intro thread_enum 3(1)) simp_all
  then show "\<exists>h'. USBH_Process_OS drv (dev_env resp ?m) (?m, x) = Some (Inr (h', x)) \<and>
      enum_at kp' st' dd' cfg' h' \<and> os_events h' USBH_PORT_EVENT"
    using enum_at_next(2) [OF enum_at_next(3) [OF 3(2)]] by auto
qed

lemma stage_in:
  assumes "enum_at kp st dd cfg h" and "os_events h USBH_PORT_EVENT" and "enum_req h = Some r"
    and "after_setup (snd (snd r)) = CTRL_DATA_IN"
    and "length (resp (snd (snd r))) \<le> length (bufs (device h) (fst r))"
    and "\<And>env a e t. all_done env \<Longrightarrow>
      \<exists>h'. USBH_HandleEnum env (mid (received (fst r) (resp (snd (snd r))) h) r CTRL_STATUS_OUT_WAIT a e t) =
        Some (Inr (USBH_BUSY, h')) \<and> enum_at kp' st' dd' cfg' h'"
  shows "\<exists>h'. run_thread drv (dev_env resp) 7 (h, x) = Some (Inr (h', x)) \<and> enum_at kp' st' dd' cfg' h' \<and>
    os_events h' USBH_PORT_EVENT"
proof -
  have "gState h = HOST_ENUMERATION" "host_req h = Some r"
    using assms(1,3) by (simp_all add: enum_at_def host_req_def)
  then show ?thesis
    using stage [where drv = drv and n = 5 and x = x, OF assms(1-3) goes_in [where resp = resp, OF _ assms(4,5)] _ assms(6)]
    by simp
qed

lemma get_desc_last:
  assumes "all_done env"
  shows "USBH_GetDescriptor env rt v b len (mid g (b, len, s) CTRL_STATUS_OUT_WAIT a e t) =
    Inr (USBH_OK, fin g (b, len, s) a (e(USBH_CONTROL_EVENT := True)) t)"
  using ctl_last [where r = "(b, len, s)" and c = CTRL_STATUS_OUT_WAIT, OF assms]
  by (simp add: USBH_GetDescriptor_def)

text \<open>The device descriptor, of which the first eight bytes are read first.\<close>

definition dev_start :: "u8 list \<Rightarrow> dev_desc \<Rightarrow> dev_desc" where
  "dev_start d dd = dd\<lparr>dev_bLength := d ! 0, dev_bDescriptorType := d ! 1, bcdUSB := LE16 d 2,
     bDeviceClass := d ! 4, bDeviceSubClass := d ! 5, bDeviceProtocol := d ! 6, bMaxPacketSize := d ! 7\<rparr>"

definition read_dev :: "u8 list \<Rightarrow> dev_desc" where
  "read_dev d = \<lparr>dev_bLength = d ! 0, dev_bDescriptorType = d ! 1, bcdUSB = LE16 d 2,
     bDeviceClass = d ! 4, bDeviceSubClass = d ! 5, bDeviceProtocol = d ! 6, bMaxPacketSize = d ! 7,
     idVendor = LE16 d 8, idProduct = LE16 d 10, bcdDevice = LE16 d 12, iManufacturer = d ! 14,
     iProduct = d ! 15, iSerialNumber = d ! 16, bNumConfigurations = d ! 17\<rparr>"

lemma parse_dev_start: "length d = 8 \<Longrightarrow> USBH_ParseDevDesc dd (d @ post) 8 = Inr (dev_start d dd)"
  by (simp add: USBH_ParseDevDesc_def dev_start_def nth_append LE16_def)

lemma parse_dev_full: "length d = 18 \<Longrightarrow> USBH_ParseDevDesc dd (d @ post) 18 = Inr (read_dev d)"
  by (simp add: USBH_ParseDevDesc_def read_dev_def nth_append LE16_def)

lemma received_buf [simp]:
  "bufs (device (received b bs h)) b = bs @ drop (length bs) (bufs (device h) b)"
  "b' \<noteq> b \<Longrightarrow> bufs (device (received b bs h)) b' = bufs (device h) b'"
  "DevDesc (device (received b bs h)) = DevDesc (device h)"
  "CfgDesc (device (received b bs h)) = CfgDesc (device h)"
  "EnumState (received b bs h) = EnumState h"
  by (simp_all add: received_def upd_dev_def)

lemma get_dev_last:
  assumes "all_done env"
    and "USBH_ParseDevDesc (DevDesc (device g)) (bufs (device g) BUF_DATA) (ucast len) = Inr dd"
  shows "USBH_Get_DevDesc env len (mid g (BUF_DATA, ucast len, s) CTRL_STATUS_OUT_WAIT a e t) =
    Inr (USBH_OK, upd_dev (\<lambda>d. d\<lparr>DevDesc := dd\<rparr>)
      (fin g (BUF_DATA, ucast len, s) a (e(USBH_CONTROL_EVENT := True)) t))"
  by (simp add: USBH_Get_DevDesc_def get_desc_last [OF assms(1)] assms(2))

lemma after_setup_in: "len \<noteq> 0 \<Longrightarrow> after_setup (get_descriptor_setup 0 v len) = CTRL_DATA_IN"
  by (simp add: after_setup_def get_descriptor_setup_def usb_request_codes)

lemma upd_fields [simp]:
  "gState (upd_dev f h) = gState h" "EnumState (upd_dev f h) = EnumState h"
  "RequestState (upd_dev f h) = RequestState h" "device (upd_dev f h) = f (device h)"
  "gState (upd_ctl k h) = gState h" "EnumState (upd_ctl k h) = EnumState h"
  "RequestState (upd_ctl k h) = RequestState h" "device (upd_ctl k h) = device h"
  "Control (upd_ctl k h) = k (Control h)" "Control (upd_dev f h) = Control h"
  by (simp_all add: upd_dev_def upd_ctl_def)

lemma opened_fields [simp]:
  "gState (open_control_pipes h) = gState h" "EnumState (open_control_pipes h) = EnumState h"
  "RequestState (open_control_pipes h) = RequestState h" "device (open_control_pipes h) = device h"
  "gState (ll c h) = gState h" "EnumState (ll c h) = EnumState h"
  "RequestState (ll c h) = RequestState h" "device (ll c h) = device h"
  by (simp_all add: open_control_pipes_def USBH_OpenPipe_def ll_def Let_def)

lemma stage_idle:
  assumes "enum_at kp ENUM_IDLE dd cfg h" and "os_events h USBH_PORT_EVENT" and "length d = 18"
    and "resp (get_descriptor_setup 0 USB_DESC_DEVICE 8) = take 8 d"
  shows "\<exists>h'. run_thread drv (dev_env resp) 7 (h, x) = Some (Inr (h', x)) \<and>
    enum_at kp ENUM_GET_FULL_DEV_DESC (dev_start (take 8 d) dd) cfg h' \<and> os_events h' USBH_PORT_EVENT"
proof (rule stage_in [OF assms(1,2)])
  let ?r = "(BUF_DATA, ucast (8 :: u8), get_descriptor_setup 0 USB_DESC_DEVICE 8)"
  show "enum_req h = Some ?r" using assms(1) by (simp add: enum_at_def enum_req_def)
  fix env a t and e :: "os_event \<Rightarrow> bool"
  assume done_: "all_done env"
  let ?g = "received BUF_DATA (take 8 d) h"
  have "USBH_ParseDevDesc (DevDesc (device ?g)) (bufs (device ?g) BUF_DATA) (ucast (8 :: u8)) =
      Inr (dev_start (take 8 d) dd)"
    using assms(1,3) parse_dev_start [of "take 8 d"] by (simp add: enum_at_def)
  note last = get_dev_last [OF done_ this]
  show "\<exists>h'. USBH_HandleEnum env (mid (received (fst ?r) (resp (snd (snd ?r))) h) ?r CTRL_STATUS_OUT_WAIT a e t) =
      Some (Inr (USBH_BUSY, h')) \<and> enum_at kp ENUM_GET_FULL_DEV_DESC (dev_start (take 8 d) dd) cfg h'"
    using assms last [of "get_descriptor_setup 0 USB_DESC_DEVICE 8" a e t]
    by (auto simp: USBH_HandleEnum_def enum_at_def usb_codes)
qed (use assms in \<open>auto simp: enum_at_def after_setup_in usb_codes\<close>)

lemma stage_dev:
  assumes "enum_at kp ENUM_GET_FULL_DEV_DESC dd cfg h" and "os_events h USBH_PORT_EVENT" and "length d = 18"
    and "resp (get_descriptor_setup 0 USB_DESC_DEVICE 18) = d"
  shows "\<exists>h'. run_thread drv (dev_env resp) 7 (h, x) = Some (Inr (h', x)) \<and>
    enum_at kp ENUM_SET_ADDR (read_dev d) cfg h' \<and> os_events h' USBH_PORT_EVENT"
proof (rule stage_in [OF assms(1,2)])
  let ?r = "(BUF_DATA, ucast (18 :: u8), get_descriptor_setup 0 USB_DESC_DEVICE 18)"
  show "enum_req h = Some ?r" using assms(1) by (simp add: enum_at_def enum_req_def)
  fix env a t and e :: "os_event \<Rightarrow> bool"
  assume done_: "all_done env"
  let ?g = "received BUF_DATA d h"
  have "USBH_ParseDevDesc (DevDesc (device ?g)) (bufs (device ?g) BUF_DATA) (ucast (18 :: u8)) =
      Inr (read_dev d)"
    using assms(3) parse_dev_full [of d] by simp
  note last = get_dev_last [OF done_ this]
  show "\<exists>h'. USBH_HandleEnum env (mid (received (fst ?r) (resp (snd (snd ?r))) h) ?r CTRL_STATUS_OUT_WAIT a e t) =
      Some (Inr (USBH_BUSY, h')) \<and> enum_at kp ENUM_SET_ADDR (read_dev d) cfg h'"
    using assms last [of "get_descriptor_setup 0 USB_DESC_DEVICE 18" a e t]
    by (auto simp: USBH_HandleEnum_def enum_at_def usb_codes)
qed (use assms in \<open>auto simp: enum_at_def after_setup_in usb_codes\<close>)

lemma stage_addr:
  assumes "enum_at kp ENUM_SET_ADDR dd cfg h" and "os_events h USBH_PORT_EVENT"
  shows "\<exists>h'. run_thread drv (dev_env resp) 5 (h, x) = Some (Inr (h', x)) \<and>
    enum_at kp ENUM_GET_CFG_DESC dd cfg h' \<and> os_events h' USBH_PORT_EVENT"
proof -
  let ?r = "(BUF_NULL, 0 :: u16, no_data 0 USB_REQ_SET_ADDRESS (ucast USBH_DEVICE_ADDRESS) 0)"
  have s: "gState h = HOST_ENUMERATION" using assms(1) by (simp add: enum_at_def)
  have r: "enum_req h = Some ?r" using assms(1) by (simp add: enum_at_def enum_req_def)
  have a: "after_setup (snd (snd ?r)) = CTRL_STATUS_IN"
    by (simp add: after_setup_def no_data_def usb_request_codes)
  have "\<exists>h'. USBH_HandleEnum env (mid h ?r CTRL_STATUS_IN_WAIT c e t) = Some (Inr (USBH_BUSY, h')) \<and>
      enum_at kp ENUM_GET_CFG_DESC dd cfg h'" if "all_done env" for env c e t
    using assms(1) ctl_last [where r = ?r and c = CTRL_STATUS_IN_WAIT, OF that]
    by (auto simp: USBH_HandleEnum_def USBH_SetAddress_def enum_at_def)
  then show ?thesis
    using stage [where drv = drv and n = 3 and x = x and resp = resp, OF assms r goes_no_data [OF _ a] s] s r
    by (simp add: host_req_def)
qed

lemma get_cfg_last:
  assumes "all_done env" and "USBH_ParseCfgDesc (CfgDesc (device g)) (bufs (device g) BUF_RAW) len = Some (Inr cc)"
  shows "USBH_Get_CfgDesc env len (mid g (BUF_RAW, len, s) CTRL_STATUS_OUT_WAIT a e t) =
    Some (Inr (USBH_OK, upd_dev (\<lambda>d. d\<lparr>CfgDesc := cc\<rparr>)
      (fin g (BUF_RAW, len, s) a (e(USBH_CONTROL_EVENT := True)) t)))"
  by (simp add: USBH_Get_CfgDesc_def get_desc_last [OF assms(1)] assms(2))

lemma stage_cfg9:
  assumes "enum_at kp ENUM_GET_CFG_DESC dd cfg h" and "os_events h USBH_PORT_EVENT" and "length hdr = 9"
    and "resp (get_descriptor_setup 0 USB_DESC_CONFIGURATION 9) = hdr"
  shows "\<exists>h'. run_thread drv (dev_env resp) 7 (h, x) = Some (Inr (h', x)) \<and>
    enum_at (read_raw hdr kp) ENUM_GET_FULL_CFG_DESC dd (cfg_header hdr cfg) h' \<and> os_events h' USBH_PORT_EVENT"
proof (rule stage_in [OF assms(1,2)])
  let ?r = "(BUF_RAW, 9 :: u16, get_descriptor_setup 0 USB_DESC_CONFIGURATION 9)"
  show "enum_req h = Some ?r" using assms(1) by (simp add: enum_at_def enum_req_def)
  fix env a t and e :: "os_event \<Rightarrow> bool"
  assume done_: "all_done env"
  let ?g = "received BUF_RAW hdr h"
  have "cfg_header (hdr @ b) c = cfg_header hdr c" for b c
    using assms(3) by (simp add: cfg_header_def nth_append LE16_def)
  then have "USBH_ParseCfgDesc (CfgDesc (device ?g)) (bufs (device ?g) BUF_RAW) 9 = Some (Inr (cfg_header hdr cfg))"
    using assms(1,3) by (simp add: USBH_ParseCfgDesc_def enum_at_def)
  note last = get_cfg_last [OF done_ this]
  show "\<exists>h'. USBH_HandleEnum env (mid (received (fst ?r) (resp (snd (snd ?r))) h) ?r CTRL_STATUS_OUT_WAIT a e t) =
      Some (Inr (USBH_BUSY, h')) \<and> enum_at (read_raw hdr kp) ENUM_GET_FULL_CFG_DESC dd (cfg_header hdr cfg) h'"
    using assms last [of "get_descriptor_setup 0 USB_DESC_CONFIGURATION 9" a e t]
    by (auto simp: USBH_HandleEnum_def enum_at_def usb_codes)
qed (use assms in \<open>auto simp: enum_at_def after_setup_in usb_codes\<close>)

text \<open>A configuration as in the property of the parser, with at least one descriptor.\<close>

definition cfg_ok :: "u8 list \<Rightarrow> u8 list list \<Rightarrow> bool" where
  "cfg_ok hdr ds \<longleftrightarrow> length hdr = 9 \<and> hdr ! 0 = 9 \<and> LE16 hdr 2 = of_nat (9 + length (concat ds)) \<and>
     9 + length (concat ds) \<le> USBH_MAX_SIZE_CONFIGURATION \<and> (\<forall>d\<in>set ds. desc_ok d) \<and> lag_ok hdr ds \<and> ds \<noteq> []"

lemma cfg_ok_total:
  assumes "cfg_ok hdr ds"
  shows "9 < LE16 hdr 2" and "LE16 hdr 2 \<noteq> 0" and "unat (LE16 hdr 2) = 9 + length (concat ds)"
proof -
  have "0 < length (concat ds)" using assms by (cases ds) (auto simp: cfg_ok_def desc_ok_def)
  moreover have n: "9 + length (concat ds) < 65536" using assms by (simp add: cfg_ok_def usb_codes)
  moreover have "LE16 hdr 2 = of_nat (9 + length (concat ds))" using assms by (simp add: cfg_ok_def)
  ultimately have u: "unat (LE16 hdr 2) = 9 + length (concat ds)" and l: "0 < length (concat ds)"
    by (simp_all only: unat_of_nat) simp_all
  from u show "unat (LE16 hdr 2) = 9 + length (concat ds)" .
  show "9 < LE16 hdr 2" using u l by (simp add: word_less_nat_alt)
  then show "LE16 hdr 2 \<noteq> 0" by auto
qed

lemma stage_cfg:
  assumes "enum_at kp ENUM_GET_FULL_CFG_DESC dd (cfg_header hdr cfg) h" and "os_events h USBH_PORT_EVENT"
    and "cfg_ok hdr ds" and "cfg_sized cfg"
    and "resp (get_descriptor_setup 0 USB_DESC_CONFIGURATION (LE16 hdr 2)) = hdr @ concat ds"
  shows "\<exists>h'. run_thread drv (dev_env resp) 7 (h, x) = Some (Inr (h', x)) \<and>
    enum_at (read_raw (hdr @ concat ds) kp) ENUM_GET_MFC_STRING_DESC dd (cfg_meaning (interfaces ds) (cfg_header hdr cfg)) h' \<and>
    os_events h' USBH_PORT_EVENT"
proof (rule stage_in [OF assms(1,2)])
  let ?n = "LE16 hdr 2"
  let ?r = "(BUF_RAW, ?n, get_descriptor_setup 0 USB_DESC_CONFIGURATION ?n)"
  have total: "wTotalLength (cfg_header hdr cfg) = ?n" by (simp add: cfg_header_def)
  show "enum_req h = Some ?r" using assms(1) by (simp add: enum_at_def enum_req_def total Let_def)
  show "after_setup (snd (snd ?r)) = CTRL_DATA_IN" using cfg_ok_total(2) [OF assms(3)] by (simp add: after_setup_in)
  show "length (resp (snd (snd ?r))) \<le> length (bufs (device h) (fst ?r))"
    using assms(1,3,5) by (simp add: enum_at_def cfg_ok_def)
  fix env a t and e :: "os_event \<Rightarrow> bool"
  assume done_: "all_done env"
  let ?g = "received BUF_RAW (hdr @ concat ds) h"
  have "cfg_header hdr (cfg_header hdr cfg) = cfg_header hdr cfg" by (simp add: cfg_header_def)
  moreover have "cfg_sized (cfg_header hdr cfg)" using assms(4) by (simp add: cfg_sized_def cfg_header_def)
  moreover have "bufs (device ?g) BUF_RAW = hdr @ concat ds @ drop (length (hdr @ concat ds)) (bufs (device h) BUF_RAW)"
    by simp
  ultimately have "USBH_ParseCfgDesc (CfgDesc (device ?g)) (bufs (device ?g) BUF_RAW) ?n =
      Some (Inr (cfg_meaning (interfaces ds) (cfg_header hdr cfg)))"
    using parse_cfg_result [of "bufs (device ?g) BUF_RAW" hdr ds _ "cfg_header hdr cfg" ?n] assms(1,3)
      cfg_ok_total(1) [OF assms(3)]
    by (simp add: enum_at_def cfg_ok_def usb_codes)
  note last = get_cfg_last [OF done_ this]
  have size: "length hdr + length (concat ds) \<le> USBH_MAX_SIZE_CONFIGURATION"
    using assms(3) by (simp add: cfg_ok_def)
  show "\<exists>h'. USBH_HandleEnum env (mid (received (fst ?r) (resp (snd (snd ?r))) h) ?r CTRL_STATUS_OUT_WAIT a e t) =
      Some (Inr (USBH_BUSY, h')) \<and>
      enum_at (read_raw (hdr @ concat ds) kp) ENUM_GET_MFC_STRING_DESC dd (cfg_meaning (interfaces ds) (cfg_header hdr cfg)) h'"
    using assms(1) size last [of "get_descriptor_setup 0 USB_DESC_CONFIGURATION ?n" a e t]
    by (auto simp: USBH_HandleEnum_def enum_at_def total assms(5))
qed

text \<open>The strings: read when the device names one, and passed over otherwise.\<close>

definition string_ok :: "u8 list \<Rightarrow> bool" where
  "string_ok b \<longleftrightarrow> 2 \<le> length b \<and> length b = unat (b ! 0) \<and> b ! 1 = USB_DESC_TYPE_STRING"

lemma get_string_last:
  assumes "all_done env" and "string_ok b" and "length (bufs (device h) BUF_DATA) = USBH_MAX_DATA_BUFFER"
  shows "\<exists>m. USBH_Get_StringDesc env i BUF_DATA 0xFF
      (mid (received BUF_DATA b h) (BUF_DATA, 0xFF, s) CTRL_STATUS_OUT_WAIT a e t) =
    Inr (USBH_OK, upd_dev (\<lambda>d. d\<lparr>bufs := m\<rparr>)
      (fin (received BUF_DATA b h) (BUF_DATA, 0xFF, s) a (e(USBH_CONTROL_EVENT := True)) t)) \<and>
    length (m BUF_DATA) = USBH_MAX_DATA_BUFFER \<and> (\<forall>r. r \<noteq> BUF_DATA \<longrightarrow> m r = bufs (device h) r)"
proof -
  let ?m = "bufs (device (received BUF_DATA b h))"
  have b: "2 \<le> length b" "length b = unat (b ! 0)" "b ! 1 = USB_DESC_TYPE_STRING" "length b < 256"
    using assms(2) unat_u8 [of "b ! 0"] by (simp_all add: string_ok_def)
  have m: "length (?m BUF_DATA) = 512" "?m BUF_DATA ! 0 = b ! 0" "?m BUF_DATA ! 1 = USB_DESC_TYPE_STRING"
    using b assms(3) by (auto simp: nth_append usb_codes)
  define n where "n = (unat (b ! 0) - 1) div 2"
  have fits: "2 * n < 512" "n < 512" "n < 256" "2 \<le> unat (b ! 0)"
    using b unfolding b(2) [symmetric] n_def by auto
  define m where "m = ?m(BUF_DATA := map (\<lambda>j. ?m BUF_DATA ! (2 + 2 * j)) [0..<n] @ 0 # drop (n + 1) (?m BUF_DATA))"
  have "USBH_ParseStringDesc BUF_DATA BUF_DATA 255 ?m = Inr m"
    using parse_string_result [where m = ?m and src = BUF_DATA and dst = BUF_DATA] m(1,3) fits
    unfolding m(1,2) n_def [symmetric] m_def by simp
  moreover have "length (m BUF_DATA) = USBH_MAX_DATA_BUFFER" "\<forall>r. r \<noteq> BUF_DATA \<longrightarrow> m r = bufs (device h) r"
    using fits m(1) by (simp_all add: m_def usb_codes del: received_buf(1))
  ultimately show ?thesis
    by (intro exI [of _ m]) (simp add: USBH_Get_StringDesc_def get_desc_last [OF assms(1)] del: received_buf(1))
qed

text \<open>The three string states with the index of their strings and the states that follow.\<close>

definition string_index :: "dev_desc \<Rightarrow> ENUM_State \<Rightarrow> u8" where
  "string_index dd st = (case st of
     ENUM_GET_MFC_STRING_DESC \<Rightarrow> iManufacturer dd
   | ENUM_GET_PRODUCT_STRING_DESC \<Rightarrow> iProduct dd
   | _ \<Rightarrow> iSerialNumber dd)"

definition string_req :: "u8 \<Rightarrow> setup_pkt" where
  "string_req i = get_descriptor_setup 0 (USB_DESC_STRING OR ucast i) 0xFF"

definition answers_strings :: "(setup_pkt \<Rightarrow> u8 list) \<Rightarrow> dev_desc \<Rightarrow> bool" where
  "answers_strings resp dd \<longleftrightarrow>
     (\<forall>i\<in>{iManufacturer dd, iProduct dd, iSerialNumber dd}. i \<noteq> 0 \<longrightarrow> string_ok (resp (string_req i)))"

text \<open>After a string was read the host stands where it stood, but for the data buffer.\<close>

lemma string_read:
  assumes "all_done env" and "string_ok (resp (string_req i))" and "enum_at kp st dd cfg h"
  shows "\<exists>g. USBH_Get_StringDesc env i BUF_DATA 0xFF
      (mid (received BUF_DATA (resp (string_req i)) h) (BUF_DATA, 0xFF, string_req i) CTRL_STATUS_OUT_WAIT a e t) =
    Inr (USBH_OK, g) \<and> enum_at kp st dd cfg g"
proof -
  let ?h = "received BUF_DATA (resp (string_req i)) h"
  have data: "length (bufs (device h) BUF_DATA) = USBH_MAX_DATA_BUFFER" using assms(3) by (simp add: enum_at_def)
  obtain m where m: "USBH_Get_StringDesc env i BUF_DATA 0xFF
      (mid ?h (BUF_DATA, 0xFF, string_req i) CTRL_STATUS_OUT_WAIT a e t) =
    Inr (USBH_OK, upd_dev (\<lambda>d. d\<lparr>bufs := m\<rparr>)
      (fin ?h (BUF_DATA, 0xFF, string_req i) a (e(USBH_CONTROL_EVENT := True)) t))"
    "length (m BUF_DATA) = USBH_MAX_DATA_BUFFER" "\<forall>r. r \<noteq> BUF_DATA \<longrightarrow> m r = bufs (device h) r"
    using get_string_last [OF assms(1,2) data] by blast
  have "kept (upd_dev (\<lambda>d. d\<lparr>bufs := m\<rparr>) g) = kept g"
    if "m BUF_CLASS = bufs (device g) BUF_CLASS" "m BUF_RAW = bufs (device g) BUF_RAW" for g
    using that by (simp add: kept_def) (simp add: upd_dev_def)
  moreover have "m BUF_CLASS = bufs (device ?h) BUF_CLASS" "m BUF_RAW = bufs (device ?h) BUF_RAW"
    using m(3) by simp_all
  ultimately have "enum_at kp st dd cfg (upd_dev (\<lambda>d. d\<lparr>bufs := m\<rparr>)
      (fin ?h (BUF_DATA, 0xFF, string_req i) a (e(USBH_CONTROL_EVENT := True)) t))"
    using assms(3) m(2,3) by (simp add: enum_at_def)
  then show ?thesis using m(1) by blast
qed

lemma run_thread_1: "USBH_Process_OS drv (env (fst x)) x = Some (Inr y) \<Longrightarrow> run_thread drv env 1 x = Some (Inr y)"
  by simp

lemma stage_string:
  assumes h: "enum_at kp st dd cfg h" "os_events h USBH_PORT_EVENT" and ans: "answers_strings resp dd"
    and st: "(st = ENUM_GET_MFC_STRING_DESC \<and> st' = ENUM_GET_PRODUCT_STRING_DESC) \<or>
      (st = ENUM_GET_PRODUCT_STRING_DESC \<and> st' = ENUM_GET_SERIALNUM_STRING_DESC)"
  shows "\<exists>n\<le>7. \<exists>h'. run_thread drv (dev_env resp) n (h, x) = Some (Inr (h', x)) \<and> enum_at kp st' dd cfg h' \<and>
    os_events h' USBH_PORT_EVENT"
proof (cases "string_index dd st = 0")
  case True
  let ?h = "h\<lparr>os_events := (os_events h)(USBH_PORT_EVENT := False)\<rparr>"
  have e: "USBH_HandleEnum env ?h = Some (Inr (USBH_BUSY, osMessagePut USBH_STATE_CHANGED_EVENT (?h\<lparr>EnumState := st'\<rparr>)))" for env
    using h st True by (auto simp: USBH_HandleEnum_def enum_string_def enum_at_def string_index_def)
  have en: "gState h = HOST_ENUMERATION" using h(1) by (simp add: enum_at_def)
  let ?h' = "osMessagePut USBH_PORT_EVENT (ll (Delay 1) (osMessagePut USBH_STATE_CHANGED_EVENT (?h\<lparr>EnumState := st'\<rparr>)))"
  have "run_thread drv (dev_env resp) 1 (h, x) = Some (Inr (?h', x))"
    by (rule run_thread_1) (simp only: fst_conv, rule thread_enum [OF en h(2) e])
  moreover have "enum_at kp st' dd cfg ?h'"
    using h(1) by (simp add: enum_at_def) (simp add: osMessagePut_def ll_def)
  moreover have "os_events ?h' USBH_PORT_EVENT" by (simp add: osMessagePut_def)
  ultimately show ?thesis by (intro exI [of _ "1 :: nat"] conjI exI [of _ ?h']) simp_all
next
  case False
  let ?i = "string_index dd st"
  let ?r = "(BUF_DATA, 0xFF :: u16, string_req ?i)"
  have ok: "string_ok (resp (string_req ?i))"
    using ans st False by (auto simp: answers_strings_def string_index_def)
  have len: "length (resp (string_req ?i)) < 256"
    using ok unat_u8 [of "resp (string_req ?i) ! 0"] by (simp add: string_ok_def)
  have data: "length (bufs (device h) BUF_DATA) = USBH_MAX_DATA_BUFFER" using h(1) by (simp add: enum_at_def)
  have r: "enum_req h = Some ?r"
    using h(1) st False by (auto simp: enum_at_def enum_req_def string_index_def string_req_def)
  have "\<exists>h'. USBH_HandleEnum env (mid (received (fst ?r) (resp (snd (snd ?r))) h) ?r CTRL_STATUS_OUT_WAIT a e t) =
      Some (Inr (USBH_BUSY, h')) \<and> enum_at kp st' dd cfg h'" if done_: "all_done env" for env a e t
  proof -
    obtain g where "USBH_Get_StringDesc env ?i BUF_DATA 0xFF
        (mid (received BUF_DATA (resp (string_req ?i)) h) (BUF_DATA, 0xFF, string_req ?i) CTRL_STATUS_OUT_WAIT a e t) =
      Inr (USBH_OK, g)" and g: "enum_at kp st dd cfg g"
      using string_read [where resp = resp, OF done_ ok h(1)] by blast
    then have "USBH_HandleEnum env (mid (received (fst ?r) (resp (snd (snd ?r))) h) ?r CTRL_STATUS_OUT_WAIT a e t) =
        Some (Inr (USBH_BUSY, g\<lparr>EnumState := st'\<rparr>)) \<or>
      USBH_HandleEnum env (mid (received (fst ?r) (resp (snd (snd ?r))) h) ?r CTRL_STATUS_OUT_WAIT a e t) =
        Some (Inr (USBH_BUSY, osMessagePut USBH_STATE_CHANGED_EVENT (g\<lparr>EnumState := st'\<rparr>)))"
      using h(1) st False by (auto simp: USBH_HandleEnum_def enum_string_def enum_at_def string_index_def)
    then show ?thesis using enum_at_next [of kp st dd cfg g] enum_at_next [of kp st' dd cfg] g by blast
  qed
  then have "\<exists>h'. run_thread drv (dev_env resp) 7 (h, x) = Some (Inr (h', x)) \<and> enum_at kp st' dd cfg h' \<and>
      os_events h' USBH_PORT_EVENT"
    using len data by (intro stage_in [OF h r]) (simp_all add: string_req_def after_setup_in usb_codes)
  then show ?thesis by blast
qed

text \<open>The last string: the enumeration is finished, and the configuration can be set.\<close>

definition set_up :: "host_rest \<Rightarrow> HOST_State \<Rightarrow> dev_desc \<Rightarrow> cfg_desc \<Rightarrow> usb_host \<Rightarrow> bool" where
  "set_up kp gs dd cfg h \<longleftrightarrow> gState h = gs \<and> RequestState h = CMD_SEND \<and> DevDesc (device h) = dd \<and>
     CfgDesc (device h) = cfg \<and> current_interface (device h) = 0 \<and> kept h = kp \<and>
     os_events h USBH_PORT_EVENT"

lemma enum_finished:
  assumes "enum_at kp st dd cfg g" and "bNumConfigurations dd = 1" and "gState h = HOST_ENUMERATION"
    and "os_events h USBH_PORT_EVENT"
    and "USBH_HandleEnum env (h\<lparr>os_events := (os_events h)(USBH_PORT_EVENT := False)\<rparr>) = Some (Inr (USBH_OK, g))"
  shows "\<exists>h'. USBH_Process_OS drv env (h, x) = Some (Inr (h', x)) \<and> set_up kp HOST_SET_CONFIGURATION dd cfg h'"
proof -
  have "kept (upd_dev (\<lambda>d. d\<lparr>current_interface := 0\<rparr>) g\<lparr>gState := HOST_SET_CONFIGURATION\<rparr>) = kept g"
    by (simp add: kept_def) (simp add: upd_dev_def)
  then show ?thesis
    using assms by (auto simp: USBH_Process_OS_def USBH_Process_def chEvtWaitOne_def Let_def set_up_def enum_at_def)
      (simp_all add: osMessagePut_def)
qed

lemma stage_serial:
  assumes h: "enum_at kp ENUM_GET_SERIALNUM_STRING_DESC dd cfg h" "os_events h USBH_PORT_EVENT"
    and ans: "answers_strings resp dd" and one: "bNumConfigurations dd = 1"
  shows "\<exists>n\<le>7. \<exists>h'. run_thread drv (dev_env resp) n (h, x) = Some (Inr (h', x)) \<and>
    set_up kp HOST_SET_CONFIGURATION dd cfg h'"
proof (cases "iSerialNumber dd = 0")
  case True
  let ?h = "h\<lparr>os_events := (os_events h)(USBH_PORT_EVENT := False)\<rparr>"
  have "USBH_HandleEnum (dev_env resp h) ?h = Some (Inr (USBH_OK, osMessagePut USBH_STATE_CHANGED_EVENT ?h))"
    using h True by (auto simp: USBH_HandleEnum_def enum_string_def enum_at_def)
  moreover have "enum_at kp ENUM_GET_SERIALNUM_STRING_DESC dd cfg (osMessagePut USBH_STATE_CHANGED_EVENT ?h)"
    using h(1) by (intro enum_at_next(2)) (simp add: enum_at_def)
  ultimately obtain h' where "USBH_Process_OS drv (dev_env resp h) (h, x) = Some (Inr (h', x))"
    "set_up kp HOST_SET_CONFIGURATION dd cfg h'"
    using enum_finished [where h = h, OF _ one _ h(2)] h(1) by (metis enum_at_def)
  then show ?thesis
    by (intro exI [of _ "1 :: nat"] conjI exI [of _ h'] run_thread_1) simp_all
next
  case False
  let ?i = "iSerialNumber dd"
  let ?r = "(BUF_DATA, 0xFF :: u16, string_req ?i)"
  let ?g = "received (fst ?r) (resp (snd (snd ?r))) h"
  have ok: "string_ok (resp (string_req ?i))" using ans False by (simp add: answers_strings_def)
  have len: "length (resp (string_req ?i)) < 256"
    using ok unat_u8 [of "resp (string_req ?i) ! 0"] by (simp add: string_ok_def)
  have r: "host_req h = Some ?r"
    using h(1) False by (auto simp: enum_at_def host_req_def enum_req_def string_req_def)
  have "\<exists>h'. run_thread drv (dev_env resp) (5 + 2) (h, x) = Some (Inr (h', x)) \<and> set_up kp HOST_SET_CONFIGURATION dd cfg h'"
  proof (rule whole_request [OF h(2) _ r goes_in [OF r]])
    show "RequestState h = CMD_SEND" using h(1) by (simp add: enum_at_def)
    show "after_setup (snd (snd ?r)) = CTRL_DATA_IN" by (simp add: string_req_def after_setup_in)
    show "length (resp (snd (snd ?r))) \<le> length (bufs (device h) (fst ?r))"
      using len h(1) by (simp add: enum_at_def usb_codes)
    fix a t and e :: "os_event \<Rightarrow> bool"
    assume e: "e USBH_PORT_EVENT"
    let ?m = "mid ?g ?r CTRL_STATUS_OUT_WAIT a e t"
    obtain g where g: "USBH_Get_StringDesc (dev_env resp ?m) ?i BUF_DATA 0xFF
        (mid ?g ?r CTRL_STATUS_OUT_WAIT a (e(USBH_PORT_EVENT := False)) t) = Inr (USBH_OK, g)"
      "enum_at kp ENUM_GET_SERIALNUM_STRING_DESC dd cfg g"
      using string_read [where resp = resp and e = "e(USBH_PORT_EVENT := False)" and a = a and t = t,
          OF dev_env_done(1) [where resp = resp and h = ?m] ok h(1)] by auto
    have "USBH_HandleEnum (dev_env resp ?m) (?m\<lparr>os_events := (os_events ?m)(USBH_PORT_EVENT := False)\<rparr>) =
        Some (Inr (USBH_OK, g))"
      using g(1) h(1) False by (simp add: USBH_HandleEnum_def enum_string_def enum_at_def)
    then show "\<exists>h'. USBH_Process_OS drv (dev_env resp ?m) (?m, x) = Some (Inr (h', x)) \<and>
        set_up kp HOST_SET_CONFIGURATION dd cfg h'"
      using h(1) e by (intro enum_finished [OF g(2) one]) (simp_all add: enum_at_def)
  qed
  then show ?thesis by (intro exI [of _ "7 :: nat"]) simp
qed

lemma stage_set_cfg:
  assumes "set_up kp HOST_SET_CONFIGURATION dd cfg h"
  shows "\<exists>h'. run_thread drv (dev_env resp) 5 (h, x) = Some (Inr (h', x)) \<and> set_up kp HOST_CHECK_CLASS dd cfg h'"
proof -
  let ?s = "no_data 0 USB_REQ_SET_CONFIGURATION (ucast (bConfigurationValue cfg)) 0"
  let ?r = "(BUF_NULL, 0 :: u16, ?s)"
  have r: "host_req h = Some ?r" using assms by (simp add: set_up_def host_req_def)
  have a: "after_setup (snd (snd ?r)) = CTRL_STATUS_IN"
    by (simp add: after_setup_def no_data_def usb_request_codes)
  have "\<exists>h'. run_thread drv (dev_env resp) (3 + 2) (h, x) = Some (Inr (h', x)) \<and> set_up kp HOST_CHECK_CLASS dd cfg h'"
  proof (rule whole_request [OF _ _ r goes_no_data [OF r a]])
    show "os_events h USBH_PORT_EVENT" "RequestState h = CMD_SEND" using assms by (simp_all add: set_up_def)
    fix k t and e :: "os_event \<Rightarrow> bool"
    assume e: "e USBH_PORT_EVENT"
    let ?m = "mid h ?r CTRL_STATUS_IN_WAIT k e t"
    let ?h' = "osMessagePut USBH_PORT_EVENT (fin h ?r k (e(USBH_PORT_EVENT := False, USBH_CONTROL_EVENT := True)) t
      \<lparr>gState := HOST_CHECK_CLASS\<rparr>)"
    have "USBH_CtlReq (dev_env resp ?m) BUF_NULL 0 (std_request ?s (mid h ?r CTRL_STATUS_IN_WAIT k (e(USBH_PORT_EVENT := False)) t)) =
        Inr (USBH_OK, fin h ?r k (e(USBH_PORT_EVENT := False, USBH_CONTROL_EVENT := True)) t)"
      using ctl_last [where r = ?r and c = CTRL_STATUS_IN_WAIT, OF dev_env_done(1)] by simp
    then have "USBH_Process_OS drv (dev_env resp ?m) (?m, x) = Some (Inr (?h', x))"
      using e assms by (simp add: USBH_Process_OS_def USBH_Process_def chEvtWaitOne_def USBH_SetCfg_def set_up_def)
    moreover have "set_up kp HOST_CHECK_CLASS dd cfg ?h'"
    proof -
      have "kept (g\<lparr>gState := s\<rparr>) = kept g" for g s by (simp add: kept_def)
      then show ?thesis using assms by (simp add: set_up_def) (simp add: osMessagePut_def fin_def mid_def)
    qed
    ultimately show "\<exists>h'. USBH_Process_OS drv (dev_env resp ?m) (?m, x) = Some (Inr (h', x)) \<and>
        set_up kp HOST_CHECK_CLASS dd cfg h'" by blast
  qed
  then show ?thesis by simp
qed

section \<open>The enumeration completes\<close>

text \<open>A device, given by its descriptors: its answers, and one configuration.\<close>

definition device_ok :: "(setup_pkt \<Rightarrow> u8 list) \<Rightarrow> u8 list \<Rightarrow> u8 list \<Rightarrow> u8 list list \<Rightarrow> bool" where
  "device_ok resp d hdr ds \<longleftrightarrow> length d = 18 \<and> bNumConfigurations (read_dev d) = 1 \<and>
     resp (get_descriptor_setup 0 USB_DESC_DEVICE 8) = take 8 d \<and>
     resp (get_descriptor_setup 0 USB_DESC_DEVICE 18) = d \<and>
     cfg_ok hdr ds \<and> resp (get_descriptor_setup 0 USB_DESC_CONFIGURATION 9) = hdr \<and>
     resp (get_descriptor_setup 0 USB_DESC_CONFIGURATION (LE16 hdr 2)) = hdr @ concat ds \<and>
     answers_strings resp (read_dev d)"

text \<open>A host that has just seen its port reset, as the initialisation leaves it otherwise.\<close>

definition fresh :: "usb_host \<Rightarrow> bool" where
  "fresh h \<longleftrightarrow> gState h = HOST_DEV_ATTACHED \<and> EnumState h = ENUM_IDLE \<and> RequestState h = CMD_SEND \<and>
     length (Pipes h) = USBH_MAX_PIPES_NBR \<and> cfg_sized (CfgDesc (device h)) \<and>
     length (bufs (device h) BUF_DATA) = USBH_MAX_DATA_BUFFER \<and>
     length (bufs (device h) BUF_RAW) = USBH_MAX_SIZE_CONFIGURATION \<and> os_events h USBH_PORT_EVENT"

lemma alloc_ok:
  assumes "length (Pipes h) = USBH_MAX_PIPES_NBR"
  obtains p ps where "alloc_pipe ep h = Inr (p, h\<lparr>Pipes := ps\<rparr>)" and "length ps = USBH_MAX_PIPES_NBR"
  using alloc_pipe_spec [OF assms, of ep] by (auto simp: alloc_pipe_def)

lemma stage_attach:
  assumes "fresh h"
  shows "\<exists>h'. run_thread drv (dev_env resp) 1 (h, x) = Some (Inr (h', x)) \<and>
    enum_at (kept h') ENUM_IDLE (DevDesc (device h)) (CfgDesc (device h)) h' \<and>
    length (Pipes h') = USBH_MAX_PIPES_NBR \<and> os_events h' USBH_PORT_EVENT \<and> pClass h' = pClass h"
proof -
  let ?h = "upd_dev (\<lambda>d. d\<lparr>speed := USBH_LL_GetSpeed (dev_env resp h)\<rparr>)
    (ll (Delay 100) (h\<lparr>os_events := (os_events h)(USBH_PORT_EVENT := False)\<rparr>))\<lparr>gState := HOST_ENUMERATION\<rparr>"
  have "length (Pipes ?h) = USBH_MAX_PIPES_NBR" using assms by (simp add: fresh_def upd_dev_def ll_def)
  then obtain po ps where o: "alloc_pipe 0x00 ?h = Inr (po, ?h\<lparr>Pipes := ps\<rparr>)" "length ps = USBH_MAX_PIPES_NBR"
    by (rule alloc_ok)
  let ?h1 = "upd_ctl (\<lambda>k. k\<lparr>pipe_out := po\<rparr>) (?h\<lparr>Pipes := ps\<rparr>)"
  have "length (Pipes ?h1) = USBH_MAX_PIPES_NBR" using o(2) by (simp add: upd_ctl_def)
  then obtain pi ps' where i: "alloc_pipe 0x80 ?h1 = Inr (pi, ?h1\<lparr>Pipes := ps'\<rparr>)" "length ps' = USBH_MAX_PIPES_NBR"
    by (rule alloc_ok)
  let ?h2 = "osMessagePut USBH_PORT_EVENT (open_control_pipes (upd_ctl (\<lambda>k. k\<lparr>pipe_in := pi\<rparr>) (?h1\<lparr>Pipes := ps'\<rparr>)))"
  have "attached (dev_env resp h) (h\<lparr>os_events := (os_events h)(USBH_PORT_EVENT := False)\<rparr>) = Inr ?h2"
    by (simp only: attached_def Let_def o(1) i(1) sbind_simps prod.case)
  then have "run_thread drv (dev_env resp) 1 (h, x) = Some (Inr (?h2, x))"
    using assms by (simp add: USBH_Process_OS_def USBH_Process_def chEvtWaitOne_def fresh_def)
  moreover have "enum_at (kept ?h2) ENUM_IDLE (DevDesc (device h)) (CfgDesc (device h)) ?h2 \<and>
      length (Pipes ?h2) = USBH_MAX_PIPES_NBR \<and> os_events ?h2 USBH_PORT_EVENT \<and> pClass ?h2 = pClass h"
    using assms i(2) by (simp add: enum_at_def fresh_def osMessagePut_def open_control_pipes_def USBH_OpenPipe_def
        ll_def upd_dev_def upd_ctl_def Let_def)
  ultimately show ?thesis by blast
qed

text \<open>Runs one after the other, with the bounds of the polls they take added.\<close>

definition reaches :: "'s drivers \<Rightarrow> (usb_host \<Rightarrow> ll_env) \<Rightarrow> nat \<Rightarrow> usb_host \<times> 's \<Rightarrow> (usb_host \<times> 's \<Rightarrow> bool) \<Rightarrow> bool" where
  "reaches drv env k y P \<longleftrightarrow> (\<exists>n\<le>k. \<exists>z. run_thread drv env n y = Some (Inr z) \<and> P z)"

lemma reaches_trans:
  assumes "reaches drv env m y P" and "\<And>z. P z \<Longrightarrow> reaches drv env k z Q"
  shows "reaches drv env (m + k) y Q"
proof -
  obtain i z where 1: "i \<le> m" "run_thread drv env i y = Some (Inr z)" "P z" using assms(1) by (auto simp: reaches_def)
  obtain j w where 2: "j \<le> k" "run_thread drv env j z = Some (Inr w)" "Q w"
    using assms(2) [OF 1(3)] by (auto simp: reaches_def)
  have "run_thread drv env (i + j) y = Some (Inr w)" using run_thread_add [OF 1(2)] 2(2) by simp
  then show ?thesis
    unfolding reaches_def using 1(1) 2(1,3) by (intro exI [of _ "i + j"] conjI exI [of _ w]) simp_all
qed

definition enum_pt ::
    "host_rest \<Rightarrow> 's \<Rightarrow> ENUM_State \<Rightarrow> dev_desc \<Rightarrow> cfg_desc \<Rightarrow> usb_host \<times> 's \<Rightarrow> bool" where
  "enum_pt kp x st dd cfg z \<longleftrightarrow> snd z = x \<and> enum_at kp st dd cfg (fst z) \<and> os_events (fst z) USBH_PORT_EVENT"

lemma stage_reaches:
  assumes "\<exists>h'. run_thread drv env n (fst z, x) = Some (Inr (h', x)) \<and> enum_at kp st dd cfg h' \<and>
    os_events h' USBH_PORT_EVENT" and "snd z = x"
  shows "reaches drv env n z (enum_pt kp x st dd cfg)"
  using assms by (cases z) (auto simp: reaches_def enum_pt_def)

lemma stage_reaches_le:
  assumes "\<exists>n\<le>k. \<exists>h'. run_thread drv env n (fst z, x) = Some (Inr (h', x)) \<and> P h'" and "snd z = x"
  shows "reaches drv env k z (\<lambda>w. snd w = x \<and> P (fst w))"
  using assms by (cases z) (auto simp: reaches_def)

lemma enum_reaches:
  assumes "device_ok resp d hdr ds" and "cfg_sized cfg" and at_idle: "enum_pt kp x ENUM_IDLE dd cfg z"
  shows "reaches drv (dev_env resp) 59 z (\<lambda>w. snd w = x \<and>
      set_up (read_raw (hdr @ concat ds) (read_raw hdr kp)) HOST_CHECK_CLASS (read_dev d) (cfg_meaning (interfaces ds) (cfg_header hdr cfg)) (fst w))"
proof -
  note ok = assms(1) [unfolded device_ok_def]
  let ?dd = "read_dev d" and ?cfg = "cfg_meaning (interfaces ds) (cfg_header hdr cfg)"
  let ?r = "reaches drv (dev_env resp)"
  let ?pt = "enum_pt kp x"
  let ?kp1 = "read_raw hdr kp"
  let ?kp2 = "read_raw (hdr @ concat ds) ?kp1"
  let ?pt1 = "enum_pt ?kp1 x" and ?pt2 = "enum_pt ?kp2 x"
  have 1: "?r 7 z (?pt ENUM_GET_FULL_DEV_DESC (dev_start (take 8 d) dd) cfg)"
    by (rule stage_reaches [OF stage_idle]) (use at_idle ok in \<open>simp_all add: enum_pt_def\<close>)
  have 2: "?r 7 z (?pt ENUM_SET_ADDR ?dd cfg)" if "?pt ENUM_GET_FULL_DEV_DESC (dev_start (take 8 d) dd) cfg z" for z
    by (rule stage_reaches [OF stage_dev [where dd = "dev_start (take 8 d) dd"]]) (use that ok in \<open>simp_all add: enum_pt_def\<close>)
  have 3: "?r 5 z (?pt ENUM_GET_CFG_DESC ?dd cfg)" if "?pt ENUM_SET_ADDR ?dd cfg z" for z
    by (rule stage_reaches [OF stage_addr]) (use that in \<open>simp_all add: enum_pt_def\<close>)
  have 4: "?r 7 z (?pt1 ENUM_GET_FULL_CFG_DESC ?dd (cfg_header hdr cfg))" if "?pt ENUM_GET_CFG_DESC ?dd cfg z" for z
    by (rule stage_reaches [OF stage_cfg9]) (use that ok in \<open>simp_all add: enum_pt_def cfg_ok_def\<close>)
  have 5: "?r 7 z (?pt2 ENUM_GET_MFC_STRING_DESC ?dd ?cfg)" if "?pt1 ENUM_GET_FULL_CFG_DESC ?dd (cfg_header hdr cfg) z" for z
    by (rule stage_reaches [OF stage_cfg]) (use that ok assms(2) in \<open>simp_all add: enum_pt_def\<close>)
  have str: "?r 7 z (?pt2 st' ?dd ?cfg)" if "?pt2 st ?dd ?cfg z"
    "(st = ENUM_GET_MFC_STRING_DESC \<and> st' = ENUM_GET_PRODUCT_STRING_DESC) \<or>
     (st = ENUM_GET_PRODUCT_STRING_DESC \<and> st' = ENUM_GET_SERIALNUM_STRING_DESC)" for z st st'
  proof -
    have "?r 7 z (\<lambda>w. snd w = x \<and> (enum_at ?kp2 st' ?dd ?cfg (fst w) \<and> os_events (fst w) USBH_PORT_EVENT))"
      by (rule stage_reaches_le [OF stage_string]) (use that ok in \<open>simp_all add: enum_pt_def\<close>)
    then show ?thesis by (simp add: enum_pt_def [abs_def])
  qed
  have 6: "?r 7 z (?pt2 ENUM_GET_PRODUCT_STRING_DESC ?dd ?cfg)" if "?pt2 ENUM_GET_MFC_STRING_DESC ?dd ?cfg z" for z
    by (rule str [OF that]) simp
  have 7: "?r 7 z (?pt2 ENUM_GET_SERIALNUM_STRING_DESC ?dd ?cfg)" if "?pt2 ENUM_GET_PRODUCT_STRING_DESC ?dd ?cfg z" for z
    by (rule str [OF that]) simp
  have 8: "?r 7 z (\<lambda>w. snd w = x \<and> set_up ?kp2 HOST_SET_CONFIGURATION ?dd ?cfg (fst w))"
    if "?pt2 ENUM_GET_SERIALNUM_STRING_DESC ?dd ?cfg z" for z
    by (rule stage_reaches_le [OF stage_serial]) (use that ok in \<open>simp_all add: enum_pt_def\<close>)
  have 9: "?r 5 z (\<lambda>w. snd w = x \<and> set_up ?kp2 HOST_CHECK_CLASS ?dd ?cfg (fst w))"
    if "snd z = x \<and> set_up ?kp2 HOST_SET_CONFIGURATION ?dd ?cfg (fst z)" for z
  proof -
    have "\<exists>n\<le>5. \<exists>h'. run_thread drv (dev_env resp) n (fst z, x) = Some (Inr (h', x)) \<and>
        set_up ?kp2 HOST_CHECK_CLASS ?dd ?cfg h'"
      by (rule exI [of _ 5], rule conjI [OF order_refl], rule stage_set_cfg) (use that in simp)
    then show ?thesis by (rule stage_reaches_le) (use that in simp)
  qed
  show ?thesis
    using reaches_trans [OF 1 reaches_trans [OF 2 reaches_trans [OF 3 reaches_trans [OF 4 reaches_trans [OF 5
      reaches_trans [OF 6 reaches_trans [OF 7 reaches_trans [OF 8 9]]]]]]]] by simp
qed

lemma enumeration:
  assumes "fresh h" and "device_ok resp d hdr ds"
  shows "\<exists>n\<le>60. \<exists>h'. run_thread drv (dev_env resp) n (h, x) = Some (Inr (h', x)) \<and>
    gState h' = HOST_CHECK_CLASS \<and> DevDesc (device h') = read_dev d \<and>
    CfgDesc (device h') = cfg_meaning (interfaces ds) (cfg_header hdr (CfgDesc (device h))) \<and>
    pClass h' = pClass h \<and> os_events h' USBH_PORT_EVENT \<and>
    (\<exists>rest. bufs (device h') BUF_RAW = hdr @ concat ds @ rest) \<and> length (Pipes h') = USBH_MAX_PIPES_NBR \<and>
    RequestState h' = CMD_SEND"
proof -
  let ?cfg = "CfgDesc (device h)"
  obtain h1 where 1: "run_thread drv (dev_env resp) 1 (h, x) = Some (Inr (h1, x))"
    "enum_at (kept h1) ENUM_IDLE (DevDesc (device h)) ?cfg h1" "length (Pipes h1) = USBH_MAX_PIPES_NBR" "os_events h1 USBH_PORT_EVENT" "pClass h1 = pClass h"
    using stage_attach [where drv = drv and resp = resp and x = x, OF assms(1)] by (elim exE conjE) (rule that)
  have sz: "cfg_sized ?cfg" using assms(1) by (simp add: fresh_def)
  obtain n w where 2: "n \<le> 59" "run_thread drv (dev_env resp) n (h1, x) = Some (Inr w)" "snd w = x"
    "set_up (read_raw (hdr @ concat ds) (read_raw hdr (kept h1))) HOST_CHECK_CLASS (read_dev d) (cfg_meaning (interfaces ds) (cfg_header hdr ?cfg)) (fst w)"
    using enum_reaches [OF assms(2) sz, of "kept h1" x "DevDesc (device h)" "(h1, x)" drv] 1(2,4)
    by (auto simp: reaches_def enum_pt_def)
  have "run_thread drv (dev_env resp) (1 + n) (h, x) = Some (Inr (fst w, x))"
    using run_thread_add [OF 1(1), of n] 2(2,3) by (cases w) simp
  then show ?thesis
    using 2(1,4) 1(3,5)
    by (intro exI [of _ "1 + n"] conjI exI [of _ "fst w"]) (auto simp: set_up_def kept_def read_raw_def)
qed


text \<open>A MIDI device with one interface, two endpoints and a product name.\<close>

definition sample_dev :: "u8 list" where
  "sample_dev = [18, 1, 0x10, 1, 0, 0, 0, 8, 0x34, 0x12, 0x78, 0x56, 0, 1, 0, 2, 0, 1]"

definition sample_resp :: "setup_pkt \<Rightarrow> u8 list" where
  "sample_resp p =
     (if wValue p = USB_DESC_DEVICE then take (unat (wLength p)) sample_dev
      else if wValue p = USB_DESC_CONFIGURATION then take (unat (wLength p)) (sample_hdr @ concat sample_descs)
      else string_desc [77, 73])"

lemma sample_device: "device_ok sample_resp sample_dev sample_hdr sample_descs"
  by (simp add: device_ok_def sample_resp_def sample_dev_def sample_hdr_def sample_descs_def read_dev_def
      get_descriptor_setup_def usb_request_codes cfg_ok_def desc_ok_def answers_strings_def string_req_def
      string_ok_def string_desc_def LE16_def usb_codes)


section \<open>A device that refuses a request\<close>

text \<open>While the device stalls the data stage, nothing but the events and the pauses changes.\<close>

lemma stall_step:
  assumes "gState h = HOST_ENUMERATION" and "RequestState h = CMD_WAIT"
    and "cstate (Control h) = CTRL_DATA_IN_WAIT" and "enum_req h = Some r"
    and "urb_of env (pipe_in (Control h)) = URB_STALL"
  shows "\<exists>a e. USBH_Process_OS drv env (h, x) = Some (Inr (h\<lparr>ll_calls := a, os_events := e\<rparr>, x))"
proof (cases "chEvtWaitOne (os_events h)")
  case None
  then show ?thesis by (intro exI [of _ "ll_calls h"] exI [of _ "os_events h"]) (simp add: USBH_Process_OS_def)
next
  case (Some v)
  obtain b len s where r: "r = (b, len, s)" by (cases r)
  let ?h = "h\<lparr>os_events := (os_events h)(v := False)\<rparr>"
  have "std_request s ?h = ?h" using assms(2) by (simp add: std_request_def)
  then have "USBH_CtlReq env b len (std_request s ?h) = Inr (USBH_NOT_SUPPORTED, osMessagePut USBH_CONTROL_EVENT ?h)"
    using assms by (simp add: USBH_CtlReq_def USBH_HandleControl_def Let_def)
  then have "USBH_HandleEnum env ?h = Some (Inr (USBH_BUSY, osMessagePut USBH_CONTROL_EVENT ?h))"
    using enum_busy [of ?h b len s env USBH_NOT_SUPPORTED] assms(4) r by simp
  then have "USBH_Process_OS drv env (h, x) =
      Some (Inr (osMessagePut USBH_PORT_EVENT (ll (Delay 1) (osMessagePut USBH_CONTROL_EVENT ?h)), x))"
    using Some assms(1) by (simp add: USBH_Process_OS_def USBH_Process_def)
  moreover have "\<exists>a e. osMessagePut USBH_PORT_EVENT (ll (Delay 1) (osMessagePut USBH_CONTROL_EVENT ?h)) =
      h\<lparr>ll_calls := a, os_events := e\<rparr>" by (simp add: osMessagePut_def ll_def) blast
  ultimately show ?thesis by metis
qed

lemma enum_req_calls [simp]: "enum_req (h\<lparr>ll_calls := a\<rparr>) = enum_req h"
  by (cases "EnumState h") (simp_all add: enum_req_def Let_def)

lemma stall_run:
  assumes "gState h = HOST_ENUMERATION" and "RequestState h = CMD_WAIT"
    and "cstate (Control h) = CTRL_DATA_IN_WAIT" and "enum_req h = Some r"
    and "\<forall>g. urb_of (env g) (pipe_in (Control g)) = URB_STALL"
  shows "\<exists>a e. run_thread drv env n (h, x) = Some (Inr (h\<lparr>ll_calls := a, os_events := e\<rparr>, x))"
proof (induction n)
  case 0
  show ?case by (intro exI [of _ "ll_calls h"] exI [of _ "os_events h"]) simp
next
  case (Suc n)
  then obtain a e where 1: "run_thread drv env n (h, x) = Some (Inr (h\<lparr>ll_calls := a, os_events := e\<rparr>, x))" by blast
  let ?g = "h\<lparr>ll_calls := a, os_events := e\<rparr>"
  have "\<exists>a' e'. USBH_Process_OS drv (env ?g) (?g, x) = Some (Inr (?g\<lparr>ll_calls := a', os_events := e'\<rparr>, x))"
  proof (rule stall_step)
    show "urb_of (env ?g) (pipe_in (Control ?g)) = URB_STALL" using assms(5) by blast
  qed (use assms in simp_all)
  then obtain a' e' where "USBH_Process_OS drv (env ?g) (?g, x) = Some (Inr (h\<lparr>ll_calls := a', os_events := e'\<rparr>, x))"
    by auto
  then have "run_thread drv env (Suc n) (h, x) = Some (Inr (h\<lparr>ll_calls := a', os_events := e'\<rparr>, x))"
    by (intro run_thread_snoc [OF 1]) simp
  then show ?case by blast
qed

text \<open>
  C36: A device that refuses a descriptor is never brought into service. When it stalls the data
  stage of a request of the enumeration, the host waits in this stage for as long as the device
  is attached: however often the thread runs, it neither goes on without the descriptor, nor
  gives the device up, nor sends the request again.
\<close>

lemma stall_blocks_enumeration:
  assumes "gState h = HOST_ENUMERATION" and "RequestState h = CMD_WAIT"
    and "cstate (Control h) = CTRL_DATA_IN_WAIT" and "enum_req h = Some r"
    and "\<forall>g. urb_of (env g) (pipe_in (Control g)) = URB_STALL"
  shows "\<exists>h'. run_thread drv env n (h, x) = Some (Inr (h', x)) \<and> gState h' = HOST_ENUMERATION \<and>
    EnumState h' = EnumState h \<and> RequestState h' = CMD_WAIT \<and> Control h' = Control h \<and> device h' = device h"
  using stall_run [where env = env and n = n and x = x and drv = drv, OF assms] assms(1,2) by auto

definition stall_host :: usb_host where
  "stall_host = hUSBHost\<lparr>gState := HOST_ENUMERATION, EnumState := ENUM_GET_PRODUCT_STRING_DESC,
     RequestState := CMD_WAIT,
     Control := (Control hUSBHost)\<lparr>cstate := CTRL_DATA_IN_WAIT\<rparr>,
     device := (device hUSBHost)\<lparr>DevDesc := read_dev sample_dev\<rparr>, os_events := (\<lambda>_. True)\<rparr>"

lemma stall_blocks_enumeration_witness:
  "\<exists>h'. run_thread (\<lambda>_. undefined) (\<lambda>_. \<lparr>urb_of = (\<lambda>_. URB_STALL), xfer_of = (\<lambda>_. 0), rx_of = [], hcd_speed = 1\<rparr>)
      1000 (stall_host, ()) = Some (Inr (h', ())) \<and> gState h' = HOST_ENUMERATION \<and>
    EnumState h' = EnumState stall_host \<and> RequestState h' = CMD_WAIT \<and> Control h' = Control stall_host \<and>
    device h' = device stall_host"
  by (rule stall_blocks_enumeration [where r = "(BUF_DATA, 0xFF, string_req 2)"])
    (simp_all add: stall_host_def enum_req_def read_dev_def sample_dev_def string_req_def)

end
