(* ===== verification/Hid_Fifo.thy ===== *)
theory Hid_Fifo
  imports Prelude
begin

text \<open>
  The byte queue between the poll of a HID device and the decoding of its reports (fifo\_init,
  fifo\_read and fifo\_write of usbh\_hid.c). The storage is the data buffer of the host, kept
  apart from the record here and passed along with it.
\<close>

section \<open>The queue\<close>

record hid_fifo =
  fhead :: u16
  ftail :: u16
  fsize :: u16
  flock :: u8

definition fifo_init :: "u16 \<Rightarrow> hid_fifo" where
  "fifo_init n = \<lparr>fhead = 0, ftail = 0, fsize = n, flock = 0\<rparr>"

definition fifo_step :: "hid_fifo \<Rightarrow> u16 \<Rightarrow> u16" where
  "fifo_step f i = (if i + 1 = fsize f then 0 else i + 1)"

definition fifo_full :: "hid_fifo \<Rightarrow> bool" where
  "fifo_full f \<longleftrightarrow> uint (fhead f) + 1 = uint (ftail f) \<or>
     (uint (fhead f) + 1 = uint (fsize f) \<and> ftail f = 0)"

fun fifo_get :: "nat \<Rightarrow> hid_fifo \<times> u8 list \<Rightarrow> fault + (u8 list \<times> hid_fifo)" where
  "fifo_get 0 (f, b) = Inr ([], f)"
| "fifo_get (Suc n) (f, b) =
     (if ftail f = fhead f then Inr ([], f)
      else sbind (nth_e b (unat (ftail f))) (\<lambda>x.
        sbind (fifo_get n (f\<lparr>ftail := fifo_step f (ftail f)\<rparr>, b)) (\<lambda>(xs, f). Inr (x # xs, f))))"

fun fifo_put :: "nat \<Rightarrow> u8 list \<Rightarrow> nat \<Rightarrow> hid_fifo \<times> u8 list \<Rightarrow> fault + (nat \<times> hid_fifo \<times> u8 list)" where
  "fifo_put 0 src i (f, b) = Inr (i, f, b)"
| "fifo_put (Suc n) src i (f, b) =
     (if fifo_full f then Inr (i, f, b)
      else sbind (nth_e src i) (\<lambda>x. sbind (upd_e b (unat (fhead f)) x) (\<lambda>b.
        fifo_put n src (i + 1) (f\<lparr>fhead := fifo_step f (fhead f)\<rparr>, b))))"

text \<open>
  The bytes read go to the front of the destination; the result is their number. A queue that is
  locked is left alone, but unlocked, and the number asked for is returned.
\<close>

definition fifo_read :: "u16 \<Rightarrow> u8 list \<Rightarrow> hid_fifo \<times> u8 list \<Rightarrow> fault + (u16 \<times> u8 list \<times> hid_fifo)" where
  "fifo_read nbytes dest = (\<lambda>(f, b).
     if flock f = 0 then
       sbind (fifo_get (unat nbytes) (f, b)) (\<lambda>(xs, f).
         if length xs \<le> length dest
         then Inr (of_nat (length xs), xs @ drop (length xs) dest, f\<lparr>flock := 0\<rparr>)
         else Inl OutOfBounds)
     else Inr (nbytes, dest, f\<lparr>flock := 0\<rparr>))"

definition fifo_write :: "u8 list \<Rightarrow> u16 \<Rightarrow> hid_fifo \<times> u8 list \<Rightarrow> fault + (u16 \<times> hid_fifo \<times> u8 list)" where
  "fifo_write src nbytes = (\<lambda>(f, b).
     if flock f = 0 then
       sbind (fifo_put (unat nbytes) src 0 (f, b)) (\<lambda>(i, f, b). Inr (of_nat i, f\<lparr>flock := 0\<rparr>, b))
     else Inr (nbytes, f\<lparr>flock := 0\<rparr>, b))"

section \<open>As a bounded queue\<close>

definition fcount :: "nat \<Rightarrow> nat \<Rightarrow> nat \<Rightarrow> nat" where
  "fcount s t h = (if t \<le> h then h - t else h + s - t)"

definition fpos :: "nat \<Rightarrow> nat \<Rightarrow> nat \<Rightarrow> nat" where
  "fpos s t i = (if t + i < s then t + i else t + i - s)"

definition fbytes :: "hid_fifo \<Rightarrow> u8 list \<Rightarrow> u8 list" where
  "fbytes f b = map (\<lambda>i. b ! fpos (unat (fsize f)) (unat (ftail f)) i)
     [0..<fcount (unat (fsize f)) (unat (ftail f)) (unat (fhead f))]"

definition hfifo_ok :: "hid_fifo \<Rightarrow> u8 list \<Rightarrow> bool" where
  "hfifo_ok f b \<longleftrightarrow> fhead f < fsize f \<and> ftail f < fsize f \<and> unat (fsize f) \<le> length b \<and> flock f = 0"

lemma fifo_step_unat:
  assumes "i < fsize f"
  shows "unat (fifo_step f i) = (if unat i + 1 = unat (fsize f) then 0 else unat i + 1)"
    and "fifo_step f i < fsize f"
proof -
  have l: "unat i + 1 \<le> unat (fsize f)" using assms by (simp add: word_less_nat_alt)
  moreover have "unat (fsize f) < 65536" using unsigned_less [of "fsize f"] by simp
  ultimately have "unat i + 1 < 65536" by linarith
  then have "unat (i + 1) = unat i + 1" by (simp add: unat_word_ariths)
  then show 1: "unat (fifo_step f i) = (if unat i + 1 = unat (fsize f) then 0 else unat i + 1)"
    by (auto simp: fifo_step_def word_unat_eq_iff)
  show "fifo_step f i < fsize f" using 1 l assms by (auto simp: word_less_nat_alt split: if_splits)
qed

lemma fifo_full_iff:
  assumes "hfifo_ok f b"
  shows "fifo_full f \<longleftrightarrow> length (fbytes f b) + 1 = unat (fsize f)"
proof -
  have "fifo_full f \<longleftrightarrow> unat (fhead f) + 1 = unat (ftail f) \<or>
      (unat (fhead f) + 1 = unat (fsize f) \<and> unat (ftail f) = 0)"
  proof -
    have u: "uint x = int (unat x)" for x :: u16 by simp
    have i: "int m + 1 = int n \<longleftrightarrow> m + 1 = n" for m n by linarith
    show ?thesis unfolding fifo_full_def u i word_unat_eq_iff by simp
  qed
  then show ?thesis using assms by (auto simp: hfifo_ok_def word_less_nat_alt fbytes_def fcount_def)
qed

lemma fifo_empty_iff:
  assumes "hfifo_ok f b"
  shows "ftail f = fhead f \<longleftrightarrow> fbytes f b = []"
  using assms by (auto simp: hfifo_ok_def word_less_nat_alt fbytes_def fcount_def word_unat_eq_iff split: if_splits)

lemma fpos_step:
  assumes "t < s" and "h < s" and "t \<noteq> h" and "i + 1 < fcount s t h"
  shows "fpos s (if t + 1 = s then 0 else t + 1) i = fpos s t (i + 1)"
  using assms by (auto simp: fpos_def fcount_def split: if_splits)

lemma fcount_tail:
  assumes "t < s" and "h < s" and "t \<noteq> h"
  shows "fcount s t h = Suc (fcount s (if t + 1 = s then 0 else t + 1) h)"
  using assms by (auto simp: fcount_def)

lemma fifo_get_one:
  assumes "hfifo_ok f b" and "ftail f \<noteq> fhead f"
  defines "g \<equiv> f\<lparr>ftail := fifo_step f (ftail f)\<rparr>"
  shows "nth_e b (unat (ftail f)) = Inr (b ! unat (ftail f))"
    and "fbytes f b = b ! unat (ftail f) # fbytes g b" and "hfifo_ok g b"
proof -
  let ?s = "unat (fsize f)" and ?t = "unat (ftail f)" and ?h = "unat (fhead f)"
  have ok: "?h < ?s" "?t < ?s" "?s \<le> length b" "flock f = 0" "ftail f < fsize f" "fhead f < fsize f"
    using assms(1) by (simp_all add: hfifo_ok_def word_less_nat_alt)
  have ne: "?t \<noteq> ?h" using assms(2) by (simp add: word_unat_eq_iff)
  show "nth_e b ?t = Inr (b ! ?t)" using ok by simp
  note st = fifo_step_unat [OF ok(5)]
  show "hfifo_ok g b" using ok st(2) by (simp add: g_def hfifo_ok_def word_le_nat_alt fifo_step_def)
  let ?t' = "if ?t + 1 = ?s then 0 else ?t + 1"
  have "fbytes f b = map (\<lambda>i. b ! fpos ?s ?t i) [0..<Suc (fcount ?s ?t' ?h)]"
    unfolding fbytes_def fcount_tail [OF ok(2,1) ne] ..
  also have "\<dots> = b ! ?t # map (\<lambda>i. b ! fpos ?s ?t (i + 1)) [0..<fcount ?s ?t' ?h]"
    using ok(2) by (simp add: upt_rec [of 0 "Suc _"] fpos_def map_Suc_upt [symmetric] comp_def del: upt_Suc)
  also have "map (\<lambda>i. b ! fpos ?s ?t (i + 1)) [0..<fcount ?s ?t' ?h] = fbytes g b"
    using fpos_step [OF ok(2,1) ne] fcount_tail [OF ok(2,1) ne] by (simp add: fbytes_def g_def st(1))
  finally show "fbytes f b = b ! ?t # fbytes g b" .
qed

lemma fifo_get_spec:
  "hfifo_ok f b \<Longrightarrow> \<exists>g. fifo_get n (f, b) = Inr (take n (fbytes f b), g) \<and> hfifo_ok g b \<and>
     fbytes g b = drop n (fbytes f b) \<and> fsize g = fsize f"
proof (induction n arbitrary: f)
  case 0
  then show ?case by simp
next
  case (Suc n)
  show ?case
  proof (cases "ftail f = fhead f")
    case True
    then have "fbytes f b = []" using fifo_empty_iff [OF Suc.prems] by simp
    then show ?thesis using True Suc.prems by simp
  next
    case False
    note one = fifo_get_one [OF Suc.prems False]
    show ?thesis using Suc.IH [OF one(3)] one False by auto
  qed
qed

lemma fcount_head:
  assumes "t < s" and "h < s" and "fcount s t h + 1 \<noteq> s"
  shows "fcount s t (if h + 1 = s then 0 else h + 1) = Suc (fcount s t h)"
    and "fpos s t (fcount s t h) = h" and "i < fcount s t h \<Longrightarrow> fpos s t i \<noteq> h"
  using assms by (auto simp: fcount_def fpos_def split: if_splits)

lemma fifo_put_one:
  fixes x :: u8
  assumes "hfifo_ok f b" and "\<not> fifo_full f"
  defines "g \<equiv> f\<lparr>fhead := fifo_step f (fhead f)\<rparr>" and "b' \<equiv> b[unat (fhead f) := x]"
  shows "upd_e b (unat (fhead f)) x = Inr b'" and "fbytes g b' = fbytes f b @ [x]" and "hfifo_ok g b'"
proof -
  let ?s = "unat (fsize f)" and ?t = "unat (ftail f)" and ?h = "unat (fhead f)"
  have ok: "?h < ?s" "?t < ?s" "?s \<le> length b" "flock f = 0" "ftail f < fsize f" "fhead f < fsize f"
    using assms(1) by (simp_all add: hfifo_ok_def word_less_nat_alt)
  show "upd_e b ?h x = Inr b'" using ok by (simp add: b'_def)
  note st = fifo_step_unat [OF ok(6)]
  show "hfifo_ok g b'" using ok st(2) by (simp add: g_def b'_def hfifo_ok_def word_le_nat_alt fifo_step_def)
  have nf: "fcount ?s ?t ?h + 1 \<noteq> ?s" using fifo_full_iff [OF assms(1)] assms(2) by (simp add: fbytes_def)
  note fh = fcount_head [OF ok(2,1) nf]
  have "fpos ?s ?t i < length b" if "i < fcount ?s ?t ?h" for i
    using that ok by (auto simp: fpos_def fcount_def split: if_splits)
  then have "b' ! fpos ?s ?t i = b ! fpos ?s ?t i" if "i < fcount ?s ?t ?h" for i
    using fh(3) [OF that] that by (simp add: b'_def)
  moreover have "b' ! ?h = x" using ok by (simp add: b'_def)
  ultimately show "fbytes g b' = fbytes f b @ [x]"
    unfolding fbytes_def by (simp add: g_def st(1) fh(1) [simplified] fh(2))
qed

lemma fifo_put_spec:
  assumes "hfifo_ok f b" and "i + n \<le> length src"
  shows "\<exists>g b' k. fifo_put n src i (f, b) = Inr (i + k, g, b') \<and> hfifo_ok g b' \<and> fsize g = fsize f \<and>
    length b' = length b \<and> k = min n (unat (fsize f) - 1 - length (fbytes f b)) \<and>
    fbytes g b' = fbytes f b @ take k (drop i src)"
  using assms
proof (induction n arbitrary: f b i)
  case 0
  then show ?case by simp
next
  case (Suc n)
  have cap: "length (fbytes f b) < unat (fsize f)"
    using Suc.prems(1) by (auto simp: hfifo_ok_def word_less_nat_alt fbytes_def fcount_def)
  show ?case
  proof (cases "fifo_full f")
    case True
    then show ?thesis using Suc.prems(1) fifo_full_iff [OF Suc.prems(1)] by simp
  next
    case False
    let ?g = "f\<lparr>fhead := fifo_step f (fhead f)\<rparr>" and ?b = "b[unat (fhead f) := src ! i]"
    note one = fifo_put_one [OF Suc.prems(1) False, of "src ! i"]
    have i: "i < length src" "i + 1 + n \<le> length src" using Suc.prems(2) by simp_all
    have nf: "length (fbytes f b) + 1 \<noteq> unat (fsize f)" using False fifo_full_iff [OF Suc.prems(1)] by simp
    obtain g b' k where 1: "fifo_put n src (i + 1) (?g, ?b) = Inr (i + 1 + k, g, b')" "hfifo_ok g b'"
      "fsize g = fsize f" "length b' = length b" "k = min n (unat (fsize f) - 1 - (length (fbytes f b) + 1))"
      "fbytes g b' = (fbytes f b @ [src ! i]) @ take k (drop (i + 1) src)"
      using Suc.IH [OF one(3) i(2)] one(2) by auto
    have "Suc k = min (Suc n) (unat (fsize f) - 1 - length (fbytes f b))" using 1(5) cap nf by linarith
    moreover have "fbytes g b' = fbytes f b @ take (Suc k) (drop i src)"
      using 1(6) i(1) by (simp add: Cons_nth_drop_Suc [symmetric])
    ultimately show ?thesis using 1 False i one(1) by (intro exI [of _ g] exI [of _ b'] exI [of _ "Suc k"]) simp
  qed
qed

lemma fbytes_less: "hfifo_ok f b \<Longrightarrow> length (fbytes f b) < unat (fsize f)"
  by (auto simp: hfifo_ok_def word_less_nat_alt fbytes_def fcount_def)

text \<open>
  The report queue of a HID device is a bounded queue: a write appends the bytes that still
  fit, at most one less than its size, and tells how many these were; a read takes the oldest
  bytes, at most as many as asked for, puts them at the front of the destination and tells their
  number. Neither reads or writes outside the queue.
\<close>

lemma hid_fifo_bounded:
  assumes "hfifo_ok f b" and "unat n \<le> length src" and "unat n \<le> length dest"
  shows "(let k = min (unat n) (unat (fsize f) - 1 - length (fbytes f b)) in
      \<exists>g b'. fifo_write src n (f, b) = Inr (of_nat k, g, b') \<and> hfifo_ok g b' \<and> fsize g = fsize f \<and>
        fbytes g b' = fbytes f b @ take k src) \<and>
    (let xs = take (unat n) (fbytes f b) in
      \<exists>g. fifo_read n dest (f, b) = Inr (of_nat (length xs), xs @ drop (length xs) dest, g) \<and>
        hfifo_ok g b \<and> fsize g = fsize f \<and> fbytes g b = drop (unat n) (fbytes f b))"
proof
  have lock: "flock f = 0" "f\<lparr>flock := 0\<rparr> = f" using assms(1) by (simp_all add: hfifo_ok_def)
  have unlock: "g\<lparr>flock := 0\<rparr> = g" if "hfifo_ok g c" for g c using that by (simp add: hfifo_ok_def)
  obtain g b' k where "fifo_put (unat n) src 0 (f, b) = Inr (k, g, b')" "hfifo_ok g b'" "fsize g = fsize f"
    "k = min (unat n) (unat (fsize f) - 1 - length (fbytes f b))" "fbytes g b' = fbytes f b @ take k src"
    using fifo_put_spec [OF assms(1), of 0 "unat n" src] assms(2) by auto
  then show "let k = min (unat n) (unat (fsize f) - 1 - length (fbytes f b)) in
      \<exists>g b'. fifo_write src n (f, b) = Inr (of_nat k, g, b') \<and> hfifo_ok g b' \<and> fsize g = fsize f \<and>
        fbytes g b' = fbytes f b @ take k src"
    using lock unlock by (auto simp: fifo_write_def Let_def)
  obtain g where "fifo_get (unat n) (f, b) = Inr (take (unat n) (fbytes f b), g)" "hfifo_ok g b"
    "fbytes g b = drop (unat n) (fbytes f b)" "fsize g = fsize f"
    using fifo_get_spec [OF assms(1)] by blast
  then show "let xs = take (unat n) (fbytes f b) in
      \<exists>g. fifo_read n dest (f, b) = Inr (of_nat (length xs), xs @ drop (length xs) dest, g) \<and>
        hfifo_ok g b \<and> fsize g = fsize f \<and> fbytes g b = drop (unat n) (fbytes f b)"
    using lock unlock assms(3) by (auto simp: fifo_read_def Let_def)
qed

lemma hid_fifo_bounded_witness:
  "(let k = min (unat (4 :: u16)) (unat (fsize (fifo_init 40)) - 1 - length (fbytes (fifo_init 40) (replicate 512 0))) in
      \<exists>g b'. fifo_write [1, 2, 3, 4] 4 (fifo_init 40, replicate 512 0) = Inr (of_nat k, g, b') \<and> hfifo_ok g b' \<and>
        fsize g = fsize (fifo_init 40) \<and> fbytes g b' = fbytes (fifo_init 40) (replicate 512 0) @ take k [1, 2, 3, 4]) \<and>
    (let xs = take (unat (4 :: u16)) (fbytes (fifo_init 40) (replicate 512 0)) in
      \<exists>g. fifo_read 4 [0, 0, 0, 0] (fifo_init 40, replicate 512 0) =
          Inr (of_nat (length xs), xs @ drop (length xs) [0, 0, 0, 0], g) \<and>
        hfifo_ok g (replicate 512 0) \<and> fsize g = fsize (fifo_init 40) \<and>
        fbytes g (replicate 512 0) = drop (unat (4 :: u16)) (fbytes (fifo_init 40) (replicate 512 0)))"
  by (rule hid_fifo_bounded) (simp_all add: hfifo_ok_def fifo_init_def)

end
