(* ===== verification/Hid_Report.thy ===== *)
theory Hid_Report
  imports Prelude
begin

text \<open>
  The reports of HID devices: reading and writing an item of a report (usbh\_hid\_parser.c), the
  items of a mouse (usbh\_hid\_mouse.c) and of a keyboard (usbh\_hid\_keybd.c) with their decoding,
  and the characters of the keys. A report is its bytes; the pointer of an item is an offset into
  them.
\<close>

section \<open>Items\<close>

record report_item =
  it_data :: nat
  it_size :: u32
  it_shift :: u8
  it_count :: u8
  it_sign :: u8
  logical_min :: u32
  logical_max :: u32
  physical_min :: u32
  physical_max :: u32
  resolution :: u32

text \<open>The number of bytes an item of that many bits spans, counted from a byte boundary.\<close>

definition item_bytes :: "report_item \<Rightarrow> nat" where
  "item_bytes ri =
     (if it_size ri AND 0x7 \<noteq> 0 then unat (it_size ri div 8) + 1 else unat (it_size ri div 8))"

text \<open>
  The offset and the shift of the element ndx. C leaves a shift by the width of its type or more
  undefined; as every access outside an object it is OutOfBounds here.
\<close>

definition item_at :: "report_item \<Rightarrow> u8 \<Rightarrow> nat \<times> u8" where
  "item_at ri ndx =
     (if it_count ri > 0 then
        let bofs = ucast ndx * it_size ri + ucast (it_shift ri)
        in (it_data ri + unat (bofs div 8), ucast (bofs mod 8))
      else (it_data ri, it_shift ri))"

definition size_mask :: "report_item \<Rightarrow> u32" where
  "size_mask ri = push_bit (unat (it_size ri)) 1 - 1"

definition shifts_ok :: "report_item \<Rightarrow> u8 \<Rightarrow> bool" where
  "shifts_ok ri sh \<longleftrightarrow> it_size ri < 31 \<and> sh < 32"

fun read_le :: "u8 list \<Rightarrow> nat \<Rightarrow> nat \<Rightarrow> nat \<Rightarrow> u32 \<Rightarrow> fault + u32" where
  "read_le mem off x 0 val = Inr val"
| "read_le mem off x (Suc n) val =
     sbind (nth_e mem off) (\<lambda>d. read_le mem off (x + 1) n (push_bit (x * 8) (ucast d)))"

definition HID_ReadItem :: "u8 list \<Rightarrow> report_item \<Rightarrow> u8 \<Rightarrow> fault + u32" where
  "HID_ReadItem mem ri ndx =
     (if it_count ri > 0 \<and> it_count ri \<le> ndx then Inr 0
      else
        let (off, sh) = item_at ri ndx in
        if \<not> shifts_ok ri sh then Inl OutOfBounds
        else sbind (read_le mem off 0 (item_bytes ri) 0) (\<lambda>val.
          let val = drop_bit (unat sh) val AND size_mask ri in
          if val < logical_min ri \<or> val > logical_max ri then Inr 0
          else if it_sign ri \<noteq> 0 \<and> it_size ri = 0 then Inl OutOfBounds
          else if it_sign ri \<noteq> 0 \<and> val AND push_bit (unat (it_size ri) - 1) 1 \<noteq> 0 then
            let vs = NOT (size_mask ri) OR val
            in Inr (if resolution ri = 1 then vs else vs * resolution ri)
          else Inr (if resolution ri = 1 then val else val * resolution ri)))"

text \<open>
  The bytes are written from the pointer of the item on, whatever the index; the mask of the
  item is not shifted with its value.
\<close>

fun write_le :: "nat \<Rightarrow> nat \<Rightarrow> nat \<Rightarrow> u32 \<Rightarrow> u32 \<Rightarrow> u8 list \<Rightarrow> fault + u8 list" where
  "write_le off x 0 msk val mem = Inr mem"
| "write_le off x (Suc n) msk val mem =
     sbind (nth_e mem (off + x)) (\<lambda>d.
     sbind (upd_e mem (off + x)
       (ucast (((ucast d :: u32) AND NOT (drop_bit (x * 8) msk)) OR
         (drop_bit (x * 8) val AND drop_bit (x * 8) msk))))
       (write_le off (x + 1) n msk val))"

definition HID_WriteItem :: "u8 list \<Rightarrow> report_item \<Rightarrow> u32 \<Rightarrow> u8 \<Rightarrow> fault + (u32 \<times> u8 list)" where
  "HID_WriteItem mem ri value ndx =
     (if value < physical_min ri \<or> value > physical_max ri then Inr (1, mem)
      else if it_count ri > 0 \<and> it_count ri \<ge> ndx then Inr (0, mem)
      else
        let sh = snd (item_at ri ndx) in
        if \<not> shifts_ok ri sh \<or> resolution ri = 0 then Inl OutOfBounds
        else
          let value = (if resolution ri \<noteq> 1 then value div resolution ri else value);
              value = push_bit (unat sh) (value AND size_mask ri)
          in sbind (write_le (it_data ri) 0 (item_bytes ri) (size_mask ri) value mem) (\<lambda>m. Inr (0, m)))"

section \<open>The mouse\<close>

definition bit_item :: "nat \<Rightarrow> u8 \<Rightarrow> report_item" where
  "bit_item off sh = \<lparr>it_data = off, it_size = 1, it_shift = sh, it_count = 0, it_sign = 0,
     logical_min = 0, logical_max = 1, physical_min = 0, physical_max = 1, resolution = 1\<rparr>"

definition move_item :: "nat \<Rightarrow> report_item" where
  "move_item off = \<lparr>it_data = off, it_size = 8, it_shift = 0, it_count = 0, it_sign = 1,
     logical_min = 0, logical_max = 0xFFFF, physical_min = 0, physical_max = 0xFFFF, resolution = 1\<rparr>"

definition prop_b1 :: report_item where "prop_b1 = bit_item 0 0"
definition prop_b2 :: report_item where "prop_b2 = bit_item 0 1"
definition prop_b3 :: report_item where "prop_b3 = bit_item 0 2"
definition prop_x :: report_item where "prop_x = move_item 1"
definition prop_y :: report_item where "prop_y = move_item 2"

record mouse_info =
  mouse_x :: u8
  mouse_y :: u8
  mouse_buttons :: "u8 list"

definition decode_mouse :: "u8 list \<Rightarrow> fault + mouse_info" where
  "decode_mouse mem =
     sbind (HID_ReadItem mem prop_x 0) (\<lambda>x.
     sbind (HID_ReadItem mem prop_y 0) (\<lambda>y.
     sbind (HID_ReadItem mem prop_b1 0) (\<lambda>b1.
     sbind (HID_ReadItem mem prop_b2 0) (\<lambda>b2.
     sbind (HID_ReadItem mem prop_b3 0) (\<lambda>b3.
       Inr \<lparr>mouse_x = ucast (ucast x :: u16), mouse_y = ucast (ucast y :: u16),
         mouse_buttons = [ucast b1, ucast b2, ucast b3]\<rparr>)))))"

section \<open>The keyboard\<close>

definition imp_0_lctrl :: report_item where "imp_0_lctrl = bit_item 0 0"
definition imp_0_lshift :: report_item where "imp_0_lshift = bit_item 0 1"
definition imp_0_lalt :: report_item where "imp_0_lalt = bit_item 0 2"
definition imp_0_lgui :: report_item where "imp_0_lgui = bit_item 0 3"
definition imp_0_rctrl :: report_item where "imp_0_rctrl = bit_item 0 4"
definition imp_0_rshift :: report_item where "imp_0_rshift = bit_item 0 5"
definition imp_0_ralt :: report_item where "imp_0_ralt = bit_item 0 6"
definition imp_0_rgui :: report_item where "imp_0_rgui = bit_item 0 7"

definition imp_0_key_array :: report_item where
  "imp_0_key_array = \<lparr>it_data = 2, it_size = 8, it_shift = 0, it_count = 6, it_sign = 0,
     logical_min = 0, logical_max = 101, physical_min = 0, physical_max = 101, resolution = 1\<rparr>"

record keybd_info =
  lctrl :: u8
  lshift :: u8
  lalt :: u8
  lgui :: u8
  rctrl :: u8
  rshift :: u8
  ralt :: u8
  rgui :: u8
  kkeys :: "u8 list"

definition read_key :: "u8 list \<Rightarrow> u8 \<Rightarrow> u8 list \<Rightarrow> fault + u8 list" where
  "read_key mem x ks = sbind (HID_ReadItem mem imp_0_key_array x) (\<lambda>k. upd_e ks (unat x) (ucast k))"

definition decode_keybd :: "u8 list \<Rightarrow> keybd_info \<Rightarrow> fault + keybd_info" where
  "decode_keybd mem i =
     sbind (HID_ReadItem mem imp_0_lctrl 0) (\<lambda>lc.
     sbind (HID_ReadItem mem imp_0_lshift 0) (\<lambda>ls.
     sbind (HID_ReadItem mem imp_0_lalt 0) (\<lambda>la.
     sbind (HID_ReadItem mem imp_0_lgui 0) (\<lambda>lg.
     sbind (HID_ReadItem mem imp_0_rctrl 0) (\<lambda>rc.
     sbind (HID_ReadItem mem imp_0_rshift 0) (\<lambda>rs.
     sbind (HID_ReadItem mem imp_0_ralt 0) (\<lambda>ra.
     sbind (HID_ReadItem mem imp_0_rgui 0) (\<lambda>rg.
     sbind (sfold (read_key mem) [0, 1, 2, 3, 4, 5] (kkeys i)) (\<lambda>ks.
       Inr (i\<lparr>lctrl := ucast lc, lshift := ucast ls, lalt := ucast la, lgui := ucast lg,
         rctrl := ucast rc, rshift := ucast rs, ralt := ucast ra, rgui := ucast rg,
         kkeys := ks\<rparr>))))))))))"

text \<open>The characters of the keys on a QWERTY keyboard, and the key of each usage code.\<close>

definition HID_KEYBRD_Key :: "u8 list" where
  "HID_KEYBRD_Key = [
     0, 96, 49, 50, 51, 52, 53, 54, 55, 56, 57, 48, 45, 61, 0, 13,
     9, 113, 119, 101, 114, 116, 121, 117, 105, 111, 112, 91, 93, 92, 0, 97,
     115, 100, 102, 103, 104, 106, 107, 108, 59, 39, 0, 10, 0, 0, 122, 120,
     99, 118, 98, 110, 109, 44, 46, 47, 0, 0, 0, 0, 0, 32, 0, 0,
     0, 0, 0, 0, 0, 0, 0, 0, 0, 0, 0, 0, 0, 0, 0, 0,
     13, 0, 0, 0, 0, 0, 0, 0, 0, 0, 0, 55, 52, 49, 0, 47,
     56, 53, 50, 48, 42, 57, 54, 51, 46, 45, 43, 0, 10, 0, 0, 0,
     0, 0, 0, 0, 0, 0, 0, 0, 0, 0, 0, 0, 0, 0, 0, 0,
     0, 0]"

definition HID_KEYBRD_ShiftKey :: "u8 list" where
  "HID_KEYBRD_ShiftKey = [
     0, 126, 33, 64, 35, 36, 37, 94, 38, 42, 40, 41, 95, 43, 0, 0,
     0, 81, 87, 69, 82, 84, 89, 85, 73, 79, 80, 123, 125, 124, 0, 65,
     83, 68, 70, 71, 72, 74, 75, 76, 58, 34, 0, 10, 0, 0, 90, 88,
     67, 86, 66, 78, 77, 60, 62, 63, 0, 0, 0, 0, 0, 0, 0, 0,
     0, 0, 0, 0, 0, 0, 0, 0, 0, 0, 0, 0, 0, 0, 0, 0,
     0, 0, 0, 0, 0, 0, 0, 0, 0, 0, 0, 0, 0, 0, 0, 0,
     0, 0, 0, 0, 0, 0, 0, 0, 0, 0, 0, 0, 0, 0, 0, 0,
     0, 0, 0, 0, 0, 0, 0, 0, 0, 0, 0, 0, 0, 0, 0, 0,
     0, 0]"

definition HID_KEYBRD_Codes :: "u8 list" where
  "HID_KEYBRD_Codes = [
     0, 0, 0, 0, 31, 50, 48, 33, 19, 34, 35, 36, 24, 37, 38, 39,
     52, 51, 25, 26, 17, 20, 32, 21, 23, 49, 18, 47, 22, 46, 2, 3,
     4, 5, 6, 7, 8, 9, 10, 11, 43, 110, 15, 16, 61, 12, 13, 27,
     28, 29, 42, 40, 41, 1, 53, 54, 55, 30, 112, 113, 114, 115, 116, 117,
     118, 119, 120, 121, 122, 123, 124, 125, 126, 75, 80, 85, 76, 81, 86, 89,
     79, 84, 83, 90, 95, 100, 105, 106, 108, 93, 98, 103, 92, 97, 102, 91,
     96, 101, 99, 104, 45, 129, 0, 0, 0, 0, 0, 0, 0, 0, 0, 0,
     0, 0, 0, 0, 0, 0, 0, 0, 0, 0, 0, 0, 0, 0, 0, 0,
     0, 0, 0, 0, 0, 107, 0, 56, 0, 0, 0, 0, 0, 0, 0, 0,
     0, 0, 0, 0, 0, 0, 0, 0, 0, 0, 0, 0, 0, 0, 0, 0,
     0, 0, 0, 0, 0, 0, 0, 0, 0, 0, 0, 0, 0, 0, 0, 0,
     0, 0, 0, 0, 0, 0, 0, 0, 0, 0, 0, 0, 0, 0, 0, 0,
     0, 0, 0, 0, 0, 0, 0, 0, 0, 0, 0, 0, 0, 0, 0, 0,
     0, 0, 0, 0, 0, 0, 0, 0, 0, 0, 0, 0, 0, 0, 0, 0,
     58, 44, 60, 127, 64, 57, 62, 128]"

definition USBH_HID_GetASCIICode :: "keybd_info \<Rightarrow> fault + u8" where
  "USBH_HID_GetASCIICode i =
     sbind (nth_e (kkeys i) 0) (\<lambda>k.
     sbind (nth_e HID_KEYBRD_Codes (unat k)) (\<lambda>c.
       if lshift i = 1 \<or> rshift i \<noteq> 0 then nth_e HID_KEYBRD_ShiftKey (unat c)
       else nth_e HID_KEYBRD_Key (unat c)))"

section \<open>What the items of the firmware read\<close>

lemma unat_u8_u32 [simp]: "unat (ucast x :: u32) = unat x" for x :: u8
proof -
  have "unat x < 2 ^ 32" using unat_u8 [of x] by simp
  then show ?thesis by (simp add: unsigned_ucast_eq take_bit_nat_eq_self)
qed

lemma ucast_u8_u32 [simp]: "(ucast (ucast x :: u32) :: u8) = x" for x :: u8
  by (rule bit_word_eqI) (auto simp: bit_simps)

lemma bit_item_read:
  assumes "off < length mem" and "sh < 8"
  shows "HID_ReadItem mem (bit_item off sh) 0 = Inr (if bit (mem ! off) (unat sh) then 1 else 0)"
proof -
  have "drop_bit (unat sh) (ucast (mem ! off) :: u32) AND 1 = (if bit (mem ! off) (unat sh) then 1 else 0)"
  proof -
    have "bit (ucast (mem ! off) :: u32) (unat sh) = bit (mem ! off) (unat sh)"
      using assms(2) by (simp add: bit_ucast_iff word_less_nat_alt)
    then show ?thesis by (simp add: and_one_eq mod_2_eq_odd bit_iff_odd_drop_bit)
  qed
  moreover have "sh < 32" using assms(2) by (simp add: word_less_nat_alt)
  ultimately show ?thesis
    using assms(1) by (simp add: HID_ReadItem_def bit_item_def item_at_def shifts_ok_def item_bytes_def size_mask_def)
qed

lemma move_item_read:
  assumes "off < length mem"
  shows "\<exists>v. HID_ReadItem mem (move_item off) 0 = Inr v \<and> (ucast (ucast v :: u16) :: u8) = mem ! off"
proof -
  let ?d = "ucast (mem ! off) :: u32"
  have m: "?d AND 255 = ?d"
    by (rule bit_word_eqI) (auto simp: bit_simps dest: bit_imp_le_length)
  have le: "\<not> ?d > 0xFFFF" using unat_u8 [of "mem ! off"] by (simp add: word_less_nat_alt)
  have s: "(ucast (ucast (NOT (255 :: u32) OR ?d) :: u16) :: u8) = mem ! off"
    by (rule bit_word_eqI) (auto simp: bit_simps)
  have u: "(ucast (ucast ?d :: u16) :: u8) = mem ! off"
    by (rule bit_word_eqI) (auto simp: bit_simps)
  show ?thesis
    using assms le s u
    by (auto simp: HID_ReadItem_def move_item_def item_at_def shifts_ok_def item_bytes_def size_mask_def m Let_def)
qed

lemma key_read:
  assumes "length mem = 8" and "unat x < 6"
  shows "HID_ReadItem mem imp_0_key_array x = Inr (if mem ! (2 + unat x) \<le> 101 then ucast (mem ! (2 + unat x)) else 0)"
proof -
  let ?d = "ucast (mem ! (2 + unat x)) :: u32"
  have m: "?d AND 255 = ?d"
    by (rule bit_word_eqI) (auto simp: bit_simps dest: bit_imp_le_length)
  have n: "\<not> (6 :: u8) \<le> x" using assms(2) by (simp add: word_le_nat_alt)
  have "unat (ucast x * 8 :: u32) = unat x * 8" using assms(2) by (simp add: unat_word_ariths)
  then have o: "unat ((ucast x * 8 :: u32) div 8) = unat x" "(ucast x * 8 :: u32) mod 8 = 0"
    by (simp_all add: unat_div word_unat_eq_iff unat_mod)
  have le: "?d > 101 \<longleftrightarrow> \<not> mem ! (2 + unat x) \<le> 101" by (auto simp: word_less_nat_alt word_le_nat_alt)
  show ?thesis
    using assms n m o le
    by (auto simp: HID_ReadItem_def imp_0_key_array_def item_at_def shifts_ok_def item_bytes_def size_mask_def Let_def)
qed

lemmas mouse_items = prop_x_def prop_y_def prop_b1_def prop_b2_def prop_b3_def

lemmas keybd_items = imp_0_lctrl_def imp_0_lshift_def imp_0_lalt_def imp_0_lgui_def imp_0_rctrl_def
  imp_0_rshift_def imp_0_ralt_def imp_0_rgui_def

abbreviation bit_of :: "u8 \<Rightarrow> nat \<Rightarrow> u8" where "bit_of b n \<equiv> if bit b n then 1 else 0"

text \<open>A report of the mouse: its buttons, and the two movements as they were sent.\<close>

lemma decode_mouse_report:
  assumes "3 \<le> length mem"
  shows "decode_mouse mem = Inr \<lparr>mouse_x = mem ! 1, mouse_y = mem ! 2,
    mouse_buttons = [bit_of (mem ! 0) 0, bit_of (mem ! 0) 1, bit_of (mem ! 0) 2]\<rparr>"
proof -
  have len: "0 < length mem" "1 < length mem" "2 < length mem" using assms by linarith+
  obtain x where x: "HID_ReadItem mem prop_x 0 = Inr x" "(ucast (ucast x :: u16) :: u8) = mem ! 1"
    using move_item_read [OF len(2)] by (auto simp: mouse_items)
  obtain y where y: "HID_ReadItem mem prop_y 0 = Inr y" "(ucast (ucast y :: u16) :: u8) = mem ! 2"
    using move_item_read [OF len(3)] by (auto simp: mouse_items)
  have b: "HID_ReadItem mem prop_b1 0 = Inr (if bit (mem ! 0) 0 then 1 else 0)"
    "HID_ReadItem mem prop_b2 0 = Inr (if bit (mem ! 0) 1 then 1 else 0)"
    "HID_ReadItem mem prop_b3 0 = Inr (if bit (mem ! 0) 2 then 1 else 0)"
    using bit_item_read [OF len(1), of 0] bit_item_read [OF len(1), of 1] bit_item_read [OF len(1), of 2]
    by (simp_all add: mouse_items)
  show ?thesis by (simp add: decode_mouse_def x y b)
qed

text \<open>A report of the keyboard: the modifiers, and the keys that have a character.\<close>

lemma decode_keybd_report:
  assumes "length mem = 8" and "length (kkeys i) = 6"
  shows "decode_keybd mem i = Inr \<lparr>lctrl = bit_of (mem ! 0) 0, lshift = bit_of (mem ! 0) 1,
    lalt = bit_of (mem ! 0) 2, lgui = bit_of (mem ! 0) 3, rctrl = bit_of (mem ! 0) 4,
    rshift = bit_of (mem ! 0) 5, ralt = bit_of (mem ! 0) 6, rgui = bit_of (mem ! 0) 7,
    kkeys = map (\<lambda>k. if k \<le> 101 then k else 0) (drop 2 mem)\<rparr>"
proof -
  have len: "0 < length mem" using assms by simp
  have b: "HID_ReadItem mem (bit_item 0 sh) 0 = Inr (if bit (mem ! 0) (unat sh) then 1 else 0)" if "sh < 8" for sh
    by (rule bit_item_read [OF len that])
  obtain m0 m1 k0 k1 k2 k3 k4 k5 where m: "mem = [m0, m1, k0, k1, k2, k3, k4, k5]"
    using assms(1) by (auto simp: numeral_eq_Suc length_Suc_conv)
  have u: "(ucast (if p then 1 else 0 :: u32) :: u8) = (if p then 1 else 0)" for p by simp
  have all: "i\<lparr>lctrl := a0, lshift := a1, lalt := a2, lgui := a3, rctrl := a4, rshift := a5, ralt := a6, rgui := a7,
      kkeys := ks\<rparr> = \<lparr>lctrl = a0, lshift = a1, lalt = a2, lgui = a3, rctrl = a4, rshift = a5, ralt = a6,
      rgui = a7, kkeys = ks\<rparr>" for a0 a1 a2 a3 a4 a5 a6 a7 ks by simp
  define key where "key k = (if k \<le> 101 then k else 0)" for k :: u8
  have r: "read_key mem x ks = upd_e ks (unat x) (key (mem ! (2 + unat x)))" if "unat x < 6" for x ks
    using key_read [OF assms(1) that] by (simp add: read_key_def key_def)
  have rs: "read_key mem 0 ks = upd_e ks 0 (key k0)" "read_key mem 1 ks = upd_e ks 1 (key k1)"
    "read_key mem 2 ks = upd_e ks 2 (key k2)" "read_key mem 3 ks = upd_e ks 3 (key k3)"
    "read_key mem 4 ks = upd_e ks 4 (key k4)" "read_key mem 5 ks = upd_e ks 5 (key k5)" for ks
    using r [of 0 ks] r [of 1 ks] r [of 2 ks] r [of 3 ks] r [of 4 ks] r [of 5 ks] by (simp_all add: m)
  obtain a0 a1 a2 a3 a4 a5 where "kkeys i = [a0, a1, a2, a3, a4, a5]"
    using assms(2) by (auto simp: numeral_eq_Suc length_Suc_conv)
  then have "sfold (read_key mem) [0, 1, 2, 3, 4, 5] (kkeys i) = Inr [key k0, key k1, key k2, key k3, key k4, key k5]"
    by (simp add: rs [simplified])
  then have "sfold (read_key mem) [0, 1, 2, 3, 4, 5] (kkeys i) =
      Inr (map (\<lambda>k. if k \<le> 101 then k else 0) (drop 2 mem))"
    by (simp add: m key_def)
  moreover have "decode_keybd mem i = sbind (sfold (read_key mem) [0, 1, 2, 3, 4, 5] (kkeys i)) (\<lambda>ks.
      Inr \<lparr>lctrl = bit_of (mem ! 0) 0, lshift = bit_of (mem ! 0) 1,
    lalt = bit_of (mem ! 0) 2, lgui = bit_of (mem ! 0) 3, rctrl = bit_of (mem ! 0) 4,
    rshift = bit_of (mem ! 0) 5, ralt = bit_of (mem ! 0) 6, rgui = bit_of (mem ! 0) 7, kkeys = ks\<rparr>)"
    by (simp add: decode_keybd_def keybd_items b u all del: sfold.simps split del: if_split)
  ultimately show ?thesis by (simp only: sbind_simps)
qed

lemma codes_in_range: "\<forall>c\<in>set HID_KEYBRD_Codes. unat c < length HID_KEYBRD_Key \<and> unat c < length HID_KEYBRD_ShiftKey"
  by (simp add: HID_KEYBRD_Codes_def HID_KEYBRD_Key_def HID_KEYBRD_ShiftKey_def)

text \<open>
  Whatever a keyboard sends, its report is decoded bit for bit, and looking up the character
  of its first key stays inside the tables: the decoding replaces every key above 101 by none,
  every code has an entry in both character tables, and a report with the usage code of the
  letter a gives this letter, or the capital with a shift key held.
\<close>

lemma keyboard_lookup_safe:
  assumes "length mem = 8" and "length (kkeys i) = 6"
  shows "\<exists>j c. decode_keybd mem i = Inr j \<and> USBH_HID_GetASCIICode j = Inr c \<and>
    kkeys j = map (\<lambda>k. if k \<le> 101 then k else 0) (drop 2 mem) \<and>
    (mem ! 2 = 4 \<longrightarrow> c = (if bit (mem ! 0) 1 \<or> bit (mem ! 0) 5 then 65 else 97))"
proof -
  note d = decode_keybd_report [OF assms]
  have k: "drop 2 mem \<noteq> []" "drop 2 mem ! 0 = mem ! 2" using assms(1) by simp_all
  define k0 where "k0 = (if mem ! 2 \<le> 101 then mem ! 2 else 0)"
  have k0: "unat k0 \<le> 101" by (simp add: k0_def word_le_nat_alt)
  then have "unat k0 < length HID_KEYBRD_Codes" by (simp add: HID_KEYBRD_Codes_def)
  then have c: "nth_e HID_KEYBRD_Codes (unat k0) = Inr (HID_KEYBRD_Codes ! unat k0)"
    "unat (HID_KEYBRD_Codes ! unat k0) < length HID_KEYBRD_Key"
    "unat (HID_KEYBRD_Codes ! unat k0) < length HID_KEYBRD_ShiftKey"
    using codes_in_range by simp_all
  have "nth_e (map (\<lambda>k. if k \<le> 101 then k else 0) (drop 2 mem)) 0 = Inr k0"
    using k assms(1) by (simp add: k0_def)
  moreover have "mem ! 2 = 4 \<Longrightarrow> HID_KEYBRD_Key ! unat (HID_KEYBRD_Codes ! unat k0) = 97 \<and>
      HID_KEYBRD_ShiftKey ! unat (HID_KEYBRD_Codes ! unat k0) = 65"
    by (simp add: k0_def HID_KEYBRD_Codes_def HID_KEYBRD_Key_def HID_KEYBRD_ShiftKey_def)
  ultimately show ?thesis unfolding d by (simp add: USBH_HID_GetASCIICode_def c)
qed

lemma keyboard_lookup_safe_witness:
  "\<exists>j c. decode_keybd [2, 0, 4, 0, 0, 0, 0, 0] \<lparr>lctrl = 0, lshift = 0, lalt = 0, lgui = 0, rctrl = 0,
      rshift = 0, ralt = 0, rgui = 0, kkeys = [0, 0, 0, 0, 0, 0]\<rparr> = Inr j \<and> USBH_HID_GetASCIICode j = Inr c \<and>
    c = 65"
  using keyboard_lookup_safe [of "[2, 0, 4, 0, 0, 0, 0, 0]" "\<lparr>lctrl = 0, lshift = 0, lalt = 0, lgui = 0,
      rctrl = 0, rshift = 0, ralt = 0, rgui = 0, kkeys = [0, 0, 0, 0, 0, 0]\<rparr>"]
  by (auto simp: bit_iff_odd)

text \<open>
  Writing an element of an array never writes it: with the index in range nothing is written and
  success is returned, and with an index beyond the array the value goes to the first bytes.
\<close>

lemma write_item_array:
  assumes "it_count ri > 0" and "physical_min ri \<le> v" and "v \<le> physical_max ri" and "ndx \<le> it_count ri"
  shows "HID_WriteItem mem ri v ndx = Inr (0, mem)"
  using assms by (auto simp: HID_WriteItem_def)

text \<open>A byte written to an item that is not an array is the byte read from it.\<close>

lemma write_read_byte:
  assumes "it_size ri = 8" and "it_shift ri = 0" and "it_count ri = 0" and "it_sign ri = 0"
    and "resolution ri = 1" and "logical_min ri = 0" and "0xFF \<le> logical_max ri" and "physical_min ri = 0"
    and "v \<le> physical_max ri" and "v \<le> 0xFF" and "it_data ri < length mem"
  shows "\<exists>m. HID_WriteItem mem ri v 0 = Inr (0, m) \<and> HID_ReadItem m ri 0 = Inr v"
proof -
  have "unat v < 2 ^ 8" using assms(10) by (simp add: word_le_nat_alt)
  then have t: "take_bit 8 v = v" by (simp add: word_unat_eq_iff unsigned_take_bit_eq take_bit_nat_eq_self)
  have b: "\<not> bit v n" if "8 \<le> n" for n
    using that by (subst t [symmetric]) (simp add: bit_take_bit_iff)
  let ?d = "mem ! it_data ri"
  have v: "v AND 255 = v" by (rule bit_word_eqI) (use b in \<open>auto simp: bit_simps not_le intro: ccontr\<close>)
  have "(ucast (((ucast ?d :: u32) AND NOT 255) OR (v AND 255)) :: u8) = ucast v"
    by (rule bit_word_eqI) (auto simp: bit_simps)
  moreover have "(ucast (ucast v :: u8) :: u32) AND 255 = v"
    by (rule bit_word_eqI) (use b in \<open>auto simp: bit_simps not_le intro: ccontr\<close>)
  moreover have "\<not> logical_max ri < v" using assms(7,10) by (meson not_le order_trans)
  ultimately show ?thesis
    using assms v by (auto simp: HID_WriteItem_def HID_ReadItem_def item_at_def shifts_ok_def item_bytes_def
        size_mask_def Let_def)
qed

end
