(* ===== verification/Usbh_Hid.thy ===== *)
theory Usbh_Hid
  imports Usbh_Host Hid_Fifo Hid_Report
begin

text \<open>
  The HID class driver of the USB host (usbh\_hid.c with usbh\_hid\_mouse.c and usbh\_hid\_keybd.c) and
  what the firmware does with its events (usbh\_conf.c): mice and keyboards in boot mode. The
  handle of the driver lies in memory that is handed out without being cleared, so what it holds
  then is part of the state; the report of the device is the class buffer of the host memory,
  and the queue of the reports is its data buffer.
\<close>

section \<open>State\<close>

datatype HID_State = HID_INIT | HID_IDLE | HID_SEND_DATA | HID_BUSY | HID_GET_DATA | HID_SYNC
  | HID_POLL | HID_ERROR

datatype HID_CtlState = HID_REQ_INIT | HID_REQ_IDLE | HID_REQ_GET_REPORT_DESC
  | HID_REQ_GET_HID_DESC | HID_REQ_SET_IDLE | HID_REQ_SET_PROTOCOL | HID_REQ_SET_REPORT

datatype HID_Type = HID_MOUSE | HID_KEYBOARD | HID_UNKNOWN

datatype hid_init = KeybdInit | MouseInit

record hid_desc =
  hd_bLength :: u8
  hd_bDescriptorType :: u8
  bcdHID :: u16
  bCountryCode :: u8
  bNumDescriptors :: u8
  bReportDescriptorType :: u8
  wItemLength :: u16

record hid_handle =
  hOutPipe :: u8
  hInPipe :: u8
  hstate :: HID_State
  hOutEp :: u8
  hInEp :: u8
  hctl_state :: HID_CtlState
  hfifo :: hid_fifo
  hlength :: u16
  hep_addr :: u8
  hpoll :: u16
  htimer :: u32
  DataReady :: bool
  HID_Desc :: hid_desc
  hInit :: hid_init

text \<open>
  The driver: whether its data pointer is set, the memory it points to, the decoded reports, and
  the variables that the patches read.
\<close>

record hid_drv =
  hpData :: bool
  hmem :: hid_handle
  mouse_i :: mouse_info
  keybd_i :: keybd_info
  hid_buttons :: "u8 list"
  hid_mouse_x :: u8
  hid_mouse_y :: u8

definition upd_hid :: "(hid_handle \<Rightarrow> hid_handle) \<Rightarrow> hid_drv \<Rightarrow> hid_drv" where
  "upd_hid f d = d\<lparr>hmem := f (hmem d)\<rparr>"

text \<open>An access through the data pointer; null is not checked.\<close>

definition deref :: "hid_drv \<Rightarrow> (hid_handle \<Rightarrow> fault + 'a) \<Rightarrow> fault + 'a" where
  "deref d f = (if hpData d then f (hmem d) else Inl Dangling)"

section \<open>Attaching and detaching\<close>

definition HID_MIN_POLL :: u16 where "HID_MIN_POLL = 10"
definition USB_HID_CLASS :: u8 where "USB_HID_CLASS = 3"
definition HID_BOOT_CODE :: u8 where "HID_BOOT_CODE = 1"
definition HID_KEYBRD_BOOT_CODE :: u8 where "HID_KEYBRD_BOOT_CODE = 1"
definition HID_MOUSE_BOOT_CODE :: u8 where "HID_MOUSE_BOOT_CODE = 2"

lemmas hid_codes = HID_MIN_POLL_def USB_HID_CLASS_def HID_BOOT_CODE_def HID_KEYBRD_BOOT_CODE_def
  HID_MOUSE_BOOT_CODE_def

fun hid_open_eps :: "ep_desc list \<Rightarrow> nat \<Rightarrow> nat \<Rightarrow> usb_host \<times> hid_handle \<Rightarrow> fault + (usb_host \<times> hid_handle)" where
  "hid_open_eps eps i 0 (h, k) = Inr (h, k)"
| "hid_open_eps eps i (Suc n) (h, k) =
     sbind (nth_e eps i) (\<lambda>ep.
     sbind (open_class_pipe (bEndpointAddress ep) USBH_EP_INTERRUPT (hlength k) h) (\<lambda>(p, h).
       hid_open_eps eps (i + 1) n (h,
         if bEndpointAddress ep AND 0x80 \<noteq> 0 then k\<lparr>hInEp := bEndpointAddress ep, hInPipe := p\<rparr>
         else k\<lparr>hOutEp := bEndpointAddress ep, hOutPipe := p\<rparr>)))"

definition USBH_HID_InterfaceInit :: "usb_host \<times> hid_drv \<Rightarrow> fault + (usbh_status \<times> usb_host \<times> hid_drv)" where
  "USBH_HID_InterfaceInit = (\<lambda>(h, d).
     sbind (USBH_FindInterface USB_HID_CLASS HID_BOOT_CODE 0xFF h) (\<lambda>i.
     if i = 0xFF then Inr (USBH_FAIL, h, d)
     else sbind (USBH_SelectInterface i h) (\<lambda>(_, h).
       let d = upd_hid (\<lambda>k. k\<lparr>hstate := HID_ERROR\<rparr>) (d\<lparr>hpData := True\<rparr>) in
       sbind (nth_e (Itf_Desc (CfgDesc (device h))) (unat (current_interface (device h)))) (\<lambda>itf.
       if bInterfaceProtocol itf \<noteq> HID_KEYBRD_BOOT_CODE \<and> bInterfaceProtocol itf \<noteq> HID_MOUSE_BOOT_CODE
       then Inr (USBH_FAIL, h, d)
       else sbind (nth_e (Ep_Desc itf) 0) (\<lambda>ep.
         let k = (hmem d)\<lparr>hInit := (if bInterfaceProtocol itf = HID_KEYBRD_BOOT_CODE then KeybdInit else MouseInit),
                   hstate := HID_INIT, hctl_state := HID_REQ_INIT, hep_addr := bEndpointAddress ep,
                   hlength := wMaxPacketSize ep,
                   hpoll := (if ucast (bInterval ep) < HID_MIN_POLL then HID_MIN_POLL else ucast (bInterval ep))\<rparr>;
             max_ep = min (unat (bNumEndpoints itf)) USBH_MAX_NUM_ENDPOINTS
         in sbind (hid_open_eps (Ep_Desc itf) 0 max_ep (h, k)) (\<lambda>(h, k).
              Inr (USBH_OK, h, d\<lparr>hmem := k\<rparr>)))))))"

text \<open>The memory is given back, but the data pointer keeps its value.\<close>

definition USBH_HID_InterfaceDeInit :: "usb_host \<times> hid_drv \<Rightarrow> fault + (usb_host \<times> hid_drv)" where
  "USBH_HID_InterfaceDeInit = (\<lambda>(h, d). deref d (\<lambda>k.
     sbind (if hInPipe k \<noteq> 0 then release_pipe (hInPipe k) h else Inr h) (\<lambda>h.
     sbind (if hOutPipe k \<noteq> 0 then release_pipe (hOutPipe k) h else Inr h) (\<lambda>h.
       Inr (h, upd_hid (\<lambda>k. k\<lparr>hInPipe := 0, hOutPipe := 0\<rparr>) d)))))"

section \<open>Class requests\<close>

definition USB_DESC_HID :: u16 where "USB_DESC_HID = 0x2100"
definition USB_DESC_HID_REPORT :: u16 where "USB_DESC_HID_REPORT = 0x2200"
definition USB_HID_DESC_SIZE :: u16 where "USB_HID_DESC_SIZE = 9"
definition USB_HID_GET_REPORT :: u8 where "USB_HID_GET_REPORT = 0x01"
definition USB_HID_SET_REPORT :: u8 where "USB_HID_SET_REPORT = 0x09"
definition USB_HID_SET_IDLE :: u8 where "USB_HID_SET_IDLE = 0x0A"
definition USB_HID_SET_PROTOCOL :: u8 where "USB_HID_SET_PROTOCOL = 0x0B"

definition USBH_HID_GetHIDReportDescriptor :: "ll_env \<Rightarrow> u16 \<Rightarrow> usb_host \<Rightarrow> fault + (usbh_status \<times> usb_host)" where
  "USBH_HID_GetHIDReportDescriptor env len = USBH_GetDescriptor env 0x01 USB_DESC_HID_REPORT BUF_DATA len"

definition USBH_HID_GetHIDDescriptor :: "ll_env \<Rightarrow> u16 \<Rightarrow> usb_host \<Rightarrow> fault + (usbh_status \<times> usb_host)" where
  "USBH_HID_GetHIDDescriptor env len = USBH_GetDescriptor env 0x01 USB_DESC_HID BUF_DATA len"

text \<open>The requests of the class set up their packet at every call.\<close>

definition class_setup :: "u8 \<Rightarrow> u8 \<Rightarrow> u16 \<Rightarrow> u16 \<Rightarrow> setup_pkt" where
  "class_setup dir req v len =
     \<lparr>bmRequestType = dir OR 0x01 OR 0x20, bRequest = req, wValue = v, wIndex = 0, wLength = len\<rparr>"

definition USBH_HID_SetIdle :: "ll_env \<Rightarrow> u8 \<Rightarrow> u8 \<Rightarrow> usb_host \<Rightarrow> fault + (usbh_status \<times> usb_host)" where
  "USBH_HID_SetIdle env duration report_id h =
     USBH_CtlReq env BUF_NULL 0
       (put_setup (class_setup USB_H2D USB_HID_SET_IDLE (push_bit 8 (ucast duration) OR ucast report_id) 0) h)"

definition USBH_HID_SetReport ::
    "ll_env \<Rightarrow> u8 \<Rightarrow> u8 \<Rightarrow> buf_ref \<Rightarrow> u8 \<Rightarrow> usb_host \<Rightarrow> fault + (usbh_status \<times> usb_host)" where
  "USBH_HID_SetReport env typ report_id b len h =
     USBH_CtlReq env b (ucast len)
       (put_setup (class_setup USB_H2D USB_HID_SET_REPORT (push_bit 8 (ucast typ) OR ucast report_id) (ucast len)) h)"

definition USBH_HID_GetReport ::
    "ll_env \<Rightarrow> u8 \<Rightarrow> u8 \<Rightarrow> buf_ref \<Rightarrow> u8 \<Rightarrow> usb_host \<Rightarrow> fault + (usbh_status \<times> usb_host)" where
  "USBH_HID_GetReport env typ report_id b len h =
     USBH_CtlReq env b (ucast len)
       (put_setup (class_setup USB_D2H USB_HID_GET_REPORT (push_bit 8 (ucast typ) OR ucast report_id) (ucast len)) h)"

definition USBH_HID_SetProtocol :: "ll_env \<Rightarrow> u8 \<Rightarrow> usb_host \<Rightarrow> fault + (usbh_status \<times> usb_host)" where
  "USBH_HID_SetProtocol env protocol h =
     USBH_CtlReq env BUF_NULL 0
       (put_setup (class_setup USB_H2D USB_HID_SET_PROTOCOL (if protocol \<noteq> 0 then 0 else 1) 0) h)"

definition USBH_HID_ParseHIDDesc :: "u8 list \<Rightarrow> fault + hid_desc" where
  "USBH_HID_ParseHIDDesc b =
     (if 9 \<le> length b then Inr \<lparr>hd_bLength = b ! 0, hd_bDescriptorType = b ! 1, bcdHID = LE16 b 2,
        bCountryCode = b ! 4, bNumDescriptors = b ! 5, bReportDescriptorType = b ! 6, wItemLength = LE16 b 7\<rparr>
      else Inl OutOfBounds)"

definition USBH_HID_ClassRequest ::
    "ll_env \<Rightarrow> usb_host \<times> hid_drv \<Rightarrow> fault + (usbh_status \<times> usb_host \<times> hid_drv)" where
  "USBH_HID_ClassRequest env = (\<lambda>(h, d). deref d (\<lambda>k.
     let get_hid = sbind (USBH_HID_GetHIDDescriptor env USB_HID_DESC_SIZE h) (\<lambda>(st, h).
           if st = USBH_OK then
             sbind (USBH_HID_ParseHIDDesc (bufs (device h) BUF_DATA)) (\<lambda>hd.
               Inr (USBH_BUSY, h, upd_hid (\<lambda>k. k\<lparr>HID_Desc := hd, hctl_state := HID_REQ_GET_REPORT_DESC\<rparr>) d))
           else Inr (USBH_BUSY, h, d)) in
     case hctl_state k of
       HID_REQ_INIT \<Rightarrow> get_hid
     | HID_REQ_GET_HID_DESC \<Rightarrow> get_hid
     | HID_REQ_GET_REPORT_DESC \<Rightarrow>
         sbind (USBH_HID_GetHIDReportDescriptor env (wItemLength (HID_Desc k)) h) (\<lambda>(st, h).
           Inr (USBH_BUSY, h, if st = USBH_OK then upd_hid (\<lambda>k. k\<lparr>hctl_state := HID_REQ_SET_IDLE\<rparr>) d else d))
     | HID_REQ_SET_IDLE \<Rightarrow>
         sbind (USBH_HID_SetIdle env 0 0 h) (\<lambda>(st, h).
           Inr (USBH_BUSY, h, if st = USBH_OK \<or> st = USBH_NOT_SUPPORTED
             then upd_hid (\<lambda>k. k\<lparr>hctl_state := HID_REQ_SET_PROTOCOL\<rparr>) d else d))
     | HID_REQ_SET_PROTOCOL \<Rightarrow>
         sbind (USBH_HID_SetProtocol env 0 h) (\<lambda>(st, h).
           if st = USBH_OK then
             Inr (USBH_OK, ll (UserCall HOST_USER_CLASS_ACTIVE) h, upd_hid (\<lambda>k. k\<lparr>hctl_state := HID_REQ_IDLE\<rparr>) d)
           else Inr (USBH_BUSY, h, d))
     | _ \<Rightarrow> Inr (USBH_BUSY, h, d)))"

section \<open>Mouse and keyboard\<close>

definition HID_QUEUE_SIZE :: u16 where "HID_QUEUE_SIZE = 10"

text \<open>
  Both set their report to zero, limit the length, and put an empty queue over the data buffer.
  The limit of the keyboard is the number of the words of its report, not of its bytes.
\<close>

definition set_report :: "u8 list \<Rightarrow> usb_host \<Rightarrow> usb_host" where
  "set_report bs = upd_dev (\<lambda>v. v\<lparr>bufs := (bufs v)(BUF_CLASS := bs)\<rparr>)"

definition USBH_HID_MouseInit :: "usb_host \<times> hid_drv \<Rightarrow> usb_host \<times> hid_drv" where
  "USBH_HID_MouseInit = (\<lambda>(h, d).
     (set_report [0, 0, 0, 0] h,
      upd_hid (\<lambda>k. k\<lparr>hlength := (if hlength k > 4 then 4 else hlength k), hfifo := fifo_init (HID_QUEUE_SIZE * 4)\<rparr>)
        (d\<lparr>mouse_i := \<lparr>mouse_x = 0, mouse_y = 0, mouse_buttons = [0, 0, 0]\<rparr>\<rparr>)))"

definition USBH_HID_KeybdInit :: "usb_host \<times> hid_drv \<Rightarrow> usb_host \<times> hid_drv" where
  "USBH_HID_KeybdInit = (\<lambda>(h, d).
     (set_report [0, 0, 0, 0, 0, 0, 0, 0] h,
      upd_hid (\<lambda>k. k\<lparr>hlength := (if hlength k > 2 then 2 else hlength k), hfifo := fifo_init (HID_QUEUE_SIZE * 8)\<rparr>)
        (d\<lparr>keybd_i := (keybd_i d)\<lparr>lctrl := 0, lshift := 0, lalt := 0, lgui := 0, rctrl := 0, rshift := 0,
           ralt := 0, rgui := 0\<rparr>\<rparr>)))"

text \<open>A report is taken from the queue into the memory of the report, and decoded from there.\<close>

definition take_report :: "usb_host \<times> hid_drv \<Rightarrow> fault + (bool \<times> usb_host \<times> hid_drv)" where
  "take_report = (\<lambda>(h, d). deref d (\<lambda>k.
     if hlength k = 0 then Inr (False, h, d)
     else sbind (fifo_read (hlength k) (bufs (device h) BUF_CLASS) (hfifo k, bufs (device h) BUF_DATA)) (\<lambda>(n, rep, f).
       Inr (n = hlength k, set_report rep h, upd_hid (\<lambda>k. k\<lparr>hfifo := f\<rparr>) d))))"

definition USBH_HID_MouseDecode :: "usb_host \<times> hid_drv \<Rightarrow> fault + (usbh_status \<times> usb_host \<times> hid_drv)" where
  "USBH_HID_MouseDecode s =
     sbind (take_report s) (\<lambda>(full, h, d).
       if full then sbind (decode_mouse (bufs (device h) BUF_CLASS)) (\<lambda>m. Inr (USBH_OK, h, d\<lparr>mouse_i := m\<rparr>))
       else Inr (USBH_FAIL, h, d))"

definition USBH_HID_KeybdDecode :: "usb_host \<times> hid_drv \<Rightarrow> fault + (usbh_status \<times> usb_host \<times> hid_drv)" where
  "USBH_HID_KeybdDecode s =
     sbind (take_report s) (\<lambda>(full, h, d).
       if full then
         sbind (decode_keybd (bufs (device h) BUF_CLASS) (keybd_i d)) (\<lambda>m. Inr (USBH_OK, h, d\<lparr>keybd_i := m\<rparr>))
       else Inr (USBH_FAIL, h, d))"

definition USBH_HID_GetMouseInfo :: "usb_host \<times> hid_drv \<Rightarrow> fault + (mouse_info option \<times> usb_host \<times> hid_drv)" where
  "USBH_HID_GetMouseInfo s =
     sbind (USBH_HID_MouseDecode s) (\<lambda>(st, h, d). Inr (if st = USBH_OK then Some (mouse_i d) else None, h, d))"

definition USBH_HID_GetKeybdInfo :: "usb_host \<times> hid_drv \<Rightarrow> fault + (keybd_info option \<times> usb_host \<times> hid_drv)" where
  "USBH_HID_GetKeybdInfo s =
     sbind (USBH_HID_KeybdDecode s) (\<lambda>(st, h, d). Inr (if st = USBH_OK then Some (keybd_i d) else None, h, d))"

definition USBH_HID_GetDeviceType :: "usb_host \<Rightarrow> fault + HID_Type" where
  "USBH_HID_GetDeviceType h =
     (if gState h = HOST_CLASS then
        sbind (nth_e (Itf_Desc (CfgDesc (device h))) (unat (current_interface (device h)))) (\<lambda>itf.
          Inr (if bInterfaceProtocol itf = HID_KEYBRD_BOOT_CODE then HID_KEYBOARD
               else if bInterfaceProtocol itf = HID_MOUSE_BOOT_CODE then HID_MOUSE
               else HID_UNKNOWN))
      else Inr HID_UNKNOWN)"

definition USBH_HID_GetPollInterval :: "usb_host \<times> hid_drv \<Rightarrow> fault + u8" where
  "USBH_HID_GetPollInterval = (\<lambda>(h, d).
     if gState h \<in> {HOST_CLASS_REQUEST, HOST_INPUT, HOST_SET_CONFIGURATION, HOST_CHECK_CLASS, HOST_CLASS}
     then deref d (\<lambda>k. Inr (ucast (hpoll k))) else Inr 0)"

text \<open>The callback of the firmware; of a keyboard it only logs the shift keys.\<close>

definition USBH_HID_EventCallback :: "usb_host \<times> hid_drv \<Rightarrow> fault + (usb_host \<times> hid_drv)" where
  "USBH_HID_EventCallback = (\<lambda>(h, d).
     sbind (USBH_HID_GetDeviceType h) (\<lambda>t.
       case t of
         HID_MOUSE \<Rightarrow>
           sbind (USBH_HID_GetMouseInfo (h, d)) (\<lambda>(m, h, d).
             case m of
               Some m \<Rightarrow> Inr (h, d\<lparr>hid_buttons := take 3 (mouse_buttons m) @ drop 3 (hid_buttons d),
                 hid_mouse_x := hid_mouse_x d + mouse_x m, hid_mouse_y := hid_mouse_y d + mouse_y m\<rparr>)
             | None \<Rightarrow> Inr (h, d\<lparr>hid_buttons := [0, 0, 0] @ drop 3 (hid_buttons d)\<rparr>))
       | HID_KEYBOARD \<Rightarrow> sbind (USBH_HID_GetKeybdInfo (h, d)) (\<lambda>(_, h, d). Inr (h, d))
       | HID_UNKNOWN \<Rightarrow> Inr (h, d)))"

section \<open>The process\<close>

definition queue_report :: "usb_host \<times> hid_drv \<Rightarrow> fault + (usb_host \<times> hid_drv)" where
  "queue_report = (\<lambda>(h, d). deref d (\<lambda>k.
     sbind (fifo_write (bufs (device h) BUF_CLASS) (hlength k) (hfifo k, bufs (device h) BUF_DATA)) (\<lambda>(_, f, b).
       Inr (upd_dev (\<lambda>v. v\<lparr>bufs := (bufs v)(BUF_DATA := b)\<rparr>) h, upd_hid (\<lambda>k. k\<lparr>hfifo := f\<rparr>) d))))"

definition hid_idle :: "ll_env \<Rightarrow> usb_host \<times> hid_drv \<Rightarrow> fault + (usb_host \<times> hid_drv)" where
  "hid_idle env = (\<lambda>(h, d). deref d (\<lambda>k.
     sbind (USBH_HID_GetReport env 0x01 0 BUF_CLASS (ucast (hlength k)) h) (\<lambda>(st, h).
       if st = USBH_OK then
         sbind (queue_report (h, d)) (\<lambda>s. sbind (USBH_HID_EventCallback s) (\<lambda>(h, d).
           Inr (h, upd_hid (\<lambda>k. k\<lparr>hstate := HID_SYNC\<rparr>) d)))
       else Inr (h, d))))"

text \<open>
  The bytes of a finished transfer are in the memory of the report when its end is seen; the
  chip driver has put them there, as many as the device has sent.
\<close>

definition hid_poll :: "ll_env \<Rightarrow> usb_host \<times> hid_drv \<Rightarrow> fault + (usb_host \<times> hid_drv)" where
  "hid_poll env = (\<lambda>(h, d). deref d (\<lambda>k.
     case urb_of env (hInPipe k) of
       URB_DONE \<Rightarrow>
         if \<not> DataReady k then
           sbind (dma_in BUF_CLASS (rx_of env) h) (\<lambda>h.
           sbind (queue_report (h, d)) (\<lambda>(h, d).
           sbind (USBH_HID_EventCallback (h, upd_hid (\<lambda>k. k\<lparr>DataReady := True\<rparr>) d)) (\<lambda>(h, d).
             Inr (osMessagePut USBH_URB_EVENT h, d))))
         else Inr (h, d)
     | URB_STALL \<Rightarrow>
         sbind (USBH_ClrFeature env (hep_addr k) h) (\<lambda>(st, h).
           Inr (h, if st = USBH_OK then upd_hid (\<lambda>k. k\<lparr>hstate := HID_GET_DATA\<rparr>) d else d))
     | _ \<Rightarrow> Inr (h, d)))"

definition USBH_HID_Process :: "ll_env \<Rightarrow> usb_host \<times> hid_drv \<Rightarrow> fault + (usb_host \<times> hid_drv)" where
  "USBH_HID_Process env = (\<lambda>(h, d). deref d (\<lambda>k.
     case hstate k of
       HID_INIT \<Rightarrow>
         hid_idle env ((case hInit k of KeybdInit \<Rightarrow> USBH_HID_KeybdInit | MouseInit \<Rightarrow> USBH_HID_MouseInit) (h, d))
     | HID_IDLE \<Rightarrow> hid_idle env (h, d)
     | HID_SYNC \<Rightarrow>
         Inr (osMessagePut USBH_URB_EVENT h,
           if Timer h AND 1 \<noteq> 0 then upd_hid (\<lambda>k. k\<lparr>hstate := HID_GET_DATA\<rparr>) d else d)
     | HID_GET_DATA \<Rightarrow>
         Inr (USBH_InterruptReceiveData BUF_CLASS (ucast (hlength k)) (hInPipe k) h,
           upd_hid (\<lambda>k. k\<lparr>hstate := HID_POLL, htimer := Timer h, DataReady := False\<rparr>) d)
     | HID_POLL \<Rightarrow> hid_poll env (h, d)
     | _ \<Rightarrow> Inr (h, d)))"

definition USBH_HID_SOFProcess :: "usb_host \<times> hid_drv \<Rightarrow> fault + (usb_host \<times> hid_drv)" where
  "USBH_HID_SOFProcess = (\<lambda>(h, d). deref d (\<lambda>k.
     if hstate k = HID_POLL \<and> Timer h - htimer k \<ge> ucast (hpoll k) then
       Inr (osMessagePut USBH_URB_EVENT h, upd_hid (\<lambda>k. k\<lparr>hstate := HID_GET_DATA\<rparr>) d)
     else Inr (h, d)))"

section \<open>A mouse over time\<close>

text \<open>The driver of a mouse between two reports, whose reports have n bytes.\<close>

definition is_mouse :: "usb_host \<Rightarrow> bool" where
  "is_mouse h \<longleftrightarrow> gState h = HOST_CLASS \<and>
     unat (current_interface (device h)) < length (Itf_Desc (CfgDesc (device h))) \<and>
     bInterfaceProtocol (Itf_Desc (CfgDesc (device h)) ! unat (current_interface (device h))) = HID_MOUSE_BOOT_CODE"

definition mouse_ready :: "nat \<Rightarrow> usb_host \<Rightarrow> hid_drv \<Rightarrow> bool" where
  "mouse_ready n h d \<longleftrightarrow> is_mouse h \<and> hpData d \<and> hlength (hmem d) = of_nat n \<and> 3 \<le> n \<and> n \<le> 4 \<and>
     length (bufs (device h) BUF_CLASS) = 4 \<and> hfifo_ok (hfifo (hmem d)) (bufs (device h) BUF_DATA) \<and>
     fbytes (hfifo (hmem d)) (bufs (device h) BUF_DATA) = [] \<and> 4 < unat (fsize (hfifo (hmem d)))"

definition report_env :: "u8 list \<Rightarrow> ll_env" where
  "report_env r = \<lparr>urb_of = (\<lambda>_. URB_DONE), xfer_of = (\<lambda>_. length r), rx_of = r, hcd_speed = 1\<rparr>"

text \<open>A report is asked for, arrives, and the poll interval passes.\<close>

definition mouse_cycle :: "u8 list \<Rightarrow> usb_host \<times> hid_drv \<Rightarrow> fault + (usb_host \<times> hid_drv)" where
  "mouse_cycle r s =
     sbind (USBH_HID_Process (report_env r) s) (\<lambda>s.
     sbind (USBH_HID_Process (report_env r) s) (\<lambda>(h, d).
       USBH_HID_SOFProcess (h\<lparr>Timer := Timer h + ucast (hpoll (hmem d))\<rparr>, d)))"

lemma is_mouse_upd [simp]:
  "is_mouse (upd_dev (\<lambda>v. v\<lparr>bufs := f v\<rparr>) h) = is_mouse h" "is_mouse (osMessagePut e h) = is_mouse h"
  "is_mouse (ll c h) = is_mouse h" "is_mouse (h\<lparr>Timer := t\<rparr>) = is_mouse h" "is_mouse (set_report bs h) = is_mouse h"
  by (simp_all add: is_mouse_def upd_dev_def osMessagePut_def ll_def set_report_def)

lemma mouse_type: "is_mouse h \<Longrightarrow> USBH_HID_GetDeviceType h = Inr HID_MOUSE"
  by (simp add: is_mouse_def USBH_HID_GetDeviceType_def hid_codes)

text \<open>A report in the queue moves the mouse and leaves the queue empty.\<close>

lemma event_moves:
  assumes "is_mouse h" and "hpData d" and "hlength (hmem d) = of_nat n" and "3 \<le> n" and "n \<le> 4"
    and "length (bufs (device h) BUF_CLASS) = 4" and "hfifo_ok (hfifo (hmem d)) (bufs (device h) BUF_DATA)"
    and "fbytes (hfifo (hmem d)) (bufs (device h) BUF_DATA) = r" and "length r = n"
  shows "\<exists>f rep. USBH_HID_EventCallback (h, d) = Inr (set_report rep h,
      d\<lparr>hmem := (hmem d)\<lparr>hfifo := f\<rparr>, mouse_i := \<lparr>mouse_x = r ! 1, mouse_y = r ! 2,
          mouse_buttons = [bit_of (r ! 0) 0, bit_of (r ! 0) 1, bit_of (r ! 0) 2]\<rparr>,
        hid_buttons := [bit_of (r ! 0) 0, bit_of (r ! 0) 1, bit_of (r ! 0) 2] @ drop 3 (hid_buttons d),
        hid_mouse_x := hid_mouse_x d + r ! 1, hid_mouse_y := hid_mouse_y d + r ! 2\<rparr>) \<and>
    length rep = 4 \<and> hfifo_ok f (bufs (device h) BUF_DATA) \<and> fbytes f (bufs (device h) BUF_DATA) = [] \<and>
    fsize f = fsize (hfifo (hmem d))"
proof -
  let ?b = "bufs (device h) BUF_DATA" and ?c = "bufs (device h) BUF_CLASS"
  have n: "unat (of_nat n :: u16) = n" "(of_nat n :: u16) \<noteq> 0"
    using assms(4,5) by (auto simp: unat_of_nat word_unat_eq_iff)
  obtain f where f: "fifo_get n (hfifo (hmem d), ?b) = Inr (r, f)" "hfifo_ok f ?b" "fbytes f ?b = []"
    "fsize f = fsize (hfifo (hmem d))"
    using fifo_get_spec [OF assms(7), of n] assms(8,9) by auto
  have lock: "flock (hfifo (hmem d)) = 0" "f\<lparr>flock := 0\<rparr> = f" using assms(7) f(2) by (simp_all add: hfifo_ok_def)
  let ?rep = "r @ drop n ?c"
  have take_: "take_report (h, d) = Inr (True, set_report ?rep h, upd_hid (\<lambda>k. k\<lparr>hfifo := f\<rparr>) d)"
    using assms(2,3,5,6,9) n f(1) lock by (simp add: take_report_def deref_def fifo_read_def)
  have rep: "3 \<le> length ?rep" "?rep ! 0 = r ! 0" "?rep ! 1 = r ! 1" "?rep ! 2 = r ! 2"
    using assms(4,6,9) by (simp_all add: nth_append)
  have "bufs (device (set_report ?rep h)) BUF_CLASS = ?rep" by (simp add: set_report_def upd_dev_def)
  then have "USBH_HID_GetMouseInfo (h, d) = Inr (Some \<lparr>mouse_x = r ! 1, mouse_y = r ! 2,
      mouse_buttons = [bit_of (r ! 0) 0, bit_of (r ! 0) 1, bit_of (r ! 0) 2]\<rparr>, set_report ?rep h,
      (upd_hid (\<lambda>k. k\<lparr>hfifo := f\<rparr>) d)\<lparr>mouse_i := \<lparr>mouse_x = r ! 1, mouse_y = r ! 2,
      mouse_buttons = [bit_of (r ! 0) 0, bit_of (r ! 0) 1, bit_of (r ! 0) 2]\<rparr>\<rparr>)"
    using decode_mouse_report [OF rep(1)]
    by (simp add: USBH_HID_GetMouseInfo_def USBH_HID_MouseDecode_def take_ rep del: One_nat_def)
  then have "USBH_HID_EventCallback (h, d) = Inr (set_report ?rep h,
      d\<lparr>hmem := (hmem d)\<lparr>hfifo := f\<rparr>, mouse_i := \<lparr>mouse_x = r ! 1, mouse_y = r ! 2,
          mouse_buttons = [bit_of (r ! 0) 0, bit_of (r ! 0) 1, bit_of (r ! 0) 2]\<rparr>,
        hid_buttons := [bit_of (r ! 0) 0, bit_of (r ! 0) 1, bit_of (r ! 0) 2] @ drop 3 (hid_buttons d),
        hid_mouse_x := hid_mouse_x d + r ! 1, hid_mouse_y := hid_mouse_y d + r ! 2\<rparr>)"
    using mouse_type [OF assms(1)] by (simp add: USBH_HID_EventCallback_def upd_hid_def)
  then show ?thesis
    using f(2-4) assms(5,6,9) by (intro exI [of _ f] exI [of _ ?rep]) simp
qed

text \<open>What the patches see of a mouse after a report.\<close>

definition mouse_moved :: "u8 list \<Rightarrow> hid_drv \<Rightarrow> hid_drv \<Rightarrow> bool" where
  "mouse_moved r d d' \<longleftrightarrow> hid_mouse_x d' = hid_mouse_x d + r ! 1 \<and> hid_mouse_y d' = hid_mouse_y d + r ! 2 \<and>
     hid_buttons d' = [bit_of (r ! 0) 0, bit_of (r ! 0) 1, bit_of (r ! 0) 2] @ drop 3 (hid_buttons d)"

lemma poll_moves:
  assumes "mouse_ready n h d" and "hstate (hmem d) = HID_POLL" and "\<not> DataReady (hmem d)" and "length r = n"
  shows "\<exists>h' d'. USBH_HID_Process (report_env r) (h, d) = Inr (h', d') \<and> mouse_ready n h' d' \<and>
    hstate (hmem d') = HID_POLL \<and> htimer (hmem d') = htimer (hmem d) \<and> hpoll (hmem d') = hpoll (hmem d) \<and>
    Timer h' = Timer h \<and> mouse_moved r d d'"
proof -
  note m = assms(1) [unfolded mouse_ready_def]
  let ?k = "hmem d" and ?b = "bufs (device h) BUF_DATA" and ?c = "bufs (device h) BUF_CLASS"
  have n: "unat (of_nat n :: u16) = n" using m by (simp add: unat_of_nat)
  let ?rep = "r @ drop n ?c"
  have dma: "dma_in BUF_CLASS r h = Inr (set_report ?rep h)"
    using m assms(4) by (simp add: dma_in_def set_report_def upd_dev_def)
  obtain g b' where q: "fifo_put n ?rep 0 (hfifo ?k, ?b) = Inr (n, g, b')" "hfifo_ok g b'"
    "fsize g = fsize (hfifo ?k)" "fbytes g b' = r" "length b' = length ?b"
    using fifo_put_spec [of "hfifo ?k" ?b 0 n ?rep] m assms(4) by auto
  have lock: "flock (hfifo ?k) = 0" "g\<lparr>flock := 0\<rparr> = g" using m q(2) by (simp_all add: hfifo_ok_def)
  have bufs_: "bufs (device (set_report ?rep h)) BUF_CLASS = ?rep" "bufs (device (set_report ?rep h)) BUF_DATA = ?b"
    by (simp_all add: set_report_def upd_dev_def)
  let ?h1 = "upd_dev (\<lambda>v. v\<lparr>bufs := (bufs v)(BUF_DATA := b')\<rparr>) (set_report ?rep h)"
  let ?d1 = "upd_hid (\<lambda>k. k\<lparr>hfifo := g\<rparr>) d"
  have queue: "queue_report (set_report ?rep h, d) = Inr (?h1, ?d1)"
    using m n q(1) lock by (simp add: queue_report_def deref_def fifo_write_def bufs_)
  let ?d2 = "upd_hid (\<lambda>k. k\<lparr>DataReady := True\<rparr>) ?d1"
  have h1: "bufs (device ?h1) BUF_CLASS = ?rep" "bufs (device ?h1) BUF_DATA = b'" "is_mouse ?h1"
    using m by (simp_all add: set_report_def upd_dev_def is_mouse_def)
  have c: "length (bufs (device ?h1) BUF_CLASS) = 4" using m assms(4) by (simp add: h1)
  have d2: "hpData ?d2" "hlength (hmem ?d2) = of_nat n" "hfifo (hmem ?d2) = g" "hid_mouse_x ?d2 = hid_mouse_x d"
    "hid_mouse_y ?d2 = hid_mouse_y d" "hid_buttons ?d2 = hid_buttons d"
    using m by (simp_all add: upd_hid_def)
  have n34: "3 \<le> n" "n \<le> 4" using m by simp_all
  have p7: "hfifo_ok (hfifo (hmem ?d2)) (bufs (device ?h1) BUF_DATA)" by (simp only: d2 h1 q(2))
  have p8: "fbytes (hfifo (hmem ?d2)) (bufs (device ?h1) BUF_DATA) = r" by (simp only: d2 h1 q(4))
  obtain f rep where e: "USBH_HID_EventCallback (?h1, ?d2) = Inr (set_report rep ?h1,
      ?d2\<lparr>hmem := (hmem ?d2)\<lparr>hfifo := f\<rparr>, mouse_i := \<lparr>mouse_x = r ! 1, mouse_y = r ! 2,
          mouse_buttons = [bit_of (r ! 0) 0, bit_of (r ! 0) 1, bit_of (r ! 0) 2]\<rparr>,
        hid_buttons := [bit_of (r ! 0) 0, bit_of (r ! 0) 1, bit_of (r ! 0) 2] @ drop 3 (hid_buttons d),
        hid_mouse_x := hid_mouse_x d + r ! 1, hid_mouse_y := hid_mouse_y d + r ! 2\<rparr>)"
    "length rep = 4" "hfifo_ok f b'" "fbytes f b' = []" "fsize f = fsize g"
    using event_moves [OF h1(3) d2(1,2) n34 c p7 p8 assms(4)] unfolding h1(2) d2(3-6) by blast
  let ?h3 = "osMessagePut USBH_URB_EVENT (set_report rep ?h1)"
  let ?d3 = "?d2\<lparr>hmem := (hmem ?d2)\<lparr>hfifo := f\<rparr>, mouse_i := \<lparr>mouse_x = r ! 1, mouse_y = r ! 2,
          mouse_buttons = [bit_of (r ! 0) 0, bit_of (r ! 0) 1, bit_of (r ! 0) 2]\<rparr>,
        hid_buttons := [bit_of (r ! 0) 0, bit_of (r ! 0) 1, bit_of (r ! 0) 2] @ drop 3 (hid_buttons d),
        hid_mouse_x := hid_mouse_x d + r ! 1, hid_mouse_y := hid_mouse_y d + r ! 2\<rparr>"
  have "hid_poll (report_env r) (h, d) = Inr (?h3, ?d3)"
    using m assms(3) by (simp add: hid_poll_def deref_def report_env_def dma queue e(1))
  then have run: "USBH_HID_Process (report_env r) (h, d) = Inr (?h3, ?d3)"
    using m assms(2) by (simp add: USBH_HID_Process_def deref_def)
  have dev: "bufs (device ?h3) BUF_CLASS = rep" "bufs (device ?h3) BUF_DATA = b'" "is_mouse ?h3"
    using h1(3) by (simp_all add: osMessagePut_def set_report_def upd_dev_def is_mouse_def)
  have "mouse_ready n ?h3 ?d3"
    using m e(2-5) q(3) dev by (simp add: mouse_ready_def upd_hid_def)
  moreover have "Timer ?h3 = Timer h" by (simp add: osMessagePut_def set_report_def upd_dev_def)
  moreover have "mouse_moved r d ?d3" by (simp add: mouse_moved_def upd_hid_def)
  ultimately show ?thesis using run assms(2) by (intro exI [of _ ?h3] exI [of _ ?d3]) (simp add: upd_hid_def)
qed

lemma cycle_moves:
  assumes "mouse_ready n h d" and "hstate (hmem d) = HID_GET_DATA" and "length r = n"
  shows "\<exists>h' d'. mouse_cycle r (h, d) = Inr (h', d') \<and> mouse_ready n h' d' \<and> hstate (hmem d') = HID_GET_DATA \<and>
    mouse_moved r d d'"
proof -
  let ?h = "USBH_InterruptReceiveData BUF_CLASS (ucast (hlength (hmem d))) (hInPipe (hmem d)) h"
  let ?d = "upd_hid (\<lambda>k. k\<lparr>hstate := HID_POLL, htimer := Timer h, DataReady := False\<rparr>) d"
  have 1: "USBH_HID_Process (report_env r) (h, d) = Inr (?h, ?d)"
    using assms(1,2) by (simp add: USBH_HID_Process_def deref_def mouse_ready_def)
  have ready: "mouse_ready n ?h ?d"
    using assms(1) by (simp add: mouse_ready_def USBH_InterruptReceiveData_def upd_hid_def) (simp add: ll_def)
  have t: "Timer ?h = Timer h" by (simp add: USBH_InterruptReceiveData_def ll_def)
  obtain h2 d2 where 2: "USBH_HID_Process (report_env r) (?h, ?d) = Inr (h2, d2)" "mouse_ready n h2 d2"
    "hstate (hmem d2) = HID_POLL" "htimer (hmem d2) = Timer h" "Timer h2 = Timer h" "mouse_moved r ?d d2"
    using poll_moves [OF ready _ _ assms(3)] t by (auto simp: upd_hid_def)
  let ?h3 = "osMessagePut USBH_URB_EVENT (h2\<lparr>Timer := Timer h2 + ucast (hpoll (hmem d2))\<rparr>)"
  let ?d3 = "upd_hid (\<lambda>k. k\<lparr>hstate := HID_GET_DATA\<rparr>) d2"
  have "USBH_HID_SOFProcess (h2\<lparr>Timer := Timer h2 + ucast (hpoll (hmem d2))\<rparr>, d2) = Inr (?h3, ?d3)"
    using 2 by (simp add: USBH_HID_SOFProcess_def deref_def mouse_ready_def)
  then have "mouse_cycle r (h, d) = Inr (?h3, ?d3)" by (simp add: mouse_cycle_def 1 2(1))
  moreover have "mouse_ready n ?h3 ?d3" using 2(2) by (simp add: mouse_ready_def upd_hid_def) (simp add: osMessagePut_def)
  moreover have "mouse_moved r d ?d3" using 2(6) by (simp add: mouse_moved_def upd_hid_def)
  ultimately show ?thesis by (intro exI [of _ ?h3] exI [of _ ?d3]) (simp add: upd_hid_def)
qed


definition sample_mouse :: "usb_host \<times> hid_drv" where
  "sample_mouse = (hUSBHost\<lparr>gState := HOST_CLASS,
       device := (device hUSBHost)\<lparr>bufs := (bufs (device hUSBHost))(BUF_CLASS := [0, 0, 0, 0]),
         CfgDesc := zero_cfg\<lparr>Itf_Desc := map (\<lambda>i. i\<lparr>bInterfaceProtocol := 2\<rparr>) (Itf_Desc zero_cfg)\<rparr>\<rparr>\<rparr>,
     \<lparr>hpData = True,
       hmem = \<lparr>hOutPipe = 0, hInPipe = 2, hstate = HID_GET_DATA, hOutEp = 0, hInEp = 0x81,
         hctl_state = HID_REQ_IDLE, hfifo = fifo_init 40, hlength = 3, hep_addr = 0x81, hpoll = 10,
         htimer = 0, DataReady = False,
         HID_Desc = \<lparr>hd_bLength = 0, hd_bDescriptorType = 0, bcdHID = 0, bCountryCode = 0, bNumDescriptors = 0,
           bReportDescriptorType = 0, wItemLength = 0\<rparr>, hInit = MouseInit\<rparr>,
       mouse_i = \<lparr>mouse_x = 0, mouse_y = 0, mouse_buttons = [0, 0, 0]\<rparr>,
       keybd_i = \<lparr>lctrl = 0, lshift = 0, lalt = 0, lgui = 0, rctrl = 0, rshift = 0, ralt = 0, rgui = 0,
         kkeys = [0, 0, 0, 0, 0, 0]\<rparr>,
       hid_buttons = replicate 8 0, hid_mouse_x = 0, hid_mouse_y = 0\<rparr>)"


end
