(* ===== verification/Usbh_Midi.thy ===== *)
theory Usbh_Midi
  imports Midi_Core Usbh_Host
begin

text \<open>
  The USB host MIDI class driver (firmware/usbh\_midi\_core.c): choosing the endpoints of an
  attached device, and the two state machines that receive and transmit packets, as functions of
  what the host library answers (the state of a transfer, the size of the last one, the result
  of clearing an endpoint, the product string) with the transfers they start as part of their
  results; and the driver as the host calls it, with these answers and transfers being those of
  the host. The driver of the Access Virus (usbh\_vendor.c) shares all but the choice of endpoints.
\<close>

section \<open>State\<close>

datatype MIDI_State = MIDI_INIT | MIDI_IDLE | MIDI_SEND_DATA | MIDI_BUSY | MIDI_GET_DATA
  | MIDI_POLL | MIDI_RETRY | MIDI_ERROR

record midi_handle =
  OutPipe :: u8
  InPipe :: u8
  OutEp :: u8
  InEp :: u8
  OutEpSize :: u16
  InEpSize :: u16
  state_in :: MIDI_State
  state_out :: MIDI_State
  input_valid :: bool
  output_valid :: bool
  hname :: string
  buff_in :: "u8 list"
  buff_out :: "u8 list"
  buff_out_len :: u8

text \<open>The calls of the host library that start something.\<close>

datatype usb_action =
    BulkSend "u8 list"       \<comment> \<open>USBH\_BulkSendData on the output pipe\<close>
  | BulkReceive u16          \<comment> \<open>USBH\_BulkReceiveData of that many bytes\<close>
  | ClrFeature u8            \<comment> \<open>USBH\_ClrFeature of an endpoint\<close>

definition isValidInput :: "midi_handle option \<Rightarrow> bool" where
  "isValidInput pH = (case pH of None \<Rightarrow> False | Some h \<Rightarrow> input_valid h)"

definition isValidOutput :: "midi_handle option \<Rightarrow> bool" where
  "isValidOutput pH = (case pH of None \<Rightarrow> False | Some h \<Rightarrow> output_valid h)"

section \<open>Finding the class-specific endpoint descriptor\<close>

text \<open>
  The scan over the raw configuration descriptor. It does not return when it meets a descriptor
  of length zero, so its value is None in that case; the offset of the descriptor found, or no
  descriptor, is the result otherwise.
\<close>

partial_function (option) cs_scan ::
    "u8 list \<Rightarrow> nat \<Rightarrow> int \<Rightarrow> int \<Rightarrow> nat \<Rightarrow> u16 \<Rightarrow> u8 \<Rightarrow> u8 \<Rightarrow> u8 \<Rightarrow> u8 \<Rightarrow> (fault + nat option) option" where
  "cs_scan raw total_len intf ep off ptr ifx epx ifn epn =
    (if unat ptr < total_len then
       if off < length raw \<and> off + unat (raw ! off) + 1 < length raw then
         (if raw ! (off + unat (raw ! off) + 1) = 0x04 then
            cs_scan raw total_len intf ep (off + unat (raw ! off)) (ptr + ucast (raw ! off))
              (ifx + 1) 0 ifx epn
          else if raw ! (off + unat (raw ! off) + 1) = 0x05 then
            cs_scan raw total_len intf ep (off + unat (raw ! off)) (ptr + ucast (raw ! off))
              ifx (epx + 1) ifn epx
          else if raw ! (off + unat (raw ! off) + 1) = 0x25 \<and> sint epn = ep \<and> sint ifn = intf then
            Some (Inr (Some (off + unat (raw ! off))))
          else
            cs_scan raw total_len intf ep (off + unat (raw ! off)) (ptr + ucast (raw ! off))
              ifx epx ifn epn)
       else Some (Inl OutOfBounds)
     else Some (Inr None))"

definition getCSEPDesc :: "u8 list \<Rightarrow> int \<Rightarrow> int \<Rightarrow> (fault + nat option) option" where
  "getCSEPDesc raw intf ep =
     (if 3 < length raw then
        cs_scan raw (unat (raw ! 2) + 256 * unat (raw ! 3)) intf ep 0 9 0 0 (-1) (-1)
      else Some (Inl OutOfBounds))"

section \<open>Attaching and detaching\<close>

definition USBH_MIDI_EPS_IN_SIZE :: u16 where "USBH_MIDI_EPS_IN_SIZE = 64"
definition USBH_MIDI_EPS_OUT_SIZE :: u16 where "USBH_MIDI_EPS_OUT_SIZE = 64"

text \<open>The number of ports of an endpoint: byte 3 of its class-specific descriptor, 1 without one.\<close>

definition ep_nports :: "u8 list \<Rightarrow> nat \<Rightarrow> nat \<Rightarrow> (fault + int) option" where
  "ep_nports raw intf ep =
     map_option (\<lambda>r. sbind r (\<lambda>d. case d of
         None \<Rightarrow> Inr 1
       | Some off \<Rightarrow> sbind (nth_e raw (off + 3)) (\<lambda>b. Inr (uint b))))
       (getCSEPDesc raw (int intf) (int ep))"

text \<open>One endpoint: take it as the input or the output when that is still missing.\<close>

definition set_nports_in :: "int \<Rightarrow> midi_state \<Rightarrow> midi_state" where
  "set_nports_in n st = st\<lparr>inmap := (inmap st)(Usbh1 := (inmap st Usbh1)\<lparr>nports := n\<rparr>)\<rparr>"

definition set_nports_out :: "int \<Rightarrow> midi_state \<Rightarrow> midi_state" where
  "set_nports_out n st = st\<lparr>outmap := (outmap st)(Usbh1 := (outmap st Usbh1)\<lparr>nports := n\<rparr>)\<rparr>"

definition choose_ep ::
    "u8 list \<Rightarrow> nat \<Rightarrow> nat \<Rightarrow> ep_desc \<Rightarrow> midi_handle \<times> midi_state \<Rightarrow> (fault + (midi_handle \<times> midi_state)) option" where
  "choose_ep raw intf i ep = (\<lambda>(h, st).
     let bInput = (bEndpointAddress ep AND 0x80 \<noteq> 0) in
     if \<not> input_valid h \<and> bInput then
       map_option (\<lambda>r. sbind r (\<lambda>n. Inr (h\<lparr>InEp := bEndpointAddress ep,
           InEpSize := USBH_MIDI_EPS_IN_SIZE, input_valid := True\<rparr>, set_nports_in n st)))
         (ep_nports raw intf i)
     else if \<not> output_valid h \<and> \<not> bInput then
       map_option (\<lambda>r. sbind r (\<lambda>n. Inr (h\<lparr>OutEp := bEndpointAddress ep,
           OutEpSize := (if wMaxPacketSize ep > USBH_MIDI_EPS_OUT_SIZE then USBH_MIDI_EPS_OUT_SIZE
                         else wMaxPacketSize ep), output_valid := True\<rparr>, set_nports_out n st)))
         (ep_nports raw intf i)
     else Some (Inr (h, st)))"

fun choose_eps ::
    "u8 list \<Rightarrow> nat \<Rightarrow> nat \<Rightarrow> ep_desc list \<Rightarrow> midi_handle \<times> midi_state \<Rightarrow> (fault + (midi_handle \<times> midi_state)) option" where
  "choose_eps raw intf i [] s = Some (Inr s)"
| "choose_eps raw intf i (ep # eps) s =
     (if \<not> input_valid (fst s) \<or> \<not> output_valid (fst s) then
        (case choose_ep raw intf i ep s of
           None \<Rightarrow> None
         | Some (Inl e) \<Rightarrow> Some (Inl e)
         | Some (Inr s') \<Rightarrow> choose_eps raw intf (i + 1) eps s')
      else Some (Inr s))"

fun find_midi_itf :: "nat \<Rightarrow> itf_desc list \<Rightarrow> (nat \<times> itf_desc) option" where
  "find_midi_itf i [] = None"
| "find_midi_itf i (x # xs) =
     (if bInterfaceClass x = 0x01 \<and> bInterfaceSubClass x = 0x03 then Some (i, x)
      else find_midi_itf (i + 1) xs)"

text \<open>
  The state of the driver: whether the data pointer of each class is set, the handle it points to
  (the memory is one static buffer and is not cleared when it is handed out), the name buffer in
  it, and the MIDI system.
\<close>

record midi_drv =
  mpData :: "usb_class \<Rightarrow> bool"
  mmem :: midi_handle
  mname :: "u8 list"
  mstate :: midi_state

definition midi_pH :: "usb_class \<Rightarrow> midi_drv \<Rightarrow> midi_handle option" where
  "midi_pH c d = (if mpData d c then Some (mmem d) else None)"

definition open_out :: "midi_handle \<times> usb_host \<Rightarrow> fault + (midi_handle \<times> usb_host)" where
  "open_out = (\<lambda>(k, h).
     if output_valid k then
       sbind (open_class_pipe (OutEp k) USBH_EP_BULK (OutEpSize k) h) (\<lambda>(p, h). Inr (k\<lparr>OutPipe := p\<rparr>, h))
     else Inr (k, h))"

definition open_in :: "midi_handle \<times> usb_host \<Rightarrow> fault + (midi_handle \<times> usb_host)" where
  "open_in = (\<lambda>(k, h).
     if input_valid k then
       sbind (open_class_pipe (InEp k) USBH_EP_BULK (InEpSize k) h) (\<lambda>(p, h). Inr (k\<lparr>InPipe := p\<rparr>, h))
     else Inr (k, h))"

text \<open>The name buffer of the handle is where the class buffer of the host lies from now on.\<close>

definition midi_handle_in :: "usb_class \<Rightarrow> usb_host \<times> midi_drv \<Rightarrow> usb_host \<times> midi_drv" where
  "midi_handle_in c = (\<lambda>(h, d).
     (upd_dev (\<lambda>v. v\<lparr>bufs := (bufs v)(BUF_CLASS := mname d)\<rparr>) h,
      d\<lparr>mpData := (mpData d)(c := True), mmem := (mmem d)\<lparr>state_in := MIDI_INIT, state_out := MIDI_INIT,
        input_valid := False, output_valid := False\<rparr>\<rparr>))"

text \<open>
  The first MIDI streaming interface; the result is None when the scan for the class-specific
  descriptor does not return.
\<close>

definition USBH_MIDI_InterfaceInit ::
    "usb_class \<Rightarrow> usb_host \<times> midi_drv \<Rightarrow> (fault + (usbh_status \<times> usb_host \<times> midi_drv)) option" where
  "USBH_MIDI_InterfaceInit c = (\<lambda>(h, d).
     let cfg = CfgDesc (device h) in
     case find_midi_itf 0 (take USBH_MAX_NUM_INTERFACES (take (unat (bNumInterfaces cfg)) (Itf_Desc cfg))) of
       None \<Rightarrow> Some (Inr (USBH_FAIL, h, d))
     | Some (interface, itf) \<Rightarrow>
         (case USBH_SelectInterface (of_nat interface) h of
            Inl e \<Rightarrow> Some (Inl e)
          | Inr (_, h) \<Rightarrow>
              let (h, d) = midi_handle_in c (h, d);
                  num_ep = min (unat (bNumEndpoints itf)) USBH_MAX_NUM_ENDPOINTS
              in map_option (\<lambda>r. sbind r (\<lambda>(k, st).
                   sbind (open_out (k, h)) (\<lambda>s. sbind (open_in s) (\<lambda>(k, h).
                     Inr (USBH_OK, h, d\<lparr>mmem := k, mstate := st\<rparr>)))))
                 (choose_eps (bufs (device h) BUF_RAW) interface 0 (take num_ep (Ep_Desc itf)) (mmem d, mstate d))))"

definition USBH_MIDI_InterfaceDeInit :: "usb_class \<Rightarrow> usb_host \<times> midi_drv \<Rightarrow> fault + (usb_host \<times> midi_drv)" where
  "USBH_MIDI_InterfaceDeInit c = (\<lambda>(h, d).
     sbind (if isValidOutput (midi_pH c d) then release_pipe (OutPipe (mmem d)) h else Inr h) (\<lambda>h.
     sbind (if isValidInput (midi_pH c d) then release_pipe (InPipe (mmem d)) h else Inr h) (\<lambda>h.
       let k = mmem d;
           k = (if isValidOutput (midi_pH c d) then k\<lparr>OutPipe := 0, output_valid := False\<rparr> else k);
           k = (if isValidInput (midi_pH c d) then k\<lparr>InPipe := 0, input_valid := False\<rparr> else k)
       in Inr (h, d\<lparr>mpData := (mpData d)(c := False), mmem := k, mstate := usbmidi_disconnect Usbh1 (mstate d)\<rparr>))))"

section \<open>The Access Virus\<close>

definition USB_ACCESS_VID :: u16 where "USB_ACCESS_VID = 0x133E"
definition USB_VIRUS_PID :: u16 where "USB_VIRUS_PID = 0x815"
definition USB_VENDOR_CLASS_ID :: u8 where "USB_VENDOR_CLASS_ID = 0xFF"

definition cap_size :: "u16 \<Rightarrow> u16 \<Rightarrow> u16" where
  "cap_size m n = (if n > m then m else n)"

text \<open>Its endpoints are chosen alike, but the number of ports is not read.\<close>

definition choose_virus_ep :: "ep_desc \<Rightarrow> midi_handle \<Rightarrow> midi_handle" where
  "choose_virus_ep ep k =
     (let bInput = (bEndpointAddress ep AND 0x80 \<noteq> 0) in
      if \<not> input_valid k \<and> bInput then
        k\<lparr>InEp := bEndpointAddress ep, InEpSize := cap_size USBH_MIDI_EPS_IN_SIZE (wMaxPacketSize ep),
          input_valid := True\<rparr>
      else if \<not> output_valid k \<and> \<not> bInput then
        k\<lparr>OutEp := bEndpointAddress ep, OutEpSize := cap_size USBH_MIDI_EPS_OUT_SIZE (wMaxPacketSize ep),
          output_valid := True\<rparr>
      else k)"

fun choose_virus_eps :: "ep_desc list \<Rightarrow> midi_handle \<Rightarrow> midi_handle" where
  "choose_virus_eps [] k = k"
| "choose_virus_eps (ep # eps) k =
     (if \<not> input_valid k \<or> \<not> output_valid k then choose_virus_eps eps (choose_virus_ep ep k) else k)"

text \<open>After its output is open the device is switched to USB mode by a message of four bytes.\<close>

definition virus_hello :: "midi_handle \<Rightarrow> usb_host \<Rightarrow> usb_host" where
  "virus_hello k h =
     (if output_valid k then USBH_BulkSendData [0x4E, 0x73, 0x52, 0x01] 4 (OutPipe k) False h else h)"

definition USBH_Virus_InterfaceInit ::
    "usb_class \<Rightarrow> usb_host \<times> midi_drv \<Rightarrow> fault + (usbh_status \<times> usb_host \<times> midi_drv)" where
  "USBH_Virus_InterfaceInit c = (\<lambda>(h, d).
     let cfg = CfgDesc (device h) in
     if 5 < bNumInterfaces cfg then
       sbind (nth_e (Itf_Desc cfg) 5) (\<lambda>itf.
         if bInterfaceClass itf = USB_VENDOR_CLASS_ID \<and> bInterfaceSubClass itf = 0 then
           sbind (USBH_SelectInterface 5 h) (\<lambda>(_, h).
             let (h, d) = midi_handle_in c (h, d);
                 num_ep = min (unat (bNumEndpoints itf)) USBH_MAX_NUM_ENDPOINTS;
                 k = choose_virus_eps (take num_ep (Ep_Desc itf)) (mmem d)
             in sbind (open_out (k, h)) (\<lambda>(k, h).
                sbind (open_in (k, virus_hello k h)) (\<lambda>(k, h). Inr (USBH_OK, h, d\<lparr>mmem := k\<rparr>))))
         else Inr (USBH_FAIL, h, d))
     else Inr (USBH_FAIL, h, d))"

definition USBH_Vendor_InterfaceInit ::
    "usb_class \<Rightarrow> usb_host \<times> midi_drv \<Rightarrow> fault + (usbh_status \<times> usb_host \<times> midi_drv)" where
  "USBH_Vendor_InterfaceInit c = (\<lambda>(h, d).
     if idVendor (DevDesc (device h)) = USB_ACCESS_VID \<and> idProduct (DevDesc (device h)) = USB_VIRUS_PID
     then USBH_Virus_InterfaceInit c (h, d) else Inr (USBH_NOT_SUPPORTED, h, d))"

section \<open>Receiving\<close>

text \<open>
  One call of USBH\_MIDI\_ProcessInput. The arguments are the answers of the library: the product
  string once it is available, the state of the input transfer, the number of bytes of the last
  one, and whether clearing the endpoint succeeded.
\<close>

definition report_words ::
    "midi_handle \<Rightarrow> int \<Rightarrow> midi_state \<Rightarrow> fault + midi_state" where
  "report_words h n st = usbhmidi_cb Usbh1 (bytes_words (buff_in h)) (n div 4) st"

definition set_names :: "string \<Rightarrow> midi_state \<Rightarrow> midi_state" where
  "set_names nm st = st\<lparr>
     inmap := (inmap st)(Usbh1 := (inmap st Usbh1)\<lparr>rname := nm\<rparr>),
     outmap := (outmap st)(Usbh1 := (outmap st Usbh1)\<lparr>rname := nm\<rparr>)\<rparr>"

definition poll_input ::
    "urb_state \<Rightarrow> int \<Rightarrow> bool \<Rightarrow> midi_handle \<Rightarrow> midi_state \<Rightarrow>
     fault + (midi_handle option \<times> midi_state \<times> usb_action list)" where
  "poll_input urb lastxfer clr_ok h st =
     (case urb of
        URB_DONE \<Rightarrow> sbind (report_words h lastxfer st) (\<lambda>st.
          Inr (Some (h\<lparr>state_in := MIDI_POLL\<rparr>), st, [BulkReceive (InEpSize h)]))
      | URB_STALL \<Rightarrow>
          Inr (Some (if clr_ok then h\<lparr>state_in := MIDI_GET_DATA\<rparr> else h), st, [ClrFeature (InEp h)])
      | URB_IDLE \<Rightarrow> sbind (report_words h lastxfer st) (\<lambda>st.
          Inr (Some (h\<lparr>state_in := MIDI_RETRY\<rparr>), st, [BulkReceive (InEpSize h)]))
      | _ \<Rightarrow> Inr (Some h, st, []))"

definition USBH_MIDI_ProcessInput ::
    "bool \<Rightarrow> (string \<Rightarrow> u8 list option) \<Rightarrow> string option \<Rightarrow> urb_state \<Rightarrow> int \<Rightarrow> bool \<Rightarrow>
     midi_handle option \<Rightarrow> midi_state \<Rightarrow> fault + (midi_handle option \<times> midi_state \<times> usb_action list)" where
  "USBH_MIDI_ProcessInput fs_ready open_read product urb lastxfer clr_ok pH st =
     (case pH of None \<Rightarrow> Inr (None, st, [])
      | Some h \<Rightarrow>
        if \<not> input_valid h then Inr (Some h, st, [])
        else (case state_in h of
          MIDI_INIT \<Rightarrow>
            (case product of None \<Rightarrow> Inr (Some h, st, [])
             | Some nm \<Rightarrow>
                 sbind (load_maps fs_ready open_read Usbh1 (set_names nm st)) (\<lambda>st.
                 Inr (Some (h\<lparr>hname := nm, state_in := MIDI_GET_DATA\<rparr>), st, [])))
        | MIDI_GET_DATA \<Rightarrow>
            Inr (Some (h\<lparr>state_in := MIDI_POLL\<rparr>), st,
              (if urb = URB_STALL \<or> urb = URB_ERROR then [ClrFeature (InEp h)] else []) @
              [BulkReceive (InEpSize h)])
        | MIDI_RETRY \<Rightarrow> poll_input urb lastxfer clr_ok h st
        | MIDI_POLL \<Rightarrow> poll_input urb lastxfer clr_ok h st
        | _ \<Rightarrow> Inr (Some h, st, [])))"

section \<open>Transmitting\<close>

text \<open>
  The state MIDI\_SEND\_DATA: up to four packets of the output buffer in one transfer. The packets
  are sent from a buffer of their own; buff\_out and buff\_out\_len of the handle are not used.
\<close>

definition send_data ::
    "urb_state \<Rightarrow> midi_handle \<Rightarrow> midi_output_buffer \<Rightarrow> midi_handle \<times> midi_output_buffer \<times> usb_action list" where
  "send_data urb h b =
     (let clr = (if urb = URB_STALL \<or> urb = URB_ERROR then [ClrFeature (OutEp h)] else []) in
      case take_upto midi_output_buffer_get 4 b of (ms, b') \<Rightarrow>
        if 0 < length ms then
          (h\<lparr>state_out := MIDI_POLL\<rparr>, b', clr @ [BulkSend (concat (map msg_bytes ms))])
        else (h, b', clr))"

definition process_output ::
    "urb_state \<Rightarrow> bool \<Rightarrow> midi_handle \<Rightarrow> midi_output_buffer \<Rightarrow> midi_handle \<times> midi_output_buffer \<times> usb_action list" where
  "process_output urb clr_ok h b =
     (case state_out h of
        MIDI_INIT \<Rightarrow> (h\<lparr>state_out := MIDI_SEND_DATA\<rparr>, b, [])
      | MIDI_POLL \<Rightarrow>
          (case urb of
             URB_DONE \<Rightarrow> send_data urb (h\<lparr>buff_out_len := 0, state_out := MIDI_SEND_DATA\<rparr>) b
           | URB_NOTREADY \<Rightarrow>
               (h\<lparr>state_out := MIDI_POLL\<rparr>, b, [BulkSend (take (unat (buff_out_len h)) (buff_out h))])
           | URB_IDLE \<Rightarrow> (h\<lparr>state_out := MIDI_RETRY\<rparr>, b, [])
           | URB_ERROR \<Rightarrow> (h\<lparr>state_out := MIDI_SEND_DATA, buff_out_len := 0\<rparr>, b, [])
           | URB_STALL \<Rightarrow>
               (if clr_ok then h\<lparr>state_out := MIDI_SEND_DATA\<rparr>
                else h\<lparr>state_out := MIDI_SEND_DATA, buff_out_len := 0\<rparr>, b, [ClrFeature (OutEp h)])
           | URB_NYET \<Rightarrow> (h\<lparr>state_out := MIDI_SEND_DATA, buff_out_len := 0\<rparr>, b, []))
      | MIDI_SEND_DATA \<Rightarrow> send_data urb h b
      | MIDI_RETRY \<Rightarrow>
          (h\<lparr>state_out := MIDI_POLL\<rparr>, b, [BulkSend (take (unat (buff_out_len h)) (buff_out h))])
      | _ \<Rightarrow> (h, b, []))"

definition USBH_MIDI_ProcessOutput ::
    "urb_state \<Rightarrow> bool \<Rightarrow> midi_handle option \<Rightarrow> midi_state \<Rightarrow> midi_handle option \<times> midi_state \<times> usb_action list" where
  "USBH_MIDI_ProcessOutput urb clr_ok pH st =
     (case pH of None \<Rightarrow> (None, st, [])
      | Some h \<Rightarrow>
        if \<not> output_valid h then (Some h, st, [])
        else (case process_output urb clr_ok h (outbuf st Usbh1) of (h, b, acts) \<Rightarrow>
          (Some h, st\<lparr>outbuf := (outbuf st)(Usbh1 := b)\<rparr>, acts)))"

text \<open>Whether the start-of-frame handler wakes the host thread.\<close>

definition USBH_MIDI_SOFProcess :: "midi_handle option \<Rightarrow> bool" where
  "USBH_MIDI_SOFProcess pH =
     (if \<not> isValidInput pH \<and> \<not> isValidOutput pH then False
      else if state_out (the pH) = MIDI_SEND_DATA then False
      else state_out (the pH) = MIDI_RETRY \<or> state_in (the pH) = MIDI_RETRY)"

section \<open>The driver as the host calls it\<close>

text \<open>The transfers a step starts, in order. The input buffer is the one in the handle.\<close>

fun do_act :: "ll_env \<Rightarrow> midi_handle \<Rightarrow> usb_action \<Rightarrow> usb_host \<Rightarrow> fault + usb_host" where
  "do_act env k (BulkSend bs) h = Inr (USBH_BulkSendData bs (of_nat (length bs)) (OutPipe k) False h)"
| "do_act env k (BulkReceive n) h = Inr (USBH_BulkReceiveData BUF_XFER n (InPipe k) h)"
| "do_act env k (ClrFeature ep) h = sbind (USBH_ClrFeature env ep h) (\<lambda>(_, h). Inr h)"

definition clr_ok_of :: "ll_env \<Rightarrow> u8 \<Rightarrow> usb_host \<Rightarrow> bool" where
  "clr_ok_of env ep h = (case USBH_ClrFeature env ep h of Inr (st, _) \<Rightarrow> st = USBH_OK | Inl _ \<Rightarrow> False)"

text \<open>The bytes of a finished transfer are in the input buffer when its end is seen.\<close>

definition buff_dma :: "ll_env \<Rightarrow> midi_handle \<Rightarrow> fault + midi_handle" where
  "buff_dma env k =
     (if urb_of env (InPipe k) = URB_DONE \<and> (state_in k = MIDI_POLL \<or> state_in k = MIDI_RETRY) then
        if length (rx_of env) \<le> length (buff_in k)
        then Inr (k\<lparr>buff_in := rx_of env @ drop (length (rx_of env)) (buff_in k)\<rparr>)
        else Inl OutOfBounds
      else Inr k)"

definition product_name :: "ll_env \<Rightarrow> midi_handle \<Rightarrow> usb_host \<Rightarrow> fault + (string option \<times> usb_host)" where
  "product_name env k h =
     (if state_in k = MIDI_INIT then
        sbind (USBH_Get_StringDesc env (iProduct (DevDesc (device h))) BUF_CLASS 0xFF h) (\<lambda>(st, h).
          if st = USBH_OK then
            sbind (c_string (bufs (device h) BUF_CLASS)) (\<lambda>nm. Inr (Some (map (\<lambda>b. char_of (unat b)) nm), h))
          else Inr (None, h))
      else Inr (None, h))"

definition midi_input_step ::
    "bool \<Rightarrow> (string \<Rightarrow> u8 list option) \<Rightarrow> usb_class \<Rightarrow> ll_env \<Rightarrow> usb_host \<times> midi_drv \<Rightarrow> fault + (usb_host \<times> midi_drv)" where
  "midi_input_step fs_ready open_read c env = (\<lambda>(h, d).
     if \<not> isValidInput (midi_pH c d) then Inr (h, d)
     else
       sbind (buff_dma env (mmem d)) (\<lambda>k.
       sbind (product_name env k h) (\<lambda>(product, h).
       sbind (USBH_MIDI_ProcessInput fs_ready open_read product (urb_of env (InPipe k)) (int (xfer_of env (InPipe k)))
           (clr_ok_of env (InEp k) h) (Some k) (mstate d)) (\<lambda>(pH, st, acts).
       sbind (sfold (do_act env k) acts h) (\<lambda>h.
         Inr (h, d\<lparr>mmem := (case pH of Some k \<Rightarrow> k | None \<Rightarrow> k), mstate := st\<rparr>))))))"

definition midi_output_step ::
    "usb_class \<Rightarrow> ll_env \<Rightarrow> usb_host \<times> midi_drv \<Rightarrow> fault + (usb_host \<times> midi_drv)" where
  "midi_output_step c env = (\<lambda>(h, d).
     if \<not> isValidOutput (midi_pH c d) then Inr (h, d)
     else
       let k = mmem d;
           (pH, st, acts) = USBH_MIDI_ProcessOutput (urb_of env (OutPipe k)) (clr_ok_of env (OutEp k) h) (Some k) (mstate d)
       in sbind (sfold (do_act env k) acts h) (\<lambda>h.
            Inr (h, d\<lparr>mmem := (case pH of Some k \<Rightarrow> k | None \<Rightarrow> k), mstate := st\<rparr>)))"

definition USBH_MIDI_Process ::
    "bool \<Rightarrow> (string \<Rightarrow> u8 list option) \<Rightarrow> usb_class \<Rightarrow> ll_env \<Rightarrow> usb_host \<times> midi_drv \<Rightarrow> fault + (usb_host \<times> midi_drv)" where
  "USBH_MIDI_Process fs_ready open_read c env s =
     sbind (midi_input_step fs_ready open_read c env s) (midi_output_step c env)"

definition USBH_MIDI_ClassRequest :: "usb_host \<times> midi_drv \<Rightarrow> usbh_status \<times> usb_host \<times> midi_drv" where
  "USBH_MIDI_ClassRequest s = (USBH_OK, s)"

definition midi_sof :: "usb_class \<Rightarrow> usb_host \<times> midi_drv \<Rightarrow> usb_host \<times> midi_drv" where
  "midi_sof c = (\<lambda>(h, d).
     (if USBH_MIDI_SOFProcess (midi_pH c d) then osMessagePut USBH_URB_EVENT h else h, d))"

section \<open>The transmitter over time\<close>

text \<open>One ProcessOutput call per transfer state reported; the data sent, in order.\<close>

fun sends :: "usb_action list \<Rightarrow> u8 list" where
  "sends [] = []"
| "sends (BulkSend bs # as) = bs @ sends as"
| "sends (_ # as) = sends as"

fun run_output ::
    "urb_state list \<Rightarrow> bool \<Rightarrow> midi_handle \<Rightarrow> midi_output_buffer \<Rightarrow> u8 list \<times> midi_handle \<times> midi_output_buffer" where
  "run_output [] clr_ok h b = ([], h, b)"
| "run_output (u # us) clr_ok h b =
     (case process_output u clr_ok h b of (h', b', acts) \<Rightarrow>
        (case run_output us clr_ok h' b' of (bs, h'', b'') \<Rightarrow> (sends acts @ bs, h'', b'')))"

lemma sends_append [simp]: "sends (xs @ ys) = sends xs @ sends ys"
  by (induction xs rule: sends.induct) simp_all

lemma send_data_takes:
  assumes "fifo_inv b"
  shows "\<exists>b' acts h'. send_data u h b = (h', b', acts) \<and> fifo_inv b' \<and>
    queued b' = drop 4 (queued b) \<and> sends acts = concat (map msg_bytes (take 4 (queued b))) \<and>
    (h' = h \<or> h' = h\<lparr>state_out := MIDI_POLL\<rparr>)"
proof -
  have "midi_output_buffer_get = midi_input_buffer_get"
    by (rule ext) (rule output_get_eq_input_get)
  then obtain b' where "take_upto midi_output_buffer_get 4 b = (take 4 (queued b), b')"
    "fifo_inv b'" "queued b' = drop 4 (queued b)"
    using inq.take_upto_take [OF assms, of 4] by auto
  then show ?thesis by (auto simp: send_data_def)
qed

lemma run_output_done:
  assumes "fifo_inv b" and "state_out h = MIDI_SEND_DATA \<or> state_out h = MIDI_POLL"
  shows "\<exists>h' b'. run_output (replicate n URB_DONE) clr_ok h b =
      (concat (map msg_bytes (take (4 * n) (queued b))), h', b') \<and>
    fifo_inv b' \<and> queued b' = drop (4 * n) (queued b)"
  using assms
proof (induction n arbitrary: h b)
  case 0
  then show ?case by simp
next
  case (Suc n)
  let ?h = "if state_out h = MIDI_POLL then h\<lparr>buff_out_len := 0, state_out := MIDI_SEND_DATA\<rparr> else h"
  obtain b1 acts h1 where s: "send_data URB_DONE ?h b = (h1, b1, acts)" "fifo_inv b1"
    "queued b1 = drop 4 (queued b)" "sends acts = concat (map msg_bytes (take 4 (queued b)))"
    "h1 = ?h \<or> h1 = ?h\<lparr>state_out := MIDI_POLL\<rparr>"
    using send_data_takes [OF Suc.prems(1)] by blast
  have p: "process_output URB_DONE clr_ok h b = (h1, b1, acts)"
    using s(1) Suc.prems(2) by (auto simp: process_output_def)
  have "state_out h1 = MIDI_SEND_DATA \<or> state_out h1 = MIDI_POLL"
    using s(5) Suc.prems(2) by (auto split: if_splits)
  with Suc.IH [OF s(2)] obtain h' b' where
    "run_output (replicate n URB_DONE) clr_ok h1 b1 =
      (concat (map msg_bytes (take (4 * n) (queued b1))), h', b')"
    "fifo_inv b'" "queued b' = drop (4 * n) (queued b1)" by blast
  moreover have "take (4 * Suc n) (queued b) = take 4 (queued b) @ take (4 * n) (drop 4 (queued b))"
    by (simp add: take_add [symmetric] add.commute)
  ultimately show ?case using p s by (simp add: add.commute)
qed

section \<open>What a received transfer delivers\<close>

lemma cb_loop_stuck: "p < length ws \<Longrightarrow> ws ! p = 0 \<Longrightarrow> usbhmidi_cb_loop d ws n p st = Inr st"
  by (induction n) simp_all

lemma cb_loop_prefix:
  "p + n \<le> length ws \<Longrightarrow>
   usbhmidi_cb_loop d ws n p st =
     sfold (usbh_midi_dispatch d) (map msg_of_word (takeWhile (\<lambda>w. w \<noteq> 0) (take n (drop p ws)))) st"
proof (induction n arbitrary: p st)
  case 0
  then show ?case by simp
next
  case (Suc n)
  then have p: "p < length ws" by simp
  then have d: "drop p ws = ws ! p # drop (Suc p) ws" by (simp add: Cons_nth_drop_Suc)
  show ?case
  proof (cases "ws ! p = 0")
    case True
    then show ?thesis using p by (simp add: d cb_loop_stuck del: usbhmidi_cb_loop.simps)
  next
    case False
    have "usbhmidi_cb_loop d ws n (Suc p) s =
        sfold (usbh_midi_dispatch d)
          (map msg_of_word (takeWhile (\<lambda>w. w \<noteq> 0) (take n (drop (Suc p) ws)))) s" for s
      using Suc.prems by (intro Suc.IH) simp
    then show ?thesis using False p by (simp add: d sbind_def split: sum.split)
  qed
qed

definition usbh_copies :: "midi_state \<Rightarrow> midi_dev \<Rightarrow> midi_message \<Rightarrow> midi_message list" where
  "usbh_copies st d m = input_copies (bmvports (inmap st d) ! unat (port m)) m"

lemma port_less_16: "unat (port m) < 16"
proof -
  have "unat (port m) = unat (ph m) div 16" by (simp add: port_def unat_nibble)
  then show ?thesis using unat_u8 [of "ph m"] by (simp add: div_less_iff_less_mult)
qed

lemma usbh_dispatch_all:
  assumes "fifo_inv (minbuf st)" and "length (bmvports (inmap st d)) = 16"
  shows "\<exists>st'. sfold (usbh_midi_dispatch d) ms st = Inr st' \<and>
    received st st' (concat (map (usbh_copies st d) ms))"
  using assms
proof (induction ms arbitrary: st)
  case Nil
  then show ?case by (simp add: received_nothing)
next
  case (Cons m ms)
  let ?st = "midi_input_dispatch (bmvports (inmap st d) ! unat (port m)) m st"
  have r: "received st ?st (usbh_copies st d m)"
    using midi_input_dispatch_received [OF Cons.prems(1)] by (simp add: usbh_copies_def)
  have step: "usbh_midi_dispatch d m st = Inr ?st"
    using Cons.prems(2) port_less_16 by (simp add: usbh_midi_dispatch_def)
  have im: "inmap ?st = inmap st" "fifo_inv (minbuf ?st)" using r by (simp_all add: received_def)
  moreover have "usbh_copies ?st d = usbh_copies st d" by (rule ext) (simp add: usbh_copies_def im)
  ultimately obtain st' where "sfold (usbh_midi_dispatch d) ms ?st = Inr st'"
    "received ?st st' (concat (map (usbh_copies st d) ms))"
    using Cons.IH [of ?st] Cons.prems(2) by auto
  with step received_trans [OF r this(2)] show ?case by auto
qed

lemma bytes_words_prefix: "take (length ws) (bytes_words (words_bytes ws @ rest)) = ws"
  by (induction ws) (simp_all add: words_bytes_def le32_bytes_def)

lemma words_prefix_length: "length ws \<le> length (bytes_words (words_bytes ws @ rest))"
  by (induction ws) (simp_all add: words_bytes_def le32_bytes_def)

lemma transfer_prefix:
  assumes "fifo_inv (minbuf st)" and "length (bmvports (inmap st d)) = 16"
  shows "\<exists>st'. usbhmidi_cb d (bytes_words (words_bytes ws @ rest)) (int (4 * length ws) div 4) st = Inr st' \<and>
    queued (minbuf st') = take 31 (queued (minbuf st) @
      concat (map (usbh_copies st d) (map msg_of_word (takeWhile (\<lambda>w. w \<noteq> 0) ws))))"
  using usbh_dispatch_all [OF assms, of "map msg_of_word (takeWhile (\<lambda>w. w \<noteq> 0) ws)"]
    cb_loop_prefix [of 0 "length ws" "bytes_words (words_bytes ws @ rest)" d st] words_prefix_length [of ws rest]
  by (auto simp: usbhmidi_cb_def received_def bytes_words_prefix)

section \<open>Properties\<close>

text \<open>
  C39: A transfer of a USB MIDI device reaches the patches. When the driver finds its transfer
  finished, the packets in it enter the MIDI input buffer in order, each mapped by the table
  entry of its own port, as far as the buffer has room, and the next transfer is started; but
  only the packets before the first all-zero word: the callback does not step over a zero word,
  so whatever follows it in the transfer is dropped.
\<close>

lemma usb_transfer_delivered:
  assumes "mpData d c" and "input_valid (mmem d)" and "state_in (mmem d) = MIDI_POLL"
    and "urb_of env (InPipe (mmem d)) = URB_DONE" and "rx_of env = words_bytes ws"
    and "xfer_of env (InPipe (mmem d)) = 4 * length ws" and "4 * length ws \<le> length (buff_in (mmem d))"
    and "fifo_inv (minbuf (mstate d))" and "length (bmvports (inmap (mstate d) Usbh1)) = 16"
  shows "\<exists>d'. midi_input_step fs_ready open_read c env (h, d) =
      Inr (USBH_BulkReceiveData BUF_XFER (InEpSize (mmem d)) (InPipe (mmem d)) h, d') \<and>
    state_in (mmem d') = MIDI_POLL \<and>
    queued (minbuf (mstate d')) = take 31 (queued (minbuf (mstate d)) @
      concat (map (usbh_copies (mstate d) Usbh1) (map msg_of_word (takeWhile (\<lambda>w. w \<noteq> 0) ws))))"
proof -
  let ?k = "(mmem d)\<lparr>buff_in := words_bytes ws @ drop (4 * length ws) (buff_in (mmem d))\<rparr>"
  have dma: "buff_dma env (mmem d) = Inr ?k"
    using assms(3-5,7) by (simp add: buff_dma_def length_words_bytes)
  obtain st where st: "usbhmidi_cb Usbh1 (bytes_words (buff_in ?k)) (int (4 * length ws) div 4) (mstate d) = Inr st"
    "queued (minbuf st) = take 31 (queued (minbuf (mstate d)) @
      concat (map (usbh_copies (mstate d) Usbh1) (map msg_of_word (takeWhile (\<lambda>w. w \<noteq> 0) ws))))"
    using transfer_prefix [OF assms(8,9), of ws "drop (4 * length ws) (buff_in (mmem d))"] by auto
  have "USBH_MIDI_ProcessInput fs_ready open_read None (urb_of env (InPipe ?k)) (int (xfer_of env (InPipe ?k)))
      (clr_ok_of env (InEp ?k) h) (Some ?k) (mstate d) =
    Inr (Some (?k\<lparr>state_in := MIDI_POLL\<rparr>), st, [BulkReceive (InEpSize ?k)])"
    using assms(2-4,6) st(1) by (simp add: USBH_MIDI_ProcessInput_def poll_input_def report_words_def)
  then have "midi_input_step fs_ready open_read c env (h, d) =
      Inr (USBH_BulkReceiveData BUF_XFER (InEpSize (mmem d)) (InPipe (mmem d)) h,
        d\<lparr>mmem := ?k\<lparr>state_in := MIDI_POLL\<rparr>, mstate := st\<rparr>)"
    using assms(1-3) dma by (simp add: midi_input_step_def midi_pH_def isValidInput_def product_name_def)
  then show ?thesis using st(2) by (intro exI [of _ "d\<lparr>mmem := ?k\<lparr>state_in := MIDI_POLL\<rparr>, mstate := st\<rparr>"]) simp
qed

text \<open>
  As long as the device completes every transfer, the transmitter of the USB host driver
  sends all queued messages, each exactly once and in order, at most four per transfer, and
  eight completions empty a full buffer.
\<close>

lemma usbh_output_in_order:
  assumes "fifo_inv b" and "state_out h = MIDI_SEND_DATA \<or> state_out h = MIDI_POLL" and "8 \<le> n"
  shows "\<exists>h' b'. run_output (replicate n URB_DONE) clr_ok h b =
      (concat (map msg_bytes (queued b)), h', b') \<and> queued b' = []"
proof -
  have "length (queued b) \<le> 4 * n" using assms(3) pending_le_31 [of b] by simp
  then show ?thesis using run_output_done [OF assms(1,2), of n clr_ok] by auto
qed

definition sample_handle :: midi_handle where
  "sample_handle = \<lparr>OutPipe = 1, InPipe = 2, OutEp = 1, InEp = 0x81, OutEpSize = 64, InEpSize = 64,
     state_in = MIDI_INIT, state_out = MIDI_SEND_DATA, input_valid = True, output_valid = True,
     hname = [], buff_in = replicate 64 0, buff_out = replicate 64 0, buff_out_len = 0\<rparr>"

definition sample_midi_drv :: midi_drv where
  "sample_midi_drv = \<lparr>mpData = (\<lambda>_. True), mmem = sample_handle\<lparr>state_in := MIDI_POLL\<rparr>, mname = replicate 64 0,
     mstate = booted\<rparr>"

lemma usb_transfer_delivered_witness:
  "\<exists>d'. midi_input_step False (\<lambda>_. None) MIDI_Class
      \<lparr>urb_of = (\<lambda>_. URB_DONE), xfer_of = (\<lambda>_. 12), rx_of = words_bytes [0x643C9009, 0, 0x003C8008], hcd_speed = 1\<rparr>
      (hUSBHost, sample_midi_drv) = Inr (USBH_BulkReceiveData BUF_XFER 64 2 hUSBHost, d') \<and>
    queued (minbuf (mstate d')) = take 31 (queued (minbuf booted) @
      concat (map (usbh_copies booted Usbh1)
        (map msg_of_word (takeWhile (\<lambda>w. w \<noteq> 0) [0x643C9009, 0, 0x003C8008]))))"
  using usb_transfer_delivered [where d = sample_midi_drv and c = MIDI_Class and h = hUSBHost and fs_ready = False
      and open_read = "\<lambda>_. None" and ws = "[0x643C9009, 0, 0x003C8008]"
      and env = "\<lparr>urb_of = (\<lambda>_. URB_DONE), xfer_of = (\<lambda>_. 12), rx_of = words_bytes [0x643C9009, 0, 0x003C8008], hcd_speed = 1\<rparr>"]
  by (auto simp: sample_midi_drv_def sample_handle_def boot_defs fifo_inv_def)

lemma usbh_output_in_order_witness:
  "\<exists>h' b'. run_output (replicate 8 URB_DONE) True sample_handle zero_output_buffer =
      (concat (map msg_bytes (queued zero_output_buffer)), h', b') \<and> queued b' = []"
  by (rule usbh_output_in_order) (simp_all add: fifo_inv_def zero_output_buffer_def sample_handle_def)

text \<open>
  A transfer the device was not ready for is lost. The messages taken from the queue are
  sent from a local buffer, while the repetition sends buff\_out, which the driver never fills:
  after the refusal nothing is transmitted but an empty transfer, although the messages have
  left the queue.
\<close>

lemma usbh_retry_loses_packet:
  assumes "fifo_inv b" and "state_out h = MIDI_SEND_DATA" and "buff_out_len h = 0"
    and "queued b \<noteq> []" and "length (queued b) \<le> 4"
  shows "\<exists>h1 b1 h2. process_output URB_IDLE clr_ok h b =
        (h1, b1, [BulkSend (concat (map msg_bytes (queued b)))]) \<and> queued b1 = [] \<and>
      process_output URB_NOTREADY clr_ok h1 b1 = (h2, b1, [BulkSend []]) \<and>
      sends (snd (snd (process_output URB_DONE clr_ok h2 b1))) = []"
proof -
  have "midi_output_buffer_get = midi_input_buffer_get"
    by (rule ext) (rule output_get_eq_input_get)
  then obtain b1 where t: "take_upto midi_output_buffer_get 4 b = (queued b, b1)"
    "fifo_inv b1" "queued b1 = []"
    using inq.take_upto_take [OF assms(1), of 4] assms(5) by auto
  let ?h1 = "h\<lparr>state_out := MIDI_POLL\<rparr>"
  have one: "process_output URB_IDLE clr_ok h b =
      (?h1, b1, [BulkSend (concat (map msg_bytes (queued b)))])"
    using assms t by (simp add: process_output_def send_data_def fifo_simps)
  have two: "process_output URB_NOTREADY clr_ok ?h1 b1 = (?h1, b1, [BulkSend []])"
    using assms by (simp add: process_output_def)
  obtain b' acts h' where "send_data URB_DONE (?h1\<lparr>buff_out_len := 0, state_out := MIDI_SEND_DATA\<rparr>) b1 =
      (h', b', acts)" "sends acts = []"
    using send_data_takes [OF t(2), of URB_DONE] t(3) by fastforce
  then have "sends (snd (snd (process_output URB_DONE clr_ok ?h1 b1))) = []"
    by (simp add: process_output_def)
  with one two t(3) show ?thesis by blast
qed

definition one_packet_buffer :: midi_output_buffer where
  "one_packet_buffer = \<lparr>read_index = 0, write_index = 1,
     buf = replicate 32 (mk_msg 0x09 0x90 60 100), notify = None\<rparr>"

lemma usbh_retry_loses_packet_witness:
  "\<exists>h1 b1 h2. process_output URB_IDLE True sample_handle one_packet_buffer =
        (h1, b1, [BulkSend (concat (map msg_bytes (queued one_packet_buffer)))]) \<and> queued b1 = [] \<and>
      process_output URB_NOTREADY True h1 b1 = (h2, b1, [BulkSend []]) \<and>
      sends (snd (snd (process_output URB_DONE True h2 b1))) = []"
proof -
  have "pending one_packet_buffer = 1" by (simp add: pending_def one_packet_buffer_def)
  then show ?thesis
    by (intro usbh_retry_loses_packet)
      (simp_all add: fifo_inv_def one_packet_buffer_def sample_handle_def fifo_simps)
qed

text \<open>
  No output buffer of a USB host device is ever initialised, so its notify pointer is null.
  Once a device with output ports is attached and its default routing is loaded, every message a
  patch sends on virtual port 0 calls that null pointer.
\<close>

lemma usbh_send_calls_null:
  assumes "0 < n" and "n \<le> 16" and "input_valid h" and "state_in h = MIDI_INIT" and "port m = 0"
  shows "\<exists>h' st. USBH_MIDI_ProcessInput False open_read (Some nm) urb k clr_ok (Some h)
        (set_nports_out n (set_nports_in n booted)) = Inr (Some h', st, []) \<and>
    midiSend m st = Inl NullCall"
proof -
  define st0 where "st0 = set_names nm (set_nports_out n (set_nports_in n booted))"
  have "\<exists>i. load_midi_routing False open_read dir_in (inmap st0 Usbh1) = Inr i"
    using load_default [of "inmap st0 Usbh1"] assms(1,2)
    by (simp add: load_midi_routing_def st0_def set_names_def set_nports_out_def set_nports_in_def boot_defs)
  then obtain i where i: "load_midi_routing False open_read dir_in (inmap st0 Usbh1) = Inr i" ..
  obtain bs where o: "load_midi_routing False open_read dir_out (outmap st0 Usbh1) =
      Inr ((outmap st0 Usbh1)\<lparr>bmvports := 1 # bs\<rparr>)" and bs: "nports (outmap st0 Usbh1) = n"
    using load_default [of "outmap st0 Usbh1"] assms(1,2)
    by (simp add: load_midi_routing_def st0_def set_names_def set_nports_out_def set_nports_in_def boot_defs)
  define st where "st = st0\<lparr>inmap := (inmap st0)(Usbh1 := i),
    outmap := (outmap st0)(Usbh1 := (outmap st0 Usbh1)\<lparr>bmvports := 1 # bs\<rparr>)\<rparr>"
  have "load_maps False open_read Usbh1 st0 = Inr st"
    by (simp add: load_maps_def i o st_def)
  then have run: "USBH_MIDI_ProcessInput False open_read (Some nm) urb k clr_ok (Some h)
      (set_nports_out n (set_nports_in n booted)) =
      Inr (Some (h\<lparr>hname := nm, state_in := MIDI_GET_DATA\<rparr>), st, [])"
    using assms(3,4) by (simp add: USBH_MIDI_ProcessInput_def st0_def)
  have maps: "outmap st Din = din_routing" "outmap st Gpio = gpio_routing"
      "nports (outmap st Usbh1) = n" "bmvports (outmap st Usbh1) = 1 # bs"
      "out_inv (outbuf st Din)" "outbuf st Usbh1 = zero_output_buffer"
    using bs
    by (simp_all add: st_def st0_def set_names_def set_nports_out_def set_nports_in_def boot_defs
        out_inv_def fifo_inv_def)
  obtain st1 where 1: "send_first Din 1 m st = Inr st1" and
    s1: "sent st st1 (\<lambda>d'. if d' = Din \<and> bit (bmvports (outmap st Din) ! 0) 0 then [m] else [])"
    using send_first_ready [of st Din 0 m] maps by (auto simp: din_routing_def)
  have out1: "outmap st1 = outmap st" using s1 by (rule sent_outmap)
  have buf1: "outbuf st1 Usbh1 = zero_output_buffer"
    using 1 maps(1,6) by (auto simp: send_first_def din_routing_def out_put_def sbind_eq_Inr)
  have 2: "send_first Gpio 1 m st1 = Inr st1"
    by (simp add: send_first_def out1 maps gpio_routing_def)
  have upt: "[0..<nat n] = 0 # [1..<nat n]" using assms(1) by (simp add: upt_conv_Cons)
  have "send_port Usbh1 1 0 (m, st1) = Inl NullCall"
    by (simp add: send_port_def out1 maps out_put_def buf1 midi_output_buffer_put_def
        zero_output_buffer_def midi_output_buffer_notify_def MIDI_RING_BUFFER_SIZE_def)
  then have "send_ports Usbh1 1 (m, st1) = Inl NullCall"
    by (simp add: send_ports_def out1 maps upt)
  then have "midiSend m st = Inl NullCall"
    using 1 2 assms(5) by (simp add: midiSend_def)
  then show ?thesis using run by blast
qed

lemma usbh_send_calls_null_witness:
  "\<exists>h' st. USBH_MIDI_ProcessInput False (\<lambda>_. None) (Some ''keyboard'') URB_IDLE 0 True (Some sample_handle)
        (set_nports_out 1 (set_nports_in 1 booted)) = Inr (Some h', st, []) \<and>
    midiSend (mk_msg 0x09 0x90 60 100) st = Inl NullCall"
  by (rule usbh_send_calls_null) (simp_all add: sample_handle_def port_def)

end
