(* ===== verification/Usbh_System.thy ===== *)
theory Usbh_System
  imports Usbh_Enum Usbh_Hid Usbh_Midi
begin

text \<open>
  The USB host of the firmware put together: the host state machine with the three class drivers
  it registers (usbh\_vendor.c, usbh\_midi\_core.c, usbh\_hid.c), which driver a device gets, and what
  happens to a MIDI device from the reset of its port on.
\<close>

section \<open>The registered drivers\<close>

record usb_drv =
  mdrv :: midi_drv
  hdrv :: hid_drv

definition on_midi ::
    "(usb_host \<times> midi_drv \<Rightarrow> fault + ('a \<times> usb_host \<times> midi_drv)) \<Rightarrow> usb_host \<times> usb_drv \<Rightarrow> fault + ('a \<times> usb_host \<times> usb_drv)" where
  "on_midi f = (\<lambda>(h, s). sbind (f (h, mdrv s)) (\<lambda>(a, h, d). Inr (a, h, s\<lparr>mdrv := d\<rparr>)))"

definition on_hid ::
    "(usb_host \<times> hid_drv \<Rightarrow> fault + ('a \<times> usb_host \<times> hid_drv)) \<Rightarrow> usb_host \<times> usb_drv \<Rightarrow> fault + ('a \<times> usb_host \<times> usb_drv)" where
  "on_hid f = (\<lambda>(h, s). sbind (f (h, hdrv s)) (\<lambda>(a, h, d). Inr (a, h, s\<lparr>hdrv := d\<rparr>)))"

definition no_result :: "('h \<Rightarrow> fault + 'b) \<Rightarrow> 'h \<Rightarrow> fault + (unit \<times> 'b)" where
  "no_result f h = sbind (f h) (\<lambda>b. Inr ((), b))"

definition drop_result :: "fault + (unit \<times> 'b) \<Rightarrow> fault + 'b" where
  "drop_result r = sbind r (\<lambda>(_, b). Inr b)"

definition midi_class :: "bool \<Rightarrow> (string \<Rightarrow> u8 list option) \<Rightarrow> usb_class \<Rightarrow> usb_drv driver" where
  "midi_class fs_ready open_read c = \<lparr>
     ClassCode = 0x01,
     cl_Init = (\<lambda>env (h, s). map_option (\<lambda>r. on_midi (\<lambda>_. r) (h, s)) (USBH_MIDI_InterfaceInit c (h, mdrv s))),
     cl_DeInit = (\<lambda>s. drop_result (on_midi (no_result (USBH_MIDI_InterfaceDeInit c)) s)),
     cl_Requests = (\<lambda>env. on_midi (\<lambda>s. Inr (USBH_MIDI_ClassRequest s))),
     cl_BgndProcess = (\<lambda>env s. drop_result (on_midi (no_result (USBH_MIDI_Process fs_ready open_read c env)) s)),
     cl_SOFProcess = (\<lambda>s. drop_result (on_midi (no_result (\<lambda>s. Inr (midi_sof c s))) s))\<rparr>"

definition vendor_class :: "bool \<Rightarrow> (string \<Rightarrow> u8 list option) \<Rightarrow> usb_drv driver" where
  "vendor_class fs_ready open_read = (midi_class fs_ready open_read Vendor_Class)\<lparr>
     ClassCode := USB_VENDOR_CLASS_ID,
     cl_Init := (\<lambda>env s. Some (on_midi (USBH_Vendor_InterfaceInit Vendor_Class) s))\<rparr>"

definition hid_class :: "usb_drv driver" where
  "hid_class = \<lparr>
     ClassCode = USB_HID_CLASS,
     cl_Init = (\<lambda>env s. Some (on_hid USBH_HID_InterfaceInit s)),
     cl_DeInit = (\<lambda>s. drop_result (on_hid (no_result USBH_HID_InterfaceDeInit) s)),
     cl_Requests = (\<lambda>env. on_hid (USBH_HID_ClassRequest env)),
     cl_BgndProcess = (\<lambda>env s. drop_result (on_hid (no_result (USBH_HID_Process env)) s)),
     cl_SOFProcess = (\<lambda>s. drop_result (on_hid (no_result USBH_HID_SOFProcess) s))\<rparr>"

definition firmware_drivers :: "bool \<Rightarrow> (string \<Rightarrow> u8 list option) \<Rightarrow> usb_drv drivers" where
  "firmware_drivers fs_ready open_read c = (case c of
     Vendor_Class \<Rightarrow> vendor_class fs_ready open_read
   | MIDI_Class \<Rightarrow> midi_class fs_ready open_read MIDI_Class
   | HID_Class \<Rightarrow> hid_class)"

section \<open>What the drivers leave alone\<close>

definition same_class :: "usb_host \<Rightarrow> usb_host \<Rightarrow> bool" where
  "same_class h h' \<longleftrightarrow> pActiveClass h' = pActiveClass h \<and> pClass h' = pClass h"

lemma same_class_simps [simp]:
  "same_class h h" "same_class h (ll c g) = same_class h g" "same_class h (upd_dev f g) = same_class h g"
  "same_class h (g\<lparr>Pipes := ps\<rparr>) = same_class h g" "same_class h (osMessagePut e g) = same_class h g"
  by (simp_all add: same_class_def ll_def upd_dev_def osMessagePut_def)

lemma same_class_trans: "same_class h g \<Longrightarrow> same_class g k \<Longrightarrow> same_class h k"
  by (simp add: same_class_def)

lemma select_interface_class: "USBH_SelectInterface i h = Inr (st, h') \<Longrightarrow> same_class h h'"
  by (auto simp: USBH_SelectInterface_def sbind_eq_Inr split: if_splits)

lemma open_class_pipe_class: "open_class_pipe ep typ mps h = Inr (p, h') \<Longrightarrow> same_class h h'"
  by (auto simp: open_class_pipe_def alloc_pipe_def USBH_OpenPipe_def sbind_eq_Inr)

lemma open_out_class: "open_out (k, h) = Inr (k', h') \<Longrightarrow> same_class h h'"
  by (auto simp: open_out_def sbind_eq_Inr dest: open_class_pipe_class split: if_splits)

lemma open_in_class: "open_in (k, h) = Inr (k', h') \<Longrightarrow> same_class h h'"
  by (auto simp: open_in_def sbind_eq_Inr dest: open_class_pipe_class split: if_splits)

lemma midi_handle_in_class: "midi_handle_in c (h, d) = (h', d') \<Longrightarrow> same_class h h'"
  by (auto simp: midi_handle_in_def)

lemma midi_init_class:
  assumes "USBH_MIDI_InterfaceInit c (h, d) = Some (Inr (st, h', d'))"
  shows "same_class h h' \<and> (st = USBH_OK \<or> st = USBH_FAIL)"
proof -
  consider (none) "st = USBH_FAIL" "h' = h"
    | (some) h1 h2 d2 k k1 h3 k2 i s0 where "USBH_SelectInterface i h = Inr (s0, h1)"
      "midi_handle_in c (h1, d) = (h2, d2)" "open_out (k, h2) = Inr (k1, h3)" "open_in (k1, h3) = Inr (k2, h')"
      "st = USBH_OK"
    using assms by (auto simp: USBH_MIDI_InterfaceInit_def Let_def sbind_eq_Inr map_option_case
        split: option.splits prod.splits sum.splits)
  then show ?thesis
  proof cases
    case some
    then show ?thesis
      using same_class_trans select_interface_class midi_handle_in_class open_out_class open_in_class by metis
  qed simp
qed

lemma hid_open_eps_class: "hid_open_eps eps i n (h, k) = Inr (h', k') \<Longrightarrow> same_class h h'"
proof (induction n arbitrary: i h k)
  case (Suc n)
  then obtain p h1 k1 where "open_class_pipe (bEndpointAddress (eps ! i)) USBH_EP_INTERRUPT (hlength k) h = Inr (p, h1)"
    "hid_open_eps eps (i + 1) n (h1, k1) = Inr (h', k')"
    by (auto simp: sbind_eq_Inr nth_e_def split: if_splits)
  then show ?case using Suc.IH open_class_pipe_class same_class_trans by blast
qed simp

lemma hid_init_class:
  assumes "USBH_HID_InterfaceInit (h, d) = Inr (st, h', d')"
  shows "same_class h h' \<and> (st = USBH_OK \<or> st = USBH_FAIL)"
  using assms
  by (auto simp: USBH_HID_InterfaceInit_def Let_def sbind_eq_Inr split: if_splits
      dest!: select_interface_class hid_open_eps_class intro: same_class_trans)

lemma virus_hello_class: "same_class h (virus_hello k h)"
  by (simp add: virus_hello_def USBH_BulkSendData_def)

lemma virus_init_class:
  assumes "USBH_Virus_InterfaceInit c (h, d) = Inr (st, h', d')"
  shows "same_class h h' \<and> (st = USBH_OK \<or> st = USBH_FAIL)"
proof -
  consider (none) "st = USBH_FAIL" "h' = h"
    | (some) h1 k k1 h3 k2 s0 where "USBH_SelectInterface 5 h = Inr (s0, h1)"
      "open_out (k, upd_dev (\<lambda>v. v\<lparr>bufs := (bufs v)(BUF_CLASS := mname d)\<rparr>) h1) = Inr (k1, h3)"
      "open_in (k1, virus_hello k1 h3) = Inr (k2, h')" "st = USBH_OK"
    using assms by (auto simp: USBH_Virus_InterfaceInit_def Let_def sbind_eq_Inr midi_handle_in_def split: if_splits)
  then show ?thesis
  proof cases
    case some
    have "same_class h h1" "same_class h1 h3" "same_class h3 (virus_hello k1 h3)" "same_class (virus_hello k1 h3) h'"
      using select_interface_class [OF some(1)] open_out_class [OF some(2)] virus_hello_class open_in_class [OF some(3)]
      by (simp_all add: same_class_def upd_dev_def)
    then show ?thesis using some(4) by (simp add: same_class_def)
  qed simp
qed

section \<open>The choice of the driver\<close>

definition has_class :: "u8 \<Rightarrow> usb_host \<Rightarrow> bool" where
  "has_class code h \<longleftrightarrow> (\<exists>j<unat (bNumInterfaces (CfgDesc (device h))).
     bInterfaceClass (Itf_Desc (CfgDesc (device h)) ! j) = code)"

definition is_virus :: "usb_host \<Rightarrow> bool" where
  "is_virus h \<longleftrightarrow> idVendor (DevDesc (device h)) = USB_ACCESS_VID \<and> idProduct (DevDesc (device h)) = USB_VIRUS_PID"

text \<open>The driver is started; when it reports success its requests follow, and otherwise the host stops.\<close>

definition start_class ::
    "usb_drv drivers \<Rightarrow> ll_env \<Rightarrow> usb_class \<Rightarrow> usb_host \<times> usb_drv \<Rightarrow> (fault + (usb_host \<times> usb_drv)) option" where
  "start_class drv env c = (\<lambda>(h, s).
     map_option (\<lambda>r. sbind r (\<lambda>(st, h, s). Inr (osMessagePut USBH_STATE_CHANGED_EVENT
         (if st = USBH_OK then ll (UserCall HOST_USER_CLASS_SELECTED) (h\<lparr>gState := HOST_CLASS_REQUEST\<rparr>)
          else h\<lparr>gState := HOST_ABORT_STATE\<rparr>), s)))
       (cl_Init (drv c) env (h\<lparr>pActiveClass := Some c\<rparr>, s)))"

lemma has_itf_ok:
  "i + n \<le> length itfs \<Longrightarrow> has_itf code itfs i n = Inr (\<exists>j<n. bInterfaceClass (itfs ! (i + j)) = code)"
proof (induction n arbitrary: i)
  case (Suc n)
  have "(\<exists>j<Suc n. bInterfaceClass (itfs ! (i + j)) = code) \<longleftrightarrow>
      bInterfaceClass (itfs ! i) = code \<or> (\<exists>j<n. bInterfaceClass (itfs ! (i + 1 + j)) = code)"
    by (auto simp: less_Suc_eq_0_disj)
  then show ?case using Suc by auto
qed simp

text \<open>What a started driver answers: never that it does not support the device.\<close>

definition settles :: "usb_drv drivers \<Rightarrow> ll_env \<Rightarrow> usb_class \<Rightarrow> usb_host \<times> usb_drv \<Rightarrow> bool" where
  "settles drv env c hs \<longleftrightarrow> (\<forall>st h' s'.
     cl_Init (drv c) env ((fst hs)\<lparr>pActiveClass := Some c\<rparr>, snd hs) = Some (Inr (st, h', s')) \<longrightarrow>
       st \<noteq> USBH_NOT_SUPPORTED \<and> pActiveClass h' = Some c)"

lemma midi_settles: "settles (firmware_drivers fs op) env MIDI_Class (h, s)"
  by (auto simp: settles_def firmware_drivers_def midi_class_def on_midi_def sbind_eq_Inr
      dest!: midi_init_class simp: same_class_def)

lemma hid_settles: "settles (firmware_drivers fs op) env HID_Class (h, s)"
  by (auto simp: settles_def firmware_drivers_def hid_class_def on_hid_def sbind_eq_Inr
      dest!: hid_init_class simp: same_class_def)

lemma virus_settles: "is_virus h \<Longrightarrow> settles (firmware_drivers fs op) env Vendor_Class (h, s)"
  by (auto simp: settles_def firmware_drivers_def vendor_class_def on_midi_def sbind_eq_Inr is_virus_def
      USBH_Vendor_InterfaceInit_def dest!: virus_init_class simp: same_class_def)

lemma class_codes [simp]:
  "ClassCode (firmware_drivers fs op Vendor_Class) = 0xFF" "ClassCode (firmware_drivers fs op MIDI_Class) = 0x01"
  "ClassCode (firmware_drivers fs op HID_Class) = 0x03"
  by (simp_all add: firmware_drivers_def vendor_class_def midi_class_def hid_class_def USB_VENDOR_CLASS_ID_def
      USB_HID_CLASS_def)

lemma driver_chosen_aux:
  assumes "pClass h = [Vendor_Class, MIDI_Class, HID_Class]"
    and "unat (bNumInterfaces (CfgDesc (device h))) \<le> length (Itf_Desc (CfgDesc (device h)))"
  shows "check_class (firmware_drivers fs op) env (h, s) =
    (if has_class 0xFF h \<and> is_virus h then start_class (firmware_drivers fs op) env Vendor_Class (h, s)
     else if has_class 0x01 h then start_class (firmware_drivers fs op) env MIDI_Class (h, s)
     else if has_class 0x03 h then start_class (firmware_drivers fs op) env HID_Class (h, s)
     else Some (Inr (osMessagePut USBH_STATE_CHANGED_EVENT
       (h\<lparr>pActiveClass := None, gState := HOST_ABORT_STATE\<rparr>), s)))"
proof -
  let ?drv = "firmware_drivers fs op" and ?h = "h\<lparr>pActiveClass := None\<rparr>"
  have itf: "has_itf code (Itf_Desc (CfgDesc (device h))) 0 (unat (bNumInterfaces (CfgDesc (device h)))) =
      Inr (has_class code h)" for code
    using has_itf_ok [of 0 _ "Itf_Desc (CfgDesc (device h))"] assms(2) by (simp add: has_class_def)
  have start: "(case try_classes ?drv env (c # cs) st (?h, s) of
        None \<Rightarrow> None | Some (Inl e) \<Rightarrow> Some (Inl e)
      | Some (Inr (st, h, s)) \<Rightarrow>
          if pActiveClass h = None \<and> length (pClass h) < USBH_MAX_NUM_SUPPORTED_CLASS then Some (Inl Dangling)
          else Some (Inr (osMessagePut USBH_STATE_CHANGED_EVENT
            (if pActiveClass h \<noteq> None \<and> st = USBH_OK
             then ll (UserCall HOST_USER_CLASS_SELECTED) (h\<lparr>gState := HOST_CLASS_REQUEST\<rparr>)
             else h\<lparr>gState := HOST_ABORT_STATE\<rparr>), s))) = start_class ?drv env c (h, s)"
    if "has_class (ClassCode (?drv c)) h" "settles ?drv env c (h, s)" for c cs st
    using that itf [of "ClassCode (?drv c)"]
    by (auto simp: start_class_def settles_def split: option.split sum.split prod.split)
  have vendor: "cl_Init (?drv Vendor_Class) env (g, s) = Some (Inr (USBH_NOT_SUPPORTED, g, s))" if "\<not> is_virus g" for g
    using that by (auto simp: firmware_drivers_def vendor_class_def on_midi_def USBH_Vendor_InterfaceInit_def is_virus_def)
  have v: "try_classes ?drv env (Vendor_Class # cs) USBH_NOT_SUPPORTED (?h, s) =
      try_classes ?drv env cs USBH_NOT_SUPPORTED (?h, s)" if "\<not> (has_class 0xFF h \<and> is_virus h)" for cs
  proof (cases "has_class 0xFF h")
    case True
    then have "\<not> is_virus (h\<lparr>pActiveClass := Some Vendor_Class\<rparr>)" using that by (simp add: is_virus_def)
    then show ?thesis using True itf [of "0xFF"] by (simp add: vendor)
  qed (use itf [of "0xFF"] in simp)
  show ?thesis
  proof (cases "has_class 0xFF h \<and> is_virus h")
    case True
    then show ?thesis using start [OF _ virus_settles] assms(1) by (simp add: check_class_def)
  next
    case nv: False
    then have nv': "(has_class 0xFF h \<and> is_virus h) = False" by blast
    show ?thesis
    proof (cases "has_class 0x01 h")
      case True
      then show ?thesis
        unfolding nv' if_False using start [OF _ midi_settles] assms(1) v [OF nv] by (simp add: check_class_def del: try_classes.simps)
    next
      case na: False
      then have a: "try_classes ?drv env (MIDI_Class # cs) st (?h, s) = try_classes ?drv env cs st (?h, s)" for cs st
        using itf [of 1] by simp
      show ?thesis
      proof (cases "has_class 0x03 h")
        case True
        then show ?thesis
          unfolding nv' if_False using start [OF _ hid_settles] assms(1) na v [OF nv] a by (simp add: check_class_def del: try_classes.simps)
      next
        case False
        then have "try_classes ?drv env [HID_Class] st (?h, s) = Some (Inr (st, ?h, s))" for st
          using itf [of 3] by simp
        then show ?thesis
          unfolding nv' if_False using assms(1) na False v [OF nv] a
          by (simp add: check_class_def USBH_MAX_NUM_SUPPORTED_CLASS_def del: try_classes.simps)
      qed
    qed
  qed
qed

text \<open>
  C37: Which driver a device gets depends on its interfaces alone and on the order of the table: an
  Access Virus with an interface of the vendor class gets the vendor driver, otherwise an audio
  device gets the MIDI driver, otherwise a HID device the HID driver, and any other device none.
  The first driver tried settles the matter: when it fails to start, the host stops for this
  device, and no other driver is tried.
\<close>

lemma driver_chosen:
  assumes "pClass h = [Vendor_Class, MIDI_Class, HID_Class]"
    and "unat (bNumInterfaces (CfgDesc (device h))) \<le> length (Itf_Desc (CfgDesc (device h)))"
  shows "check_class (firmware_drivers fs op) env (h, s) =
    (if has_class 0xFF h \<and> is_virus h then start_class (firmware_drivers fs op) env Vendor_Class (h, s)
     else if has_class 0x01 h then start_class (firmware_drivers fs op) env MIDI_Class (h, s)
     else if has_class 0x03 h then start_class (firmware_drivers fs op) env HID_Class (h, s)
     else Some (Inr (osMessagePut USBH_STATE_CHANGED_EVENT
       (h\<lparr>pActiveClass := None, gState := HOST_ABORT_STATE\<rparr>), s)))"
  by (rule driver_chosen_aux [OF assms])

section \<open>A MIDI device comes up\<close>

definition is_in :: "ep_desc \<Rightarrow> bool" where
  "is_in ep \<longleftrightarrow> bEndpointAddress ep AND 0x80 \<noteq> 0"

text \<open>The endpoints a handle takes from a list: the first input and the first output.\<close>

definition takes_eps :: "ep_desc list \<Rightarrow> midi_handle \<Rightarrow> midi_handle \<Rightarrow> bool" where
  "takes_eps eps k k' \<longleftrightarrow>
     (input_valid k' \<longleftrightarrow> input_valid k \<or> find is_in eps \<noteq> None) \<and>
     (output_valid k' \<longleftrightarrow> output_valid k \<or> find (\<lambda>ep. \<not> is_in ep) eps \<noteq> None) \<and>
     InEp k' = (if input_valid k then InEp k else case find is_in eps of None \<Rightarrow> InEp k | Some ep \<Rightarrow> bEndpointAddress ep) \<and>
     OutEp k' = (if output_valid k then OutEp k
       else case find (\<lambda>ep. \<not> is_in ep) eps of None \<Rightarrow> OutEp k | Some ep \<Rightarrow> bEndpointAddress ep) \<and>
     state_in k' = state_in k \<and> state_out k' = state_out k"

lemma choose_eps_takes:
  assumes "\<forall>j<length eps. \<exists>n. ep_nports raw intf (i + j) = Some (Inr n)"
  shows "\<exists>k' st'. choose_eps raw intf i eps (k, st) = Some (Inr (k', st')) \<and> takes_eps eps k k'"
  using assms
proof (induction eps arbitrary: i k st)
  case Nil
  then show ?case by (simp add: takes_eps_def)
next
  case (Cons ep eps)
  show ?case
  proof (cases "input_valid k \<and> output_valid k")
    case True
    then show ?thesis by (simp add: takes_eps_def)
  next
    case False
    obtain n where n: "ep_nports raw intf i = Some (Inr n)" using Cons.prems by fastforce
    have "\<exists>k1 st1. choose_ep raw intf i ep (k, st) = Some (Inr (k1, st1)) \<and> takes_eps [ep] k k1"
      using n by (cases "is_in ep"; cases "input_valid k"; cases "output_valid k")
        (simp_all add: choose_ep_def Let_def takes_eps_def is_in_def)
    then obtain k1 st1 where 1: "choose_ep raw intf i ep (k, st) = Some (Inr (k1, st1))" "takes_eps [ep] k k1"
      by blast
    have "\<forall>j<length eps. \<exists>n. ep_nports raw intf (i + 1 + j) = Some (Inr n)"
      using Cons.prems by (metis add.assoc length_Cons not_less_eq plus_1_eq_Suc)
    then obtain k2 st2 where 2: "choose_eps raw intf (i + 1) eps (k1, st1) = Some (Inr (k2, st2))" "takes_eps eps k1 k2"
      using Cons.IH by blast
    have "takes_eps (ep # eps) k k2"
      using 1(2) 2(2) by (auto simp: takes_eps_def split: if_splits)
    then show ?thesis using 1(1) 2(1) False by auto
  qed
qed

lemma find_midi_itf_Some:
  "find_midi_itf j xs = Some (i, itf) \<Longrightarrow> j \<le> i \<and> i < j + length xs \<and> itf = xs ! (i - j)"
proof (induction xs arbitrary: j)
  case (Cons x xs)
  then show ?case by (fastforce split: if_splits simp: nth_Cons')
qed simp

lemma open_class_pipe_ok:
  assumes "length (Pipes h) = USBH_MAX_PIPES_NBR"
  obtains p h' where "open_class_pipe ep typ mps h = Inr (p, h')" and "length (Pipes h') = USBH_MAX_PIPES_NBR"
    and "gState h' = gState h" and "os_events h' = os_events h" and "device h' = device h"
proof -
  obtain p ps where "alloc_pipe ep h = Inr (p, h\<lparr>Pipes := ps\<rparr>)" "length ps = USBH_MAX_PIPES_NBR"
    using alloc_ok [OF assms] by blast
  then show ?thesis
    by (intro that [of p "ll (LL_SetToggle p 0) (USBH_OpenPipe p ep (dev_address (device h)) (speed (device h)) typ mps
        (h\<lparr>Pipes := ps\<rparr>))"]) (simp_all add: open_class_pipe_def USBH_OpenPipe_def ll_def)
qed

lemma open_out_ok:
  assumes "length (Pipes h) = USBH_MAX_PIPES_NBR"
  obtains p h' where "open_out (k, h) = Inr (k\<lparr>OutPipe := p\<rparr>, h')" and "length (Pipes h') = USBH_MAX_PIPES_NBR"
    and "gState h' = gState h" and "os_events h' = os_events h" and "device h' = device h"
proof (cases "output_valid k")
  case True
  obtain p h' where "open_class_pipe (OutEp k) USBH_EP_BULK (OutEpSize k) h = Inr (p, h')"
    "length (Pipes h') = USBH_MAX_PIPES_NBR" "gState h' = gState h" "os_events h' = os_events h" "device h' = device h"
    by (rule open_class_pipe_ok [OF assms])
  then show ?thesis using True by (intro that [of p h']) (simp_all add: open_out_def)
next
  case False
  then show ?thesis using assms by (intro that [of "OutPipe k" h]) (simp_all add: open_out_def)
qed

lemma open_in_ok:
  assumes "length (Pipes h) = USBH_MAX_PIPES_NBR"
  obtains p h' where "open_in (k, h) = Inr (k\<lparr>InPipe := p\<rparr>, h')" and "length (Pipes h') = USBH_MAX_PIPES_NBR"
    and "gState h' = gState h" and "os_events h' = os_events h" and "device h' = device h"
proof (cases "input_valid k")
  case True
  obtain p h' where "open_class_pipe (InEp k) USBH_EP_BULK (InEpSize k) h = Inr (p, h')"
    "length (Pipes h') = USBH_MAX_PIPES_NBR" "gState h' = gState h" "os_events h' = os_events h" "device h' = device h"
    by (rule open_class_pipe_ok [OF assms])
  then show ?thesis using True by (intro that [of p h']) (simp_all add: open_in_def)
next
  case False
  then show ?thesis using assms by (intro that [of "InPipe k" h]) (simp_all add: open_in_def)
qed

definition midi_itf :: "cfg_desc \<Rightarrow> (nat \<times> itf_desc) option" where
  "midi_itf cfg = find_midi_itf 0 (take USBH_MAX_NUM_INTERFACES (take (unat (bNumInterfaces cfg)) (Itf_Desc cfg)))"

definition used_eps :: "itf_desc \<Rightarrow> ep_desc list" where
  "used_eps itf = take (min (unat (bNumEndpoints itf)) USBH_MAX_NUM_ENDPOINTS) (Ep_Desc itf)"

text \<open>The driver has taken its endpoints, and will ask for the name of the device next.\<close>

definition midi_attached :: "usb_class \<Rightarrow> itf_desc \<Rightarrow> midi_drv \<Rightarrow> bool" where
  "midi_attached c itf d \<longleftrightarrow> mpData d c \<and> state_in (mmem d) = MIDI_INIT \<and> state_out (mmem d) = MIDI_INIT \<and>
     (input_valid (mmem d) \<longleftrightarrow> find is_in (used_eps itf) \<noteq> None) \<and>
     (output_valid (mmem d) \<longleftrightarrow> find (\<lambda>ep. \<not> is_in ep) (used_eps itf) \<noteq> None) \<and>
     (\<forall>ep. find is_in (used_eps itf) = Some ep \<longrightarrow> InEp (mmem d) = bEndpointAddress ep) \<and>
     (\<forall>ep. find (\<lambda>ep. \<not> is_in ep) (used_eps itf) = Some ep \<longrightarrow> OutEp (mmem d) = bEndpointAddress ep)"

lemma midi_init_ok:
  assumes "midi_itf (CfgDesc (device h)) = Some (i, itf)" and "length (Pipes h) = USBH_MAX_PIPES_NBR"
    and "\<forall>j<6. \<exists>n. ep_nports (bufs (device h) BUF_RAW) i j = Some (Inr n)"
  shows "\<exists>h' d'. USBH_MIDI_InterfaceInit c (h, d) = Some (Inr (USBH_OK, h', d')) \<and> midi_attached c itf d' \<and>
    gState h' = gState h \<and> os_events h' = os_events h \<and> current_interface (device h') = of_nat i"
proof -
  let ?cfg = "CfgDesc (device h)" and ?i = "of_nat i :: u8"
  have f: "i < USBH_MAX_NUM_INTERFACES" "i < unat (bNumInterfaces ?cfg)" "i < length (Itf_Desc ?cfg)"
    using find_midi_itf_Some [OF assms(1) [unfolded midi_itf_def]] by auto
  then have i: "unat ?i = i" by (simp add: unat_of_nat usb_codes)
  define h1 where "h1 = upd_dev (\<lambda>v. v\<lparr>current_interface := ?i\<rparr>) h"
  have sel: "USBH_SelectInterface ?i h = Inr (USBH_OK, h1)"
    using f i by (simp add: USBH_SelectInterface_def word_less_nat_alt h1_def)
  obtain h2 d2 where in_: "midi_handle_in c (h1, d) = (h2, d2)" by (cases "midi_handle_in c (h1, d)")
  have h2: "length (Pipes h2) = USBH_MAX_PIPES_NBR" "gState h2 = gState h" "os_events h2 = os_events h"
    "bufs (device h2) BUF_RAW = bufs (device h) BUF_RAW" "current_interface (device h2) = ?i"
    using in_ assms(2) by (auto simp: midi_handle_in_def h1_def upd_dev_def)
  have d2: "mpData d2 c" "state_in (mmem d2) = MIDI_INIT" "state_out (mmem d2) = MIDI_INIT"
    "\<not> input_valid (mmem d2)" "\<not> output_valid (mmem d2)" using in_ by (auto simp: midi_handle_in_def)
  obtain k st where k: "choose_eps (bufs (device h2) BUF_RAW) i 0 (used_eps itf) (mmem d2, mstate d2) = Some (Inr (k, st))"
    "takes_eps (used_eps itf) (mmem d2) k"
    using choose_eps_takes [of "used_eps itf" "bufs (device h2) BUF_RAW" i 0 "mmem d2" "mstate d2"] assms(3)
    by (auto simp: h2(4) used_eps_def usb_codes)
  obtain p h3 where o: "open_out (k, h2) = Inr (k\<lparr>OutPipe := p\<rparr>, h3)" "length (Pipes h3) = USBH_MAX_PIPES_NBR"
    "gState h3 = gState h2" "os_events h3 = os_events h2" "device h3 = device h2" by (rule open_out_ok [OF h2(1)])
  obtain q h4 where n: "open_in (k\<lparr>OutPipe := p\<rparr>, h3) = Inr (k\<lparr>OutPipe := p, InPipe := q\<rparr>, h4)"
    "gState h4 = gState h3" "os_events h4 = os_events h3" "device h4 = device h3"
    using open_in_ok [OF o(2), of "k\<lparr>OutPipe := p\<rparr>"] by metis
  let ?d = "d2\<lparr>mmem := k\<lparr>OutPipe := p, InPipe := q\<rparr>, mstate := st\<rparr>"
  have "USBH_MIDI_InterfaceInit c (h, d) = Some (Inr (USBH_OK, h4, ?d))"
    using assms(1) [unfolded midi_itf_def] k(1) o(1) n(1)
    by (simp add: USBH_MIDI_InterfaceInit_def Let_def sel in_ used_eps_def)
  moreover have "midi_attached c itf ?d"
    using k(2) d2 by (auto simp: midi_attached_def takes_eps_def split: option.splits)
  ultimately show ?thesis
    using h2 o(3-5) n(2-4) by (intro exI [of _ h4] exI [of _ ?d]) simp
qed

lemma midi_itf_class:
  assumes "midi_itf (CfgDesc (device h)) = Some (i, itf)"
  shows "has_class 0x01 h"
proof -
  have f: "find_midi_itf 0 xs = Some (i, itf) \<Longrightarrow> bInterfaceClass itf = 0x01" for xs and j :: nat
  proof -
    have "find_midi_itf j xs = Some (i, itf) \<Longrightarrow> bInterfaceClass itf = 0x01" for j
      by (induction xs arbitrary: j) (auto split: if_splits)
    then show "find_midi_itf 0 xs = Some (i, itf) \<Longrightarrow> bInterfaceClass itf = 0x01" .
  qed
  show ?thesis
    using find_midi_itf_Some [OF assms [unfolded midi_itf_def]] f [OF assms [unfolded midi_itf_def]]
    by (auto simp: has_class_def intro!: exI [of _ i])
qed

lemma start_midi:
  assumes "midi_itf (CfgDesc (device h)) = Some (i, itf)" and "length (Pipes h) = USBH_MAX_PIPES_NBR"
    and "\<forall>j<6. \<exists>n. ep_nports (bufs (device h) BUF_RAW) i j = Some (Inr n)"
  shows "\<exists>h' s'. start_class (firmware_drivers fs op) env MIDI_Class (h, s) = Some (Inr (h', s')) \<and>
    gState h' = HOST_CLASS_REQUEST \<and> pActiveClass h' = Some MIDI_Class \<and> midi_attached MIDI_Class itf (mdrv s') \<and>
    current_interface (device h') = of_nat i \<and> os_events h' USBH_STATE_CHANGED_EVENT"
proof -
  let ?h = "h\<lparr>pActiveClass := Some MIDI_Class\<rparr>"
  obtain h' d' where 1: "USBH_MIDI_InterfaceInit MIDI_Class (?h, mdrv s) = Some (Inr (USBH_OK, h', d'))"
    "midi_attached MIDI_Class itf d'" "current_interface (device h') = of_nat i"
    using midi_init_ok [of ?h i itf MIDI_Class "mdrv s"] assms by auto
  have "pActiveClass h' = Some MIDI_Class" using midi_init_class [OF 1(1)] by (simp add: same_class_def)
  then show ?thesis
    using 1 by (simp add: start_class_def firmware_drivers_def midi_class_def on_midi_def) (simp add: osMessagePut_def ll_def)
qed

lemma poll_check:
  assumes "gState h = HOST_CHECK_CLASS" and "os_events h USBH_PORT_EVENT"
    and "pClass h = [Vendor_Class, MIDI_Class, HID_Class]"
    and "unat (bNumInterfaces (CfgDesc (device h))) \<le> length (Itf_Desc (CfgDesc (device h)))"
    and "\<not> is_virus h" and "midi_itf (CfgDesc (device h)) = Some (i, itf)" and "length (Pipes h) = USBH_MAX_PIPES_NBR"
    and "\<forall>j<6. \<exists>n. ep_nports (bufs (device h) BUF_RAW) i j = Some (Inr n)"
  shows "\<exists>h' s'. USBH_Process_OS (firmware_drivers fs op) env (h, s) = Some (Inr (h', s')) \<and>
    gState h' = HOST_CLASS_REQUEST \<and> pActiveClass h' = Some MIDI_Class \<and> midi_attached MIDI_Class itf (mdrv s') \<and>
    current_interface (device h') = of_nat i \<and> os_events h' USBH_STATE_CHANGED_EVENT"
proof -
  let ?h = "h\<lparr>os_events := (os_events h)(USBH_PORT_EVENT := False)\<rparr>"
  have "\<not> is_virus ?h" "has_class 0x01 ?h" using assms(5) midi_itf_class [OF assms(6)] by (simp_all add: is_virus_def has_class_def)
  then have "check_class (firmware_drivers fs op) env (?h, s) = start_class (firmware_drivers fs op) env MIDI_Class (?h, s)"
    using driver_chosen_aux [of ?h fs op env s] assms(3,4) by simp
  moreover have "USBH_Process_OS (firmware_drivers fs op) env (h, s) = check_class (firmware_drivers fs op) env (?h, s)"
    using assms(1,2) by (simp add: USBH_Process_OS_def USBH_Process_def chEvtWaitOne_def)
  ultimately show ?thesis using start_midi [of ?h i itf fs op env s] assms(6-8) by simp
qed

lemma poll_requests:
  assumes "gState h = HOST_CLASS_REQUEST" and "pActiveClass h = Some MIDI_Class" and "os_events h USBH_STATE_CHANGED_EVENT"
  shows "\<exists>h'. USBH_Process_OS (firmware_drivers fs op) env (h, s) = Some (Inr (h', s)) \<and> gState h' = HOST_CLASS \<and>
    pActiveClass h' = Some MIDI_Class \<and> device h' = device h"
proof -
  have "chEvtWaitOne (os_events h) \<noteq> None" using assms(3) by (simp add: chEvtWaitOne_def)
  then obtain e where "chEvtWaitOne (os_events h) = Some e" by blast
  then show ?thesis
    using assms by (simp add: USBH_Process_OS_def USBH_Process_def firmware_drivers_def midi_class_def on_midi_def
        USBH_MIDI_ClassRequest_def)
qed


definition sample_itf :: itf_desc where
  "sample_itf = fill_itf ([9, 4, 0, 0, 2, 1, 3, 0, 0], [[7, 5, 1, 2, 64, 0, 0], [7, 5, 0x81, 2, 64, 0, 0]])
     (Itf_Desc zero_cfg ! 0)"

lemma sample_interfaces:
  "interfaces sample_descs =
     [([9, 4, 0, 0, 2, 1, 3, 0, 0], [[7, 5, 1, 2, 64, 0, 0], [7, 5, 0x81, 2, 64, 0, 0]])]"
  by (simp add: interfaces_def sample_descs_def add_desc_def usb_codes)

lemma sample_cfg:
  "bNumInterfaces (cfg_meaning (interfaces sample_descs) (cfg_header sample_hdr zero_cfg)) = 1"
  "Itf_Desc (cfg_meaning (interfaces sample_descs) (cfg_header sample_hdr zero_cfg)) ! 0 = sample_itf"
  by (simp_all add: sample_interfaces cfg_meaning_def cfg_header_def sample_hdr_def itf_table_def sample_itf_def
      zero_cfg_def usb_codes)

lemma sample_midi_itf:
  "midi_itf (cfg_meaning (interfaces sample_descs) (cfg_header sample_hdr zero_cfg)) = Some (0, sample_itf)"
proof -
  let ?l = "Itf_Desc (cfg_meaning (interfaces sample_descs) (cfg_header sample_hdr zero_cfg))"
  have "length ?l = 6" by (simp add: cfg_meaning_def usb_codes)
  then have "take 1 ?l = [?l ! 0]" by (cases ?l) auto
  moreover have "bInterfaceClass sample_itf = 1" "bInterfaceSubClass sample_itf = 3"
    by (simp_all add: sample_itf_def fill_itf_def read_itf_def)
  ultimately show ?thesis unfolding midi_itf_def sample_cfg(1) using sample_cfg(2) by (simp add: usb_codes)
qed

lemma sample_nports: "\<exists>n. ep_nports (sample_hdr @ concat sample_descs @ rest) 0 j = Some (Inr n)"
  by (simp add: ep_nports_def getCSEPDesc_def sample_hdr_def sample_descs_def cs_scan.simps)

definition sample_host :: usb_host where
  "sample_host = hUSBHost\<lparr>gState := HOST_DEV_ATTACHED, RequestState := CMD_SEND,
     pClass := [Vendor_Class, MIDI_Class, HID_Class], os_events := (\<lambda>_. True)\<rparr>"

lemma sample_fresh: "fresh sample_host"
  by (simp add: sample_host_def fresh_def hUSBHost_def USBH_MAX_PIPES_NBR_def cfg_sized_def zero_cfg_def usb_codes)


lemma driver_chosen_witness:
  "\<forall>s. check_class (firmware_drivers False (\<lambda>_. None)) (report_env []) (sample_host, s) =
    Some (Inr (osMessagePut USBH_STATE_CHANGED_EVENT
       (sample_host\<lparr>pActiveClass := None, gState := HOST_ABORT_STATE\<rparr>), s))"
proof
  fix s
  have "\<not> has_class c sample_host" for c by (simp add: has_class_def sample_host_def hUSBHost_def zero_cfg_def)
  then show "check_class (firmware_drivers False (\<lambda>_. None)) (report_env []) (sample_host, s) =
    Some (Inr (osMessagePut USBH_STATE_CHANGED_EVENT
       (sample_host\<lparr>pActiveClass := None, gState := HOST_ABORT_STATE\<rparr>), s))"
    using driver_chosen [of sample_host False "\<lambda>_. None" "report_env []" s]
    by (simp add: sample_host_def hUSBHost_def zero_cfg_def)
qed

section \<open>A HID device that is no mouse and no keyboard\<close>

text \<open>
  A HID device without a boot interface, a game controller say, stops the host with the HID
  driver selected and its data pointer null; unplugging it makes the driver read through this
  pointer.
\<close>

lemma unplug_dereferences_null:
  assumes "pClass h = [Vendor_Class, MIDI_Class, HID_Class]" and "\<not> hpData (hdrv s)"
    and "unat (bNumInterfaces (CfgDesc (device h))) \<le> length (Itf_Desc (CfgDesc (device h)))"
    and "\<not> is_virus h" and "\<not> has_class 0x01 h" and "has_class 0x03 h"
    and "USBH_FindInterface USB_HID_CLASS HID_BOOT_CODE 0xFF h = Inr 0xFF"
  shows "\<exists>h'. check_class (firmware_drivers fs op) env (h, s) = Some (Inr (h', s)) \<and> gState h' = HOST_ABORT_STATE \<and>
    pActiveClass h' = Some HID_Class \<and>
    USBH_Process (firmware_drivers fs op) env (h'\<lparr>gState := HOST_DEV_DISCONNECTED\<rparr>, s) = Some (Inl Dangling)"
proof -
  let ?h = "h\<lparr>pActiveClass := Some HID_Class\<rparr>"
  have "USBH_FindInterface USB_HID_CLASS HID_BOOT_CODE 0xFF ?h = Inr 0xFF"
    using assms(7) by (simp add: USBH_FindInterface_def)
  then have "cl_Init (firmware_drivers fs op HID_Class) env (?h, s) = Some (Inr (USBH_FAIL, ?h, s))"
    by (simp add: firmware_drivers_def hid_class_def on_hid_def USBH_HID_InterfaceInit_def)
  then have "check_class (firmware_drivers fs op) env (h, s) =
      Some (Inr (osMessagePut USBH_STATE_CHANGED_EVENT (?h\<lparr>gState := HOST_ABORT_STATE\<rparr>), s))"
    using driver_chosen_aux [OF assms(1,3), of fs op env s] assms(4-6) by (simp add: start_class_def)
  moreover have "cl_DeInit (firmware_drivers fs op HID_Class) (g, s) = Inl Dangling" for g
    using assms(2) by (simp add: firmware_drivers_def hid_class_def on_hid_def drop_result_def no_result_def
        USBH_HID_InterfaceDeInit_def deref_def)
  ultimately show ?thesis
    by (simp add: USBH_Process_def osMessagePut_def DeInitStateMachine_def upd_dev_def upd_ctl_def)
qed

end
