(* ===== verification/Axo_Math.thy ===== *)
theory Axo_Math
  imports Prelude
begin

text \<open>
  The fixed-point arithmetic of api/axoloti\_math.h: the multiply instructions that keep the
  upper word, the table lookups with linear interpolation for pitch, sine and window, and the
  random generator. The tables are filled at start-up by floating-point library functions, so
  they are arguments here; a lookup outside a table is a fault.
\<close>

definition smmul :: "int \<Rightarrow> int \<Rightarrow> int" where
  "smmul op1 op2 = (op1 * op2) div 2 ^ 32"

definition smmla :: "int \<Rightarrow> int \<Rightarrow> int \<Rightarrow> int" where
  "smmla op1 op2 op3 = wrap32 ((op3 * 2 ^ 32 + op1 * op2) div 2 ^ 32)"

definition smmls :: "int \<Rightarrow> int \<Rightarrow> int \<Rightarrow> int" where
  "smmls op1 op2 op3 = wrap32 ((op3 * 2 ^ 32 - op1 * op2) div 2 ^ 32)"

definition SINE2TSIZE :: nat where "SINE2TSIZE = 4096"
definition WINDOWSIZE :: nat where "WINDOWSIZE = 1024"
definition PITCHTSIZE :: nat where "PITCHTSIZE = 257"

text \<open>A table index is a 32-bit unsigned number; the sums with it wrap around.\<close>

definition table_at :: "int list \<Rightarrow> int \<Rightarrow> fault + int" where
  "table_at t i = nth_e t (nat (i mod 2 ^ 32))"

text \<open>The weights add up to the largest int32\_t.\<close>

definition interp :: "int \<Rightarrow> int \<Rightarrow> int \<Rightarrow> int" where
  "interp y1 y2 pf =
     (let pfc = wrap32 (2 ^ 31 - 1 - pf) in smmla y2 pf (smmul y1 pfc))"

definition mtof48k_sat :: "nat \<Rightarrow> int list \<Rightarrow> int \<Rightarrow> fault + int" where
  "mtof48k_sat sat pitcht pitch =
     (let p = ssat pitch sat; pi = p div 2 ^ 21 in
      sbind (table_at pitcht (128 + pi)) (\<lambda>y1.
      sbind (table_at pitcht (128 + 1 + pi)) (\<lambda>y2.
        let pf = wrap32 ((p mod 2 ^ 21) * 2 ^ 10); r = interp y1 y2 pf
        in Inr ((r * 2) mod 2 ^ 32))))"

definition mtof48k_q31 :: "int list \<Rightarrow> int \<Rightarrow> fault + int" where
  "mtof48k_q31 pitcht pitch = mtof48k_sat 28 pitcht pitch"

definition mtof48k_ext_q31 :: "int list \<Rightarrow> int \<Rightarrow> fault + int" where
  "mtof48k_ext_q31 pitcht pitch = mtof48k_sat 29 pitcht pitch"

definition sin_q31 :: "int list \<Rightarrow> int \<Rightarrow> fault + int" where
  "sin_q31 sine2t phase =
     (let p = phase mod 2 ^ 32; pi = p div 2 ^ 20 in
      sbind (table_at sine2t pi) (\<lambda>y1.
      sbind (table_at sine2t (1 + pi)) (\<lambda>y2.
        let pf = wrap32 ((p mod 2 ^ 20) * 2 ^ 11) in Inr (wrap32 (interp y1 y2 pf * 2)))))"

definition hann_q31 :: "int list \<Rightarrow> int \<Rightarrow> fault + int" where
  "hann_q31 windowt phase =
     (let p = phase mod 2 ^ 32; pi = p div 2 ^ 22 in
      sbind (table_at windowt pi) (\<lambda>y1.
      sbind (table_at windowt (1 + pi)) (\<lambda>y2.
        let pf = wrap32 ((p mod 2 ^ 22) * 2 ^ 9)
        in Inr (wrap32 (interp (wrap32 (y1 * 2 ^ 16)) (wrap32 (y2 * 2 ^ 16)) pf * 2)))))"

definition ConvertIntToFrac :: "int \<Rightarrow> int" where
  "ConvertIntToFrac i = wrap32 (i * 2 ^ 21)"

definition ConvertFracToInt :: "int \<Rightarrow> int" where
  "ConvertFracToInt i = i div 2 ^ 21"

text \<open>One step of the random generator: the seed and the word read from the hardware.\<close>

definition rand_s32 :: "u32 \<Rightarrow> u32 \<Rightarrow> u32" where
  "rand_s32 randSeed hw_random = randSeed * 196314165 + hw_random"

definition ax_rand :: "u32 \<Rightarrow> u32 \<Rightarrow> u32" where
  "ax_rand randSeed hw_random = drop_bit 1 (rand_s32 randSeed hw_random)"

section \<open>Interpolation\<close>

lemma smmla_smmul: "smmla a b (smmul c d) = wrap32 (smmul c d + smmul a b)"
  by (simp add: smmla_def smmul_def)

lemma smmul_bounds: "x * y - 2 ^ 32 < smmul x y * 2 ^ 32 \<and> smmul x y * 2 ^ 32 \<le> x * y"
proof -
  have "x * y = smmul x y * 2 ^ 32 + (x * y) mod 2 ^ 32"
    by (simp add: smmul_def div_mult_mod_eq)
  moreover have "0 \<le> (x * y) mod 2 ^ 32" "(x * y) mod 2 ^ 32 < (2 ^ 32 :: int)" by simp_all
  ultimately show ?thesis by linarith
qed

text \<open>
  Interpolation between nonnegative neighbours stays between their halves, up to the rounding of
  the two products; the doubled value therefore lies between the neighbours, at most 4 below.
\<close>

lemma interp_between:
  assumes "0 \<le> y1" and "y1 \<le> y2" and "y2 < 2 ^ 31" and "0 \<le> pf" and "pf < 2 ^ 31"
  shows "y1 - 5 \<le> 2 * interp y1 y2 pf \<and> 2 * interp y1 y2 pf \<le> y2 \<and> 0 \<le> interp y1 y2 pf"
proof -
  define pfc where "pfc = 2 ^ 31 - 1 - pf"
  have pfc: "0 \<le> pfc" "pfc < 2 ^ 31" using assms by (simp_all add: pfc_def)
  then have "wrap32 pfc = pfc" by (intro wrap32_id) (simp add: int32_def)
  define r where "r = smmul y1 pfc + smmul y2 pf"
  have sum: "y1 * pfc + y2 * pf = y1 * (2 ^ 31 - 1) + (y2 - y1) * pf"
    by (simp add: pfc_def algebra_simps)
  have "(y2 - y1) * pf \<le> (y2 - y1) * (2 ^ 31 - 1)"
    using assms by (intro mult_left_mono) simp_all
  then have up: "y1 * pfc + y2 * pf \<le> y2 * (2 ^ 31 - 1)"
    using sum by (simp add: algebra_simps)
  have lo: "y1 * (2 ^ 31 - 1) \<le> y1 * pfc + y2 * pf"
    using sum assms by simp
  have "r * 2 ^ 32 \<le> y1 * pfc + y2 * pf" "y1 * pfc + y2 * pf - 2 * 2 ^ 32 < r * 2 ^ 32"
    using smmul_bounds [of y1 pfc] smmul_bounds [of y2 pf] by (simp_all add: r_def algebra_simps)
  with up lo have b: "r * 2 ^ 32 \<le> y2 * (2 ^ 31 - 1)" "y1 * (2 ^ 31 - 1) - 2 * 2 ^ 32 < r * 2 ^ 32"
    by linarith+
  have r_up: "2 * r \<le> y2" using b(1) assms by simp
  have r_lo: "y1 - 5 \<le> 2 * r" using b(2) assms by simp
  have "0 \<le> smmul y1 pfc" "0 \<le> smmul y2 pf"
    using assms pfc by (simp_all add: smmul_def pos_imp_zdiv_nonneg_iff)
  then have r0: "0 \<le> r" by (simp add: r_def)
  have "wrap32 r = r" using r0 r_up assms by (intro wrap32_id) (simp add: int32_def)
  moreover have "interp y1 y2 pf = wrap32 r"
    using \<open>wrap32 pfc = pfc\<close> by (simp add: interp_def Let_def smmla_smmul r_def pfc_def)
  ultimately show ?thesis using r0 r_lo r_up by simp
qed

section \<open>Properties\<close>

text \<open>
  The pitch conversion never reads outside its table, whatever 32-bit pitch it is given,
  and for a table of nondecreasing values below 2\^31 the frequency lies between the two
  neighbouring table entries, at most 5 units below the lower one.
\<close>

lemma mtof_ext_interpolates:
  assumes "length pitcht = PITCHTSIZE" and "\<forall>y \<in> set pitcht. 0 \<le> y \<and> y < 2 ^ 31" and "sorted pitcht"
  shows "\<exists>f k. mtof48k_ext_q31 pitcht pitch = Inr f \<and> k = nat (128 + ssat pitch 29 div 2 ^ 21) \<and> k < 256 \<and>
    pitcht ! k - 5 \<le> f \<and> f \<le> pitcht ! (k + 1)"
proof -
  define p where "p = ssat pitch 29"
  have p: "- (2 ^ 28) \<le> p" "p < 2 ^ 28" using ssat_range [of 29 pitch] by (simp_all add: p_def)
  define q where "q = p div 2 ^ 21"
  have q: "- 128 \<le> q" "q < 128"
    using p by (simp_all add: q_def div_less_iff_less_mult less_eq_div_iff_mult_less_eq)
  have i: "(128 + q) mod 2 ^ 32 = 128 + q" "(128 + 1 + q) mod 2 ^ 32 = 128 + 1 + q"
    using q by simp_all
  define k where "k = nat (128 + q)"
  have k: "k < 256" "nat (128 + 1 + q) = k + 1" using q by (auto simp: k_def)
  have len: "length pitcht = 257" using assms(1) by (simp add: PITCHTSIZE_def)
  have at: "table_at pitcht (128 + q) = Inr (pitcht ! k)"
      "table_at pitcht (128 + 1 + q) = Inr (pitcht ! (k + 1))"
    using k len by (simp_all only: table_at_def i) (simp_all add: k_def)
  define m where "m = p mod 2 ^ 21"
  have m: "0 \<le> m" "m < 2 ^ 21" by (simp_all add: m_def)
  then have w: "wrap32 (m * 2 ^ 10) = m * 2 ^ 10" by (intro wrap32_id) (simp add: int32_def)
  define r where "r = interp (pitcht ! k) (pitcht ! (k + 1)) (m * 2 ^ 10)"
  have in_set: "pitcht ! k \<in> set pitcht" "pitcht ! (k + 1) \<in> set pitcht" using k len by simp_all
  have r: "pitcht ! k - 5 \<le> 2 * r" "2 * r \<le> pitcht ! (k + 1)" "0 \<le> r"
    using interp_between [of "pitcht ! k" "pitcht ! (k + 1)" "m * 2 ^ 10"] assms(2) in_set m
      sorted_nth_mono [OF assms(3), of k "k + 1"] k len by (auto simp: r_def)
  have "2 * r < 2 ^ 31" using r(2) assms(2) in_set by fastforce
  then have "(r * 2) mod 2 ^ 32 = 2 * r" using r(3) by simp
  moreover have "mtof48k_ext_q31 pitcht pitch = Inr ((r * 2) mod 2 ^ 32)"
    unfolding mtof48k_ext_q31_def mtof48k_sat_def p_def [symmetric] q_def [symmetric] Let_def
      m_def [symmetric] at w sbind_simps r_def ..
  ultimately show ?thesis using k r by (simp add: k_def q_def p_def)
qed

lemma mtof_ext_interpolates_witness:
  "\<exists>f k. mtof48k_ext_q31 (replicate 257 1000) 12345678 = Inr f \<and>
    k = nat (128 + ssat 12345678 29 div 2 ^ 21) \<and> k < 256 \<and>
    replicate 257 1000 ! k - 5 \<le> f \<and> f \<le> replicate 257 1000 ! (k + 1)"
  by (rule mtof_ext_interpolates) (simp_all add: PITCHTSIZE_def)

end
