(* ===== verification/Parameters.thy ===== *)
theory Parameters
  imports Axo_Math "HOL-Library.Signed_Division"
begin

text \<open>
  Patch parameters (firmware/parameters.c, api/parameters.h, api/parameter\_functions.h) and
  their control by the encoders (ProcessEncoderParameter and the LED display of firmware/ui.c).
  The variants of the union share their first three fields; the last two are the offset and
  multiplier of a fractional parameter and the bounds of an integer one. Values are int32\_t.
\<close>

datatype param_type = param_type_undefined | param_type_frac_uq27 | param_type_frac_sq27
  | param_type_int | param_type_bin_1bit_momentary | param_type_bin_1bit_toggle
  | param_type_bin_16bits | param_type_bin_32bits

text \<open>The parameter functions a patch may install.\<close>

datatype pfunction =
    pf_signed_clamp | pf_unsigned_clamp
  | pf_signed_clamp_fullrange | pf_unsigned_clamp_fullrange
  | pf_signed_clamp_squarelaw | pf_unsigned_clamp_squarelaw
  | pf_signed_clamp_fullrange_squarelaw | pf_unsigned_clamp_fullrange_squarelaw

record parameter =
  ptype :: param_type
  signals :: u16
  pfun :: "pfunction option"
  finalvalue :: int
  pvalue :: int
  modvalue :: int
  minimum :: int
  maximum :: int

section \<open>The parameter functions\<close>

definition pfun_inl_signed_clamp :: "int \<Rightarrow> int" where
  "pfun_inl_signed_clamp v = ssat v 28"

definition pfun_inl_unsigned_clamp :: "int \<Rightarrow> int" where
  "pfun_inl_unsigned_clamp v = usat v 27"

definition pfun_inl_signed_clamp_fullrange :: "int \<Rightarrow> int" where
  "pfun_inl_signed_clamp_fullrange v = wrap32 (ssat v 28 * 2 ^ 4)"

definition pfun_inl_unsigned_clamp_fullrange :: "int \<Rightarrow> int" where
  "pfun_inl_unsigned_clamp_fullrange v = wrap32 (usat v 27 * 2 ^ 4)"

definition pfun_inl_signed_clamp_squarelaw :: "int \<Rightarrow> int" where
  "pfun_inl_signed_clamp_squarelaw v =
     (let psat = wrap32 (ssat v 28 * 2 ^ 4) in
      if psat > 0 then smmul psat psat div 2 ^ 3 else (- smmul psat psat) div 2 ^ 3)"

definition pfun_inl_unsigned_clamp_squarelaw :: "int \<Rightarrow> int" where
  "pfun_inl_unsigned_clamp_squarelaw v =
     (let psat = wrap32 (usat v 27 * 2 ^ 4) in smmul psat psat div 2 ^ 3)"

definition pfun_inl_signed_clamp_fullrange_squarelaw :: "int \<Rightarrow> int" where
  "pfun_inl_signed_clamp_fullrange_squarelaw v =
     (let psat = wrap32 (ssat v 28 * 2 ^ 4) in
      if psat > 0 then wrap32 (smmul psat psat * 2) else wrap32 ((- smmul psat psat) * 2))"

definition pfun_inl_unsigned_clamp_fullrange_squarelaw :: "int \<Rightarrow> int" where
  "pfun_inl_unsigned_clamp_fullrange_squarelaw v =
     (let psat = wrap32 (usat v 27 * 2 ^ 4) in wrap32 (smmul psat psat * 2))"

definition pfun_inl_kexpltime :: "int list \<Rightarrow> int \<Rightarrow> fault + int" where
  "pfun_inl_kexpltime pitcht v =
     sbind (mtof48k_q31 pitcht (wrap32 (- v))) (\<lambda>f. Inr (wrap32 f div 2 ^ 2))"

definition pfun_inl_kexpdtime :: "int list \<Rightarrow> int \<Rightarrow> fault + int" where
  "pfun_inl_kexpdtime pitcht v =
     sbind (mtof48k_q31 pitcht (wrap32 (- v))) (\<lambda>f. Inr (wrap32 (0x7FFFFFFF - wrap32 f div 2 ^ 2)))"

fun pfun_inl :: "pfunction \<Rightarrow> int \<Rightarrow> int" where
  "pfun_inl pf_signed_clamp = pfun_inl_signed_clamp"
| "pfun_inl pf_unsigned_clamp = pfun_inl_unsigned_clamp"
| "pfun_inl pf_signed_clamp_fullrange = pfun_inl_signed_clamp_fullrange"
| "pfun_inl pf_unsigned_clamp_fullrange = pfun_inl_unsigned_clamp_fullrange"
| "pfun_inl pf_signed_clamp_squarelaw = pfun_inl_signed_clamp_squarelaw"
| "pfun_inl pf_unsigned_clamp_squarelaw = pfun_inl_unsigned_clamp_squarelaw"
| "pfun_inl pf_signed_clamp_fullrange_squarelaw = pfun_inl_signed_clamp_fullrange_squarelaw"
| "pfun_inl pf_unsigned_clamp_fullrange_squarelaw = pfun_inl_unsigned_clamp_fullrange_squarelaw"

text \<open>Calling a parameter function.\<close>

definition call_pfun :: "pfunction \<Rightarrow> parameter \<Rightarrow> parameter" where
  "call_pfun f p = p\<lparr>finalvalue := pfun_inl f (modvalue p)\<rparr>"

section \<open>Setting a parameter\<close>

definition set_value :: "parameter \<Rightarrow> int \<Rightarrow> parameter" where
  "set_value param value =
     (case ptype param of
        param_type_frac_sq27 \<Rightarrow>
          let p = param\<lparr>modvalue := wrap32 (modvalue param - pvalue param)\<rparr>; p = p\<lparr>pvalue := value\<rparr>
          in p\<lparr>modvalue := wrap32 (modvalue p + pvalue p)\<rparr>
      | param_type_frac_uq27 \<Rightarrow>
          let p = param\<lparr>modvalue := wrap32 (modvalue param - pvalue param)\<rparr>; p = p\<lparr>pvalue := value\<rparr>
          in p\<lparr>modvalue := wrap32 (modvalue p + pvalue p)\<rparr>
      | param_type_int \<Rightarrow>
          let value = (if value < minimum param then minimum param else value);
              value = (if value > maximum param then maximum param else value)
          in param\<lparr>pvalue := value, modvalue := value\<rparr>
      | _ \<Rightarrow> param\<lparr>pvalue := value, modvalue := value\<rparr>)"

definition parameter_setVal :: "parameter \<Rightarrow> int \<Rightarrow> u32 \<Rightarrow> parameter" where
  "parameter_setVal param value sigs =
     (let p = set_value param value;
          p = p\<lparr>signals := signals p OR ucast sigs\<rparr>
      in case pfun p of Some f \<Rightarrow> call_pfun f p | None \<Rightarrow> p\<lparr>finalvalue := modvalue p\<rparr>)"

section \<open>Encoder and LEDs (ui.c)\<close>

text \<open>The step v of an encoder is an int8\_t.\<close>

definition ProcessEncoderParameter :: "parameter \<Rightarrow> int \<Rightarrow> parameter" where
  "ProcessEncoderParameter p v =
     (case ptype p of
        param_type_bin_1bit_momentary \<Rightarrow> parameter_setVal p (if v > 0 then 1 else 0) 0xFFFFFFFF
      | param_type_bin_1bit_toggle \<Rightarrow> parameter_setVal p (if v > 0 then 1 else 0) 0xFFFFFFFF
      | param_type_int \<Rightarrow> parameter_setVal p (wrap32 (pvalue p + v)) 0xFFFFFFFF
      | param_type_frac_sq27 \<Rightarrow>
          parameter_setVal p (ssat (wrap32 (pvalue p + wrap32 (v * 2 ^ 20))) 28) 0xFFFFFFFF
      | param_type_frac_uq27 \<Rightarrow>
          parameter_setVal p (usat (wrap32 (pvalue p + wrap32 (v * 2 ^ 20))) 27) 0xFFFFFFFF
      | _ \<Rightarrow> p)"

text \<open>The position lit on an encoder ring, None when the ring is cleared.\<close>

definition ShowParameterOnEncoderLEDRing :: "parameter \<Rightarrow> int option" where
  "ShowParameterOnEncoderLEDRing p =
     (case ptype p of
        param_type_bin_1bit_momentary \<Rightarrow> Some (if pvalue p \<noteq> 0 then 15 else 0)
      | param_type_bin_1bit_toggle \<Rightarrow> Some (if pvalue p \<noteq> 0 then 15 else 0)
      | param_type_frac_uq27 \<Rightarrow> Some (usat (pvalue p div 2 ^ 23) 4)
      | param_type_frac_sq27 \<Rightarrow> Some (ssat (pvalue p div 2 ^ 24) 4 + 8)
      | param_type_int \<Rightarrow> if pvalue p \<ge> 0 \<and> pvalue p < 16 then Some (pvalue p) else None
      | _ \<Rightarrow> None)"

definition ShowListPositionOnEncoderLEDRing :: "int \<Rightarrow> int \<Rightarrow> int option" where
  "ShowListPositionOnEncoderLEDRing pos len =
     (if len < 2 then None
      else if pos = 0 then Some 0
      else if pos = len - 1 then Some 15
      else Some (1 + (pos * 14) sdiv (len - 1)))"

section \<open>Ranges of the parameter functions\<close>

lemma wrap32_shift4: "- (2 ^ 27) \<le> x \<Longrightarrow> x < 2 ^ 27 \<Longrightarrow> wrap32 (x * 2 ^ 4) = x * 16"
  using wrap32_id [of "x * 16"] by (simp add: int32_def)

lemma ssat28: "- (2 ^ 27) \<le> ssat v 28 \<and> ssat v 28 < 2 ^ 27"
  using ssat_range [of 28 v] by simp

lemma usat27: "0 \<le> usat v 27 \<and> usat v 27 < 2 ^ 27"
  by (simp add: usat_def Let_def)

lemma smmul_square_16: "smmul (x * 16) (x * 16) = (x * x) div 2 ^ 24"
proof -
  have "(x * 16) * (x * 16) = (x * x) * 2 ^ 8" by simp
  moreover have "((x * x) * 2 ^ 8) div (2 ^ 24 * 2 ^ 8) = (x * x) div (2 ^ 24 :: int)"
    by (rule div_mult_mult2) simp
  ultimately show ?thesis by (simp add: smmul_def)
qed

lemma square_27: "- (2 ^ 27) \<le> x \<Longrightarrow> x \<le> 2 ^ 27 \<Longrightarrow> 0 \<le> x * x \<and> x * x \<le> 2 ^ 54" for x :: int
proof -
  assume a: "- (2 ^ 27) \<le> x" "x \<le> 2 ^ 27"
  then have "\<bar>x\<bar> \<le> 2 ^ 27" by linarith
  then have "\<bar>x\<bar> * \<bar>x\<bar> \<le> 2 ^ 27 * 2 ^ 27" by (intro mult_mono) simp_all
  then show ?thesis by (simp add: abs_mult_self_eq)
qed

lemma square_30: "- (2 ^ 27) \<le> x \<Longrightarrow> x \<le> 2 ^ 27 \<Longrightarrow> 0 \<le> (x * x) div 2 ^ 24 \<and> (x * x) div 2 ^ 24 \<le> 2 ^ 30"
  for x :: int
  using square_27 [of x] zdiv_mono1 [of "x * x" "2 ^ 54" "2 ^ 24"]
  by (simp add: pos_imp_zdiv_nonneg_iff)

text \<open>The signed square law, exact in 30 bits.\<close>

definition sq_law :: "int \<Rightarrow> int" where
  "sq_law s = (if s > 0 then (s * s) div 2 ^ 24 else - ((s * s) div 2 ^ 24))"

lemma sq_law_range:
  assumes "- (2 ^ 27) \<le> s" and "s < 2 ^ 27"
  shows "- (2 ^ 30) \<le> sq_law s \<and> sq_law s < 2 ^ 30"
proof (cases "s > 0")
  case True
  have "s * s \<le> (2 ^ 27 - 1) * (2 ^ 27 - 1)" using True assms by (intro mult_mono) simp_all
  then have "s * s < 2 ^ 30 * 2 ^ 24" by simp
  then have "(s * s) div 2 ^ 24 < 2 ^ 30" by simp
  moreover have "0 \<le> (s * s) div 2 ^ 24" by (simp add: pos_imp_zdiv_nonneg_iff)
  ultimately show ?thesis using True by (simp add: sq_law_def)
next
  case False
  then show ?thesis using square_30 [of s] assms by (simp add: sq_law_def)
qed

lemma sq_law_mono:
  assumes "s \<le> t"
  shows "sq_law s \<le> sq_law t"
proof -
  consider "0 < s" | "s \<le> 0" "0 < t" | "t \<le> 0" by linarith
  then show ?thesis
  proof cases
    case 1
    then have "s * s \<le> t * t" using assms by (intro mult_mono) simp_all
    then show ?thesis using 1 assms by (simp add: sq_law_def zdiv_mono1)
  next
    case 2
    have "0 \<le> (s * s) div 2 ^ 24" "0 \<le> (t * t) div 2 ^ 24" by (simp_all add: pos_imp_zdiv_nonneg_iff)
    then show ?thesis using 2 by (simp add: sq_law_def)
  next
    case 3
    then have "(- t) * (- t) \<le> (- s) * (- s)" using assms by (intro mult_mono) simp_all
    then have "t * t \<le> s * s" by simp
    then show ?thesis using 3 assms by (simp add: sq_law_def zdiv_mono1)
  qed
qed

text \<open>What the functions compute, free of wrap-around.\<close>

lemma pfun_formulas:
  "pfun_inl_signed_clamp_fullrange v = ssat v 28 * 16"
  "pfun_inl_unsigned_clamp_fullrange v = usat v 27 * 16"
  "pfun_inl_signed_clamp_squarelaw v = sq_law (ssat v 28) div 8"
  "pfun_inl_unsigned_clamp_squarelaw v = sq_law (usat v 27) div 8"
  "pfun_inl_signed_clamp_fullrange_squarelaw v = sq_law (ssat v 28) * 2"
  "pfun_inl_unsigned_clamp_fullrange_squarelaw v = sq_law (usat v 27) * 2"
proof -
  have s: "- (2 ^ 27) \<le> ssat v 28" "ssat v 28 < 2 ^ 27" using ssat28 by simp_all
  have u: "- (2 ^ 27) \<le> usat v 27" "usat v 27 < 2 ^ 27" "0 \<le> usat v 27"
    using usat27 [of v] by simp_all
  note ws = wrap32_shift4 [OF s] and wu = wrap32_shift4 [OF u(1,2)]
  have squ: "(usat v 27 * usat v 27) div 2 ^ 24 = sq_law (usat v 27)"
    using u by (cases "usat v 27 = 0") (auto simp: sq_law_def)
  have int: "int32 (sq_law (ssat v 28) * 2)" "int32 (sq_law (usat v 27) * 2)"
    using sq_law_range [OF s] sq_law_range [OF u(1,2)] by (simp_all add: int32_def)
  show "pfun_inl_signed_clamp_fullrange v = ssat v 28 * 16"
    by (simp only: pfun_inl_signed_clamp_fullrange_def ws)
  show "pfun_inl_unsigned_clamp_fullrange v = usat v 27 * 16"
    by (simp only: pfun_inl_unsigned_clamp_fullrange_def wu)
  show "pfun_inl_signed_clamp_squarelaw v = sq_law (ssat v 28) div 8"
    unfolding pfun_inl_signed_clamp_squarelaw_def Let_def ws smmul_square_16
    by (simp add: sq_law_def)
  show "pfun_inl_unsigned_clamp_squarelaw v = sq_law (usat v 27) div 8"
    unfolding pfun_inl_unsigned_clamp_squarelaw_def Let_def wu smmul_square_16 squ by simp
  show "pfun_inl_signed_clamp_fullrange_squarelaw v = sq_law (ssat v 28) * 2"
    using wrap32_id [OF int(1)]
    unfolding pfun_inl_signed_clamp_fullrange_squarelaw_def Let_def ws smmul_square_16
    by (simp add: sq_law_def split: if_splits)
  show "pfun_inl_unsigned_clamp_fullrange_squarelaw v = sq_law (usat v 27) * 2"
    unfolding pfun_inl_unsigned_clamp_fullrange_squarelaw_def Let_def wu smmul_square_16 squ
    using int(2) by (rule wrap32_id)
qed

lemmas pfun_simps = pfun_formulas pfun_inl_signed_clamp_def pfun_inl_unsigned_clamp_def

section \<open>Properties\<close>



text \<open>
  Setting a fractional parameter moves its dial and keeps the modulation: the difference
  between modulated and dial position is the same as before, modulo 2\^32. The change is flagged
  for every listener asked for, in addition to the flags already pending, and the final value is
  the parameter function of the modulated position, or the position itself without one.
\<close>

lemma setVal_keeps_modulation:
  assumes "ptype p = param_type_frac_sq27 \<or> ptype p = param_type_frac_uq27"
  shows "let q = parameter_setVal p v sigs in
    pvalue q = v \<and>
    (modvalue q - pvalue q) mod 2 ^ 32 = (modvalue p - pvalue p) mod 2 ^ 32 \<and>
    int32 (modvalue q) \<and> signals q = signals p OR ucast sigs \<and>
    finalvalue q = (case pfun p of Some f \<Rightarrow> pfun_inl f (modvalue q) | None \<Rightarrow> modvalue q)"
proof -
  have "(wrap32 (wrap32 (modvalue p - pvalue p) + v) - v) mod 2 ^ 32 = (modvalue p - pvalue p) mod 2 ^ 32"
    by (metis wrap32_diff_add wrap32_mod mod_diff_left_eq add_diff_cancel_right')
  then show ?thesis
    using assms
    by (auto simp: parameter_setVal_def set_value_def call_pfun_def Let_def split: option.split)
qed

definition sample_parameter :: parameter where
  "sample_parameter = \<lparr>ptype = param_type_frac_sq27, signals = 0, pfun = Some pf_signed_clamp,
     finalvalue = 0, pvalue = 1000, modvalue = 1500, minimum = 0, maximum = 0\<rparr>"

lemma setVal_keeps_modulation_witness:
  "let q = parameter_setVal sample_parameter 2000 0xFFFFFFFF in
    pvalue q = 2000 \<and>
    (modvalue q - pvalue q) mod 2 ^ 32 = (modvalue sample_parameter - pvalue sample_parameter) mod 2 ^ 32 \<and>
    int32 (modvalue q) \<and> signals q = signals sample_parameter OR ucast (0xFFFFFFFF :: u32) \<and>
    finalvalue q = (case pfun sample_parameter of Some f \<Rightarrow> pfun_inl f (modvalue q) | None \<Rightarrow> modvalue q)"
  by (rule setVal_keeps_modulation) (simp add: sample_parameter_def)

lemma setVal_ptype [simp]: "ptype (parameter_setVal p x s) = ptype p"
  by (auto simp: parameter_setVal_def set_value_def call_pfun_def Let_def
      split: option.split param_type.split)

lemma setVal_bounds [simp]:
  "minimum (parameter_setVal p x s) = minimum p" "maximum (parameter_setVal p x s) = maximum p"
  by (auto simp: parameter_setVal_def set_value_def call_pfun_def Let_def
      split: option.split param_type.split)

lemma setVal_pvalue:
  "pvalue (parameter_setVal p x s) = (if ptype p = param_type_int then
     (let y = (if x < minimum p then minimum p else x) in if y > maximum p then maximum p else y) else x)"
  by (auto simp: parameter_setVal_def set_value_def call_pfun_def Let_def
      split: option.split param_type.split)

lemma encoder_ptype [simp]: "ptype (ProcessEncoderParameter p v) = ptype p"
  by (auto simp: ProcessEncoderParameter_def split: param_type.split)

lemma ring_position:
  "case ShowParameterOnEncoderLEDRing q of None \<Rightarrow> True | Some i \<Rightarrow> 0 \<le> i \<and> i < 16"
  using ssat_range [of 4 "pvalue q div 2 ^ 24"]
  by (auto simp: ShowParameterOnEncoderLEDRing_def usat_def Let_def split: param_type.split)

text \<open>A value that belongs to the type of its parameter.\<close>

definition typed :: "parameter \<Rightarrow> bool" where
  "typed p \<longleftrightarrow> int32 (pvalue p) \<and>
     (case ptype p of
        param_type_int \<Rightarrow> int32 (minimum p) \<and> int32 (maximum p) \<and> minimum p \<le> pvalue p \<and> pvalue p \<le> maximum p
      | param_type_frac_sq27 \<Rightarrow> - (2 ^ 27) \<le> pvalue p \<and> pvalue p < 2 ^ 27
      | param_type_frac_uq27 \<Rightarrow> 0 \<le> pvalue p \<and> pvalue p < 2 ^ 27
      | param_type_bin_1bit_momentary \<Rightarrow> pvalue p = 0 \<or> pvalue p = 1
      | param_type_bin_1bit_toggle \<Rightarrow> pvalue p = 0 \<or> pvalue p = 1
      | _ \<Rightarrow> True)"

lemma sat_int32: "int32 (ssat x 28)" "int32 (usat x 27)"
  using ssat28 [of x] usat27 [of x] by (simp_all add: int32_def)

lemma encoder_typed: "typed p \<Longrightarrow> typed (ProcessEncoderParameter p v)"
  using ssat28 usat27 sat_int32
  by (cases "ptype p") (auto simp: typed_def ProcessEncoderParameter_def setVal_pvalue Let_def int32_def)

text \<open>
  Turning an encoder keeps a parameter in range: an integer parameter between its bounds,
  a signed fractional one in [-2\^27, 2\^27), an unsigned one in [0, 2\^27), a switch at 0 or 1;
  and the LED ring then shows a position between 0 and 15, if any.
\<close>

lemma encoder_keeps_range:
  assumes "minimum p \<le> maximum p" and "int32 (minimum p)" and "int32 (maximum p)"
  shows "let q = ProcessEncoderParameter p v in
    (case ptype p of
       param_type_int \<Rightarrow> minimum p \<le> pvalue q \<and> pvalue q \<le> maximum p
     | param_type_frac_sq27 \<Rightarrow> - (2 ^ 27) \<le> pvalue q \<and> pvalue q < 2 ^ 27
     | param_type_frac_uq27 \<Rightarrow> 0 \<le> pvalue q \<and> pvalue q < 2 ^ 27
     | param_type_bin_1bit_momentary \<Rightarrow> pvalue q = 0 \<or> pvalue q = 1
     | param_type_bin_1bit_toggle \<Rightarrow> pvalue q = 0 \<or> pvalue q = 1
     | _ \<Rightarrow> q = p) \<and>
    (case ShowParameterOnEncoderLEDRing q of None \<Rightarrow> True | Some i \<Rightarrow> 0 \<le> i \<and> i < 16)"
  using ring_position assms ssat28 usat27
  by (cases "ptype p") (auto simp: ProcessEncoderParameter_def setVal_pvalue Let_def)

lemma encoder_keeps_range_witness:
  "let q = ProcessEncoderParameter sample_parameter (-3) in
    (case ptype sample_parameter of
       param_type_int \<Rightarrow> minimum sample_parameter \<le> pvalue q \<and> pvalue q \<le> maximum sample_parameter
     | param_type_frac_sq27 \<Rightarrow> - (2 ^ 27) \<le> pvalue q \<and> pvalue q < 2 ^ 27
     | param_type_frac_uq27 \<Rightarrow> 0 \<le> pvalue q \<and> pvalue q < 2 ^ 27
     | param_type_bin_1bit_momentary \<Rightarrow> pvalue q = 0 \<or> pvalue q = 1
     | param_type_bin_1bit_toggle \<Rightarrow> pvalue q = 0 \<or> pvalue q = 1
     | _ \<Rightarrow> q = sample_parameter) \<and>
    (case ShowParameterOnEncoderLEDRing q of None \<Rightarrow> True | Some i \<Rightarrow> 0 \<le> i \<and> i < 16)"
  by (rule encoder_keeps_range) (simp_all add: sample_parameter_def int32_def)

end
