(* ===== verification/Lcd.thy ===== *)
theory Lcd
  imports Font "HOL-Library.Signed_Division"
begin

text \<open>
  The control surface's frame buffer and LEDs (firmware/axoloti\_control.c, qgfx.c). The display
  has 64 rows of 128 pixels, stored as 8 lines of 128 column bytes; text positions are a line
  and a column in units of two pixels. A drawing function is modelled by the bytes it stores at
  consecutive addresses; a store outside the 1024 bytes of the buffer is a fault. Functions with
  an inverted variant share a definition whose first argument says whether the pixels are
  inverted.
\<close>

definition LCDWIDTH :: int where "LCDWIDTH = 128"
definition LCDHEIGHT :: int where "LCDHEIGHT = 64"
definition LCDROWS :: int where "LCDROWS = 8"

type_synonym lcd = "u8 list"

section \<open>Storing bytes\<close>

fun put_bytes :: "int \<Rightarrow> u8 list \<Rightarrow> lcd \<Rightarrow> fault + lcd" where
  "put_bytes p [] buf = Inr buf"
| "put_bytes p (x # xs) buf =
     (if 0 \<le> p then sbind (upd_e buf (nat p) x) (put_bytes (p + 1) xs) else Inl OutOfBounds)"

definition inv8 :: "bool \<Rightarrow> u8 \<Rightarrow> u8" where
  "inv8 iv x = (if iv then NOT x else x)"

definition LCD_position_to_pointer :: "int \<Rightarrow> int \<Rightarrow> int" where
  "LCD_position_to_pointer half_x line = half_x * 2 + line * LCDWIDTH"

section \<open>Pixels\<close>

definition pixel_outside :: "int \<Rightarrow> int \<Rightarrow> bool" where
  "pixel_outside x y \<longleftrightarrow> x < 0 \<or> x \<ge> LCDWIDTH \<or> y < 0 \<or> y \<ge> LCDHEIGHT"

definition pixel_index :: "int \<Rightarrow> int \<Rightarrow> nat" where
  "pixel_index x y = nat (x + (y div 8) * LCDWIDTH)"

definition LCD_setPixel :: "int \<Rightarrow> int \<Rightarrow> lcd \<Rightarrow> fault + lcd" where
  "LCD_setPixel x y buf =
     (if pixel_outside x y then Inr buf
      else sbind (nth_e buf (pixel_index x y)) (\<lambda>b.
        upd_e buf (pixel_index x y) (set_bit (nat (y mod 8)) b)))"

definition LCD_clearPixel :: "int \<Rightarrow> int \<Rightarrow> lcd \<Rightarrow> fault + lcd" where
  "LCD_clearPixel x y buf =
     (if pixel_outside x y then Inr buf
      else sbind (nth_e buf (pixel_index x y)) (\<lambda>b.
        upd_e buf (pixel_index x y) (unset_bit (nat (y mod 8)) b)))"

definition LCD_drawPixel :: "int \<Rightarrow> int \<Rightarrow> u16 \<Rightarrow> lcd \<Rightarrow> fault + lcd" where
  "LCD_drawPixel x y color buf =
     (if color \<noteq> 0 then LCD_setPixel x y buf else LCD_clearPixel x y buf)"

definition LCD_getPixel :: "int \<Rightarrow> int \<Rightarrow> lcd \<Rightarrow> fault + u8" where
  "LCD_getPixel x y buf =
     (if pixel_outside x y then Inr 0
      else sbind (nth_e buf (pixel_index x y)) (\<lambda>b. Inr (drop_bit (nat (y mod 8)) b AND 1)))"

text \<open>Whole screen: LCDROWS times LCDWIDTH / 4 words are stored.\<close>

definition LCD_clear :: "lcd \<Rightarrow> fault + lcd" where
  "LCD_clear buf =
     sfold (\<lambda>i. put_bytes (int i * LCDWIDTH) (concat (replicate 32 (le32_bytes 0)))) [0..<8] buf"

definition LCD_grey :: "lcd \<Rightarrow> fault + lcd" where
  "LCD_grey buf =
     sfold (\<lambda>i. put_bytes (int i * LCDWIDTH) (concat (replicate 32 (le32_bytes 0xAA55AA55)))) [0..<8] buf"

section \<open>Characters and strings\<close>

definition glyph_bytes :: "bool \<Rightarrow> nat \<Rightarrow> fault + u8 list" where
  "glyph_bytes iv c = sbind (glyph c) (\<lambda>g. Inr (map (inv8 iv) g))"

fun glyphs :: "bool \<Rightarrow> nat list \<Rightarrow> fault + u8 list" where
  "glyphs iv [] = Inr []"
| "glyphs iv (c # cs) =
     sbind (glyph_bytes iv c) (\<lambda>g. sbind (glyphs iv cs) (\<lambda>gs. Inr (g @ gs)))"

definition draw_char :: "bool \<Rightarrow> int \<Rightarrow> int \<Rightarrow> u8 \<Rightarrow> lcd \<Rightarrow> fault + lcd" where
  "draw_char iv half_x line c buf =
     (if half_x < 0 \<or> half_x \<ge> LCDWIDTH - 5 \<or> line < 0 \<or> line \<ge> LCDROWS then Inr buf
      else sbind (glyph_bytes iv (unat c)) (\<lambda>g.
        put_bytes (LCD_position_to_pointer half_x line) g buf))"

definition LCD_drawChar :: "int \<Rightarrow> int \<Rightarrow> u8 \<Rightarrow> lcd \<Rightarrow> fault + lcd" where
  "LCD_drawChar = draw_char False"

definition LCD_drawCharInv :: "int \<Rightarrow> int \<Rightarrow> u8 \<Rightarrow> lcd \<Rightarrow> fault + lcd" where
  "LCD_drawCharInv = draw_char True"

text \<open>A C string is the list of its bytes before the terminating zero.\<close>

fun clip_string :: "int \<Rightarrow> nat list \<Rightarrow> nat list" where
  "clip_string half_x2 [] = []"
| "clip_string half_x2 (c # cs) =
     (let half_x2 = half_x2 - 6 in if half_x2 \<le> 0 then [] else c # clip_string half_x2 cs)"

definition draw_string :: "bool \<Rightarrow> u8 list \<Rightarrow> int \<Rightarrow> int \<Rightarrow> u8 list \<Rightarrow> lcd \<Rightarrow> fault + lcd" where
  "draw_string iv lead half_x line str buf =
     (if line < 0 \<or> line \<ge> LCDROWS \<or> half_x < 0 then Inr buf
      else sbind (glyphs iv (clip_string (LCDWIDTH - half_x) (map unat str))) (\<lambda>gs.
        put_bytes (LCD_position_to_pointer half_x line) (lead @ gs) buf))"

definition LCD_drawString :: "int \<Rightarrow> int \<Rightarrow> u8 list \<Rightarrow> lcd \<Rightarrow> fault + lcd" where
  "LCD_drawString = draw_string False [0x00, 0x00]"

definition LCD_drawStringInv :: "int \<Rightarrow> int \<Rightarrow> u8 list \<Rightarrow> lcd \<Rightarrow> fault + lcd" where
  "LCD_drawStringInv = draw_string True [0x00, 0xFF]"

text \<open>
  The n-character variants pad with blanks. For a negative n and an empty string the padding
  loop counts down from below zero; the callers pass nonnegative widths, so n is a natural number.
\<close>

definition draw_stringN :: "bool \<Rightarrow> int \<Rightarrow> int \<Rightarrow> u8 list \<Rightarrow> nat \<Rightarrow> lcd \<Rightarrow> fault + lcd" where
  "draw_stringN iv half_x line str n buf =
     (if line < 0 \<or> line \<ge> LCDROWS \<or> half_x < 0 then Inr buf
      else
        let cs = map unat (take n str) in
        sbind (glyphs iv cs) (\<lambda>gs.
          put_bytes (LCD_position_to_pointer half_x line)
            (replicate 2 (inv8 iv 0) @ gs @ replicate (6 * (n - length cs)) (inv8 iv 0)) buf))"

definition LCD_drawStringN :: "int \<Rightarrow> int \<Rightarrow> u8 list \<Rightarrow> nat \<Rightarrow> lcd \<Rightarrow> fault + lcd" where
  "LCD_drawStringN = draw_stringN False"

definition LCD_drawStringInvN :: "int \<Rightarrow> int \<Rightarrow> u8 list \<Rightarrow> nat \<Rightarrow> lcd \<Rightarrow> fault + lcd" where
  "LCD_drawStringInvN = draw_stringN True"

section \<open>Numbers\<close>

text \<open>
  The character codes of a decimal number. A digit is converted to unsigned char before it is
  added to the code of 0; leading zeros are blanks (code 32), and a number that does not fit
  shows an overflow text.
\<close>

definition digit_code :: "int \<Rightarrow> nat" where
  "digit_code d = 48 + nat (d mod 256)"

fun digits :: "int list \<Rightarrow> bool \<Rightarrow> int \<Rightarrow> nat list" where
  "digits [] nzero value = [digit_code value]"
| "digits (pw # pws) nzero value =
     (let j = value sdiv pw; nzero = (nzero \<or> j \<noteq> 0) in
      (if nzero then digit_code j else 32) # digits pws nzero (value - j * pw))"

definition sign_abs :: "int \<Rightarrow> nat \<times> int" where
  "sign_abs value = (if value < 0 then (45, wrap32 (- value)) else (32, value))"

definition number_text :: "int list \<Rightarrow> nat list \<Rightarrow> int \<Rightarrow> nat list" where
  "number_text pws ovf value =
     (case sign_abs value of (s, v) \<Rightarrow>
        s # (if v sdiv hd pws < 10 then digits pws False v else ovf))"

definition draw_number :: "int list \<Rightarrow> nat list \<Rightarrow> bool \<Rightarrow> int \<Rightarrow> int \<Rightarrow> int \<Rightarrow> lcd \<Rightarrow> fault + lcd" where
  "draw_number pws ovf iv half_x line value buf =
     sbind (glyphs iv (number_text pws ovf value)) (\<lambda>gs.
       put_bytes (LCD_position_to_pointer half_x line) (gs @ replicate 2 (inv8 iv 0)) buf)"

text \<open>The overflow texts ovr, ovrfl and ovrflow.\<close>

definition ovr :: "nat list" where "ovr = [111, 118, 114]"
definition ovrfl :: "nat list" where "ovrfl = [111, 118, 114, 102, 108]"
definition ovrflow :: "nat list" where "ovrflow = [111, 118, 114, 102, 108, 111, 119]"

definition LCD_drawNumber3D :: "int \<Rightarrow> int \<Rightarrow> int \<Rightarrow> lcd \<Rightarrow> fault + lcd" where
  "LCD_drawNumber3D = draw_number [100, 10] ovr False"

definition LCD_drawNumber3DInv :: "int \<Rightarrow> int \<Rightarrow> int \<Rightarrow> lcd \<Rightarrow> fault + lcd" where
  "LCD_drawNumber3DInv = draw_number [100, 10] ovr True"

definition LCD_drawNumber5D :: "int \<Rightarrow> int \<Rightarrow> int \<Rightarrow> lcd \<Rightarrow> fault + lcd" where
  "LCD_drawNumber5D = draw_number [10000, 1000, 100, 10] ovrfl False"

definition LCD_drawNumber5DInv :: "int \<Rightarrow> int \<Rightarrow> int \<Rightarrow> lcd \<Rightarrow> fault + lcd" where
  "LCD_drawNumber5DInv = draw_number [10000, 1000, 100, 10] ovrfl True"

definition LCD_drawNumber7D :: "int \<Rightarrow> int \<Rightarrow> int \<Rightarrow> lcd \<Rightarrow> fault + lcd" where
  "LCD_drawNumber7D = draw_number [1000000, 100000, 10000, 1000, 100, 10] ovrflow False"

definition LCD_drawNumber7DInv :: "int \<Rightarrow> int \<Rightarrow> int \<Rightarrow> lcd \<Rightarrow> fault + lcd" where
  "LCD_drawNumber7DInv = draw_number [1000000, 100000, 10000, 1000, 100, 10] ovrflow True"

text \<open>Hexadecimal: eight digits, most significant first.\<close>

definition hexchar_from_nibble :: "nat \<Rightarrow> nat" where
  "hexchar_from_nibble x = (if x < 10 then 48 + x else 65 - 10 + x)"

definition hex_text :: "u32 \<Rightarrow> nat list" where
  "hex_text value = map (\<lambda>s. hexchar_from_nibble (unat (drop_bit s value AND 0xF))) [28, 24, 20, 16, 12, 8, 4, 0]"

definition draw_hex32 :: "bool \<Rightarrow> int \<Rightarrow> int \<Rightarrow> u32 \<Rightarrow> lcd \<Rightarrow> fault + lcd" where
  "draw_hex32 iv half_x line value buf =
     (if line < 0 \<or> line \<ge> LCDHEIGHT \<or> half_x < 0 \<or> half_x > LCDWIDTH - 48 then Inr buf
      else sbind (glyphs iv (hex_text value)) (\<lambda>gs.
        put_bytes (LCD_position_to_pointer half_x line) (replicate 2 (inv8 iv 0) @ gs) buf))"

text \<open>
  Fixed point with 21 fractional bits: three integer digits, a point and three decimals. The
  factor of the decimals is 999 in the normal and 1000 in the inverted variant.
\<close>

definition q27_text :: "int \<Rightarrow> int \<Rightarrow> nat list" where
  "q27_text factor value =
     (case sign_abs value of (s, v) \<Rightarrow>
        let value1 = v div 2 ^ 21 in
        s # (if value1 sdiv 100 < 10 then
               digits [100, 10] False value1 @ [46] @
               digits [100, 10] True (((v mod 2 ^ 21) * factor + 0x0100000) div 2 ^ 21)
             else ovrflow))"

definition draw_q27 :: "bool \<Rightarrow> int \<Rightarrow> int \<Rightarrow> int \<Rightarrow> lcd \<Rightarrow> fault + lcd" where
  "draw_q27 iv half_x line value buf =
     sbind (glyphs iv (q27_text (if iv then 1000 else 999) value)) (\<lambda>gs.
       put_bytes (LCD_position_to_pointer half_x line) (replicate 2 (inv8 iv 0) @ gs) buf)"

definition LCD_drawNumberHex32 :: "int \<Rightarrow> int \<Rightarrow> u32 \<Rightarrow> lcd \<Rightarrow> fault + lcd" where
  "LCD_drawNumberHex32 = draw_hex32 False"

definition LCD_drawNumberHex32Inv :: "int \<Rightarrow> int \<Rightarrow> u32 \<Rightarrow> lcd \<Rightarrow> fault + lcd" where
  "LCD_drawNumberHex32Inv = draw_hex32 True"

definition LCD_drawNumberQ27x64 :: "int \<Rightarrow> int \<Rightarrow> int \<Rightarrow> lcd \<Rightarrow> fault + lcd" where
  "LCD_drawNumberQ27x64 = draw_q27 False"

definition LCD_drawNumberQ27x64Inv :: "int \<Rightarrow> int \<Rightarrow> int \<Rightarrow> lcd \<Rightarrow> fault + lcd" where
  "LCD_drawNumberQ27x64Inv = draw_q27 True"

section \<open>Bit fields and bars\<close>

text \<open>value >> i is an arithmetic shift of an int.\<close>

definition vbit :: "int \<Rightarrow> nat \<Rightarrow> bool" where
  "vbit value i \<longleftrightarrow> (value div 2 ^ i) mod 2 = 1"

definition LCD_drawBitField :: "int \<Rightarrow> int \<Rightarrow> int \<Rightarrow> nat \<Rightarrow> lcd \<Rightarrow> fault + lcd" where
  "LCD_drawBitField half_x line value nbits =
     put_bytes (LCD_position_to_pointer half_x line)
       ([0, 0x7E] @ map (\<lambda>i. if vbit value i then 0x5A else 0x42) [0..<nbits] @ [0x7E, 0] @
        replicate (49 - nbits - 4) 0)"

definition LCD_drawBitFieldInv :: "int \<Rightarrow> int \<Rightarrow> int \<Rightarrow> nat \<Rightarrow> lcd \<Rightarrow> fault + lcd" where
  "LCD_drawBitFieldInv half_x line value nbits =
     put_bytes (LCD_position_to_pointer half_x line)
       ([0xFF, NOT 0x42] @ map (\<lambda>i. if vbit value i then NOT 0x66 else NOT 0x7E) [0..<nbits] @
        [NOT 0x42, 0xFF] @ replicate (49 - nbits - 4) 0xFF)"

definition LCD_drawBitField2 :: "int \<Rightarrow> int \<Rightarrow> int \<Rightarrow> nat \<Rightarrow> lcd \<Rightarrow> fault + lcd" where
  "LCD_drawBitField2 half_x line value nbits =
     put_bytes (LCD_position_to_pointer half_x line)
       ([0] @ concat (map (\<lambda>i. replicate 2 (if vbit value i then 0x5A else 0x42)) [0..<nbits]) @ [0] @
        replicate (49 - nbits * 2 - 2) 0)"

definition LCD_drawBitField2Inv :: "int \<Rightarrow> int \<Rightarrow> int \<Rightarrow> nat \<Rightarrow> lcd \<Rightarrow> fault + lcd" where
  "LCD_drawBitField2Inv half_x line value nbits =
     put_bytes (LCD_position_to_pointer half_x line)
       ([0xFF] @ concat (map (\<lambda>i. replicate 2 (if vbit value i then NOT 0x66 else NOT 0x7E)) [0..<nbits]) @
        [0xFF] @ replicate (49 - nbits * 2 - 2) 0xFF)"

text \<open>For a length below 1 the clamped value is negative and the first loop does not end in time.\<close>

definition LCD_drawHBar :: "int \<Rightarrow> int \<Rightarrow> int \<Rightarrow> int \<Rightarrow> lcd \<Rightarrow> fault + lcd" where
  "LCD_drawHBar half_x line value len =
     (let value = (if value < 0 then 0 else value);
          value = (if value \<ge> len then len - 1 else value);
          margin = 49 - len - 2 in
      put_bytes (LCD_position_to_pointer half_x line)
        ([0] @ replicate (nat (margin sdiv 2)) 0 @ replicate (nat value) 0x5A @
         replicate (nat (len - value)) 0x42 @ [0] @ replicate (nat (49 - margin sdiv 2 - len)) 0))"

definition LCD_drawHBarInv :: "int \<Rightarrow> int \<Rightarrow> int \<Rightarrow> int \<Rightarrow> lcd \<Rightarrow> fault + lcd" where
  "LCD_drawHBarInv half_x line value len =
     (let value = (if value < 0 then 0 else value);
          value = (if value \<ge> len then 0 else value) in
      put_bytes (LCD_position_to_pointer half_x line)
        ([0xFF, 0xFF] @ replicate (nat value) (NOT 0x7E) @ [NOT 0x66] @
         replicate (nat (len - value - 1)) (NOT 0x7E) @ [0xFF, 0xFF] @
         replicate (nat (49 - len - 4)) 0xFF))"

section \<open>LEDs\<close>

text \<open>
  A LED array is one 32-bit word: the low half the 16 LEDs of one colour, the high half the
  other. Shifts are by less than 32.
\<close>

definition LED_clear :: "u32 \<Rightarrow> u32" where "LED_clear c = 0"

definition LED_set :: "u32 \<Rightarrow> u32 \<Rightarrow> u32" where "LED_set v c = v"

definition LED_setOne :: "nat \<Rightarrow> u32 \<Rightarrow> u32" where
  "LED_setOne b c = push_bit b 0x10001"

definition LED_addOne :: "nat \<Rightarrow> u32 \<Rightarrow> u32 \<Rightarrow> u32" where
  "LED_addOne b v c = (let x = push_bit b (v + push_bit 16 v) in (c AND NOT x) OR x)"

section \<open>Which bytes are stored\<close>

lemma put_bytes_ok:
  "0 \<le> p \<Longrightarrow> nat p + length xs \<le> length buf \<Longrightarrow>
   put_bytes p xs buf = Inr (take (nat p) buf @ xs @ drop (nat p + length xs) buf)"
proof (induction xs arbitrary: p buf)
  case Nil
  then show ?case by simp
next
  case (Cons x xs)
  have p: "nat (p + 1) = Suc (nat p)" using Cons.prems(1) by simp
  have "put_bytes (p + 1) xs (buf[nat p := x]) =
      Inr (take (Suc (nat p)) (buf[nat p := x]) @ xs @ drop (Suc (nat p) + length xs) (buf[nat p := x]))"
    using Cons.prems Cons.IH [of "p + 1" "buf[nat p := x]"] unfolding p by simp
  moreover have "take (Suc (nat p)) (buf[nat p := x]) = take (nat p) buf @ [x]"
    using Cons.prems by (simp add: take_Suc_conv_app_nth)
  ultimately show ?case using Cons.prems by simp
qed

lemma put_bytes_outside:
  "0 \<le> p \<Longrightarrow> length buf < nat p + length xs \<Longrightarrow> nat p \<le> length buf \<Longrightarrow>
   put_bytes p xs buf = Inl OutOfBounds"
proof (induction xs arbitrary: p buf)
  case Nil
  then show ?case by simp
next
  case (Cons x xs)
  show ?case
  proof (cases "nat p < length buf")
    case True
    then show ?thesis using Cons.prems Cons.IH [of "p + 1" "buf[nat p := x]"]
      by (simp add: nat_add_distrib)
  next
    case False
    then show ?thesis using Cons.prems by (simp add: upd_e_def)
  qed
qed

lemma glyph_bytes_ok: "c < 255 \<Longrightarrow> \<exists>g. glyph_bytes iv c = Inr g \<and> length g = 6"
  using glyph_ok [of c] by (auto simp: glyph_bytes_def)

lemma glyphs_ok: "\<forall>c \<in> set cs. c < 255 \<Longrightarrow> \<exists>gs. glyphs iv cs = Inr gs \<and> length gs = 6 * length cs"
proof (induction cs)
  case Nil
  then show ?case by simp
next
  case (Cons c cs)
  then show ?case using glyph_bytes_ok [of c iv] by fastforce
qed

section \<open>Decimal texts\<close>

fun powers :: "nat \<Rightarrow> int list" where
  "powers 0 = []"
| "powers (Suc n) = 10 ^ Suc n # powers n"

text \<open>Reading a text back: blanks count nothing.\<close>

fun dec :: "nat \<Rightarrow> nat list \<Rightarrow> nat" where
  "dec a [] = a"
| "dec a (c # cs) = dec (if c = 32 then a else 10 * a + (c - 48)) cs"

definition digit_or_blank :: "nat \<Rightarrow> bool" where
  "digit_or_blank c \<longleftrightarrow> c = 32 \<or> 48 \<le> c \<and> c \<le> 57"

lemma digit_code_small: "0 \<le> d \<Longrightarrow> d < 10 \<Longrightarrow> digit_code d = 48 + nat d"
  by (simp add: digit_code_def)

lemma digits_correct:
  "0 \<le> v \<Longrightarrow> v < 10 ^ Suc n \<Longrightarrow> (nz \<or> a = 0) \<Longrightarrow>
   length (digits (powers n) nz v) = Suc n \<and>
   dec a (digits (powers n) nz v) = a * 10 ^ Suc n + nat v \<and>
   (\<forall>c \<in> set (digits (powers n) nz v). digit_or_blank c)"
proof (induction n arbitrary: v nz a)
  case 0
  then show ?case by (simp add: digit_code_small digit_or_blank_def)
next
  case (Suc n)
  let ?p = "10 ^ Suc n :: int"
  define j where "j = v div ?p"
  have vj: "v = j * ?p + v mod ?p" unfolding j_def by (rule div_mult_mod_eq [symmetric])
  have j: "0 \<le> j" using Suc.prems(1) by (simp add: j_def pos_imp_zdiv_nonneg_iff)
  have j10: "j < 10"
  proof (rule ccontr)
    assume "\<not> j < 10"
    then have "10 * ?p \<le> j * ?p" by (intro mult_right_mono) simp_all
    moreover have "j * ?p \<le> v" proof -
      have "0 \<le> v mod ?p" by simp
      then show ?thesis using vj by linarith
    qed
    ultimately have "10 * ?p \<le> v" by (rule order_trans)
    then show False using Suc.prems(2) by simp
  qed
  have sd: "v sdiv ?p = j" using Suc.prems(1) by (cases "v = 0") (simp_all add: j_def signed_divide_int_def)
  have rest: "v - j * ?p = v mod ?p" by (simp add: j_def minus_div_mult_eq_mod)
  have r: "0 \<le> v mod ?p" "v mod ?p < ?p" by simp_all
  let ?nz = "nz \<or> j \<noteq> 0"
  let ?a = "if ?nz then 10 * a + nat j else a"
  have IH: "length (digits (powers n) ?nz (v mod ?p)) = Suc n \<and>
      dec ?a (digits (powers n) ?nz (v mod ?p)) = ?a * 10 ^ Suc n + nat (v mod ?p) \<and>
      (\<forall>c \<in> set (digits (powers n) ?nz (v mod ?p)). digit_or_blank c)"
    using Suc.prems(3) r by (intro Suc.IH) auto
  have split: "nat v = nat j * 10 ^ Suc n + nat (v mod ?p)"
  proof -
    have "nat v = nat (j * ?p) + nat (v mod ?p)" using vj j r by (metis nat_add_distrib mult_nonneg_nonneg zero_le_power zero_le_numeral)
    then show ?thesis using j by (simp add: nat_mult_distrib nat_power_eq)
  qed
  have shape: "digits (powers (Suc n)) nz v =
      (if ?nz then digit_code j else 32) # digits (powers n) ?nz (v mod ?p)"
    by (simp add: Let_def sd [simplified] rest [simplified])
  show ?case
    unfolding shape using IH j j10 split Suc.prems(3)
    by (auto simp: digit_code_small digit_or_blank_def algebra_simps)
qed

lemma digits_glyphs: "digit_or_blank c \<Longrightarrow> c < 255"
  by (auto simp: digit_or_blank_def)

lemma sign_abs_small:
  "\<bar>v\<bar> < 10 ^ 7 \<Longrightarrow> sign_abs v = (if v < 0 then 45 else 32, \<bar>v\<bar>)"
  by (simp add: sign_abs_def wrap32_def)

text \<open>The text of a number that fits: the sign, and as many characters as there are digits.\<close>

lemma number_text_fits:
  assumes "\<bar>v\<bar> < 10 ^ Suc n" and "n < 7" and "0 < n"
  shows "\<exists>ds. number_text (powers n) ovf v = (if v < 0 then 45 else 32) # ds \<and> length ds = Suc n \<and>
    dec 0 ds = nat \<bar>v\<bar> \<and> (\<forall>c \<in> set ds. digit_or_blank c)"
proof -
  have "(10 :: int) ^ Suc n \<le> 10 ^ 7" using assms(2) by (intro power_increasing) simp_all
  then have s: "sign_abs v = (if v < 0 then 45 else 32, \<bar>v\<bar>)"
    using assms(1) by (intro sign_abs_small) linarith
  obtain k where n: "n = Suc k" using assms(3) by (cases n) auto
  have "\<bar>v\<bar> sdiv 10 ^ n = \<bar>v\<bar> div 10 ^ n"
    by (cases "v = 0") (simp_all add: signed_divide_int_def)
  moreover have "\<bar>v\<bar> div 10 ^ n < 10"
  proof (rule ccontr)
    assume "\<not> \<bar>v\<bar> div 10 ^ n < 10"
    then have "10 * 10 ^ n \<le> \<bar>v\<bar> div 10 ^ n * 10 ^ n" by (intro mult_right_mono) simp_all
    moreover have "\<bar>v\<bar> div 10 ^ n * 10 ^ n \<le> \<bar>v\<bar>"
    proof -
      have "0 \<le> \<bar>v\<bar> mod 10 ^ n" by simp
      then show ?thesis using div_mult_mod_eq [of "\<bar>v\<bar>" "10 ^ n"] by linarith
    qed
    ultimately have "10 * 10 ^ n \<le> \<bar>v\<bar>" by (rule order_trans)
    then show False using assms(1) by simp
  qed
  ultimately have "number_text (powers n) ovf v = (if v < 0 then 45 else 32) # digits (powers n) False \<bar>v\<bar>"
    by (simp add: number_text_def s n)
  then show ?thesis using digits_correct [of "\<bar>v\<bar>" n False 0] assms(1) by simp
qed

lemma draw_number_fits:
  assumes "\<bar>v\<bar> < 10 ^ Suc n" and "n < 7" and "0 < n" and "length buf = 1024"
    and "0 \<le> half_x" and "0 \<le> line" and "line < 8" and "half_x * 2 + 6 * int (n + 2) + 2 \<le> 128"
  shows "\<exists>ds gs. let p = nat (half_x * 2 + line * 128) in
    draw_number (powers n) ovf iv half_x line v buf =
      Inr (take p buf @ gs @ drop (p + length gs) buf) \<and> length gs = 6 * (n + 2) + 2 \<and>
    glyphs iv ((if v < 0 then 45 else 32) # ds) = Inr (take (6 * (n + 2)) gs) \<and>
    length ds = Suc n \<and> dec 0 ds = nat \<bar>v\<bar>"
proof -
  obtain ds where ds: "number_text (powers n) ovf v = (if v < 0 then 45 else 32) # ds"
    "length ds = Suc n" "dec 0 ds = nat \<bar>v\<bar>" "\<forall>c \<in> set ds. digit_or_blank c"
    using number_text_fits [OF assms(1-3)] by blast
  have "\<forall>c \<in> set ((if v < 0 then 45 else 32) # ds). c < 255"
    using ds(4) digits_glyphs by auto
  then have "\<exists>gs. glyphs iv ((if v < 0 then 45 else 32) # ds) = Inr gs \<and>
      length gs = 6 * length ((if v < 0 then 45 else 32) # ds)" by (rule glyphs_ok)
  then obtain gs where gs: "glyphs iv ((if v < 0 then 45 else 32) # ds) = Inr gs"
    "length gs = 6 * (n + 2)" using ds(2) by auto
  let ?gs = "gs @ replicate 2 (inv8 iv 0)"
  have pos: "0 \<le> half_x * 2 + line * 128" using assms(5,6) by simp
  have "half_x * 2 + line * 128 + (6 * int (n + 2) + 2) \<le> 1024" using assms(7,8) by linarith
  then have len: "nat (half_x * 2 + line * 128) + length ?gs \<le> length buf"
    using assms(4) pos gs(2) by simp
  have draw: "draw_number (powers n) ovf iv half_x line v buf =
      Inr (take (nat (half_x * 2 + line * 128)) buf @ ?gs @
        drop (nat (half_x * 2 + line * 128) + length ?gs) buf)"
    unfolding draw_number_def ds(1) gs(1) sbind_simps LCD_position_to_pointer_def LCDWIDTH_def
    by (rule put_bytes_ok [OF pos len])
  have "length ?gs = 6 * (n + 2) + 2" "take (6 * (n + 2)) ?gs = gs" using gs(2) by simp_all
  then show ?thesis
    unfolding Let_def using draw gs(1) ds(2,3) by metis
qed

lemma row_column:
  "a + q * 128 = x + r * 128 \<Longrightarrow> 0 \<le> a \<Longrightarrow> a < 128 \<Longrightarrow> 0 \<le> x \<Longrightarrow> x < 128 \<Longrightarrow> a = x \<and> q = r"
  for a :: int
proof -
  assume eq: "a + q * 128 = x + r * 128" and b: "0 \<le> a" "a < 128" "0 \<le> x" "x < 128"
  have "(a + q * 128) mod 128 = a" "(x + r * 128) mod 128 = x" using b by simp_all
  then have "a = x" using eq by simp
  then show "a = x \<and> q = r" using eq by simp
qed

section \<open>Properties\<close>

text \<open>
  The number display is correct: an integer of at most seven digits, drawn where its eight
  characters and the blank column fit on a line, stores exactly the glyphs of its sign and of
  seven digits or leading blanks that read back as its absolute value, and changes nothing else
  on the screen. (The three and five digit functions are the same code with fewer digits.)
\<close>

lemma drawNumber7D_correct:
  assumes "\<bar>v\<bar> < 10000000" and "length buf = 1024"
    and "0 \<le> half_x" and "half_x \<le> 39" and "0 \<le> line" and "line < 8"
  shows "\<exists>ds gs. let p = nat (half_x * 2 + line * 128) in
    (if iv then LCD_drawNumber7DInv else LCD_drawNumber7D) half_x line v buf = Inr (take p buf @ gs @ drop (p + length gs) buf) \<and>
    length gs = 50 \<and> glyphs iv ((if v < 0 then 45 else 32) # ds) = Inr (take 48 gs) \<and>
    length ds = 7 \<and> dec 0 ds = nat \<bar>v\<bar>"
proof -
  have p: "powers 6 = [1000000, 100000, 10000, 1000, 100, 10]" by (simp add: eval_nat_numeral)
  show ?thesis
    using draw_number_fits [of v 6 buf half_x line ovrflow iv] assms
    by (cases iv) (simp_all add: LCD_drawNumber7D_def LCD_drawNumber7DInv_def p)
qed

lemma drawNumber7D_correct_witness:
  "\<exists>ds gs. let p = nat (36 * 2 + 3 * 128 :: int) in
    (if True then LCD_drawNumber7DInv else LCD_drawNumber7D) 36 3 (-1024) (replicate 1024 0) =
      Inr (take p (replicate 1024 0) @ gs @ drop (p + length gs) (replicate 1024 0)) \<and>
    length gs = 50 \<and> glyphs True ((if (-1024 :: int) < 0 then 45 else 32) # ds) = Inr (take 48 gs) \<and>
    length ds = 7 \<and> dec 0 ds = nat \<bar>-1024\<bar>"
  by (rule drawNumber7D_correct) simp_all

text \<open>
  The argument check of LCD\_drawChar compares a column in units of two pixels with a limit
  in pixels: on the last line every column from 62 to 122 passes the check and the three stores
  run past the end of the frame buffer; every other accepted position is safe.
\<close>

lemma drawChar_overrun:
  assumes "length buf = 1024" and "unat c < 255" and "0 \<le> half_x" and "half_x < 123"
    and "0 \<le> line" and "line < 8"
  shows "LCD_drawChar half_x line c buf = Inl OutOfBounds \<longleftrightarrow> line = 7 \<and> 62 \<le> half_x"
proof -
  obtain g where g: "glyph_bytes False (unat c) = Inr g" "length g = 6"
    using glyph_bytes_ok [OF assms(2)] by blast
  let ?p = "half_x * 2 + line * 128"
  have d: "LCD_drawChar half_x line c buf = put_bytes ?p g buf"
    using assms(3-6) g
    by (simp add: LCD_drawChar_def draw_char_def LCDWIDTH_def LCDROWS_def LCD_position_to_pointer_def)
  have pos: "0 \<le> ?p" using assms(3,5) by simp
  show ?thesis
  proof (cases "line = 7 \<and> 62 \<le> half_x")
    case True
    show ?thesis
    proof (cases "?p \<le> 1024")
      case True
      obtain n where n: "half_x = int n" using assms(3) by (rule nonneg_int_cases)
      then have "nat ?p = n * 2 + 896" using \<open>line = 7 \<and> 62 \<le> half_x\<close> by simp
      then show ?thesis
        using True n \<open>line = 7 \<and> 62 \<le> half_x\<close> put_bytes_outside [OF pos, of buf g] assms(1) g(2) d
        by simp
    next
      case False
      obtain n where n: "half_x = int n" using assms(3) by (rule nonneg_int_cases)
      then have "nat ?p = n * 2 + 896" using \<open>line = 7 \<and> 62 \<le> half_x\<close> by simp
      then show ?thesis
        using False n \<open>line = 7 \<and> 62 \<le> half_x\<close> assms(1) g(2) d
        by (cases g) (simp_all add: upd_e_def)
    qed
  next
    case False
    then have "?p + 6 \<le> 1024" using assms(4,6) by linarith
    then have "nat ?p + length g \<le> length buf" using pos assms(1) g(2) by simp
    from put_bytes_ok [OF pos this] False show ?thesis by (simp add: d)
  qed
qed

lemma drawChar_overrun_witness:
  "LCD_drawChar 62 7 0x41 (replicate 1024 0) = Inl OutOfBounds \<longleftrightarrow> (7 :: int) = 7 \<and> (62 :: int) \<le> 62"
  by (rule drawChar_overrun) simp_all

text \<open>
  Drawing a pixel sets or clears exactly that pixel of the 128 by 64 screen, and reading any
  other pixel gives what it gave before.
\<close>

lemma pixel_write_read:
  assumes "length buf = 1024" and "\<not> pixel_outside x y" and "\<not> pixel_outside x' y'"
  shows "\<exists>buf'. LCD_drawPixel x y color buf = Inr buf' \<and> length buf' = 1024 \<and>
    LCD_getPixel x' y' buf' =
      (if x' = x \<and> y' = y then Inr (if color \<noteq> 0 then 1 else 0) else LCD_getPixel x' y' buf)"
proof -
  have in_range: "pixel_index a b < 1024" if "\<not> pixel_outside a b" for a b
  proof -
    have r: "a < 128" "b \<le> 63" using that by (simp_all add: pixel_outside_def LCDWIDTH_def LCDHEIGHT_def)
    have "b div 8 \<le> 7" using zdiv_mono1 [OF r(2), of 8] by simp
    then have "a + b div 8 * 128 < 1024" using r(1) by linarith
    then show ?thesis by (simp add: pixel_index_def LCDWIDTH_def)
  qed
  have same: "a = x \<and> b = y" if "\<not> pixel_outside a b" "pixel_index a b = pixel_index x y"
      "nat (b mod 8) = nat (y mod 8)" for a b
  proof -
    have r: "0 \<le> a" "a < 128" "0 \<le> b" "b < 64" "0 \<le> x" "x < 128" "0 \<le> y" "y < 64"
      using that(1) assms(2) by (simp_all add: pixel_outside_def LCDWIDTH_def LCDHEIGHT_def)
    have q: "0 \<le> b div 8" "0 \<le> y div 8" using r by (simp_all add: pos_imp_zdiv_nonneg_iff)
    have "a + b div 8 * 128 = x + y div 8 * 128"
      using that(2) r q by (simp add: pixel_index_def LCDWIDTH_def nat_eq_iff split: if_splits)
    then have "a = x" "b div 8 = y div 8" using row_column r by blast+
    moreover have "b mod 8 = y mod 8" using that(3) by simp
    ultimately show ?thesis by (metis div_mult_mod_eq)
  qed
  let ?i = "pixel_index x y" and ?k = "nat (y mod 8)"
  have k: "nat (z mod 8) < 8" for z :: int by simp
  define b' where "b' = (if color \<noteq> 0 then set_bit ?k (buf ! ?i) else unset_bit ?k (buf ! ?i))"
  define buf' where "buf' = buf[?i := b']"
  have draw: "LCD_drawPixel x y color buf = Inr buf'" "length buf' = 1024"
    using assms(1,2) in_range [OF assms(2)]
    by (simp_all add: LCD_drawPixel_def LCD_setPixel_def LCD_clearPixel_def buf'_def b'_def)
  have get: "LCD_getPixel a b bf = Inr (if bit (bf ! pixel_index a b) (nat (b mod 8)) then 1 else 0)"
    if "\<not> pixel_outside a b" "length bf = 1024" for a b bf
  proof -
    have "drop_bit n w AND 1 = (if bit w n then 1 else 0)" for n and w :: u8
      by (rule bit_word_eqI) (auto simp: bit_simps bit_1_iff, metis add.right_neutral neq0_conv)
    then show ?thesis using that in_range by (simp add: LCD_getPixel_def)
  qed
  have "bit (buf' ! pixel_index x' y') (nat (y' mod 8)) \<longleftrightarrow>
      (if x' = x \<and> y' = y then color \<noteq> 0 else bit (buf ! pixel_index x' y') (nat (y' mod 8)))"
  proof (cases "pixel_index x' y' = ?i")
    case True
    have bits: "bit b' n \<longleftrightarrow> (if n = ?k then color \<noteq> 0 else bit (buf ! ?i) n)" if "n < 8" for n
      using that by (auto simp: b'_def bit_set_bit_iff bit_unset_bit_iff)
    show ?thesis
    proof (cases "x' = x \<and> y' = y")
      case True
      then show ?thesis using bits [OF k] in_range [OF assms(2)] assms(1) by (simp add: buf'_def)
    next
      case False
      then have ne: "(x' = x \<and> y' = y) = False" by blast
      have "nat (y' mod 8) \<noteq> ?k" using False same [OF assms(3) True] by blast
      then show ?thesis
        unfolding ne using True bits [OF k, of y'] in_range [OF assms(2)] assms(1) by (simp add: buf'_def)
    qed
  next
    case False
    then show ?thesis by (auto simp: buf'_def)
  qed
  then show ?thesis using draw get [OF assms(3) draw(2)] get [OF assms(3,1)] by simp
qed

lemma pixel_write_read_witness:
  "\<exists>buf'. LCD_drawPixel 127 63 1 (replicate 1024 0) = Inr buf' \<and> length buf' = 1024 \<and>
    LCD_getPixel 127 62 buf' =
      (if (127 :: int) = 127 \<and> (62 :: int) = 63 then Inr (if (1 :: u16) \<noteq> 0 then 1 else 0)
       else LCD_getPixel 127 62 (replicate 1024 0))"
  by (rule pixel_write_read) (simp_all add: pixel_outside_def LCDWIDTH_def LCDHEIGHT_def)

text \<open>
  The two fixed-point displays differ in the scale of their decimals. For a fraction just
  below one the normal variant shows 999, while the inverted one computes 1000 thousandths and
  draws the character after 9 (a colon) as its first decimal; for no fraction does the normal
  variant exceed 999.
\<close>

lemma q27_inverted_colon:
  assumes "0 \<le> v" and "v < 1000 * 2 ^ 21"
  shows "\<exists>is. (v mod 2 ^ 21 = 2 ^ 21 - 1 \<longrightarrow>
      q27_text 1000 v = 32 # is @ [46, 58, 48, 48] \<and> q27_text 999 v = 32 # is @ [46, 57, 57, 57]) \<and>
    dec 0 is = nat (v div 2 ^ 21) \<and>
    ((v mod 2 ^ 21) * 999 + 0x0100000) div 2 ^ 21 \<le> 999"
proof -
  define q where "q = v div 2 ^ 21"
  have r: "0 \<le> q" "q < 10 ^ Suc 2"
    using assms by (simp_all add: q_def pos_imp_zdiv_nonneg_iff)
  then have "q sdiv 100 = q div 100"
    by (cases "q = 0") (simp_all add: signed_divide_int_def)
  then have fits: "q sdiv 100 < 10" using r(2) by simp
  have p: "powers 2 = [100, 10]" by (simp add: eval_nat_numeral)
  have up: "((v mod 2 ^ 21) * 999 + 0x0100000) div 2 ^ 21 \<le> 999"
  proof -
    have "v mod 2 ^ 21 < 2 ^ 21" by simp
    then show ?thesis by simp
  qed
  have shape: "q27_text f v = 32 # digits [100, 10] False q @ [46] @
      digits [100, 10] True (((v mod 2 ^ 21) * f + 0x0100000) div 2 ^ 21)" for f
    using assms(1) fits by (simp only: q27_text_def sign_abs_def Let_def q_def) simp
  have d: "digits [100, 10] True 1000 = [58, 48, 48]" "digits [100, 10] True 999 = [57, 57, 57]"
    by (simp_all add: digit_code_def signed_divide_int_def)
  have n: "((2 ^ 21 - 1) * 1000 + 0x0100000) div 2 ^ 21 = (1000 :: int)"
      "((2 ^ 21 - 1) * 999 + 0x0100000) div 2 ^ 21 = (999 :: int)" by simp_all
  have "v mod 2 ^ 21 = 2 ^ 21 - 1 \<longrightarrow>
      q27_text 1000 v = 32 # digits [100, 10] False q @ [46, 58, 48, 48] \<and>
      q27_text 999 v = 32 # digits [100, 10] False q @ [46, 57, 57, 57]"
    unfolding shape using n d by (auto simp only: append.simps)
  moreover have "dec 0 (digits [100, 10] False q) = nat q"
    using digits_correct [of q 2 False 0] r p by simp
  ultimately show ?thesis using up by (simp only: q_def) blast
qed

lemma q27_inverted_colon_witness:
  "\<exists>is. ((0x01FFFFF :: int) mod 2 ^ 21 = 2 ^ 21 - 1 \<longrightarrow>
      q27_text 1000 0x01FFFFF = 32 # is @ [46, 58, 48, 48] \<and>
      q27_text 999 0x01FFFFF = 32 # is @ [46, 57, 57, 57]) \<and>
    dec 0 is = nat (0x01FFFFF div 2 ^ 21) \<and>
    ((0x01FFFFF mod 2 ^ 21) * 999 + 0x0100000) div 2 ^ 21 \<le> (999 :: int)"
  by (rule q27_inverted_colon) simp_all

end
