(* ===== verification/Patch_Index.thy ===== *)
theory Patch_Index
  imports Prelude
begin

text \<open>
  How a patch is named to the loader thread (firmware/patch.c): by a file name, by the address
  of a memory mapped file written in hexadecimal, or by its index in the patch bank file
  /index.axb. The file system is a parameter: the result of opening the file, and for every
  position what reading 64 bytes there gives.
\<close>

section \<open>The patch bank file\<close>

datatype patch_error =
    CantOpenPatchbank
  | NotInPatchbank int
  | CantAllocatePatch
  | FailedToLoad
  | MissingGetInstanceSize
  | OutOfMemory
  | MissingInitInstance
  | InitFailed int
  | InitFailedReason "u8 list"

text \<open>The search for the end of the line; the test of the byte comes before the test of the bound.\<close>

function scan_line :: "u8 list \<Rightarrow> nat \<Rightarrow> nat \<Rightarrow> fault + nat" where
  "scan_line buf bytes_read p =
     sbind (nth_e buf p) (\<lambda>c.
       if c \<noteq> 10 \<and> p < bytes_read then scan_line buf bytes_read (p + 1) else Inr p)"
  by pat_completeness auto
termination by (relation "measure (\<lambda>(_, n, p). n - p)") auto

declare scan_line.simps [simp del]

text \<open>The extension is changed in place, then the name is copied to the 32 bytes of the caller.\<close>

definition modify_extension :: "u8 list \<Rightarrow> nat \<Rightarrow> fault + u8 list" where
  "modify_extension buf l =
     (if l < 4 then Inl OutOfBounds
      else sbind (nth_e buf (l - 4)) (\<lambda>c.
        if c = 46 then
          sbind (upd_e buf (l - 3) 101) (\<lambda>buf.
          sbind (upd_e buf (l - 2) 108) (\<lambda>buf.
          upd_e buf (l - 1) 102))
        else Inr buf))"

definition finish_name :: "u8 list \<Rightarrow> nat \<Rightarrow> fault + u8 list" where
  "finish_name buf p =
     sbind (upd_e buf p 0) (\<lambda>buf.
     sbind (c_string buf) (\<lambda>s.
     sbind (modify_extension buf (length s)) (\<lambda>buf.
     sbind (c_string buf) (\<lambda>s.
     if length s + 1 \<le> 32 then Inr s else Inl OutOfBounds))))"

text \<open>
  The value of a call: the result code, the error message it leaves, and the name it stores.
\<close>

type_synonym index_result = "int \<times> patch_error option \<times> u8 list"

partial_function (option) index_loop ::
    "(nat \<Rightarrow> int + u8 list) \<Rightarrow> int \<Rightarrow> u8 list \<Rightarrow> nat \<Rightarrow> int \<Rightarrow> (fault + index_result) option" where
  "index_loop rd patchIndex buf pos index =
     (case rd pos of
        Inl err \<Rightarrow> Some (Inr (-2, None, []))
      | Inr bytes \<Rightarrow>
          (let buf = bytes @ drop (length bytes) buf in
           case scan_line buf (length bytes) 0 of
             Inl e \<Rightarrow> Some (Inl e)
           | Inr p \<Rightarrow>
               if p = length bytes then Some (Inr (-3, Some (NotInPatchbank patchIndex), []))
               else if index = patchIndex then
                 Some (sbind (finish_name buf p) (\<lambda>s. Inr (0, None, s)))
               else index_loop rd patchIndex buf (pos + p + 1) (index + 1)))"

definition getPatchNameFromIndex ::
    "int \<Rightarrow> (nat \<Rightarrow> int + u8 list) \<Rightarrow> u8 list \<Rightarrow> int \<Rightarrow> (fault + index_result) option" where
  "getPatchNameFromIndex fopen rd buf patchIndex =
     (if fopen \<noteq> 0 then Some (Inr (-1, Some CantOpenPatchbank, []))
      else index_loop rd patchIndex buf 0 0)"

section \<open>Addresses and indices in names\<close>

definition hex_value :: "u8 \<Rightarrow> u32" where
  "hex_value c = (if c < 65 then ucast c - 48 else 10 + ucast c - 65) AND 0x0F"

fun hex_loop :: "nat \<Rightarrow> u8 list \<Rightarrow> u32 \<Rightarrow> fault + u32" where
  "hex_loop 0 str a = Inr a"
| "hex_loop (Suc n) [] a = Inl OutOfBounds"
| "hex_loop (Suc n) (c # str) a = hex_loop n str (push_bit 4 a OR hex_value c)"

definition addr_from_hexstring :: "u8 list \<Rightarrow> fault + u32" where
  "addr_from_hexstring str = hex_loop 8 str 0"

text \<open>An index is passed as a string whose first byte is zero; the loader reads it back.\<close>

definition index_string :: "int \<Rightarrow> u8 list" where
  "index_string index = le32_bytes (push_bit 8 (word_of_int index))"

definition string_index :: "u8 list \<Rightarrow> fault + int" where
  "string_index arg =
     (case arg of
        a # b # c # d # _ \<Rightarrow> Inr (sint (signed_drop_bit 8 (le32 a b c d)))
      | _ \<Rightarrow> Inl OutOfBounds)"

section \<open>Lemmas\<close>

lemma scan_line_step:
  "p < length buf \<Longrightarrow>
   scan_line buf n p = (if buf ! p \<noteq> 10 \<and> p < n then scan_line buf n (p + 1) else Inr p)"
  by (subst scan_line.simps) simp

lemma scan_line_newline:
  assumes "buf = xs @ l @ 10 # rest" and "10 \<notin> set l" and "length xs + length l < n"
  shows "scan_line buf n (length xs) = Inr (length xs + length l)"
  using assms
proof (induction l arbitrary: xs)
  case Nil
  then show ?case by (subst scan_line_step) simp_all
next
  case (Cons c l)
  have "scan_line buf n (length xs) = scan_line buf n (length (xs @ [c]))"
    using Cons.prems by (subst scan_line_step) (simp_all add: nth_append)
  also have "\<dots> = Inr (length (xs @ [c]) + length l)"
    by (rule Cons.IH) (use Cons.prems in auto)
  finally show ?case by simp
qed

lemma scan_line_end: "0 < length buf \<Longrightarrow> scan_line buf 0 0 = Inr 0"
  by (subst scan_line_step) auto

text \<open>The name with its extension replaced.\<close>

definition elf_name :: "u8 list \<Rightarrow> u8 list" where
  "elf_name n = (if n ! (length n - 4) = 46 then take (length n - 3) n @ [101, 108, 102] else n)"

lemma length_four: "length xs = 4 \<longleftrightarrow> (\<exists>a b c d. xs = [a, b, c, d])"
  by (auto simp: length_Suc_conv numeral_eq_Suc)

lemma modify_extension_correct:
  assumes "4 \<le> length n"
  shows "modify_extension (n @ 0 # rest) (length n) = Inr (elf_name n @ 0 # rest)"
proof -
  obtain l4 l3 l2 l1 where n: "n = take (length n - 4) n @ [l4, l3, l2, l1]"
  proof -
    have "length (drop (length n - 4) n) = 4" using assms by simp
    then obtain a b c d where "drop (length n - 4) n = [a, b, c, d]"
      unfolding length_four by blast
    then show ?thesis using that append_take_drop_id [of "length n - 4" n] by metis
  qed
  define ys where "ys = take (length n - 4) n"
  have n': "n = ys @ [l4, l3, l2, l1]" and l: "length ys = length n - 4"
    using n by (simp_all add: ys_def)
  show ?thesis unfolding n'
    by (simp add: modify_extension_def elf_name_def nth_append list_update_append upd_e_def nth_e_def)
qed

lemma elf_name_bytes: "0 \<notin> set n \<Longrightarrow> 0 \<notin> set (elf_name n)"
  by (auto simp: elf_name_def dest: in_set_takeD)

lemma length_elf_name: "4 \<le> length n \<Longrightarrow> length (elf_name n) = length n"
  by (auto simp: elf_name_def)

lemma finish_name_correct:
  assumes "4 \<le> length n" "length n \<le> 31" "0 \<notin> set n"
  shows "finish_name (n @ 10 # rest) (length n) = Inr (elf_name n)"
  using assms
  by (simp add: finish_name_def upd_e_def modify_extension_correct elf_name_bytes length_elf_name)

text \<open>A patch bank with one name per line.\<close>

definition bank_name :: "u8 list \<Rightarrow> bool" where
  "bank_name n \<longleftrightarrow> 4 \<le> length n \<and> length n \<le> 31 \<and> 0 \<notin> set n \<and> 10 \<notin> set n"

definition index_file :: "u8 list list \<Rightarrow> u8 list" where
  "index_file names = concat (map (\<lambda>n. n @ [10]) names)"

lemma index_file_simps [simp]:
  "index_file [] = []" "index_file (n # ns) = n @ 10 # index_file ns"
  by (simp_all add: index_file_def)

lemma index_loop_correct:
  assumes "\<forall>n \<in> set names. bank_name n" and "length buf = 64" and "index \<le> k"
    and rd: "rd = (\<lambda>pos. Inr (take 64 (drop pos file)))"
    and "drop pos file = index_file names"
  shows "index_loop rd k buf pos index =
    Some (Inr (if nat (k - index) < length names then (0, None, elf_name (names ! nat (k - index)))
               else (-3, Some (NotInPatchbank k), [])))"
  using assms(1-3,5)
proof (induction names arbitrary: buf pos index)
  case Nil
  then show ?case
    by (subst index_loop.simps) (simp add: rd scan_line_end)
next
  case (Cons n names)
  let ?rest = "index_file names"
  define bytes where "bytes = take 64 (n @ 10 # ?rest)"
  define buf' where "buf' = bytes @ drop (length bytes) buf"
  have n: "4 \<le> length n" "length n \<le> 31" "0 \<notin> set n" "10 \<notin> set n"
    using Cons.prems(1) by (auto simp: bank_name_def)
  have bytes: "bytes = n @ 10 # take (63 - length n) ?rest"
  proof -
    have "64 - length n = Suc (63 - length n)" using n(2) by simp
    then show ?thesis by (simp add: bytes_def)
  qed
  have buf': "buf' = [] @ n @ 10 # (take (63 - length n) ?rest @ drop (length bytes) buf)"
    by (simp add: buf'_def bytes)
  have len: "length n < length bytes" by (simp add: bytes)
  have "length bytes \<le> 64" by (simp add: bytes_def)
  then have buf64: "length buf' = 64" using Cons.prems(2) by (simp add: buf'_def)
  have scan: "scan_line buf' (length bytes) 0 = Inr (length n)"
    using scan_line_newline [OF buf' n(4), of "length bytes"] len by simp
  have read: "rd pos = Inr bytes" using Cons.prems(4) by (simp add: rd bytes_def)
  have step: "index_loop rd k buf pos index =
      (if index = k then Some (Inr (0, None, elf_name n))
       else index_loop rd k buf' (pos + length n + 1) (index + 1))"
    using finish_name_correct [OF n(1-3)] len
    by (subst index_loop.simps) (simp add: read Let_def buf'_def [symmetric] scan, simp add: buf')
  show ?case
  proof (cases "index = k")
    case True
    then show ?thesis using step by simp
  next
    case False
    have "drop (pos + length n + 1) file = drop (length n + 1) (drop pos file)"
      by (simp add: add.commute add.left_commute)
    also have "\<dots> = ?rest" using Cons.prems(4) by simp
    finally have rest: "drop (pos + length n + 1) file = ?rest" .
    have IH: "index_loop rd k buf' (pos + length n + 1) (index + 1) =
      Some (Inr (if nat (k - (index + 1)) < length names
                 then (0, None, elf_name (names ! nat (k - (index + 1))))
                 else (-3, Some (NotInPatchbank k), [])))"
      by (rule Cons.IH) (use Cons.prems False buf64 rest in auto)
    obtain j where j: "nat (k - index) = Suc j" "nat (k - (index + 1)) = j"
    proof -
      have "nat (k - index) = Suc (nat (k - (index + 1)))" using False Cons.prems(3) by simp
      then show ?thesis using that by blast
    qed
    show ?thesis using False by (simp only: step IH j if_False) simp
  qed
qed

section \<open>Properties\<close>

text \<open>
  Looking up a patch by index. When the patch bank holds one name per line, each of 4 to 31
  bytes, and reading the file gives its next 64 bytes, then for every index the lookup returns:
  the name on that line with its extension replaced by elf when the file has that many lines,
  and the result -3 with its message otherwise.
\<close>

lemma getPatchNameFromIndex_correct:
  assumes "\<forall>n \<in> set names. bank_name n" and "length buf = 64" and "0 \<le> k"
    and "rd = (\<lambda>pos. Inr (take 64 (drop pos (index_file names))))"
  shows "getPatchNameFromIndex 0 rd buf k =
    Some (Inr (if nat k < length names then (0, None, elf_name (names ! nat k))
               else (-3, Some (NotInPatchbank k), [])))"
  using index_loop_correct [OF assms(1,2,3,4), of 0] by (simp add: getPatchNameFromIndex_def)

definition sample_bank :: "u8 list list" where
  "sample_bank = [[97, 46, 98, 105, 110], [116, 101, 115, 116]]"

lemma getPatchNameFromIndex_correct_witness:
  "getPatchNameFromIndex 0 (\<lambda>pos. Inr (take 64 (drop pos (index_file sample_bank)))) (replicate 64 0) 0 =
    Some (Inr (if nat 0 < length sample_bank then (0, None, elf_name (sample_bank ! nat 0))
               else (-3, Some (NotInPatchbank 0), [])))"
  by (rule getPatchNameFromIndex_correct) (simp_all add: sample_bank_def bank_name_def)

text \<open>
  A line of the patch bank that does not end within its 64 byte window makes the search read
  one byte past the buffer, and a name of 32 bytes or more is copied past the end of the array
  of the caller.
\<close>

lemma patch_bank_overruns:
  assumes "length bytes = 64" and "10 \<notin> set bytes" and "length buf = 64"
    and "32 \<le> length n" and "0 \<notin> set n"
  shows "getPatchNameFromIndex 0 (\<lambda>_. Inr bytes) buf k = Some (Inl OutOfBounds) \<and>
    finish_name (n @ 10 # rest) (length n) = Inl OutOfBounds"
proof
  have "scan_line bytes 64 p = Inl OutOfBounds" if "p \<le> 64" for p
    using that
  proof (induction "64 - p" arbitrary: p)
    case 0
    then show ?case using assms(1) by (subst scan_line.simps) (simp add: nth_e_def)
  next
    case (Suc j)
    then have "bytes ! p \<noteq> 10" using assms(1,2) by (metis nth_mem zero_less_Suc zero_less_diff)
    with Suc show ?case using assms(1) Suc.hyps(1) [of "p + 1"] by (subst scan_line_step) auto
  qed
  then show "getPatchNameFromIndex 0 (\<lambda>_. Inr bytes) buf k = Some (Inl OutOfBounds)"
    using assms(1-3) by (simp add: getPatchNameFromIndex_def) (subst index_loop.simps, simp)
  have "4 \<le> length n" using assms(4) by simp
  then show "finish_name (n @ 10 # rest) (length n) = Inl OutOfBounds"
    using assms(4,5)
    by (simp add: finish_name_def upd_e_def modify_extension_correct elf_name_bytes length_elf_name)
qed

lemma patch_bank_overruns_witness:
  "getPatchNameFromIndex 0 (\<lambda>_. Inr (replicate 64 97)) (replicate 64 0) 3 = Some (Inl OutOfBounds) \<and>
   finish_name (replicate 32 97 @ 10 # []) (length (replicate 32 (97 :: u8))) = Inl OutOfBounds"
  by (rule patch_bank_overruns) simp_all

text \<open>The digits of an address, upper or lower case.\<close>

definition hex_digit :: "bool \<Rightarrow> u32 \<Rightarrow> u8" where
  "hex_digit upper d = (if d < 10 then 48 + ucast d else (if upper then 55 else 87) + ucast d)"

definition hex8 :: "bool \<Rightarrow> u32 \<Rightarrow> u8 list" where
  "hex8 upper a = map (\<lambda>i. hex_digit upper (drop_bit (4 * i) a AND 15)) [7, 6, 5, 4, 3, 2, 1, 0]"

lemma hex_value_digit: "hex_value (hex_digit upper (w AND 15)) = w AND 15"
proof -
  have "w AND 15 \<le> 15" by (rule word_and_le1)
  then have "unat (w AND 15) < 16" by (simp add: word_le_nat_alt)
  moreover obtain k where k: "unat (w AND 15) = k" by blast
  ultimately have "k < 16" by simp
  have w: "w AND 15 = word_of_nat k" unfolding k [symmetric] by simp
  from \<open>k < 16\<close> have "k \<in> {0, 1, 2, 3, 4, 5, 6, 7, 8, 9, 10, 11, 12, 13, 14, 15}"
    by (simp add: less_Suc_eq numeral_eq_Suc)
  then show ?thesis unfolding w by (cases upper) (auto simp: hex_digit_def hex_value_def)
qed

lemma hex_digit_append:
  fixes a :: u32
  shows "push_bit 4 (drop_bit (4 * Suc n) a) OR (drop_bit (4 * n) a AND 15) = drop_bit (4 * n) a"
  by (rule bit_word_eqI) (auto simp: bit_simps)

lemma hex_loop_digits:
  "hex_loop n (map (\<lambda>i. hex_digit upper (drop_bit (4 * i) a AND 15)) (rev [0..<n]) @ rest)
     (drop_bit (4 * n) a) = Inr a"
proof (induction n)
  case (Suc n)
  show ?case
    by (simp only: upt_Suc zero_le rev_append rev.simps append_Nil if_True list.map map_append append_Cons
        append_assoc hex_loop.simps hex_value_digit hex_digit_append Suc)
qed simp

lemma hex8_rev: "hex8 upper a = map (\<lambda>i. hex_digit upper (drop_bit (4 * i) a AND 15)) (rev [0..<8])"
  by (simp add: hex8_def upt_rec)

text \<open>
  The address in the name of a memory mapped patch is read back exactly: for every 32-bit
  address written as eight hexadecimal digits, in upper or in lower case, and whatever follows
  them in memory.
\<close>

lemma hex_address_roundtrip: "addr_from_hexstring (hex8 upper a @ rest) = Inr a"
proof -
  have "drop_bit (4 * 8) a = 0" by (rule bit_word_eqI) (auto simp: bit_simps dest: bit_imp_le_length)
  then show ?thesis using hex_loop_digits [of 8 upper a rest]
    by (simp only: addr_from_hexstring_def hex8_rev)
qed

text \<open>
  A patch index passed through the name argument is read back exactly for 0 up to 2^23 - 1;
  the largest index that patch\_loadIndex accepts, 2^23, comes back negative.
\<close>

lemma index_string_roundtrip:
  assumes "0 \<le> i" and "i < 2 ^ 23"
  shows "hd (index_string i) = 0 \<and> string_index (index_string i) = Inr i"
proof
  have "byte_of 0 (push_bit 8 (word_of_int i)) = 0"
    by (rule bit_word_eqI) (auto simp: byte_of_def bit_simps)
  then show "hd (index_string i) = 0" by (simp add: index_string_def le32_bytes_def)
  have "sint (signed_drop_bit 8 (push_bit 8 (word_of_int i :: u32))) = i"
  proof -
    have "push_bit 8 (word_of_int i :: u32) = word_of_int (i * 256)" by (simp add: push_bit_eq_mult)
    moreover have "sint (word_of_int (i * 256) :: u32) = i * 256"
      unfolding sint_sbintrunc' by (rule signed_take_bit_int_eq_self) (use assms in simp_all)
    ultimately show ?thesis by (simp add: sint_signed_drop_bit_eq drop_bit_eq_div)
  qed
  then show "string_index (index_string i) = Inr i"
    by (simp add: index_string_def le32_bytes_def string_index_def)
qed

lemma index_string_roundtrip_witness: "hd (index_string 8388607) = 0 \<and> string_index (index_string 8388607) = Inr 8388607"
  by (rule index_string_roundtrip) simp_all

lemma index_string_limit: "string_index (index_string (2 ^ 23)) = Inr (- (2 ^ 23))"
  by (simp add: index_string_def string_index_def le32_bytes_def)

end
