(* ===== verification/Patch.thy ===== *)
theory Patch
  imports Patch_Index Midi_Buffer
begin

text \<open>
  Patch slots, the audio thread and the worker thread that loads and stops patches
  (firmware/patch.c, patch\_wrapper.cpp). The patch itself is a program loaded at run time: the
  ELF loader, the allocator, and the functions of the loaded image are parameters, and an
  instance of a patch is a value of type 'o in a heap of allocated objects.
\<close>

section \<open>State\<close>

datatype patchStatus = RUNNING | STOPPED | STOPPING | STARTFAILED

text \<open>
  What the firmware uses of a loaded image: its symbols, with None for a missing one, and the
  contents of an instance that is all zero bytes.
\<close>

record 'o elf_image =
  axoloti_api_version :: int
  getInstanceSize :: "int option"
  initInstance :: "('o \<Rightarrow> int \<times> 'o) option"
  zero_object :: 'o

record 'o patch =
  patchobject :: nat
  patchStatus :: patchStatus
  elf :: "'o elf_image option"
  patch_name :: "u8 list"
  patch_callback :: bool

datatype patch_source =
    Flash_File u32
  | Mem_File u32
  | Fatfs_File "u8 list"

text \<open>
  The environment: the methods of an instance, the ELF loader (which is given the old content of
  the pointer it fills), the allocator, the patch bank file and errorCodeToString's caller.
\<close>

record 'o patch_env =
  tick :: "'o \<Rightarrow> int list \<Rightarrow> 'o \<times> int list"
  midiInHandler :: "u32 \<Rightarrow> 'o \<Rightarrow> 'o"
  dispose :: "'o \<Rightarrow> 'o"
  load_elf :: "patch_source \<Rightarrow> 'o elf_image option \<Rightarrow> 'o elf_image option"
  ax_malloc :: "(nat \<rightharpoonup> 'o) \<Rightarrow> int \<Rightarrow> nat"
  bank_open :: int
  bank_read :: "nat \<Rightarrow> int + u8 list"
  bank_buf :: "u8 list"

text \<open>Calls that leave the component.\<close>

datatype patch_event =
    Mount_Attempt | Ui_Deinit_Patch | Ui_Init_Patch | Tx_PatchList | Enable_Blinker
  | Unload_Elf nat | Api_Version_Message int | Callback_Stop nat

record 'o patch_state =
  slots :: "'o patch list"
  heap :: "nat \<rightharpoonup> 'o"
  err_msg :: "patch_error option"
  underruns :: int
  ptrace :: "patch_event list"

definition n_patch_slots :: nat where "n_patch_slots = 4"

definition emit :: "patch_event \<Rightarrow> 'o patch_state \<Rightarrow> 'o patch_state" where
  "emit e st = st\<lparr>ptrace := ptrace st @ [e]\<rparr>"

definition patch_setError :: "patch_error \<Rightarrow> 'o patch_state \<Rightarrow> 'o patch_state" where
  "patch_setError e st = st\<lparr>err_msg := Some e\<rparr>"

definition patch_getError :: "'o patch_state \<Rightarrow> patch_error option \<times> 'o patch_state" where
  "patch_getError st = (err_msg st, st\<lparr>err_msg := None\<rparr>)"

definition upd_slot :: "nat \<Rightarrow> ('o patch \<Rightarrow> 'o patch) \<Rightarrow> 'o patch_state \<Rightarrow> 'o patch_state" where
  "upd_slot i f st = st\<lparr>slots := (slots st)[i := f (slots st ! i)]\<rparr>"

definition validatePatch :: "nat \<Rightarrow> fault + unit" where
  "validatePatch i = (if i < n_patch_slots then Inr () else Inl (SysHalt ''invalid patch arg''))"

definition InitPatch0 :: "nat \<Rightarrow> 'o patch_state \<Rightarrow> fault + 'o patch_state" where
  "InitPatch0 i st = sbind (validatePatch i) (\<lambda>_.
     Inr (upd_slot i (\<lambda>p. p\<lparr>patchStatus := STOPPED, patchobject := 0\<rparr>) st))"

definition start_dsp_thread :: "'o patch_state \<Rightarrow> 'o patch_state" where
  "start_dsp_thread st = st\<lparr>slots := map (\<lambda>p. p\<lparr>patchStatus := STOPPED\<rparr>) (slots st)\<rparr>"

text \<open>Releasing an object that is not allocated corrupts the heap.\<close>

definition ax_free :: "nat \<Rightarrow> 'o patch_state \<Rightarrow> fault + 'o patch_state" where
  "ax_free a st = (case heap st a of None \<Rightarrow> Inl Dangling | Some _ \<Rightarrow> Inr (st\<lparr>heap := (heap st)(a := None)\<rparr>))"

definition obj_at :: "nat \<Rightarrow> 'o patch_state \<Rightarrow> fault + 'o" where
  "obj_at a st = (case heap st a of None \<Rightarrow> Inl Dangling | Some ob \<Rightarrow> Inr ob)"

definition errorCodeToString :: "int \<Rightarrow> u8 list option" where
  "errorCodeToString c =
     (if c = 0x100 then Some [111, 117, 116, 32, 111, 102, 32, 109, 101, 109, 111, 114, 121]
      else if c = 0x101 then Some [102, 105, 108, 101, 32, 110, 111, 116, 32, 102, 111, 117, 110, 100]
      else if c = 0x102 then Some [102, 105, 108, 101, 32, 111, 112, 101, 114, 97, 116, 105, 111, 110,
        32, 102, 97, 105, 108, 101, 100]
      else None)"

section \<open>The audio cycle\<close>

definition BUFSIZE :: nat where "BUFSIZE = 16"

text \<open>The input is split into channels and shifted for four bits of headroom.\<close>

definition noninterleave :: "int list \<Rightarrow> int list" where
  "noninterleave inb = map (\<lambda>i. inb ! (2 * i) div 16) [0..<BUFSIZE]
     @ map (\<lambda>i. inb ! (2 * i + 1) div 16) [0..<BUFSIZE]"

definition add_patch_out :: "int list \<Rightarrow> int list \<Rightarrow> int list" where
  "add_patch_out outb pout =
     map (\<lambda>k. wrap32 (outb ! k + pout ! (if even k then k div 2 else BUFSIZE + k div 2)))
       [0..<2 * BUFSIZE]"

definition dsp_slot ::
    "'o patch_env \<Rightarrow> int list \<Rightarrow> nat \<Rightarrow> int list \<times> 'o patch_state \<Rightarrow> fault + (int list \<times> 'o patch_state)" where
  "dsp_slot env ninb i = (\<lambda>(outb, st).
     case patchStatus (slots st ! i) of
       RUNNING \<Rightarrow>
         (let a = patchobject (slots st ! i) in
          sbind (obj_at a st) (\<lambda>ob.
            case tick env ob ninb of (ob', pout) \<Rightarrow>
              Inr (add_patch_out outb pout, st\<lparr>heap := (heap st)(a \<mapsto> ob')\<rparr>)))
     | STOPPING \<Rightarrow> Inr (outb, upd_slot i (\<lambda>p. p\<lparr>patchStatus := STOPPED\<rparr>) st)
     | _ \<Rightarrow> Inr (outb, st))"

definition saturate_out :: "int list \<Rightarrow> int list" where
  "saturate_out outb = map (\<lambda>x. ssat x 28 * 16) outb"

definition dsp_audio ::
    "'o patch_env \<Rightarrow> int list \<Rightarrow> 'o patch_state \<Rightarrow> fault + (int list \<times> 'o patch_state)" where
  "dsp_audio env inb st =
     sbind (sfold (dsp_slot env (noninterleave inb)) [0..<n_patch_slots] (replicate (2 * BUFSIZE) 0, st))
       (\<lambda>(outb, st). Inr (saturate_out outb, st))"

definition midi_slot :: "'o patch_env \<Rightarrow> u32 \<Rightarrow> nat \<Rightarrow> 'o patch_state \<Rightarrow> fault + 'o patch_state" where
  "midi_slot env m i st =
     (if patchStatus (slots st ! i) = RUNNING then
        let a = patchobject (slots st ! i) in
        sbind (obj_at a st) (\<lambda>ob. Inr (st\<lparr>heap := (heap st)(a \<mapsto> midiInHandler env m ob)\<rparr>))
      else Inr st)"

definition midi_to_patches :: "'o patch_env \<Rightarrow> u32 \<Rightarrow> 'o patch_state \<Rightarrow> fault + 'o patch_state" where
  "midi_to_patches env m st = sfold (midi_slot env m) [0..<n_patch_slots] st"

text \<open>
  The loop over the MIDI input; one unit of fuel per message. The buffer holds at most 31, so
  with fuel 32 the loop ends.
\<close>

fun midi_loop ::
    "nat \<Rightarrow> 'o patch_env \<Rightarrow> midi_input_buffer \<Rightarrow> 'o patch_state \<Rightarrow>
     fault + (midi_input_buffer \<times> 'o patch_state) option" where
  "midi_loop 0 env b st = Inr None"
| "midi_loop (Suc n) env b st =
     (case midi_input_buffer_get b of
        (r, Some m, b') \<Rightarrow>
          (if r = MSG_OK then sbind (midi_to_patches env (msg_word m) st) (midi_loop n env b')
           else Inr (Some (b', st)))
      | (r, None, b') \<Rightarrow> Inr (Some (b', st)))"

text \<open>
  The load of the cycle in percent and the overload branch. The time of the cycle in clock ticks
  is a parameter; an overload silences the output.
\<close>

definition dspLoadPct :: "nat \<Rightarrow> nat" where
  "dspLoadPct dspTime = dspTime div (168000000 div 300000)"

definition dsp_cycle ::
    "'o patch_env \<Rightarrow> nat \<Rightarrow> int list \<Rightarrow> midi_input_buffer \<Rightarrow> 'o patch_state \<Rightarrow>
     fault + (int list \<times> midi_input_buffer \<times> 'o patch_state) option" where
  "dsp_cycle env dspTime inb b st =
     sbind (dsp_audio env inb st) (\<lambda>(outb, st).
     sbind (midi_loop 32 env b st) (\<lambda>res. Inr
       (case res of None \<Rightarrow> None
        | Some (b', st) \<Rightarrow>
            if dspLoadPct dspTime > 98 then
              Some (replicate (2 * BUFSIZE) 0, b', st\<lparr>underruns := underruns st + 1\<rparr>)
            else Some (outb, b', st))))"

section \<open>The worker thread\<close>

fun alloc_from :: "'o patch list \<Rightarrow> nat \<Rightarrow> nat option" where
  "alloc_from [] i = None"
| "alloc_from (p # ps) i =
     (if patchStatus p = STOPPED \<or> patchStatus p = STARTFAILED then Some i else alloc_from ps (i + 1))"

definition allocPatch :: "'o patch_state \<Rightarrow> nat option" where
  "allocPatch st = alloc_from (slots st) 0"

text \<open>
  threadLoadPatch and threadStopPatch, cut where they write data the audio thread reads or
  allocate: the audio thread has a higher priority and can run between any two of these steps.
\<close>

datatype worker =
    Idle
  | Load_Name "u8 list"         \<comment> \<open>the thread starts with its argument\<close>
  | Load_Elf nat "u8 list"      \<comment> \<open>the slot and the name are chosen\<close>
  | Alloc nat                   \<comment> \<open>the image is in the slot\<close>
  | Init nat                    \<comment> \<open>the instance is allocated and zeroed\<close>
  | Start nat                   \<comment> \<open>the instance is initialised\<close>
  | Stop_Req nat                \<comment> \<open>threadStopPatch starts\<close>
  | Stop_Wait nat               \<comment> \<open>its polling loop\<close>
  | Dispose nat
  | Free nat
  | Unload nat
  | Exit "nat option"           \<comment> \<open>chThdExit with the patch, None being 0\<close>

definition drop_e :: "nat \<Rightarrow> 'a list \<Rightarrow> fault + 'a list" where
  "drop_e n xs = (if n \<le> length xs then Inr (drop n xs) else Inl OutOfBounds)"

definition load_name ::
    "'o patch_env \<Rightarrow> u8 list \<Rightarrow> 'o patch_state \<Rightarrow> (fault + (worker \<times> 'o patch_state)) option" where
  "load_name env arg st =
     (let st = emit Mount_Attempt st;
          with_name = (\<lambda>name st.
            case allocPatch st of
              None \<Rightarrow> Inr (Exit None, patch_setError CantAllocatePatch st)
            | Some i \<Rightarrow> Inr (Load_Elf i name, emit Ui_Deinit_Patch st)) in
      case nth_e arg 0 of Inl e \<Rightarrow> Some (Inl e)
      | Inr c \<Rightarrow>
          if c = 0 then
            (case string_index arg of Inl e \<Rightarrow> Some (Inl e)
             | Inr index \<Rightarrow>
                 map_option (\<lambda>res. sbind res (\<lambda>(r, err, name).
                   let st = (case err of None \<Rightarrow> st | Some e \<Rightarrow> patch_setError e st) in
                   if r \<noteq> 0 then Inr (Exit None, st) else with_name (name @ [0]) st))
                   (getPatchNameFromIndex (bank_open env) (bank_read env) (bank_buf env) index))
          else Some (with_name arg st))"

definition strncpy31 :: "u8 list \<Rightarrow> u8 list \<Rightarrow> u8 list" where
  "strncpy31 s old = take 31 (s @ replicate 31 0) @ drop 31 old"

definition firmware_api_version :: int where "firmware_api_version = 0x0200"

definition load_source :: "u8 list \<Rightarrow> fault + (patch_source \<times> u8 list)" where
  "load_source name =
     sbind (nth_e name 0) (\<lambda>c.
       if c = 64 then
         sbind (drop_e 1 name) (\<lambda>digits.
         sbind (addr_from_hexstring digits) (\<lambda>a.
         sbind (drop_e 10 name) (\<lambda>rest.
         sbind (c_string rest) (\<lambda>s.
         Inr (if signed_drop_bit 24 a = 0x08 then Flash_File a else Mem_File a, s)))))
       else sbind (c_string name) (\<lambda>s. Inr (Fatfs_File s, s)))"

definition load_image :: "'o patch_env \<Rightarrow> nat \<Rightarrow> u8 list \<Rightarrow> 'o patch_state \<Rightarrow> fault + (worker \<times> 'o patch_state)" where
  "load_image env i name st =
     sbind (load_source name) (\<lambda>(src, s).
       let st = upd_slot i (\<lambda>p. p\<lparr>elf := load_elf env src (elf p),
                                  patch_name := strncpy31 s (patch_name p)\<rparr>) st in
       case elf (slots st ! i) of
         None \<Rightarrow> Inr (Exit None, patch_setError FailedToLoad st)
       | Some im \<Rightarrow> sbind (validatePatch i) (\<lambda>_.
           let v = axoloti_api_version im;
               st = (if v \<noteq> firmware_api_version then emit (Api_Version_Message v) st else st) in
           Inr (Alloc i, emit Mount_Attempt (emit Ui_Deinit_Patch st))))"

definition elf_e :: "nat \<Rightarrow> 'o patch_state \<Rightarrow> fault + 'o elf_image" where
  "elf_e i st = (case elf (slots st ! i) of None \<Rightarrow> Inl NullCall | Some im \<Rightarrow> Inr im)"

definition alloc_instance :: "'o patch_env \<Rightarrow> nat \<Rightarrow> 'o patch_state \<Rightarrow> fault + (worker \<times> 'o patch_state)" where
  "alloc_instance env i st =
     sbind (elf_e i st) (\<lambda>im.
       case getInstanceSize im of
         None \<Rightarrow> Inr (Exit None, patch_setError MissingGetInstanceSize st)
       | Some sz \<Rightarrow>
           (let a = ax_malloc env (heap st) sz;
                st = upd_slot i (\<lambda>p. p\<lparr>patchobject := a\<rparr>) st in
            if a = 0 then Inr (Exit None, patch_setError OutOfMemory st)
            else Inr (Init i, st\<lparr>heap := (heap st)(a \<mapsto> zero_object im)\<rparr>)))"

definition init_instance :: "nat \<Rightarrow> 'o patch_state \<Rightarrow> fault + (worker \<times> 'o patch_state)" where
  "init_instance i st =
     (let a = patchobject (slots st ! i) in
      sbind (elf_e i st) (\<lambda>im.
      case initInstance im of
        None \<Rightarrow> sbind (ax_free a st) (\<lambda>st. Inr (Exit None, patch_setError MissingInitInstance st))
      | Some init \<Rightarrow>
          sbind (obj_at a st) (\<lambda>ob.
            case init ob of (result, ob') \<Rightarrow>
              let st = st\<lparr>heap := (heap st)(a \<mapsto> ob')\<rparr> in
              if result \<noteq> 0 then
                sbind (ax_free a (patch_setError
                    (case errorCodeToString result of None \<Rightarrow> InitFailed result
                     | Some s \<Rightarrow> InitFailedReason s) st))
                  (\<lambda>st. Inr (Exit None, st))
              else Inr (Start i, st))))"

definition start_instance :: "nat \<Rightarrow> 'o patch_state \<Rightarrow> fault + (worker \<times> 'o patch_state)" where
  "start_instance i st =
     (let st = upd_slot i (\<lambda>p. p\<lparr>patchStatus := RUNNING\<rparr>) st in
      Inr (Exit (Some i), emit Tx_PatchList ((emit Ui_Init_Patch st)\<lparr>underruns := 0\<rparr>)))"

definition stop_request :: "nat \<Rightarrow> 'o patch_state \<Rightarrow> fault + (worker \<times> 'o patch_state)" where
  "stop_request i st = sbind (validatePatch i) (\<lambda>_.
     if patchStatus (slots st ! i) = RUNNING then
       Inr (Stop_Wait i, upd_slot i (\<lambda>p. p\<lparr>patchStatus := STOPPING\<rparr>) st)
     else Inr (Exit None, st))"

definition stop_wait :: "nat \<Rightarrow> 'o patch_state \<Rightarrow> fault + (worker \<times> 'o patch_state)" where
  "stop_wait i st =
     (if patchStatus (slots st ! i) = STOPPED then sbind (validatePatch i) (\<lambda>_. Inr (Dispose i, st))
      else Inr (Stop_Wait i, st))"

definition stop_dispose :: "'o patch_env \<Rightarrow> nat \<Rightarrow> 'o patch_state \<Rightarrow> fault + (worker \<times> 'o patch_state)" where
  "stop_dispose env i st =
     (let a = patchobject (slots st ! i) in
      sbind (obj_at a st) (\<lambda>ob. Inr (Free i, st\<lparr>heap := (heap st)(a \<mapsto> dispose env ob)\<rparr>)))"

definition stop_free :: "nat \<Rightarrow> 'o patch_state \<Rightarrow> fault + (worker \<times> 'o patch_state)" where
  "stop_free i st =
     sbind (ax_free (patchobject (slots st ! i)) st) (\<lambda>st.
     sbind (InitPatch0 i (emit Ui_Deinit_Patch st)) (\<lambda>st.
     Inr (Unload i, emit Tx_PatchList (emit Enable_Blinker st))))"

definition stop_unload :: "nat \<Rightarrow> 'o patch_state \<Rightarrow> fault + (worker \<times> 'o patch_state)" where
  "stop_unload i st =
     (let st = (if elf (slots st ! i) \<noteq> None
                then upd_slot i (\<lambda>p. p\<lparr>elf := None\<rparr>) (emit (Unload_Elf i) st) else st) in
      Inr (Exit None, upd_slot i (\<lambda>p. p\<lparr>patchStatus := STOPPED\<rparr>) st))"

fun worker_step ::
    "'o patch_env \<Rightarrow> worker \<Rightarrow> 'o patch_state \<Rightarrow> (fault + (worker \<times> 'o patch_state)) option" where
  "worker_step env (Load_Name arg) st = load_name env arg st"
| "worker_step env (Load_Elf i name) st = Some (load_image env i name st)"
| "worker_step env (Alloc i) st = Some (alloc_instance env i st)"
| "worker_step env (Init i) st = Some (init_instance i st)"
| "worker_step env (Start i) st = Some (start_instance i st)"
| "worker_step env (Stop_Req i) st = Some (stop_request i st)"
| "worker_step env (Stop_Wait i) st = Some (stop_wait i st)"
| "worker_step env (Dispose i) st = Some (stop_dispose env i st)"
| "worker_step env (Free i) st = Some (stop_free i st)"
| "worker_step env (Unload i) st = Some (stop_unload i st)"
| "worker_step env Idle st = Some (Inr (Idle, st))"
| "worker_step env (Exit r) st = Some (Inr (Exit r, st))"

text \<open>
  The firmware as a step relation. The worker mutex lets a client start a worker only when none
  runs; patch\_load then stores the callback in the slot of the patch it got, patch\_stop calls
  the callback it read before.
\<close>

inductive sys_step ::
    "'o patch_env \<Rightarrow> worker \<times> 'o patch_state \<Rightarrow> worker \<times> 'o patch_state \<Rightarrow> bool" for env where
  dsp: "dsp_cycle env dspTime inb b st = Inr (Some (outb, b', st')) \<Longrightarrow> sys_step env (w, st) (w, st')"
| work: "worker_step env w st = Some (Inr (w', st')) \<Longrightarrow> sys_step env (w, st) (w', st')"
| patch_load: "sys_step env (Idle, st) (Load_Name arg, st)"
| patch_stop: "i < n_patch_slots \<Longrightarrow> sys_step env (Idle, st) (Stop_Req i, st)"
| loaded: "sys_step env (Exit (Some i), st) (Idle, upd_slot i (\<lambda>p. p\<lparr>patch_callback := cb\<rparr>) st)"
| finished: "sys_step env (Exit None, st) (Idle, st)"
| called_back: "sys_step env (Exit None, st) (Idle, emit (Callback_Stop i) st)"
| get_error: "sys_step env (w, st) (w, snd (patch_getError st))"

definition reachable :: "'o patch_env \<Rightarrow> 'o patch_state \<Rightarrow> worker \<times> 'o patch_state \<Rightarrow> bool" where
  "reachable env st0 s \<longleftrightarrow> (sys_step env)\<^sup>*\<^sup>* (Idle, st0) s"

section \<open>The calls of the clients, run to their end\<close>

text \<open>
  A worker runs until it exits. Before each of its steps the audio thread may run: cyc is what
  it does to the state. One unit of fuel is one step.
\<close>

fun run_worker ::
    "nat \<Rightarrow> 'o patch_env \<Rightarrow> ('o patch_state \<Rightarrow> fault + 'o patch_state) \<Rightarrow> worker \<Rightarrow> 'o patch_state \<Rightarrow>
     (fault + (nat option \<times> 'o patch_state)) option" where
  "run_worker 0 env cyc w st = None"
| "run_worker (Suc n) env cyc w st =
     (case w of Exit r \<Rightarrow> Some (Inr (r, st))
      | _ \<Rightarrow>
        (case cyc st of Inl e \<Rightarrow> Some (Inl e)
         | Inr st \<Rightarrow>
           (case worker_step env w st of None \<Rightarrow> None
            | Some (Inl e) \<Rightarrow> Some (Inl e)
            | Some (Inr (w', st)) \<Rightarrow> run_worker n env cyc w' st)))"

definition patch_load ::
    "nat \<Rightarrow> 'o patch_env \<Rightarrow> ('o patch_state \<Rightarrow> fault + 'o patch_state) \<Rightarrow> u8 list \<Rightarrow> bool \<Rightarrow> 'o patch_state \<Rightarrow>
     (fault + (nat option \<times> 'o patch_state)) option" where
  "patch_load n env cyc name cb st =
     map_option (\<lambda>res. sbind res (\<lambda>(r, st). Inr
       (case r of None \<Rightarrow> (None, st)
        | Some i \<Rightarrow> (Some i, upd_slot i (\<lambda>p. p\<lparr>patch_callback := cb\<rparr>) st))))
       (run_worker n env cyc (Load_Name name) st)"

definition patch_loadIndex ::
    "nat \<Rightarrow> 'o patch_env \<Rightarrow> ('o patch_state \<Rightarrow> fault + 'o patch_state) \<Rightarrow> int \<Rightarrow> bool \<Rightarrow> 'o patch_state \<Rightarrow>
     (fault + (nat option \<times> 'o patch_state)) option" where
  "patch_loadIndex n env cyc index cb st =
     (if index < 0 \<or> index > 2 ^ 23 then Some (Inl (SysHalt ''LoadPatchIndexed arg overflow''))
      else patch_load n env cyc (index_string index) cb st)"

definition patch_loadStartSD ::
    "nat \<Rightarrow> 'o patch_env \<Rightarrow> ('o patch_state \<Rightarrow> fault + 'o patch_state) \<Rightarrow> bool \<Rightarrow> bool \<Rightarrow> 'o patch_state \<Rightarrow>
     (fault + (nat option \<times> 'o patch_state)) option" where
  "patch_loadStartSD n env cyc fs_ready cb st =
     (if \<not> fs_ready then Some (Inr (None, st))
      else patch_load n env cyc [47, 115, 116, 97, 114, 116, 46, 101, 108, 102, 0] cb st)"

definition patch_stop_slot ::
    "nat \<Rightarrow> 'o patch_env \<Rightarrow> ('o patch_state \<Rightarrow> fault + 'o patch_state) \<Rightarrow> nat \<Rightarrow> 'o patch_state \<Rightarrow>
     (fault + 'o patch_state) option" where
  "patch_stop_slot n env cyc i st =
     (let cb = patch_callback (slots st ! i) in
      map_option (\<lambda>res. sbind res (\<lambda>(_, st). Inr (if cb then emit (Callback_Stop i) st else st)))
        (run_worker n env cyc (Stop_Req i) st))"

fun patch_stop_all ::
    "nat \<Rightarrow> 'o patch_env \<Rightarrow> ('o patch_state \<Rightarrow> fault + 'o patch_state) \<Rightarrow> nat list \<Rightarrow> 'o patch_state \<Rightarrow>
     (fault + 'o patch_state) option" where
  "patch_stop_all n env cyc [] st = Some (Inr st)"
| "patch_stop_all n env cyc (i # is) st =
     (if patchStatus (slots st ! i) = RUNNING then
        (case patch_stop_slot n env cyc i st of None \<Rightarrow> None
         | Some (Inl e) \<Rightarrow> Some (Inl e)
         | Some (Inr st) \<Rightarrow> patch_stop_all n env cyc is st)
      else patch_stop_all n env cyc is st)"

definition patch_stop ::
    "nat \<Rightarrow> 'o patch_env \<Rightarrow> ('o patch_state \<Rightarrow> fault + 'o patch_state) \<Rightarrow> nat option \<Rightarrow> 'o patch_state \<Rightarrow>
     (fault + 'o patch_state) option" where
  "patch_stop n env cyc p st =
     (case p of None \<Rightarrow> patch_stop_all n env cyc [0..<n_patch_slots] st
      | Some i \<Rightarrow> patch_stop_slot n env cyc i st)"

section \<open>The invariant\<close>

abbreviation status_of :: "'o patch_state \<Rightarrow> nat \<Rightarrow> patchStatus" where
  "status_of st i \<equiv> patchStatus (slots st ! i)"

abbreviation object_of :: "'o patch_state \<Rightarrow> nat \<Rightarrow> nat" where
  "object_of st i \<equiv> patchobject (slots st ! i)"

text \<open>The slots whose pointer is the pointer to an allocated instance.\<close>

definition owners :: "worker \<Rightarrow> 'o patch_state \<Rightarrow> nat set" where
  "owners w st = {i. i < n_patch_slots \<and>
     (status_of st i = RUNNING \<or> w \<in> {Init i, Start i, Stop_Wait i, Dispose i, Free i})}"

fun worker_ok :: "worker \<Rightarrow> 'o patch_state \<Rightarrow> bool" where
  "worker_ok (Load_Elf i _) st \<longleftrightarrow> i < n_patch_slots \<and> status_of st i \<in> {STOPPED, STARTFAILED}"
| "worker_ok (Alloc i) st \<longleftrightarrow>
     i < n_patch_slots \<and> status_of st i \<in> {STOPPED, STARTFAILED} \<and> elf (slots st ! i) \<noteq> None"
| "worker_ok (Init i) st \<longleftrightarrow>
     i < n_patch_slots \<and> status_of st i \<in> {STOPPED, STARTFAILED} \<and> elf (slots st ! i) \<noteq> None"
| "worker_ok (Start i) st \<longleftrightarrow> i < n_patch_slots \<and> status_of st i \<in> {STOPPED, STARTFAILED}"
| "worker_ok (Stop_Req i) st \<longleftrightarrow> i < n_patch_slots"
| "worker_ok (Stop_Wait i) st \<longleftrightarrow> i < n_patch_slots \<and> status_of st i \<in> {STOPPING, STOPPED}"
| "worker_ok (Dispose i) st \<longleftrightarrow> i < n_patch_slots \<and> status_of st i = STOPPED"
| "worker_ok (Free i) st \<longleftrightarrow> i < n_patch_slots \<and> status_of st i = STOPPED"
| "worker_ok (Unload i) st \<longleftrightarrow> i < n_patch_slots \<and> status_of st i = STOPPED"
| "worker_ok _ st \<longleftrightarrow> True"

definition patch_inv :: "worker \<Rightarrow> 'o patch_state \<Rightarrow> bool" where
  "patch_inv w st \<longleftrightarrow> length (slots st) = n_patch_slots \<and>
     dom (heap st) = object_of st ` owners w st \<and> inj_on (object_of st) (owners w st) \<and>
     (\<forall>i < n_patch_slots. status_of st i = STOPPING \<longrightarrow> w = Stop_Wait i) \<and> worker_ok w st"

text \<open>The allocator hands out memory that is not in use; 0 is its failure.\<close>

definition malloc_fresh :: "'o patch_env \<Rightarrow> bool" where
  "malloc_fresh env \<longleftrightarrow> (\<forall>h n. ax_malloc env h n = 0 \<or> h (ax_malloc env h n) = None)"

lemma slots_upd_slot [simp]:
  "length (slots (upd_slot i f st)) = length (slots st)"
  "i < length (slots st) \<Longrightarrow> slots (upd_slot i f st) ! i = f (slots st ! i)"
  "i \<noteq> j \<Longrightarrow> slots (upd_slot i f st) ! j = slots st ! j"
  "heap (upd_slot i f st) = heap st"
  by (simp_all add: upd_slot_def)

lemma state_frame [simp]:
  "slots (emit e st) = slots st" "heap (emit e st) = heap st"
  "slots (patch_setError pe st) = slots st" "heap (patch_setError pe st) = heap st"
  by (simp_all add: emit_def patch_setError_def)

text \<open>What an audio cycle may change of the slots and the heap.\<close>

definition slot_rel :: "'o patch \<Rightarrow> 'o patch \<Rightarrow> bool" where
  "slot_rel p q \<longleftrightarrow> q = p \<or> patchStatus p = STOPPING \<and> q = p\<lparr>patchStatus := STOPPED\<rparr>"

lemma slot_rel_refl [simp]: "slot_rel p p"
  by (simp add: slot_rel_def)

lemma slot_rel_trans: "slot_rel p q \<Longrightarrow> slot_rel q r \<Longrightarrow> slot_rel p r"
  by (auto simp: slot_rel_def)

lemma slot_relD:
  assumes "slot_rel p q"
  shows "patchobject q = patchobject p" and "elf q = elf p"
    and "patchStatus q = RUNNING \<longleftrightarrow> patchStatus p = RUNNING"
    and "patchStatus q = STOPPING \<Longrightarrow> patchStatus p = STOPPING"
    and "patchStatus p \<in> {STOPPED, STARTFAILED} \<Longrightarrow> q = p"
    and "patchStatus p \<in> {STOPPING, STOPPED} \<Longrightarrow> patchStatus q \<in> {STOPPING, STOPPED}"
  using assms by (auto simp: slot_rel_def)

definition dsp_rel :: "'o patch_state \<Rightarrow> 'o patch_state \<Rightarrow> bool" where
  "dsp_rel st st' \<longleftrightarrow> dom (heap st') = dom (heap st) \<and> list_all2 slot_rel (slots st) (slots st')"

lemma dsp_rel_refl [simp]: "dsp_rel st st"
  by (simp add: dsp_rel_def list_all2_refl)

lemma dsp_rel_trans: "dsp_rel a b \<Longrightarrow> dsp_rel b c \<Longrightarrow> dsp_rel a c"
  using list_all2_trans [of slot_rel slot_rel slot_rel, OF slot_rel_trans] by (auto simp: dsp_rel_def)

lemma dsp_rel_slot: "dsp_rel st st' \<Longrightarrow> i < length (slots st) \<Longrightarrow> slot_rel (slots st ! i) (slots st' ! i)"
  by (simp add: dsp_rel_def list_all2_conv_all_nth)

lemma dsp_rel_length: "dsp_rel st st' \<Longrightarrow> length (slots st') = length (slots st)"
  by (auto simp: dsp_rel_def dest: list_all2_lengthD)

lemma dsp_rel_heap: "a \<in> dom (heap st) \<Longrightarrow> dsp_rel st (st\<lparr>heap := (heap st)(a \<mapsto> ob)\<rparr>)"
  by (auto simp: dsp_rel_def list_all2_refl)

lemma dsp_rel_stopped:
  "i < length (slots st) \<Longrightarrow> status_of st i = STOPPING \<Longrightarrow>
   dsp_rel st (upd_slot i (\<lambda>p. p\<lparr>patchStatus := STOPPED\<rparr>) st)"
  by (auto simp: dsp_rel_def list_all2_conv_all_nth upd_slot_def nth_list_update slot_rel_def)

text \<open>Every running patch has a live instance; this is what the audio thread needs.\<close>

definition running_live :: "'o patch_state \<Rightarrow> bool" where
  "running_live st \<longleftrightarrow> length (slots st) = n_patch_slots \<and>
     (\<forall>i < n_patch_slots. status_of st i = RUNNING \<longrightarrow> object_of st i \<in> dom (heap st))"

lemma running_live_rel:
  assumes "running_live st" and "dsp_rel st st'"
  shows "running_live st'"
  unfolding running_live_def
proof (intro conjI allI impI)
  show "length (slots st') = n_patch_slots"
    using assms by (simp add: running_live_def dsp_rel_length)
  fix i assume i: "i < n_patch_slots" "status_of st' i = RUNNING"
  then have rel: "slot_rel (slots st ! i) (slots st' ! i)"
    using assms(1) dsp_rel_slot [OF assms(2)] by (simp add: running_live_def)
  then have "object_of st i \<in> dom (heap st)"
    using slot_relD(3) [OF rel] assms(1) i by (simp add: running_live_def)
  then show "object_of st' i \<in> dom (heap st')"
    using slot_relD(1) [OF rel] assms(2) by (simp add: dsp_rel_def)
qed

lemma dsp_slot_ok:
  assumes "running_live st" and "i < n_patch_slots"
  shows "\<exists>outb' st'. dsp_slot env inb i (outb, st) = Inr (outb', st') \<and> dsp_rel st st'"
proof (cases "status_of st i")
  case RUNNING
  then have "object_of st i \<in> dom (heap st)" using assms by (simp add: running_live_def)
  then show ?thesis using RUNNING dsp_rel_heap [of "object_of st i" st]
    by (auto simp: dsp_slot_def obj_at_def Let_def split: prod.splits)
next
  case STOPPING
  then show ?thesis using dsp_rel_stopped [of i st] assms
    by (simp add: dsp_slot_def running_live_def)
qed (simp_all add: dsp_slot_def)

lemma midi_slot_ok:
  assumes "running_live st" and "i < n_patch_slots"
  shows "\<exists>st'. midi_slot env m i st = Inr st' \<and> dsp_rel st st'"
proof (cases "status_of st i = RUNNING")
  case True
  then have "object_of st i \<in> dom (heap st)" using assms by (simp add: running_live_def)
  then show ?thesis using True dsp_rel_heap [of "object_of st i" st]
    by (auto simp: midi_slot_def obj_at_def Let_def)
qed (simp add: midi_slot_def)

lemma dsp_audio_ok:
  assumes "running_live st"
  shows "\<exists>outb st'. dsp_audio env inb st = Inr (outb, st') \<and> dsp_rel st st'"
proof -
  let ?P = "\<lambda>(outb :: int list, s). dsp_rel st s"
  have "\<exists>r'. sfold (dsp_slot env (noninterleave inb)) [0..<n_patch_slots]
      (replicate (2 * BUFSIZE) 0, st) = Inr r' \<and> ?P r'"
  proof (rule sfold_inv)
    fix i and r :: "int list \<times> 'a patch_state"
    assume i: "i \<in> set [0..<n_patch_slots]" and r: "?P r"
    obtain outb s where r_eq: "r = (outb, s)" by (cases r)
    then have "dsp_rel st s" using r by simp
    then show "\<exists>r'. dsp_slot env (noninterleave inb) i r = Inr r' \<and> ?P r'"
      using dsp_slot_ok [OF running_live_rel [OF assms], of s i env "noninterleave inb" outb] i
      by (auto simp: r_eq intro: dsp_rel_trans)
  qed simp
  then show ?thesis by (auto simp: dsp_audio_def)
qed

lemma midi_to_patches_ok:
  assumes "running_live st"
  shows "\<exists>st'. midi_to_patches env m st = Inr st' \<and> dsp_rel st st'"
  unfolding midi_to_patches_def
proof (rule sfold_inv)
  fix i s assume "i \<in> set [0..<n_patch_slots]" and "dsp_rel st s"
  then show "\<exists>s'. midi_slot env m i s = Inr s' \<and> dsp_rel st s'"
    using midi_slot_ok [OF running_live_rel [OF assms], of s i env m] by (auto intro: dsp_rel_trans)
qed simp

text \<open>The MIDI part of the cycle ends because every message makes the queue shorter.\<close>

lemma midi_loop_ok:
  "running_live st \<Longrightarrow> fifo_inv b \<Longrightarrow> length (queued b) < n \<Longrightarrow>
   \<exists>b' st'. midi_loop n env b st = Inr (Some (b', st')) \<and> fifo_inv b' \<and> queued b' = [] \<and> dsp_rel st st'"
proof (induction n arbitrary: b st)
  case (Suc n)
  show ?case
  proof (cases "queued b")
    case Nil
    then show ?thesis using inq.deq_empty [OF Suc.prems(2) Nil] Suc.prems(2) by simp
  next
    case (Cons m ms)
    then obtain b1 where b1: "midi_input_buffer_get b = (MSG_OK, Some m, b1)" "fifo_inv b1" "queued b1 = ms"
      using inq.deq_nonempty [OF Suc.prems(2) Cons] by blast
    obtain st1 where st1: "midi_to_patches env (msg_word m) st = Inr st1" "dsp_rel st st1"
      using midi_to_patches_ok [OF Suc.prems(1)] by blast
    have "length (queued b1) < n" using Suc.prems(3) Cons b1(3) by simp
    then obtain b2 st2 where "midi_loop n env b1 st1 = Inr (Some (b2, st2))" "fifo_inv b2"
        "queued b2 = []" "dsp_rel st1 st2"
      using Suc.IH [OF running_live_rel [OF Suc.prems(1) st1(2)] b1(2)] by blast
    then show ?thesis using b1 st1 dsp_rel_trans by (simp, blast)
  qed
qed simp

lemma dsp_rel_underruns: "dsp_rel st st' \<Longrightarrow> dsp_rel st (st'\<lparr>underruns := u\<rparr>)"
  by (simp add: dsp_rel_def)

lemma dsp_cycle_ok:
  assumes "running_live st" and "fifo_inv b"
  shows "\<exists>outb b' st'. dsp_cycle env t inb b st = Inr (Some (outb, b', st')) \<and>
    fifo_inv b' \<and> queued b' = [] \<and> dsp_rel st st'"
proof -
  obtain outb st1 where st1: "dsp_audio env inb st = Inr (outb, st1)" "dsp_rel st st1"
    using dsp_audio_ok [OF assms(1)] by blast
  have "length (queued b) < 32" using pending_le_31 [of b] by simp
  then obtain b' st2 where st2: "midi_loop 32 env b st1 = Inr (Some (b', st2))" "fifo_inv b'"
      "queued b' = []" "dsp_rel st1 st2"
    using midi_loop_ok [OF running_live_rel [OF assms(1) st1(2)] assms(2)] by blast
  with st1 show ?thesis
    using dsp_rel_trans [OF st1(2) st2(4)] dsp_rel_underruns [of st st2]
    by (simp add: dsp_cycle_def)
qed

text \<open>Whatever the buffer does, a cycle that ends has changed the state only as allowed.\<close>

lemma midi_loop_rel:
  "running_live st \<Longrightarrow> midi_loop n env b st = Inr (Some (b', st')) \<Longrightarrow> dsp_rel st st'"
proof (induction n arbitrary: b st)
  case (Suc n)
  obtain r mo b1 where get: "midi_input_buffer_get b = (r, mo, b1)" by (cases "midi_input_buffer_get b")
  show ?case
  proof (cases "mo \<noteq> None \<and> r = MSG_OK")
    case True
    then obtain m where m: "mo = Some m" by blast
    obtain st1 where st1: "midi_to_patches env (msg_word m) st = Inr st1" "dsp_rel st st1"
      using midi_to_patches_ok [OF Suc.prems(1)] by blast
    then have "dsp_rel st1 st'"
      using Suc.IH [OF running_live_rel [OF Suc.prems(1) st1(2)]] Suc.prems(2) True get m by simp
    with st1(2) show ?thesis by (rule dsp_rel_trans)
  next
    case False
    then show ?thesis using Suc.prems(2) get by (auto split: option.splits)
  qed
qed simp

lemma dsp_cycle_rel:
  assumes "running_live st" and "dsp_cycle env t inb b st = Inr (Some (outb, b', st'))"
  shows "dsp_rel st st'"
proof -
  obtain out1 st1 where st1: "dsp_audio env inb st = Inr (out1, st1)" "dsp_rel st st1"
    using dsp_audio_ok [OF assms(1)] by blast
  then obtain b2 st2 where st2: "midi_loop 32 env b st1 = Inr (Some (b2, st2))"
      and st': "st' = st2 \<or> st' = st2\<lparr>underruns := underruns st2 + 1\<rparr>"
    using assms(2) by (auto simp: dsp_cycle_def sbind_eq_Inr split: option.splits if_splits)
  have "dsp_rel st1 st2" by (rule midi_loop_rel [OF running_live_rel [OF assms(1) st1(2)] st2])
  then have "dsp_rel st st2" using st1(2) dsp_rel_trans by blast
  with st' show ?thesis using dsp_rel_underruns by blast
qed

section \<open>Every step keeps the invariant\<close>

lemma patch_inv_running_live: "patch_inv w st \<Longrightarrow> running_live st"
  by (auto simp: patch_inv_def running_live_def owners_def)

lemma owners_rel:
  assumes "dsp_rel st st'" and "length (slots st) = n_patch_slots"
  shows "owners w st' = owners w st"
proof -
  have "status_of st' i = RUNNING \<longleftrightarrow> status_of st i = RUNNING" if "i < n_patch_slots" for i
    using slot_relD(3) [OF dsp_rel_slot [OF assms(1)]] that assms(2) by simp
  then show ?thesis by (auto simp: owners_def)
qed

lemma worker_ok_rel:
  assumes "dsp_rel st st'" and "length (slots st) = n_patch_slots" and "worker_ok w st"
  shows "worker_ok w st'"
proof -
  have r: "slot_rel (slots st ! i) (slots st' ! i)" if "i < n_patch_slots" for i
    using dsp_rel_slot [OF assms(1)] that assms(2) by simp
  show ?thesis using assms(3)
  proof (cases w)
    case (Stop_Wait i)
    then show ?thesis using assms(3) slot_relD(6) [OF r, of i] by auto
  qed (use assms(3) slot_relD(5) [OF r] in auto)
qed

lemma patch_inv_rel:
  assumes "patch_inv w st" and rel: "dsp_rel st st'"
  shows "patch_inv w st'"
proof -
  have len: "length (slots st) = n_patch_slots" using assms by (simp add: patch_inv_def)
  have r: "slot_rel (slots st ! i) (slots st' ! i)" if "i < n_patch_slots" for i
    using dsp_rel_slot [OF rel] that len by simp
  have ob: "object_of st' i = object_of st i" if "i \<in> owners w st" for i
    using that slot_relD(1) [OF r] by (simp add: owners_def)
  have "inj_on (object_of st') (owners w st)"
    using assms(1) ob by (auto simp: patch_inv_def inj_on_def)
  moreover have "object_of st' ` owners w st = object_of st ` owners w st"
    using ob by (auto simp: image_def)
  moreover have "status_of st' i = STOPPING \<longrightarrow> w = Stop_Wait i" if "i < n_patch_slots" for i
    using slot_relD(4) [OF r [OF that]] that assms(1) by (auto simp: patch_inv_def)
  moreover have "dom (heap st') = dom (heap st)" using rel by (simp add: dsp_rel_def)
  moreover have "length (slots st') = n_patch_slots" using len rel by (simp add: dsp_rel_length)
  ultimately show ?thesis
    using assms(1) worker_ok_rel [OF rel len, of w] owners_rel [OF rel len, of w]
    by (simp add: patch_inv_def)
qed

lemma owners_frame:
  "(\<And>i. i < n_patch_slots \<Longrightarrow> status_of st' i = status_of st i) \<Longrightarrow> owners w st' = owners w st"
  by (auto simp: owners_def)

lemma alloc_from_Some:
  "alloc_from ps k = Some i \<Longrightarrow>
   k \<le> i \<and> i - k < length ps \<and> patchStatus (ps ! (i - k)) \<in> {STOPPED, STARTFAILED}"
proof (induction ps arbitrary: k)
  case (Cons p ps)
  show ?case
  proof (cases "patchStatus p = STOPPED \<or> patchStatus p = STARTFAILED")
    case False
    then have "k + 1 \<le> i \<and> i - (k + 1) < length ps \<and>
        patchStatus (ps ! (i - (k + 1))) \<in> {STOPPED, STARTFAILED}"
      using Cons.IH [of "k + 1"] Cons.prems by simp
    moreover from this have "i - k = Suc (i - (k + 1))" by (elim conjE) simp
    ultimately show ?thesis by simp
  qed (use Cons.prems in auto)
qed simp

lemma allocPatch_Some:
  "patch_inv w st \<Longrightarrow> allocPatch st = Some i \<Longrightarrow>
   i < n_patch_slots \<and> status_of st i \<in> {STOPPED, STARTFAILED}"
  using alloc_from_Some [of "slots st" 0 i] by (simp add: allocPatch_def patch_inv_def)

text \<open>Steps that leave slots and heap alone.\<close>

lemma patch_inv_quiet:
  assumes "patch_inv w st" and "slots st' = slots st" and "heap st' = heap st"
    and "owners w' st = owners w st" and "worker_ok w' st'"
    and "\<And>i. w = Stop_Wait i \<Longrightarrow> i < n_patch_slots \<Longrightarrow> status_of st i = STOPPING \<Longrightarrow> w' = Stop_Wait i"
  shows "patch_inv w' st'"
proof -
  have "owners w' st' = owners w st" using assms(2,4) by (simp add: owners_def)
  then show ?thesis using assms by (auto simp: patch_inv_def)
qed

lemma load_name_inv:
  assumes "patch_inv (Load_Name arg) st" and "load_name env arg st = Some (Inr (w', st'))"
  shows "patch_inv w' st'"
proof -
  have "slots st' = slots st \<and> heap st' = heap st \<and>
      (w' = Exit None \<or> (\<exists>i name. w' = Load_Elf i name \<and> allocPatch st = Some i))"
    using assms(2)
    by (auto simp: load_name_def Let_def allocPatch_def sbind_eq_Inr split: sum.splits if_splits option.splits)
  moreover have "owners (Exit None) st = owners (Load_Name arg) st"
      "\<And>i name. owners (Load_Elf i name) st = owners (Load_Name arg) st"
    by (simp_all add: owners_def)
  ultimately show ?thesis using allocPatch_Some [OF assms(1)]
    by (intro patch_inv_quiet [OF assms(1)]) auto
qed

lemma load_image_inv:
  assumes "patch_inv (Load_Elf i name) st" and "load_image env i name st = Inr (w', st')"
  shows "patch_inv w' st'"
proof -
  have i: "i < n_patch_slots" "i < length (slots st)" "status_of st i \<in> {STOPPED, STARTFAILED}"
    using assms(1) by (auto simp: patch_inv_def)
  obtain f where st': "slots st' = slots (upd_slot i f st)" "heap st' = heap st"
      and f: "\<And>p. patchStatus (f p) = patchStatus p" "\<And>p. patchobject (f p) = patchobject p"
      and w': "w' = Exit None \<or> w' = Alloc i \<and> elf (slots st' ! i) \<noteq> None"
    using assms(2) i(2)
    by (auto simp: load_image_def Let_def sbind_eq_Inr split: option.splits if_splits)
  have same: "status_of st' j = status_of st j" "object_of st' j = object_of st j" for j
    using i(2) f st'(1) by (cases "i = j"; simp)+
  have "owners w' st' = owners (Load_Elf i name) st"
    using w' same(1) by (auto simp: owners_def)
  then show ?thesis using assms(1) st' same w' i(1) by (auto simp: patch_inv_def f)
qed

text \<open>
  The three ways a step may move instances: it leaves them where they are, it allocates one for
  the slot of the worker, or it releases the one of that slot.
\<close>

lemma patch_inv_keep:
  assumes "patch_inv w st" and "length (slots st') = length (slots st)"
    and "dom (heap st') = dom (heap st)" and "owners w' st' = owners w st"
    and "\<And>j. j \<in> owners w st \<Longrightarrow> object_of st' j = object_of st j"
    and "\<And>j. j < n_patch_slots \<Longrightarrow> status_of st' j = STOPPING \<Longrightarrow> w' = Stop_Wait j"
    and "worker_ok w' st'"
  shows "patch_inv w' st'"
proof -
  have "inj_on (object_of st') (owners w st)"
    using assms(1,5) by (auto simp: patch_inv_def inj_on_def)
  moreover have "object_of st' ` owners w st = object_of st ` owners w st"
    using assms(5) by (auto simp: image_def)
  ultimately show ?thesis using assms by (auto simp: patch_inv_def)
qed

lemma patch_inv_alloc:
  assumes "patch_inv w st" and "length (slots st') = length (slots st)"
    and "heap st' = (heap st)(object_of st' i \<mapsto> x)" and "heap st (object_of st' i) = None"
    and "i \<notin> owners w st" and "owners w' st' = insert i (owners w st)"
    and "\<And>j. j \<in> owners w st \<Longrightarrow> object_of st' j = object_of st j"
    and "\<And>j. j < n_patch_slots \<Longrightarrow> status_of st' j = STOPPING \<Longrightarrow> w' = Stop_Wait j"
    and "worker_ok w' st'"
  shows "patch_inv w' st'"
proof -
  have eq: "object_of st' ` owners w st = object_of st ` owners w st"
    using assms(7) by (auto simp: image_def)
  have dom: "dom (heap st) = object_of st ` owners w st" using assms(1) by (simp add: patch_inv_def)
  have "inj_on (object_of st') (owners w st)"
    using assms(1,7) by (auto simp: patch_inv_def inj_on_def)
  moreover have "object_of st' i \<notin> object_of st' ` owners w st"
    using assms(4) dom eq by blast
  ultimately have "inj_on (object_of st') (insert i (owners w st))"
    using assms(5) by (simp add: inj_on_insert)
  moreover have "dom (heap st') = object_of st' ` insert i (owners w st)"
    using assms(3) dom eq by simp
  ultimately show ?thesis using assms(1,2,6,8,9) by (simp add: patch_inv_def)
qed

lemma patch_inv_release:
  assumes "patch_inv w st" and "length (slots st') = length (slots st)"
    and "dom (heap st') = dom (heap st) - {object_of st i}"
    and "i \<in> owners w st" and "owners w' st' = owners w st - {i}"
    and "\<And>j. j \<in> owners w' st' \<Longrightarrow> object_of st' j = object_of st j"
    and "\<And>j. j < n_patch_slots \<Longrightarrow> status_of st' j = STOPPING \<Longrightarrow> w' = Stop_Wait j"
    and "worker_ok w' st'"
  shows "patch_inv w' st'"
proof -
  have dom: "dom (heap st) = object_of st ` owners w st" and inj: "inj_on (object_of st) (owners w st)"
    using assms(1) by (simp_all add: patch_inv_def)
  have "object_of st' ` owners w' st' = object_of st ` (owners w st - {i})"
    using assms(5,6) by (auto simp: image_def)
  also have "\<dots> = object_of st ` owners w st - object_of st ` {i}"
    using inj_on_image_set_diff [OF inj, of "owners w st" "{i}"] assms(4) by simp
  finally have "dom (heap st') = object_of st' ` owners w' st'" using assms(3) dom by simp
  moreover have "inj_on (object_of st') (owners w' st')"
    using inj assms(5,6) by (auto simp: inj_on_def)
  ultimately show ?thesis using assms(1,2,7,8) by (simp add: patch_inv_def)
qed

lemma patch_inv_facts:
  assumes "patch_inv w st"
  shows "length (slots st) = n_patch_slots" and "worker_ok w st"
    and "\<And>j. j < n_patch_slots \<Longrightarrow> status_of st j = STOPPING \<Longrightarrow> w = Stop_Wait j"
    and "\<And>j. j \<in> owners w st \<Longrightarrow> \<exists>x. heap st (object_of st j) = Some x"
  using assms by (auto simp: patch_inv_def)

lemma alloc_instance_inv:
  assumes inv: "patch_inv (Alloc i) st" and fresh: "malloc_fresh env"
    and step: "alloc_instance env i st = Inr (w', st')"
  shows "patch_inv w' st'"
proof -
  note facts = patch_inv_facts [OF inv]
  have i: "i < length (slots st)" "status_of st i \<in> {STOPPED, STARTFAILED}" "elf (slots st ! i) \<noteq> None"
    using facts(1,2) by auto
  then have ni: "i \<notin> owners (Alloc i) st" by (auto simp: owners_def)
  have status: "status_of (upd_slot i (\<lambda>p. p\<lparr>patchobject := a\<rparr>) st) j = status_of st j" for a j
    using i(1) by (cases "i = j") simp_all
  obtain im where im: "elf (slots st ! i) = Some im" using i(3) by blast
  show ?thesis
  proof (cases "getInstanceSize im")
    case None
    then have st': "w' = Exit None" "st' = patch_setError MissingGetInstanceSize st"
      using step im by (auto simp: alloc_instance_def elf_e_def)
    then have "owners w' st' = owners (Alloc i) st" by (auto simp: owners_def)
    then show ?thesis
      by (rule patch_inv_keep [OF inv, rotated 2]) (use st' facts(3) in auto)
  next
    case (Some sz)
    define a where "a = ax_malloc env (heap st) sz"
    define st1 where "st1 = upd_slot i (\<lambda>p. p\<lparr>patchobject := a\<rparr>) st"
    have st1: "status_of st1 j = status_of st j" "i \<noteq> j \<Longrightarrow> object_of st1 j = object_of st j"
        "object_of st1 i = a" "elf (slots st1 ! i) = Some im" "length (slots st1) = length (slots st)" for j
      using status i(1) im by (simp_all add: st1_def)
    have ob: "object_of st1 j = object_of st j" if "j \<in> owners (Alloc i) st" for j
      using that ni st1(2) by metis
    have hp: "heap st1 = heap st" by (simp add: st1_def)
    show ?thesis
    proof (cases "a = 0")
      case True
      then have st': "w' = Exit None" "st' = patch_setError OutOfMemory st1"
        using step im Some by (auto simp: alloc_instance_def elf_e_def Let_def a_def st1_def)
      then have "owners w' st' = owners (Alloc i) st" using st1(1) by (auto simp: owners_def)
      then show ?thesis
        by (rule patch_inv_keep [OF inv, rotated 2]) (use st' facts(3) st1 ob hp in auto)
    next
      case False
      then have st': "w' = Init i" "st' = st1\<lparr>heap := (heap st1)(a \<mapsto> zero_object im)\<rparr>"
        using step im Some by (auto simp: alloc_instance_def elf_e_def Let_def a_def st1_def)
      have "heap st a = None" 
        using fresh [unfolded malloc_fresh_def, rule_format, of "heap st" sz] False by (simp add: a_def)
      moreover have "owners w' st' = insert i (owners (Alloc i) st)"
        using st' st1(1) i(1) facts(1) by (auto simp: owners_def)
      ultimately show ?thesis
        by (intro patch_inv_alloc [OF inv, where i = i and x = "zero_object im"])
          (use st' facts i ni st1 ob hp in auto)
    qed
  qed
qed

lemma init_instance_inv:
  assumes inv: "patch_inv (Init i) st" and step: "init_instance i st = Inr (w', st')"
  shows "patch_inv w' st'"
proof -
  note facts = patch_inv_facts [OF inv]
  have i: "i < n_patch_slots" "status_of st i \<in> {STOPPED, STARTFAILED}"
    using facts(2) by auto
  obtain im where im: "elf (slots st ! i) = Some im" using facts(2) by auto
  have own: "i \<in> owners (Init i) st" using i(1) by (simp add: owners_def)
  then obtain ob where ob: "heap st (object_of st i) = Some ob" using facts(4) by blast
  have exit: "owners (Exit None) st = owners (Init i) st - {i}"
    using i by (auto simp: owners_def)
  have start: "owners (Start i) st = owners (Init i) st" by (auto simp: owners_def)
  show ?thesis
  proof (cases "w' = Exit None")
    case True
    then have st': "slots st' = slots st" "dom (heap st') = dom (heap st) - {object_of st i}"
      using step im ob
      by (auto simp: init_instance_def elf_e_def obj_at_def ax_free_def Let_def
          split: option.splits prod.splits if_splits)
    have "owners w' st' = owners (Exit None) st" using True st' by (simp add: owners_def)
    then show ?thesis
      by (intro patch_inv_release [OF inv, where i = i]) (use True st' facts(3) own exit in auto)
  next
    case False
    then have st': "slots st' = slots st" "dom (heap st') = dom (heap st)" "w' = Start i"
      using step im ob
      by (auto simp: init_instance_def elf_e_def obj_at_def ax_free_def Let_def
          split: option.splits prod.splits if_splits)
    have "owners w' st' = owners (Start i) st" using st' by (simp add: owners_def)
    then show ?thesis
      by (intro patch_inv_keep [OF inv]) (use st' facts(3) i start in auto)
  qed
qed

lemma start_instance_inv:
  assumes inv: "patch_inv (Start i) st" and step: "start_instance i st = Inr (w', st')"
  shows "patch_inv w' st'"
proof -
  note facts = patch_inv_facts [OF inv]
  have i: "i < n_patch_slots" "i < length (slots st)" using facts(1,2) by auto
  have st': "w' = Exit (Some i)" "heap st' = heap st"
      "slots st' = slots (upd_slot i (\<lambda>p. p\<lparr>patchStatus := RUNNING\<rparr>) st)"
    using step by (auto simp: start_instance_def Let_def)
  then have s: "status_of st' j = (if j = i then RUNNING else status_of st j)"
      "object_of st' j = object_of st j" for j
    using i(2) by (cases "i = j"; simp)+
  have "owners w' st' = owners (Start i) st" using s i(1) st'(1) by (auto simp: owners_def)
  then show ?thesis
    by (intro patch_inv_keep [OF inv]) (use st' s facts(3) in \<open>auto split: if_splits\<close>)
qed

lemma stop_request_inv:
  assumes inv: "patch_inv (Stop_Req i) st" and step: "stop_request i st = Inr (w', st')"
  shows "patch_inv w' st'"
proof -
  note facts = patch_inv_facts [OF inv]
  have i: "i < n_patch_slots" "i < length (slots st)" using facts(1,2) by auto
  show ?thesis
  proof (cases "status_of st i = RUNNING")
    case True
    then have st': "w' = Stop_Wait i" "st' = upd_slot i (\<lambda>p. p\<lparr>patchStatus := STOPPING\<rparr>) st"
      using step i(1) by (auto simp: stop_request_def validatePatch_def)
    then have s: "status_of st' j = (if j = i then STOPPING else status_of st j)"
        "object_of st' j = object_of st j" for j
      using i(2) by (cases "i = j"; simp)+
    have "owners w' st' = owners (Stop_Req i) st" using s i(1) st'(1) True by (auto simp: owners_def)
    then show ?thesis
      by (intro patch_inv_keep [OF inv]) (use st' s facts(3) i(1) in \<open>auto split: if_splits\<close>)
  next
    case False
    then have st': "w' = Exit None" "st' = st"
      using step i(1) by (auto simp: stop_request_def validatePatch_def)
    then have "owners w' st' = owners (Stop_Req i) st" by (auto simp: owners_def)
    then show ?thesis by (intro patch_inv_keep [OF inv]) (use st' facts(3) in auto)
  qed
qed

lemma stop_wait_inv:
  assumes inv: "patch_inv (Stop_Wait i) st" and step: "stop_wait i st = Inr (w', st')"
  shows "patch_inv w' st'"
proof -
  note facts = patch_inv_facts [OF inv]
  have i: "i < n_patch_slots" using facts(2) by auto
  show ?thesis
  proof (cases "status_of st i = STOPPED")
    case True
    then have st': "w' = Dispose i" "st' = st"
      using step i by (auto simp: stop_wait_def validatePatch_def)
    then have "owners w' st' = owners (Stop_Wait i) st" by (auto simp: owners_def)
    then show ?thesis
      by (intro patch_inv_keep [OF inv]) (use st' facts(3) i True in auto)
  next
    case False
    then have "w' = Stop_Wait i" "st' = st" using step by (auto simp: stop_wait_def)
    then show ?thesis using inv by simp
  qed
qed

lemma stop_dispose_inv:
  assumes inv: "patch_inv (Dispose i) st" and step: "stop_dispose env i st = Inr (w', st')"
  shows "patch_inv w' st'"
proof -
  note facts = patch_inv_facts [OF inv]
  have i: "i < n_patch_slots" "status_of st i = STOPPED" using facts(2) by auto
  have "i \<in> owners (Dispose i) st" using i by (simp add: owners_def)
  then obtain ob where "heap st (object_of st i) = Some ob" using facts(4) by blast
  then have st': "w' = Free i" "slots st' = slots st" "dom (heap st') = dom (heap st)"
    using step by (auto simp: stop_dispose_def obj_at_def Let_def split: if_splits)
  then have "owners w' st' = owners (Dispose i) st" by (auto simp: owners_def)
  then show ?thesis by (intro patch_inv_keep [OF inv]) (use st' facts(3) i in auto)
qed

lemma stop_free_inv:
  assumes inv: "patch_inv (Free i) st" and step: "stop_free i st = Inr (w', st')"
  shows "patch_inv w' st'"
proof -
  note facts = patch_inv_facts [OF inv]
  have i: "i < n_patch_slots" "i < length (slots st)" "status_of st i = STOPPED"
    using facts(1,2) by auto
  have own: "i \<in> owners (Free i) st" using i by (simp add: owners_def)
  then obtain ob where "heap st (object_of st i) = Some ob" using facts(4) by blast
  then have st': "w' = Unload i" "dom (heap st') = dom (heap st) - {object_of st i}"
      "slots st' = slots (upd_slot i (\<lambda>p. p\<lparr>patchStatus := STOPPED, patchobject := 0\<rparr>) st)"
    using step i(1)
    by (auto simp: stop_free_def ax_free_def InitPatch0_def validatePatch_def upd_slot_def emit_def
        split: if_splits)
  then have s: "status_of st' j = status_of st j" "j \<noteq> i \<Longrightarrow> object_of st' j = object_of st j" for j
    using i(2,3) by (cases "i = j"; simp)+
  have "owners w' st' = owners (Free i) st - {i}" using s(1) st'(1) i(3) by (auto simp: owners_def)
  then show ?thesis
    by (intro patch_inv_release [OF inv, where i = i]) (use st' s facts(3) i own in auto)
qed

lemma stop_unload_inv:
  assumes inv: "patch_inv (Unload i) st" and step: "stop_unload i st = Inr (w', st')"
  shows "patch_inv w' st'"
proof -
  note facts = patch_inv_facts [OF inv]
  have i: "i < length (slots st)" "status_of st i = STOPPED" using facts(1,2) by auto
  have st': "w' = Exit None" "heap st' = heap st" "length (slots st') = length (slots st)"
      "status_of st' j = status_of st j" "object_of st' j = object_of st j" for j
    using step i by (cases "i = j"; auto simp: stop_unload_def Let_def split: if_splits)+
  then have "owners w' st' = owners (Unload i) st" by (auto simp: owners_def)
  then show ?thesis by (intro patch_inv_keep [OF inv]) (use st' facts(3) in auto)
qed

lemmas step_invs = load_name_inv load_image_inv alloc_instance_inv init_instance_inv
  start_instance_inv stop_request_inv stop_wait_inv stop_dispose_inv stop_free_inv stop_unload_inv

lemma worker_step_inv:
  assumes "patch_inv w st" and "malloc_fresh env" and "worker_step env w st = Some (Inr (w', st'))"
  shows "patch_inv w' st'"
  using assms by (cases w) (auto intro: step_invs)

lemma idle_inv:
  assumes "patch_inv w st" and "w \<in> {Idle, Exit None, Exit (Some i)}"
    and "w' \<in> {Idle, Load_Name arg, Stop_Req j}" and "worker_ok w' st"
  shows "patch_inv w' st"
  using assms(2-4) by (intro patch_inv_keep [OF assms(1)]) (auto simp: owners_def dest: patch_inv_facts(3) [OF assms(1)])

lemma patch_inv_emit: "patch_inv w st \<Longrightarrow> patch_inv w (emit e st)"
  by (rule patch_inv_rel [of w st]) (simp_all add: dsp_rel_def list_all2_refl)

lemma upd_slot_same:
  assumes "\<And>p. patchStatus (f p) = patchStatus p" and "\<And>p. patchobject (f p) = patchobject p"
  shows "status_of (upd_slot i f st) j = status_of st j"
    and "object_of (upd_slot i f st) j = object_of st j"
proof -
  have "status_of (upd_slot i f st) j = status_of st j \<and> object_of (upd_slot i f st) j = object_of st j"
  proof (cases "i = j \<and> i < length (slots st)")
    case True
    then show ?thesis using assms by simp
  next
    case False
    then show ?thesis by (cases "i = j") (simp_all add: upd_slot_def list_update_beyond not_less)
  qed
  then show "status_of (upd_slot i f st) j = status_of st j"
      "object_of (upd_slot i f st) j = object_of st j" by simp_all
qed

lemma patch_inv_callback:
  assumes inv: "patch_inv (Exit (Some i)) st"
  shows "patch_inv Idle (upd_slot i (\<lambda>p. p\<lparr>patch_callback := cb\<rparr>) st)"
proof -
  let ?st' = "upd_slot i (\<lambda>p. p\<lparr>patch_callback := cb\<rparr>) st"
  have s: "status_of ?st' j = status_of st j" "object_of ?st' j = object_of st j" for j
    by (rule upd_slot_same; simp)+
  have "owners Idle ?st' = owners (Exit (Some i)) st" by (simp add: owners_def s)
  moreover have "status_of st j \<noteq> STOPPING" if "j < n_patch_slots" for j
    using patch_inv_facts(3) [OF inv that] by blast
  ultimately show ?thesis by (intro patch_inv_keep [OF inv]) (simp_all add: s)
qed

lemma sys_step_inv:
  assumes "malloc_fresh env" and "sys_step env s s'" and "patch_inv (fst s) (snd s)"
  shows "patch_inv (fst s') (snd s')"
  using assms(2)
proof cases
  case (dsp dspTime inb b st outb b' st' w)
  then have inv: "patch_inv w st" using assms(3) by simp
  show ?thesis
    using patch_inv_rel [OF inv dsp_cycle_rel [OF patch_inv_running_live [OF inv] dsp(3)]] dsp(2) by simp
next
  case (work w st w' st')
  then show ?thesis using worker_step_inv [of w st env w' st', OF _ assms(1)] assms(3) by simp
next
  case (patch_load st arg)
  then show ?thesis using assms(3) idle_inv [of Idle st _ "Load_Name arg"] by simp
next
  case (patch_stop i st)
  then show ?thesis using assms(3) idle_inv [of Idle st _ "Stop_Req i"] by simp
next
  case (loaded i st cb)
  then show ?thesis using assms(3) patch_inv_callback [of i st cb] by simp
next
  case (finished st)
  then show ?thesis using assms(3) idle_inv [of "Exit None" st _ Idle] by simp
next
  case (called_back st i)
  then show ?thesis
    using assms(3) idle_inv [of "Exit None" st _ Idle] patch_inv_emit [of Idle st] by simp
next
  case (get_error w st)
  then have inv: "patch_inv w st" using assms(3) by simp
  have "dsp_rel st (snd (patch_getError st))"
    by (simp add: patch_getError_def dsp_rel_def list_all2_refl)
  then show ?thesis using get_error(2) patch_inv_rel [OF inv] by simp
qed

text \<open>The slots at power-up.\<close>

definition boot_slot :: "'o patch" where
  "boot_slot = \<lparr>patchobject = 0, patchStatus = STOPPED, elf = None, patch_name = replicate 32 0,
     patch_callback = False\<rparr>"

definition boot_patches :: "'o patch_state" where
  "boot_patches = start_dsp_thread \<lparr>slots = replicate n_patch_slots (boot_slot\<lparr>patchStatus := RUNNING\<rparr>),
     heap = Map.empty, err_msg = None, underruns = 0, ptrace = []\<rparr>"

lemma boot_inv: "patch_inv Idle (boot_patches :: 'o patch_state)"
proof -
  have s: "status_of (boot_patches :: 'o patch_state) i = STOPPED" if "i < n_patch_slots" for i
    using that by (simp add: boot_patches_def start_dsp_thread_def)
  then have "owners Idle (boot_patches :: 'o patch_state) = {}" by (auto simp: owners_def)
  then show ?thesis using s
    by (simp add: patch_inv_def) (simp add: boot_patches_def start_dsp_thread_def)
qed

lemma reachable_inv:
  assumes "malloc_fresh env" and "reachable env boot_patches s"
  shows "patch_inv (fst s) (snd s)"
  using assms(2) unfolding reachable_def
  by (induction rule: rtranclp_induct) (simp_all add: boot_inv sys_step_inv [OF assms(1)])

section \<open>Progress\<close>

text \<open>Once the name has been read, no step of the worker fails.\<close>

lemma worker_progress:
  assumes inv: "patch_inv w st" and "\<And>arg. w \<noteq> Load_Name arg" and "\<And>i name. w \<noteq> Load_Elf i name"
  shows "\<exists>w' st'. worker_step env w st = Some (Inr (w', st'))"
proof (cases w)
  case (Init i)
  then have "i \<in> owners w st" "elf (slots st ! i) \<noteq> None"
    using patch_inv_facts(2) [OF inv] by (auto simp: owners_def)
  then show ?thesis using Init patch_inv_facts(4) [OF inv, of i]
    by (auto simp: init_instance_def elf_e_def obj_at_def ax_free_def Let_def
        split: option.splits prod.splits)
next
  case (Dispose i)
  then have "i \<in> owners w st" using patch_inv_facts(2) [OF inv] by (auto simp: owners_def)
  then show ?thesis using Dispose patch_inv_facts(4) [OF inv, of i]
    by (auto simp: stop_dispose_def obj_at_def Let_def)
next
  case (Free i)
  then have "i \<in> owners w st" "i < n_patch_slots"
    using patch_inv_facts(2) [OF inv] by (auto simp: owners_def)
  then show ?thesis using Free patch_inv_facts(4) [OF inv, of i]
    by (auto simp: stop_free_def ax_free_def InitPatch0_def validatePatch_def)
qed (use assms patch_inv_facts(2) [OF inv] in
     \<open>auto simp: alloc_instance_def start_instance_def stop_request_def stop_wait_def stop_unload_def
        elf_e_def validatePatch_def Let_def split: option.splits\<close>)

text \<open>The audio pass ends every stop request.\<close>

definition audio_pass :: "'o patch_env \<Rightarrow> int list \<Rightarrow> 'o patch_state \<Rightarrow> fault + 'o patch_state" where
  "audio_pass env inb st = sbind (dsp_audio env inb st) (\<lambda>(_, st). Inr st)"

lemma dsp_slots_prefix:
  assumes "running_live st" and "n \<le> n_patch_slots"
  shows "\<exists>o' st'. sfold (dsp_slot env ninb) [0..<n] (outb, st) = Inr (o', st') \<and> dsp_rel st st' \<and>
    (\<forall>j < n. status_of st' j \<noteq> STOPPING)"
  using assms(2)
proof (induction n)
  case (Suc n)
  then obtain o1 st1 where 1: "sfold (dsp_slot env ninb) [0..<n] (outb, st) = Inr (o1, st1)"
      "dsp_rel st st1" "\<forall>j < n. status_of st1 j \<noteq> STOPPING" by auto
  have live: "running_live st1" by (rule running_live_rel [OF assms(1) 1(2)])
  have n: "n < n_patch_slots" "n < length (slots st1)"
    using Suc.prems live by (simp_all add: running_live_def)
  obtain o2 st2 where 2: "dsp_slot env ninb n (o1, st1) = Inr (o2, st2)" "dsp_rel st1 st2"
    using dsp_slot_ok [OF live n(1)] by blast
  have len: "length (slots st1) = n_patch_slots" using live by (simp add: running_live_def)
  have "status_of st2 j \<noteq> STOPPING" if "j < Suc n" for j
  proof (cases "j = n")
    case True
    have r: "slot_rel (slots st1 ! n) (slots st2 ! n)" by (rule dsp_rel_slot [OF 2(2) n(2)])
    show ?thesis
    proof (cases "status_of st1 n = STOPPING")
      case True
      then show ?thesis using 2(1) n(2) \<open>j = n\<close> by (auto simp: dsp_slot_def)
    next
      case False
      then show ?thesis using slot_relD(4) [OF r] \<open>j = n\<close> by blast
    qed
  next
    case False
    then show ?thesis
      using that 1(3) slot_relD(4) [OF dsp_rel_slot [OF 2(2), of j]] len n(1) by auto
  qed
  then show ?case using 1(1) 2(1) dsp_rel_trans [OF 1(2) 2(2)] by (simp add: sfold_append)
qed simp

lemma audio_pass_ok:
  assumes inv: "patch_inv w st"
  shows "\<exists>st'. audio_pass env inb st = Inr st' \<and> patch_inv w st' \<and> dsp_rel st st' \<and>
    (\<forall>j < n_patch_slots. status_of st' j \<noteq> STOPPING)"
proof -
  obtain o' st' where "sfold (dsp_slot env (noninterleave inb)) [0..<n_patch_slots]
        (replicate (2 * BUFSIZE) 0, st) = Inr (o', st')"
      and rel: "dsp_rel st st'" and "\<forall>j < n_patch_slots. status_of st' j \<noteq> STOPPING"
    using dsp_slots_prefix [OF patch_inv_running_live [OF inv], of n_patch_slots] by blast
  with patch_inv_rel [OF inv rel] show ?thesis by (simp add: audio_pass_def dsp_audio_def)
qed

text \<open>A step of the stopping worker, after an audio pass.\<close>

definition settled :: "nat \<Rightarrow> 'o patch_state \<Rightarrow> 'o patch_state \<Rightarrow> bool" where
  "settled i st st' \<longleftrightarrow> length (slots st') = length (slots st) \<and>
     (\<forall>j < n_patch_slots. j \<noteq> i \<longrightarrow> slots st' ! j = slots st ! j)"

lemma settled_refl [simp]: "settled i st st"
  by (simp add: settled_def)

lemma settled_trans: "settled i a b \<Longrightarrow> settled i b c \<Longrightarrow> settled i a c"
  by (simp add: settled_def)

lemma settled_rel:
  assumes inv: "patch_inv w st" and rel: "dsp_rel st st'" and w: "\<And>j. j \<noteq> i \<Longrightarrow> w \<noteq> Stop_Wait j"
  shows "settled i st st'"
  unfolding settled_def
proof (intro conjI allI impI)
  show "length (slots st') = length (slots st)" using rel by (rule dsp_rel_length)
  fix j assume j: "j < n_patch_slots" "j \<noteq> i"
  have "status_of st j \<noteq> STOPPING" using patch_inv_facts(3) [OF inv j(1)] w j(2) by blast
  moreover have "slot_rel (slots st ! j) (slots st' ! j)"
    using dsp_rel_slot [OF rel] j patch_inv_facts(1) [OF inv] by simp
  ultimately show "slots st' ! j = slots st ! j" by (simp add: slot_rel_def)
qed

text \<open>One unit of fuel for a stopping worker: an audio pass, then the step of the worker.\<close>

lemma run_worker_step:
  assumes inv: "patch_inv w st" and "malloc_fresh env"
    and w: "w \<in> {Stop_Req i, Stop_Wait i, Dispose i, Free i, Unload i}"
  shows "\<exists>st1 w' st2. audio_pass env inb st = Inr st1 \<and> dsp_rel st st1 \<and> patch_inv w st1 \<and>
    (\<forall>j < n_patch_slots. status_of st1 j \<noteq> STOPPING) \<and>
    worker_step env w st1 = Some (Inr (w', st2)) \<and> patch_inv w' st2 \<and> settled i st st2 \<and>
    (\<forall>n. run_worker (Suc n) env (audio_pass env inb) w st =
          run_worker n env (audio_pass env inb) w' st2)"
proof -
  obtain st1 where st1: "audio_pass env inb st = Inr st1" "patch_inv w st1" "dsp_rel st st1"
      "\<forall>j < n_patch_slots. status_of st1 j \<noteq> STOPPING"
    using audio_pass_ok [OF inv] by blast
  obtain w' st2 where st2: "worker_step env w st1 = Some (Inr (w', st2))"
    using worker_progress [OF st1(2)] w by blast
  have "settled i st1 st2" using st2 w
    by (auto simp: settled_def stop_request_def stop_wait_def stop_dispose_def stop_free_def
        stop_unload_def validatePatch_def obj_at_def ax_free_def InitPatch0_def Let_def sbind_eq_Inr
        split: option.splits if_splits)
  moreover have "settled i st st1" using settled_rel [OF inv st1(3), of i] w by auto
  ultimately have "settled i st st2" by (rule settled_trans [rotated])
  moreover have "patch_inv w' st2" by (rule worker_step_inv [OF st1(2) assms(2) st2])
  moreover have "run_worker (Suc n) env (audio_pass env inb) w st =
      run_worker n env (audio_pass env inb) w' st2" for n
    using w st1(1) st2 by auto
  ultimately show ?thesis using st1 st2 by blast
qed

lemma stop_completes_inv:
  assumes inv: "patch_inv Idle st" and fresh: "malloc_fresh env"
    and i: "i < n_patch_slots" "status_of st i = RUNNING"
  shows "\<exists>st'. run_worker 6 env (audio_pass env inb) (Stop_Req i) st = Some (Inr (None, st')) \<and>
    patch_inv (Exit None) st' \<and> status_of st' i = STOPPED \<and> elf (slots st' ! i) = None \<and> settled i st st'"
proof -
  note step = run_worker_step [OF _ fresh, of _ _ i inb]
  have six: "(6 :: nat) = Suc (Suc (Suc (Suc (Suc (Suc 0)))))" by simp
  have inv0: "patch_inv (Stop_Req i) st" 
    by (rule idle_inv [OF inv, where i = i and j = i and arg = "[]"]) (use i(1) in auto)
  obtain a w1 s1 where 1: "dsp_rel st a" "worker_step env (Stop_Req i) a = Some (Inr (w1, s1))"
      "patch_inv w1 s1" "settled i st s1" "\<And>n. run_worker (Suc n) env (audio_pass env inb) (Stop_Req i) st =
          run_worker n env (audio_pass env inb) w1 s1"
    using step [OF inv0] by auto
  have "status_of a i = RUNNING"
    using slot_relD(3) [OF dsp_rel_slot [OF 1(1), of i]] i patch_inv_facts(1) [OF inv] by simp
  then have w1: "w1 = Stop_Wait i" using 1(2) i(1) by (simp add: stop_request_def validatePatch_def)
  obtain b w2 s2 where 2: "patch_inv w1 b" "\<forall>j < n_patch_slots. status_of b j \<noteq> STOPPING"
      "worker_step env w1 b = Some (Inr (w2, s2))"
      "patch_inv w2 s2" "settled i s1 s2" "\<And>n. run_worker (Suc n) env (audio_pass env inb) w1 s1 =
          run_worker n env (audio_pass env inb) w2 s2"
    using step [OF 1(3)] w1 by auto
  have "status_of b i = STOPPED" using patch_inv_facts(2) [OF 2(1)] 2(2) w1 by auto
  then have w2: "w2 = Dispose i" using 2(3) i(1) w1 by (simp add: stop_wait_def validatePatch_def)
  obtain c w3 s3 where 3: "worker_step env w2 c = Some (Inr (w3, s3))"
      "patch_inv w3 s3" "settled i s2 s3" "\<And>n. run_worker (Suc n) env (audio_pass env inb) w2 s2 =
          run_worker n env (audio_pass env inb) w3 s3"
    using step [OF 2(4)] w2 by auto
  have w3: "w3 = Free i" using 3(1) w2 by (simp add: stop_dispose_def obj_at_def Let_def split: option.splits)
  obtain d w4 s4 where 4: "worker_step env w3 d = Some (Inr (w4, s4))"
      "patch_inv w4 s4" "settled i s3 s4" "\<And>n. run_worker (Suc n) env (audio_pass env inb) w3 s3 =
          run_worker n env (audio_pass env inb) w4 s4"
    using step [OF 3(2)] w3 by auto
  have w4: "w4 = Unload i" using 4(1) w3 by (auto simp: stop_free_def sbind_eq_Inr)
  obtain e w5 s5 where 5: "patch_inv w4 e" "worker_step env w4 e = Some (Inr (w5, s5))"
      "patch_inv w5 s5" "settled i s4 s5" "\<And>n. run_worker (Suc n) env (audio_pass env inb) w4 s4 =
          run_worker n env (audio_pass env inb) w5 s5"
    using step [OF 4(2)] w4 by auto
  have w5: "w5 = Exit None" using 5(2) w4 by (simp add: stop_unload_def Let_def)
  have "i < length (slots e)" using patch_inv_facts(1) [OF 5(1)] i(1) by simp
  then have "status_of s5 i = STOPPED" "elf (slots s5 ! i) = None"
    using 5(2) w4 by (auto simp: stop_unload_def Let_def split: if_splits)
  moreover have "settled i st s5"
    using 1(4) 2(5) 3(3) 4(3) 5(4) settled_trans by blast
  moreover have "run_worker 6 env (audio_pass env inb) (Stop_Req i) st = Some (Inr (None, s5))"
    unfolding six 1(5) 2(6) 3(4) 4(4) 5(5) w5 by simp
  ultimately show ?thesis using 5(3) w5 by blast
qed

section \<open>The sum of the patches\<close>

text \<open>What a running patch contributes to the output, computed in the state before the cycle.\<close>

definition contribution :: "'o patch_env \<Rightarrow> int list \<Rightarrow> 'o patch_state \<Rightarrow> nat \<Rightarrow> nat \<Rightarrow> int" where
  "contribution env ninb st k i =
     (if status_of st i = RUNNING then
        snd (tick env (the (heap st (object_of st i))) ninb) !
          (if even k then k div 2 else BUFSIZE + k div 2)
      else 0)"

definition mixed :: "'o patch_env \<Rightarrow> int list \<Rightarrow> 'o patch_state \<Rightarrow> nat \<Rightarrow> int list" where
  "mixed env ninb st n =
     map (\<lambda>k. wrap32 (\<Sum>i<n. contribution env ninb st k i)) [0..<2 * BUFSIZE]"

lemma wrap32_add: "wrap32 (wrap32 a + b) = wrap32 (a + b)"
  by (rule wrap32_cong) (metis wrap32_mod mod_add_left_eq)

lemma wrap32_0 [simp]: "wrap32 0 = 0"
  by (simp add: wrap32_def)

lemma mixed_nth:
  "k < 2 * BUFSIZE \<Longrightarrow> mixed env ninb st n ! k = wrap32 (\<Sum>i<n. contribution env ninb st k i)"
  by (simp add: mixed_def)

lemma mixed_Suc:
  "add_patch_out (mixed env ninb st n)
     (snd (tick env (the (heap st (object_of st n))) ninb)) = mixed env ninb st (Suc n)"
  if "status_of st n = RUNNING"
  using that
  by (auto simp: add_patch_out_def mixed_nth mixed_def [where n = "Suc n"] wrap32_add
      contribution_def [where i = n])

lemma mixed_idle: "mixed env ninb st (Suc n) = mixed env ninb st n" if "status_of st n \<noteq> RUNNING"
  using that by (simp add: mixed_def contribution_def)

lemma sfold_snoc: "sfold f (xs @ [x]) s = sbind (sfold f xs s) (f x)"
  by (simp add: sfold_append) (simp add: sbind_def split: sum.split)

lemma dsp_slots_mix:
  assumes live: "running_live st" and inj: "inj_on (object_of st) {i. i < n_patch_slots \<and> status_of st i = RUNNING}"
    and "n \<le> n_patch_slots"
  shows "\<exists>st'. sfold (dsp_slot env ninb) [0..<n] (replicate (2 * BUFSIZE) 0, st) = Inr (mixed env ninb st n, st') \<and>
    (\<forall>j < n_patch_slots. n \<le> j \<longrightarrow> slots st' ! j = slots st ! j \<and>
       (status_of st j = RUNNING \<longrightarrow> heap st' (object_of st j) = heap st (object_of st j)))"
  using assms(3)
proof (induction n)
  case 0
  then show ?case by (simp add: mixed_def map_replicate_const BUFSIZE_def)
next
  case (Suc n)
  then obtain st1 where 1: "sfold (dsp_slot env ninb) [0..<n] (replicate (2 * BUFSIZE) 0, st) =
        Inr (mixed env ninb st n, st1)"
      "\<And>j. j < n_patch_slots \<Longrightarrow> n \<le> j \<Longrightarrow> slots st1 ! j = slots st ! j"
      "\<And>j. j < n_patch_slots \<Longrightarrow> n \<le> j \<Longrightarrow> status_of st j = RUNNING \<Longrightarrow>
         heap st1 (object_of st j) = heap st (object_of st j)" by auto
  have n: "n < n_patch_slots" using Suc.prems by simp
  have eq: "slots st1 ! n = slots st ! n" using 1(2) n by simp
  show ?case
  proof (cases "status_of st n = RUNNING")
    case True
    obtain ob where ob: "heap st (object_of st n) = Some ob"
      using live n True by (auto simp: running_live_def)
    let ?st2 = "st1\<lparr>heap := (heap st1)(object_of st n \<mapsto> fst (tick env ob ninb))\<rparr>"
    have "dsp_slot env ninb n (mixed env ninb st n, st1) = Inr (mixed env ninb st (Suc n), ?st2)"
      using True eq 1(3) [of n] n ob mixed_Suc [of st n env ninb]
      by (cases "tick env ob ninb") (simp add: dsp_slot_def obj_at_def Let_def)
    moreover have "object_of st j \<noteq> object_of st n"
      if "j < n_patch_slots" "Suc n \<le> j" "status_of st j = RUNNING" for j
      using inj_onD [OF inj, of j n] that n True by auto
    ultimately show ?thesis using 1 by (auto simp: sfold_snoc upt_Suc)
  next
    case False
    then have m: "mixed env ninb st (Suc n) = mixed env ninb st n" by (rule mixed_idle)
    obtain o2 st2 where 2: "dsp_slot env ninb n (mixed env ninb st n, st1) = Inr (o2, st2)"
        "o2 = mixed env ninb st n" "heap st2 = heap st1" "\<And>j. j \<noteq> n \<Longrightarrow> slots st2 ! j = slots st1 ! j"
      using False eq by (cases "status_of st n") (auto simp: dsp_slot_def)
    then show ?thesis using 1 m by (auto simp: sfold_snoc upt_Suc)
  qed
qed

section \<open>Properties\<close>

text \<open>A small environment: an instance is a counter that adds itself to the left channel.\<close>

definition sample_env :: "int patch_env" where
  "sample_env = \<lparr>tick = (\<lambda>ob inb. (ob + 1, map (\<lambda>k. if k < 16 then ob else inb ! k) [0..<32])),
     midiInHandler = (\<lambda>m ob. ob + 10), dispose = id,
     load_elf = (\<lambda>src old. Some \<lparr>axoloti_api_version = 0x0200, getInstanceSize = Some 4,
       initInstance = Some (\<lambda>ob. (0, 5)), zero_object = 0\<rparr>),
     ax_malloc = (\<lambda>h n. if h 1 = None then 1 else if h 2 = None then 2 else 0),
     bank_open = 0, bank_read = (\<lambda>_. Inr []), bank_buf = replicate 64 0\<rparr>"

lemma sample_env_fresh: "malloc_fresh sample_env"
  by (simp add: malloc_fresh_def sample_env_def)

definition sample_running :: "int patch_state" where
  "sample_running = (case run_worker 6 sample_env Inr (Load_Name [97, 0]) boot_patches of
     Some (Inr (Some i, st)) \<Rightarrow> upd_slot i (\<lambda>p. p\<lparr>patch_callback := False\<rparr>) st
   | _ \<Rightarrow> boot_patches)"

lemma run_worker_reachable:
  "reachable env st0 (w, st) \<Longrightarrow> run_worker n env Inr w st = Some (Inr (r, st')) \<Longrightarrow>
   reachable env st0 (Exit r, st')"
proof (induction n arbitrary: w st)
  case (Suc n)
  show ?case
  proof (cases "w = Exit r \<and> st' = st")
    case True
    then show ?thesis using Suc.prems(1) by simp
  next
    case False
    then obtain w1 st1 where "worker_step env w st = Some (Inr (w1, st1))"
        "run_worker n env Inr w1 st1 = Some (Inr (r, st'))"
      using Suc.prems(2) by (auto split: worker.splits option.splits sum.splits)
    then show ?thesis using Suc.IH Suc.prems(1) work [of env w st w1 st1]
      unfolding reachable_def by (meson rtranclp.rtrancl_into_rtrancl)
  qed
qed simp

definition starts_slot :: "nat \<Rightarrow> (fault + (nat option \<times> 'o patch_state)) option \<Rightarrow> bool" where
  "starts_slot k res = (case res of
     Some (Inr (Some i, st)) \<Rightarrow> i = k \<and> status_of st i = RUNNING | _ \<Rightarrow> False)"

lemma starts_slotD: "starts_slot k res \<Longrightarrow> \<exists>st. res = Some (Inr (Some k, st)) \<and> status_of st k = RUNNING"
  by (auto simp: starts_slot_def split: option.splits sum.splits prod.splits)

lemma sample_run: "starts_slot 0 (run_worker 6 sample_env Inr (Load_Name [97, 0]) boot_patches)"
  by code_simp

lemma sample_running_reachable:
  "reachable sample_env boot_patches (Idle, sample_running) \<and> status_of sample_running 0 = RUNNING"
proof -
  obtain st where st: "run_worker 6 sample_env Inr (Load_Name [97, 0]) boot_patches = Some (Inr (Some 0, st))"
      "status_of st 0 = RUNNING"
    using starts_slotD [OF sample_run] by blast
  let ?st' = "upd_slot 0 (\<lambda>p. p\<lparr>patch_callback := False\<rparr>) st"
  have "reachable sample_env boot_patches (Load_Name [97, 0], boot_patches)"
    using patch_load [of sample_env boot_patches "[97, 0]"] by (auto simp: reachable_def)
  then have "reachable sample_env boot_patches (Exit (Some 0), st)"
    using st(1) by (rule run_worker_reachable)
  then have "reachable sample_env boot_patches (Idle, ?st')"
    using loaded [of sample_env 0 st False] unfolding reachable_def
    by (meson rtranclp.rtrancl_into_rtrancl)
  moreover have "status_of ?st' 0 = status_of st 0" by (rule upd_slot_same) simp_all
  ultimately show ?thesis using st by (simp add: sample_running_def)
qed

text \<open>What a load promises: an error and nothing allocated, or an initialised instance.\<close>

definition load_outcome ::
    "'o patch_env \<Rightarrow> 'o elf_image option \<Rightarrow> (nat \<rightharpoonup> 'o) \<Rightarrow> patch_error + (nat \<times> 'o)" where
  "load_outcome env im h =
     (case im of None \<Rightarrow> Inl FailedToLoad
      | Some im \<Rightarrow>
        (case getInstanceSize im of None \<Rightarrow> Inl MissingGetInstanceSize
         | Some sz \<Rightarrow>
             if ax_malloc env h sz = 0 then Inl OutOfMemory
             else (case initInstance im of None \<Rightarrow> Inl MissingInitInstance
               | Some f \<Rightarrow>
                   if fst (f (zero_object im)) \<noteq> 0 then
                     Inl (case errorCodeToString (fst (f (zero_object im))) of
                            None \<Rightarrow> InitFailed (fst (f (zero_object im)))
                          | Some s \<Rightarrow> InitFailedReason s)
                   else Inr (ax_malloc env h sz, snd (f (zero_object im))))))"

definition load_result ::
    "'o elf_image option \<Rightarrow> patch_error + (nat \<times> 'o) \<Rightarrow> nat \<Rightarrow> 'o patch_state \<Rightarrow> nat option \<Rightarrow> 'o patch_state \<Rightarrow> bool"
  where
  "load_result im out i st r st' \<longleftrightarrow> settled i st st' \<and> elf (slots st' ! i) = im \<and>
     (case out of
        Inl e \<Rightarrow> r = None \<and> err_msg st' = Some e \<and> heap st' = heap st \<and> status_of st' i = status_of st i
      | Inr (a, ob) \<Rightarrow> r = Some i \<and> status_of st' i = RUNNING \<and> object_of st' i = a \<and>
          heap st' = (heap st)(a \<mapsto> ob))"

lemma run_worker_Inr:
  "(\<And>r. w \<noteq> Exit r) \<Longrightarrow> worker_step env w st = Some (Inr (w', st')) \<Longrightarrow>
   run_worker (Suc n) env Inr w st = run_worker n env Inr w' st'"
  by (cases w) auto

lemma run_worker_numeral:
  "(\<And>r. w \<noteq> Exit r) \<Longrightarrow> worker_step env w st = Some (Inr (w', st')) \<Longrightarrow>
   run_worker (numeral k) env Inr w st = run_worker (pred_numeral k) env Inr w' st'"
  unfolding numeral_eq_Suc by (rule run_worker_Inr)

lemma run_worker_Exit: "run_worker (numeral k) env cyc (Exit r) st = Some (Inr (r, st))"
  unfolding numeral_eq_Suc by simp

lemma init_instance_eq:
  assumes "elf (slots st ! i) = Some im" and "object_of st i = a"
    and "heap st = h(a \<mapsto> zero_object im)" and "h a = None"
  shows "init_instance i st =
    (case initInstance im of
       None \<Rightarrow> Inr (Exit None, patch_setError MissingInitInstance (st\<lparr>heap := h\<rparr>))
     | Some f \<Rightarrow>
         if fst (f (zero_object im)) \<noteq> 0 then
           Inr (Exit None, patch_setError (case errorCodeToString (fst (f (zero_object im))) of
                  None \<Rightarrow> InitFailed (fst (f (zero_object im))) | Some s \<Rightarrow> InitFailedReason s)
                (st\<lparr>heap := h\<rparr>))
         else Inr (Start i, st\<lparr>heap := h(a \<mapsto> snd (f (zero_object im)))\<rparr>))"
proof -
  have idem: "h(a := None) = h" using assms(4) by (rule fun_upd_idem)
  show ?thesis using assms idem
    by (simp add: init_instance_def elf_e_def ax_free_def obj_at_def patch_setError_def Let_def
        split: option.split prod.split)
qed

lemma load_from_init:
  assumes i: "i < length (slots st)" and im: "elf (slots st ! i) = Some im" and "object_of st i = a"
    and "heap st = h(a \<mapsto> zero_object im)" and "h a = None" and "a \<noteq> 0"
    and a: "a = ax_malloc env h sz" and sz: "getInstanceSize im = Some sz"
    and set: "settled i st0 st" "status_of st i = status_of st0 i" "h = heap st0"
  shows "\<exists>r st'. run_worker 3 env Inr (Init i) st = Some (Inr (r, st')) \<and>
    load_result (Some im) (load_outcome env (Some im) h) i st0 r st'"
proof -
  have three: "(3 :: nat) = Suc (Suc (Suc 0))" by simp
  note eq = init_instance_eq [OF im assms(3-5)]
  show ?thesis
  proof (cases "initInstance im")
    case None
    then have "run_worker 3 env Inr (Init i) st =
        Some (Inr (None, patch_setError MissingInitInstance (st\<lparr>heap := h\<rparr>)))"
      using eq by (simp add: three)
    then show ?thesis using None a [symmetric] sz assms(6) set(1,2) im set(3) [symmetric]
      by (simp add: load_result_def load_outcome_def) (simp add: patch_setError_def settled_def)
  next
    case (Some f)
    show ?thesis
    proof (cases "fst (f (zero_object im)) = 0")
      case True
      let ?st1 = "st\<lparr>heap := h(a \<mapsto> snd (f (zero_object im)))\<rparr>"
      obtain st2 where st2: "start_instance i ?st1 = Inr (Exit (Some i), st2)"
          "slots st2 = slots (upd_slot i (\<lambda>p. p\<lparr>patchStatus := RUNNING\<rparr>) st)"
          "heap st2 = h(a \<mapsto> snd (f (zero_object im)))"
        by (simp add: start_instance_def Let_def upd_slot_def)
      then have "run_worker 3 env Inr (Init i) st = Some (Inr (Some i, st2))"
        using eq Some True by (simp add: three)
      moreover have "settled i st0 st2" using st2(2) i set(1) by (simp add: settled_def)
      ultimately show ?thesis
        using st2(2,3) Some True a [symmetric] sz assms(3,6) i im set(3) [symmetric]
        by (simp add: load_result_def load_outcome_def)
    next
      case False
      let ?e = "case errorCodeToString (fst (f (zero_object im))) of
          None \<Rightarrow> InitFailed (fst (f (zero_object im))) | Some s \<Rightarrow> InitFailedReason s"
      have "run_worker 3 env Inr (Init i) st = Some (Inr (None, patch_setError ?e (st\<lparr>heap := h\<rparr>)))"
        using eq Some False by (simp add: three)
      then show ?thesis
        using Some False a [symmetric] sz assms(6) set(1,2) im set(3) [symmetric]
        by (simp add: load_result_def load_outcome_def) (simp add: patch_setError_def settled_def)
    qed
  qed
qed

lemma load_from_alloc:
  assumes fresh: "malloc_fresh env" and i: "i < length (slots st)" and im: "elf (slots st ! i) = Some im"
  shows "\<exists>r st'. run_worker 4 env Inr (Alloc i) st = Some (Inr (r, st')) \<and>
    load_result (Some im) (load_outcome env (Some im) (heap st)) i st r st'"
proof -
  show ?thesis
  proof (cases "getInstanceSize im")
    case None
    then have "alloc_instance env i st = Inr (Exit None, patch_setError MissingGetInstanceSize st)"
      using im by (simp add: alloc_instance_def elf_e_def)
    then have "run_worker 4 env Inr (Alloc i) st =
        Some (Inr (None, patch_setError MissingGetInstanceSize st))"
      by (simp add: run_worker_numeral run_worker_Exit)
    then show ?thesis using im None
      by (simp add: load_result_def load_outcome_def) (simp add: patch_setError_def settled_def)
  next
    case (Some sz)
    define a where "a = ax_malloc env (heap st) sz"
    define st1 where "st1 = upd_slot i (\<lambda>p. p\<lparr>patchobject := a\<rparr>) st"
    have s1: "elf (slots st1 ! i) = Some im" "status_of st1 i = status_of st i" "object_of st1 i = a"
        "heap st1 = heap st" "settled i st st1" "length (slots st1) = length (slots st)"
      using i im by (simp_all add: st1_def settled_def)
    show ?thesis
    proof (cases "a = 0")
      case True
      then have "alloc_instance env i st = Inr (Exit None, patch_setError OutOfMemory st1)"
        using im Some by (simp add: alloc_instance_def elf_e_def Let_def a_def st1_def)
      then have "run_worker 4 env Inr (Alloc i) st = Some (Inr (None, patch_setError OutOfMemory st1))"
        by (simp add: run_worker_numeral run_worker_Exit)
      then show ?thesis using True Some s1 a_def
        by (simp add: load_result_def load_outcome_def) (simp add: patch_setError_def settled_def)
    next
      case False
      then have "alloc_instance env i st = Inr (Init i, st1\<lparr>heap := (heap st1)(a \<mapsto> zero_object im)\<rparr>)"
        using im Some by (simp add: alloc_instance_def elf_e_def Let_def a_def st1_def)
      then have "run_worker 4 env Inr (Alloc i) st =
          run_worker 3 env Inr (Init i) (st1\<lparr>heap := (heap st1)(a \<mapsto> zero_object im)\<rparr>)"
        by (simp add: run_worker_numeral)
      moreover have "heap st a = None"
        using fresh [unfolded malloc_fresh_def, rule_format, of "heap st" sz] False by (simp add: a_def)
      ultimately show ?thesis
        using load_from_init [of i "st1\<lparr>heap := (heap st1)(a \<mapsto> zero_object im)\<rparr>" im a "heap st" env sz st]
          s1 i False Some a_def by (simp add: settled_def)
    qed
  qed
qed

lemma load_plain_name:
  assumes fresh: "malloc_fresh env" and inv: "patch_inv Idle st" and alloc: "allocPatch st = Some i"
    and name: "0 \<notin> set name" "name \<noteq> []" "hd name \<noteq> 64"
    and im: "im = load_elf env (Fatfs_File name) (elf (slots st ! i))"
  shows "\<exists>r st'. run_worker 6 env Inr (Load_Name (name @ [0])) st = Some (Inr (r, st')) \<and>
    load_result im (load_outcome env im (heap st)) i st r st'"
proof -
  have i: "i < n_patch_slots" "i < length (slots st)"
    using allocPatch_Some [OF inv alloc] patch_inv_facts(1) [OF inv] by auto
  obtain c cs where n: "name = c # cs" "c \<noteq> 0" "c \<noteq> 64" using name by (cases name) auto
  have name_e: "nth_e (name @ [0]) 0 = Inr c" by (simp add: n nth_e_def)
  have src: "load_source (name @ [0]) = Inr (Fatfs_File name, name)"
    using n(3) c_string_zero [OF name(1), of "[]"] by (simp add: load_source_def name_e)
  define st1 where "st1 = emit Ui_Deinit_Patch (emit Mount_Attempt st)"
  have "allocPatch (emit Mount_Attempt st) = Some i" using alloc by (simp add: allocPatch_def)
  then have step1: "run_worker 6 env Inr (Load_Name (name @ [0])) st = run_worker 5 env Inr (Load_Elf i (name @ [0])) st1"
    using n(2) by (simp add: run_worker_numeral load_name_def Let_def name_e st1_def)
  define st2 where "st2 = upd_slot i (\<lambda>p. p\<lparr>elf := im, patch_name := strncpy31 name (patch_name p)\<rparr>) st1"
  have s2: "elf (slots st2 ! i) = im" "status_of st2 i = status_of st i" "settled i st st2"
      "heap st2 = heap st" "length (slots st2) = length (slots st)"
    using i by (simp_all add: st2_def st1_def settled_def)
  have st2': "st2 = upd_slot i (\<lambda>p. p\<lparr>elf := load_elf env (Fatfs_File name) (elf p),
      patch_name := strncpy31 name (patch_name p)\<rparr>) st1"
    using i im by (simp add: st2_def upd_slot_def st1_def)
  show ?thesis
  proof (cases im)
    case None
    then have "load_image env i (name @ [0]) st1 = Inr (Exit None, patch_setError FailedToLoad st2)"
      using src s2(1) by (simp add: load_image_def Let_def st2')
    then show ?thesis using None s2 step1
      by (simp add: run_worker_numeral run_worker_Exit load_result_def load_outcome_def)
        (simp add: patch_setError_def settled_def)
  next
    case (Some image)
    then obtain st3 where st3: "load_image env i (name @ [0]) st1 = Inr (Alloc i, st3)"
        "slots st3 = slots st2" "heap st3 = heap st2"
      using src s2(1) i by (simp add: load_image_def Let_def st2' [symmetric] validatePatch_def)
    then have "run_worker 6 env Inr (Load_Name (name @ [0])) st = run_worker 4 env Inr (Alloc i) st3"
      using step1 by (simp add: run_worker_numeral)
    moreover obtain r st' where "run_worker 4 env Inr (Alloc i) st3 = Some (Inr (r, st'))"
        "load_result (Some image) (load_outcome env (Some image) (heap st3)) i st3 r st'"
      using load_from_alloc [OF fresh, of i st3 image] s2 st3 i Some by auto
    ultimately show ?thesis using st3 s2 Some
      by (auto simp: load_result_def settled_def split: sum.splits)
  qed
qed

lemma sample_running_inv: "patch_inv Idle sample_running"
  using reachable_inv [OF sample_env_fresh, of "(Idle, sample_running)"] sample_running_reachable by simp

definition empty_input :: midi_input_buffer where
  "empty_input = \<lparr>read_index = 0, write_index = 0, buf = replicate 32 (mk_msg 0 0 0 0)\<rparr>"

lemma empty_input_inv: "fifo_inv empty_input"
  by (simp add: fifo_inv_def empty_input_def)

text \<open>
  C7: However loads, stops and audio cycles interleave from power-up, an audio cycle never
  uses the memory of a patch that is not allocated: it ends, has consumed all MIDI input, and
  keeps every running patch running; no step of the worker after the name is read fails, so
  nothing is released twice; and whenever the worker is idle the allocated instances are exactly
  those of the running patches, one each, so none is lost.
\<close>

lemma patch_objects_safe:
  assumes "malloc_fresh env" and "reachable env boot_patches (w, st)" and "fifo_inv b"
  shows "(\<exists>outb b' st'. dsp_cycle env t inb b st = Inr (Some (outb, b', st')) \<and> queued b' = [] \<and>
      (\<forall>i < n_patch_slots. status_of st' i = RUNNING \<longleftrightarrow> status_of st i = RUNNING)) \<and>
    ((\<exists>arg. w = Load_Name arg) \<or> (\<exists>i name. w = Load_Elf i name) \<or>
      (\<exists>w' st'. worker_step env w st = Some (Inr (w', st')))) \<and>
    (w = Idle \<longrightarrow> bij_betw (object_of st) {i. i < n_patch_slots \<and> status_of st i = RUNNING} (dom (heap st)))"
proof (intro conjI impI)
  have inv: "patch_inv w st" using reachable_inv [OF assms(1,2)] by simp
  note len = patch_inv_facts(1) [OF inv]
  show "\<exists>outb b' st'. dsp_cycle env t inb b st = Inr (Some (outb, b', st')) \<and> queued b' = [] \<and>
      (\<forall>i < n_patch_slots. status_of st' i = RUNNING \<longleftrightarrow> status_of st i = RUNNING)"
    using dsp_cycle_ok [OF patch_inv_running_live [OF inv] assms(3), of env t inb]
      slot_relD(3) [OF dsp_rel_slot] len by metis
  show "(\<exists>arg. w = Load_Name arg) \<or> (\<exists>i name. w = Load_Elf i name) \<or>
      (\<exists>w' st'. worker_step env w st = Some (Inr (w', st')))"
    using worker_progress [OF inv, of env] by blast
  assume "w = Idle"
  then have "owners w st = {i. i < n_patch_slots \<and> status_of st i = RUNNING}"
    by (auto simp: owners_def)
  then show "bij_betw (object_of st) {i. i < n_patch_slots \<and> status_of st i = RUNNING} (dom (heap st))"
    using inv by (simp add: patch_inv_def bij_betw_def)
qed

lemma patch_objects_safe_witness:
  "(\<exists>outb b' st'. dsp_cycle sample_env 1000 (replicate 32 7) empty_input sample_running =
        Inr (Some (outb, b', st')) \<and> queued b' = [] \<and>
      (\<forall>i < n_patch_slots. status_of st' i = RUNNING \<longleftrightarrow> status_of sample_running i = RUNNING)) \<and>
    ((\<exists>arg. Idle = Load_Name arg) \<or> (\<exists>i name. Idle = Load_Elf i name) \<or>
      (\<exists>w' st'. worker_step sample_env Idle sample_running = Some (Inr (w', st')))) \<and>
    bij_betw (object_of sample_running)
      {i. i < n_patch_slots \<and> status_of sample_running i = RUNNING} (dom (heap sample_running))"
  using patch_objects_safe [OF sample_env_fresh conjunct1 [OF sample_running_reachable] empty_input_inv,
      where t = 1000 and inb = "replicate 32 7"] by blast


lemma sample_running_slot: "0 < n_patch_slots \<and> \<not> patch_callback (slots sample_running ! 0)"
  by code_simp



lemma boot_alloc: "allocPatch (boot_patches :: int patch_state) = Some 0"
  by code_simp


text \<open>
  C10: The audio output of a cycle is, sample by sample, the sum of the outputs of the running
  patches, wrapped at 32 bits, limited to 28 bits and shifted up to full range; it is therefore
  always a 32-bit value, and silence when no patch runs.
\<close>

lemma dsp_output_mix:
  assumes "malloc_fresh env" and "reachable env boot_patches (w, st)"
  shows "\<exists>outb st'. dsp_audio env inb st = Inr (outb, st') \<and> length outb = 32 \<and>
    (\<forall>k < 32. outb ! k =
        ssat (wrap32 (\<Sum>i<n_patch_slots. contribution env (noninterleave inb) st k i)) 28 * 16 \<and>
      int32 (outb ! k)) \<and>
    ((\<forall>i < n_patch_slots. status_of st i \<noteq> RUNNING) \<longrightarrow> outb = replicate 32 0)"
proof -
  have inv: "patch_inv w st" using reachable_inv [OF assms] by simp
  have "{i. i < n_patch_slots \<and> status_of st i = RUNNING} \<subseteq> owners w st" by (auto simp: owners_def)
  then have inj: "inj_on (object_of st) {i. i < n_patch_slots \<and> status_of st i = RUNNING}"
    using inv inj_on_subset by (auto simp: patch_inv_def)
  obtain st' where fold: "sfold (dsp_slot env (noninterleave inb)) [0..<n_patch_slots]
      (replicate (2 * BUFSIZE) 0, st) = Inr (mixed env (noninterleave inb) st n_patch_slots, st')"
    using dsp_slots_mix [OF patch_inv_running_live [OF inv] inj, of n_patch_slots] by blast
  let ?out = "saturate_out (mixed env (noninterleave inb) st n_patch_slots)"
  have run: "dsp_audio env inb st = Inr (?out, st')" using fold by (simp add: dsp_audio_def)
  have nth: "?out ! k = ssat (wrap32 (\<Sum>i<n_patch_slots. contribution env (noninterleave inb) st k i)) 28 * 16"
    if "k < 32" for k
    using that by (simp add: saturate_out_def mixed_def BUFSIZE_def)
  have len: "length ?out = 32" by (simp add: saturate_out_def mixed_def BUFSIZE_def)
  have rng: "int32 (?out ! k)" if "k < 32" for k
    using ssat_range [of 28 "wrap32 (\<Sum>i<n_patch_slots. contribution env (noninterleave inb) st k i)"]
    by (simp add: nth [OF that] int32_def)
  have "?out = replicate 32 0" if "\<forall>i < n_patch_slots. status_of st i \<noteq> RUNNING"
    using that by (intro nth_equalityI) (simp_all add: len nth contribution_def ssat_def)
  then show ?thesis using run nth len rng by blast
qed

lemma dsp_output_mix_witness:
  "\<exists>outb st'. dsp_audio sample_env (replicate 32 7) sample_running = Inr (outb, st') \<and> length outb = 32 \<and>
    (\<forall>k < 32. outb ! k =
        ssat (wrap32 (\<Sum>i<n_patch_slots.
          contribution sample_env (noninterleave (replicate 32 7)) sample_running k i)) 28 * 16 \<and>
      int32 (outb ! k)) \<and>
    ((\<forall>i < n_patch_slots. status_of sample_running i \<noteq> RUNNING) \<longrightarrow> outb = replicate 32 0)"
  by (rule dsp_output_mix [OF sample_env_fresh conjunct1 [OF sample_running_reachable]])

end
