(* ===== verification/Midi_Clock.thy ===== *)
theory Midi_Clock
  imports Midi_Buffer
begin

text \<open>
  The codec interrupt (computebufI of firmware/patch.c): it hands the audio buffers to the audio
  thread and generates the MIDI clock (firmware/midi\_clock.h). The counters are 32-bit integers,
  modelled by their value with wrap-around.
\<close>

record midi_clock =
  active :: bool
  period :: int
  counter :: int
  song_position :: int

text \<open>The buffers and the event of the audio thread; outbuf is the buffer the codec passed.\<close>

record codec_state =
  midi_clock :: midi_clock
  inbuf :: "int list"
  outbuf :: "int list"
  midi_in :: midi_input_buffer
  compute_signals :: nat
  reports :: "buffer_event list"

definition initial_midi_clock :: midi_clock where
  "initial_midi_clock = \<lparr>active = False, period = 125, counter = 1, song_position = 0\<rparr>"

definition MIDI_TIMING_CLOCK :: u8 where "MIDI_TIMING_CLOCK = 0xF8"

definition clock_message :: midi_message where
  "clock_message = mk_msg 0xF MIDI_TIMING_CLOCK 0 0"

definition computebufI :: "int list \<Rightarrow> int list \<Rightarrow> codec_state \<Rightarrow> codec_state" where
  "computebufI inp outp st =
     (let st = st\<lparr>inbuf := map (\<lambda>i. inp ! i) [0..<32], outbuf := outp\<rparr>;
          st = (if active (midi_clock st) then
                  let c = midi_clock st;
                      c = c\<lparr>counter := wrap32 (counter c - 2)\<rparr> in
                  if counter c \<le> 0 then
                    let c = c\<lparr>counter := wrap32 (counter c + period c),
                              song_position := wrap32 (song_position c + 1)\<rparr> in
                    (case midi_input_buffer_put (midi_in st) clock_message of
                       (r, b, evs) \<Rightarrow> st\<lparr>midi_clock := c, midi_in := b, reports := reports st @ evs\<rparr>)
                  else st\<lparr>midi_clock := c\<rparr>
                else st)
      in st\<lparr>compute_signals := compute_signals st + 1\<rparr>)"

text \<open>The clock alone, over n interrupts, and the ticks it produced.\<close>

definition clock_step :: "midi_clock \<Rightarrow> midi_clock" where
  "clock_step c =
     (if active c then
        if wrap32 (counter c - 2) \<le> 0 then
          c\<lparr>counter := wrap32 (wrap32 (counter c - 2) + period c),
            song_position := wrap32 (song_position c + 1)\<rparr>
        else c\<lparr>counter := wrap32 (counter c - 2)\<rparr>
      else c)"

lemma computebufI_clock: "midi_clock (computebufI inp outp st) = clock_step (midi_clock st)"
  by (simp add: computebufI_def clock_step_def Let_def split: prod.split)

lemma computebufI_queue:
  assumes "fifo_inv (midi_in st)"
  shows "fifo_inv (midi_in (computebufI inp outp st)) \<and>
    queued (midi_in (computebufI inp outp st)) =
      (if active (midi_clock st) \<and> wrap32 (counter (midi_clock st) - 2) \<le> 0
       then take 31 (queued (midi_in st) @ [clock_message]) else queued (midi_in st))"
  using inq.enq_contents [OF assms, of clock_message] assms
  by (simp add: computebufI_def in_enq_def Let_def split: prod.splits)

section \<open>The rate of the clock\<close>

text \<open>
  A running clock with a period P from 2 on keeps its counter between 1 and P, and the counter
  and the song position together count the interrupts: this is what makes the clock exact.
\<close>

definition clock_ok :: "midi_clock \<Rightarrow> bool" where
  "clock_ok c \<longleftrightarrow> active c \<and> 2 \<le> period c \<and> period c < 2 ^ 31 \<and> 1 \<le> counter c \<and> counter c \<le> period c
     \<and> 0 \<le> song_position c"

lemma clock_step_ok:
  assumes "clock_ok c" and "song_position c < 2 ^ 31 - 1"
  shows "clock_ok (clock_step c)"
    and "period (clock_step c) * song_position (clock_step c) - counter (clock_step c) =
         period c * song_position c - counter c + 2"
    and "period (clock_step c) = period c"
    and "song_position (clock_step c) \<le> song_position c + 1"
proof -
  have w: "wrap32 (counter c - 2) = counter c - 2"
    using assms by (intro wrap32_id) (simp add: clock_ok_def int32_def)
  have w2: "wrap32 (counter c - 2 + period c) = counter c - 2 + period c" if "counter c - 2 \<le> 0"
    using assms that by (intro wrap32_id) (simp add: clock_ok_def int32_def)
  have w3: "wrap32 (song_position c + 1) = song_position c + 1"
    using assms by (intro wrap32_id) (simp add: clock_ok_def int32_def)
  show "clock_ok (clock_step c)"
    using assms w w2 w3 by (auto simp: clock_step_def clock_ok_def)
  show "period (clock_step c) * song_position (clock_step c) - counter (clock_step c) =
         period c * song_position c - counter c + 2"
    using assms w w2 w3 by (auto simp: clock_step_def clock_ok_def distrib_left)
  show "period (clock_step c) = period c" by (simp add: clock_step_def)
  show "song_position (clock_step c) \<le> song_position c + 1"
    using w3 by (simp add: clock_step_def)
qed

lemma clock_steps:
  assumes "clock_ok c" and "song_position c + int n < 2 ^ 31"
  shows "clock_ok ((clock_step ^^ n) c) \<and> period ((clock_step ^^ n) c) = period c \<and>
    period c * song_position ((clock_step ^^ n) c) - counter ((clock_step ^^ n) c) =
      period c * song_position c - counter c + 2 * int n \<and>
    song_position ((clock_step ^^ n) c) \<le> song_position c + int n"
  using assms(2)
proof (induction n)
  case (Suc n)
  let ?c = "(clock_step ^^ n) c"
  have IH: "clock_ok ?c" "period ?c = period c"
      "period c * song_position ?c - counter ?c = period c * song_position c - counter c + 2 * int n"
      "song_position ?c \<le> song_position c + int n"
    using Suc by auto
  have "song_position ?c < 2 ^ 31 - 1" using IH(4) Suc.prems by simp
  from clock_step_ok [OF IH(1) this] IH show ?case by (simp add: algebra_simps)
qed (use assms(1) in simp)

lemma quotient_from_remainder:
  fixes p :: int
  assumes "1 \<le> r" and "r \<le> p" and "p * q - r = x"
  shows "q = x div p + 1"
proof -
  have "x = (p - r) + (q - 1) * p" using assms(3) by (simp add: algebra_simps)
  then have "x div p = (p - r) div p + (q - 1)" using assms(1,2) by simp
  moreover have "(p - r) div p = 0" using assms(1,2) by (intro div_pos_pos_trivial) auto
  ultimately show ?thesis by simp
qed

section \<open>Properties\<close>

text \<open>The state after a list of interrupts, each with its input and output buffer.\<close>

definition codec_run :: "(int list \<times> int list) list \<Rightarrow> codec_state \<Rightarrow> codec_state" where
  "codec_run ios st = fold (\<lambda>(inp, outp). computebufI inp outp) ios st"

lemma codec_run_clock: "midi_clock (codec_run ios st) = (clock_step ^^ length ios) (midi_clock st)"
  by (induction ios arbitrary: st)
    (auto simp: codec_run_def computebufI_clock funpow_swap1 split: prod.split)

text \<open>
  C11: The MIDI clock has no drift. With a period P between 2 and 2^31, after any number n of
  codec interrupts the song position is its starting value plus the number of whole periods the
  n double steps have covered, rounded the same way for every n, and the counter stays between
  1 and P.
\<close>

lemma midi_clock_exact:
  assumes "clock_ok (midi_clock st)" and "song_position (midi_clock st) + int (length ios) < 2 ^ 31"
  shows "song_position (midi_clock (codec_run ios st)) =
      song_position (midi_clock st) +
        (2 * int (length ios) - counter (midi_clock st)) div period (midi_clock st) + 1 \<and>
    clock_ok (midi_clock (codec_run ios st))"
proof -
  let ?c = "midi_clock st"
  let ?d = "(clock_step ^^ length ios) ?c"
  have d: "clock_ok ?d" "period ?d = period ?c"
      "period ?c * song_position ?d - counter ?d = period ?c * song_position ?c - counter ?c + 2 * int (length ios)"
    using clock_steps [OF assms] by auto
  have "song_position ?d = (period ?c * song_position ?c - counter ?c + 2 * int (length ios)) div period ?c + 1"
    by (rule quotient_from_remainder [OF _ _ d(3)]) (use d(1,2) in \<open>auto simp: clock_ok_def\<close>)
  also have "period ?c * song_position ?c - counter ?c + 2 * int (length ios) =
      (2 * int (length ios) - counter ?c) + song_position ?c * period ?c" by (simp add: algebra_simps)
  also have "\<dots> div period ?c = song_position ?c + (2 * int (length ios) - counter ?c) div period ?c"
    using assms(1) by (simp add: clock_ok_def)
  finally show ?thesis using d(1) by (simp add: codec_run_clock)
qed

definition sample_codec :: codec_state where
  "sample_codec = \<lparr>midi_clock = initial_midi_clock\<lparr>active := True\<rparr>, inbuf = replicate 32 0,
     outbuf = replicate 32 0,
     midi_in = \<lparr>read_index = 0, write_index = 0, buf = replicate 32 (mk_msg 0 0 0 0)\<rparr>,
     compute_signals = 0, reports = []\<rparr>"

lemma midi_clock_exact_witness:
  "song_position (midi_clock (codec_run (replicate 63 (replicate 32 0, replicate 32 0)) sample_codec)) =
      song_position (midi_clock sample_codec) +
        (2 * int (length (replicate 63 (replicate 32 (0 :: int), replicate 32 (0 :: int)))) -
          counter (midi_clock sample_codec)) div period (midi_clock sample_codec) + 1 \<and>
    clock_ok (midi_clock (codec_run (replicate 63 (replicate 32 0, replicate 32 0)) sample_codec))"
  by (rule midi_clock_exact) (simp_all add: sample_codec_def initial_midi_clock_def clock_ok_def)

end
