(* ===== verification/Fault_Monad.thy ===== *)
theory Fault_Monad
  imports Prelude
begin

text \<open>
  State passing with faults: operations that read and change a state and may stop in a fault,
  and the triples used to carry an invariant through the handlers built from them.
\<close>

type_synonym ('s, 'a) prog = "'s \<Rightarrow> fault + ('a \<times> 's)"

definition ret :: "'a \<Rightarrow> ('s, 'a) prog" where
  "ret x = (\<lambda>s. Inr (x, s))"

definition bnd :: "('s, 'a) prog \<Rightarrow> ('a \<Rightarrow> ('s, 'b) prog) \<Rightarrow> ('s, 'b) prog" where
  "bnd f g = (\<lambda>s. case f s of Inl e \<Rightarrow> Inl e | Inr (x, s') \<Rightarrow> g x s')"

definition stop :: "fault \<Rightarrow> ('s, 'a) prog" where
  "stop e = (\<lambda>s. Inl e)"

definition lift :: "fault + 'a \<Rightarrow> ('s, 'a) prog" where
  "lift r = (\<lambda>s. case r of Inl e \<Rightarrow> Inl e | Inr x \<Rightarrow> Inr (x, s))"

definition get_st :: "('s \<Rightarrow> 'a) \<Rightarrow> ('s, 'a) prog" where
  "get_st f = (\<lambda>s. Inr (f s, s))"

definition upd_st :: "('s \<Rightarrow> 's) \<Rightarrow> ('s, unit) prog" where
  "upd_st f = (\<lambda>s. Inr ((), f s))"

text \<open>A value the code may have left uninitialised.\<close>

definition use :: "'a option \<Rightarrow> ('s, 'a) prog" where
  "use v = (case v of None \<Rightarrow> stop Uninitialised | Some x \<Rightarrow> ret x)"

lemmas prog_defs = ret_def bnd_def stop_def lift_def get_st_def upd_st_def use_def

lemma bnd_cong [fundef_cong]:
  assumes "f1 s = f2 s" and "\<And>x s'. f2 s = Inr (x, s') \<Longrightarrow> g1 x s' = g2 x s'"
  shows "bnd f1 g1 s = bnd f2 g2 s"
  using assms by (auto simp: bnd_def split: sum.split prod.split)

lemma bnd_Inr: "f s = Inr (x, s') \<Longrightarrow> bnd f g s = g x s'"
  by (simp add: bnd_def)

lemma bnd_use [simp]: "bnd (use (Some x)) g = g x"
  by (rule ext) (simp add: bnd_def use_def ret_def)

section \<open>Triples\<close>

text \<open>
  From a state with P the operation ends with Q, or stops in a fault that is not in the set N of
  faults that must not happen.
\<close>

definition runs :: "fault set \<Rightarrow> ('s \<Rightarrow> bool) \<Rightarrow> ('s, 'a) prog \<Rightarrow> ('a \<Rightarrow> 's \<Rightarrow> bool) \<Rightarrow> bool" where
  "runs N P f Q \<longleftrightarrow> (\<forall>s. P s \<longrightarrow> (case f s of Inl e \<Rightarrow> e \<notin> N | Inr (x, s') \<Rightarrow> Q x s'))"

text \<open>An operation that keeps a predicate of the state.\<close>

abbreviation keeps :: "fault set \<Rightarrow> ('s \<Rightarrow> bool) \<Rightarrow> ('s, 'a) prog \<Rightarrow> bool" where
  "keeps N P f \<equiv> runs N P f (\<lambda>_. P)"

named_theorems keep \<open>operations that keep the invariant\<close>

lemma runs_ret [keep]: "keeps N P (ret x)"
  by (simp add: runs_def ret_def)

lemma runs_stop [keep]: "e \<notin> N \<Longrightarrow> runs N P (stop e) Q"
  by (simp add: runs_def stop_def)

lemma runs_get [keep]: "keeps N P (get_st f)"
  by (simp add: runs_def get_st_def)

lemma runs_upd: "(\<And>s. P s \<Longrightarrow> Q () (f s)) \<Longrightarrow> runs N P (upd_st f) Q"
  by (simp add: runs_def upd_st_def)

lemma runs_lift: "(\<And>e. r = Inl e \<Longrightarrow> e \<notin> N) \<Longrightarrow> keeps N P (lift r)"
  by (auto simp: runs_def lift_def split: sum.split)

lemma runs_use [keep]: "Uninitialised \<notin> N \<Longrightarrow> keeps N P (use v)"
  by (auto simp: use_def intro: runs_ret runs_stop split: option.split)

lemma runs_bnd: "runs N P f R \<Longrightarrow> (\<And>x. runs N (R x) (g x) Q) \<Longrightarrow> runs N P (bnd f g) Q"
  by (fastforce simp: runs_def bnd_def split: sum.splits prod.splits)

lemma keeps_bnd [keep]: "keeps N P f \<Longrightarrow> (\<And>x. keeps N P (g x)) \<Longrightarrow> keeps N P (bnd f g)"
  by (rule runs_bnd)

lemma keeps_if [keep]: "(b \<Longrightarrow> runs N P f Q) \<Longrightarrow> (\<not> b \<Longrightarrow> runs N P g Q) \<Longrightarrow> runs N P (if b then f else g) Q"
  by simp

lemma keeps_let [keep]: "(\<And>x. x = a \<Longrightarrow> runs N P (f x) Q) \<Longrightarrow> runs N P (Let a f) Q"
  by simp

lemma keeps_prod [keep]: "(\<And>a b. p = (a, b) \<Longrightarrow> runs N P (f a b) Q) \<Longrightarrow> runs N P (case_prod f p) Q"
  by (cases p) simp

lemma keeps_option [keep]:
  "(v = None \<Longrightarrow> runs N P f Q) \<Longrightarrow> (\<And>x. v = Some x \<Longrightarrow> runs N P (g x) Q) \<Longrightarrow> runs N P (case_option f g v) Q"
  by (cases v) simp_all

lemma runsD:
  assumes "runs N P f Q" and "P s"
  shows "(\<exists>x s'. f s = Inr (x, s') \<and> Q x s') \<or> (\<exists>e. f s = Inl e \<and> e \<notin> N)"
  using assms unfolding runs_def by (cases "f s") (auto dest!: spec [of _ s])

end
