(* ===== verification/Pconn_Stream.thy ===== *)
theory Pconn_Stream
  imports Fault_Monad
begin

text \<open>
  The byte stream of the USB bulk connection (firmware/pconnection.c): reading values from the
  packets of the host, and sending packets and transfers. The USB driver is a parameter: the
  results of the coming usbReceive calls, and of the coming usbTransmit calls.
\<close>

section \<open>Calls into the rest of the firmware\<close>

record finfo =
  fsize :: u32
  fdate :: u16
  ftime :: u16
  fattrib :: u8
  fname :: "u8 list"

datatype ext_call =
    Ack_Words | Fw_Words
  | Patch_Status u32 | Patch_NParams u32 | Patch_Param u32 nat | Patch_Param_Ack u32 nat
  | Patch_DispSize u32 | Patch_DispVector u32
  | Patch_Load "u8 list" | Patch_LoadIndex u32 | Patch_Stop u32
  | Patch_ChangeParam u32 u32 u32 u32 | Patch_ApplyPreset u32 u32 | Patch_PresetData u32
  | Patch_GetName u32 | Patch_GetError
  | Mem_Read u32 nat | Mem_Write u32 "u8 list" | Ax_Malloc u32 u32 u32 | Ax_Free u32
  | Calc_CRC32 u32 u32 | Codec_Clear | Flash_Write u32 u32 u32
  | Midi_In u32 | Queue_Input_Event u32
  | F_Open "u8 list" bool | F_Close | F_Lseek u32 | F_Read nat | F_Write "u8 list"
  | F_GetFree | F_OpenDir "u8 list" | F_Stat "u8 list" | F_Utime "u8 list" u16 u16
  | F_Unlink "u8 list" | F_Mkdir "u8 list"
  | Log_Text string | Check_Exceptions | Initiate_Dfu | Dbg_Call u32

text \<open>
  What a call returns: a result code, words, bytes, and for a directory its entries. The effect
  on the rest of the firmware is on a world of type 'e.
\<close>

record reply =
  code :: int
  rwords :: "u32 list"
  rbytes :: "u8 list"
  entries :: "finfo list"

section \<open>State\<close>

record 'e pconn =
  s_buf :: "u8 list"
  s_pos :: nat
  s_rem :: nat
  rx :: "u8 list option list"
  tx :: "u8 list list"
  tx_msgs :: "int list"
  mtxTransmit :: bool
  file_is_open :: bool
  fbuff :: "u8 list"
  log_reset :: bool
  calls :: "(ext_call \<times> int) list"
  ext :: "ext_call \<Rightarrow> 'e \<Rightarrow> reply \<times> 'e"
  patch_ptrs :: "u32 list"
  world :: 'e

type_synonym ('e, 'a) pc = "('e pconn, 'a) prog"

definition extern :: "ext_call \<Rightarrow> ('e, reply) pc" where
  "extern c = (\<lambda>st. case ext st c (world st) of
     (r, w) \<Rightarrow> Inr (r, st\<lparr>world := w, calls := calls st @ [(c, code r)]\<rparr>))"

definition rword :: "nat \<Rightarrow> reply \<Rightarrow> u32" where
  "rword i r = (if i < length (rwords r) then rwords r ! i else 0)"

section \<open>Receiving\<close>

text \<open>
  A transaction of at most n bytes, or a reset of the connection (None); when nothing more comes
  the connection is reset.
\<close>

definition usbReceive :: "nat \<Rightarrow> ('e, int \<times> u8 list) pc" where
  "usbReceive n = (\<lambda>st.
     case rx st of
       [] \<Rightarrow> Inr ((MSG_RESET, []), st)
     | None # rest \<Rightarrow> Inr ((MSG_RESET, []), st\<lparr>rx := rest\<rparr>)
     | Some bs # rest \<Rightarrow> Inr ((int (length (take n bs)), take n bs), st\<lparr>rx := rest\<rparr>))"

definition inStreamRead :: "('e, int) pc" where
  "inStreamRead =
     bnd (get_st s_rem) (\<lambda>r.
     if r \<noteq> 0 then stop (SysHalt ''in_stream buffer not empty'')
     else bnd (usbReceive 64) (\<lambda>(msg, bs).
       if msg < MSG_OK then ret msg
       else bnd (upd_st (\<lambda>st. st\<lparr>s_buf := bs @ drop (length bs) (s_buf st), s_pos := 0, s_rem := length bs\<rparr>))
         (\<lambda>_. ret MSG_OK)))"

text \<open>The byte k after the current position.\<close>

definition peek :: "nat \<Rightarrow> ('e, u8) pc" where
  "peek k = bnd (get_st (\<lambda>st. nth_e (s_buf st) (s_pos st + k))) lift"

text \<open>The count is a size\_t and wraps around below zero.\<close>

definition advance :: "nat \<Rightarrow> ('e, unit) pc" where
  "advance n = upd_st (\<lambda>st. st\<lparr>s_pos := s_pos st + n,
     s_rem := (if n \<le> s_rem st then s_rem st - n else s_rem st + 2 ^ 32 - n)\<rparr>)"

text \<open>Reading a packet when the last one is used up.\<close>

definition refill :: "('e, int) pc" where
  "refill = bnd (get_st s_rem) (\<lambda>r. if r = 0 then inStreamRead else ret MSG_OK)"

definition getUInt32 :: "('e, int \<times> u32 option) pc" where
  "getUInt32 =
     bnd refill (\<lambda>msg. if msg \<noteq> MSG_OK then ret (msg, None) else
     bnd (get_st s_rem) (\<lambda>r. if r < 4 then ret (MSG_RESET, None) else
     bnd (peek 0) (\<lambda>a. bnd (peek 1) (\<lambda>b. bnd (peek 2) (\<lambda>c. bnd (peek 3) (\<lambda>d.
     bnd (advance 4) (\<lambda>_. ret (MSG_OK, Some (le32 a b c d)))))))))"

definition getUInt16 :: "('e, int \<times> u16 option) pc" where
  "getUInt16 =
     bnd refill (\<lambda>msg. if msg \<noteq> MSG_OK then ret (msg, None) else
     bnd (get_st s_rem) (\<lambda>r. if r < 2 then ret (MSG_RESET, None) else
     bnd (peek 0) (\<lambda>a. bnd (peek 1) (\<lambda>b.
     bnd (advance 2) (\<lambda>_. ret (MSG_OK, Some (ucast a OR push_bit 8 (ucast b))))))))"

definition getChar :: "('e, int \<times> u8 option) pc" where
  "getChar =
     bnd refill (\<lambda>msg. if msg \<noteq> MSG_OK then ret (msg, None) else
     bnd (get_st s_rem) (\<lambda>r. if r = 0 then ret (MSG_RESET, None) else
     bnd (peek 0) (\<lambda>c. bnd (advance 1) (\<lambda>_. ret (MSG_OK, Some c)))))"

text \<open>
  getCString into an array of max\_length bytes. When the string does not fit, the loop leaves
  value at the end of the array and max\_length wrapped around to -1, so the terminator is
  stored at value[-2].
\<close>

fun cstring_loop :: "nat \<Rightarrow> nat \<Rightarrow> u8 option list \<Rightarrow> ('e, int \<times> u8 option list) pc" where
  "cstring_loop 0 i value =
     bnd (lift (upd_e value (i - 2) (Some 0))) (\<lambda>value. ret (MSG_OK, value))"
| "cstring_loop (Suc n) i value =
     bnd getChar (\<lambda>(msg, c).
     if msg \<noteq> MSG_OK then ret (msg, value)
     else bnd (use c) (\<lambda>c.
       bnd (lift (upd_e value i (Some c))) (\<lambda>value.
       if c = 0 then ret (MSG_OK, value) else cstring_loop n (i + 1) value)))"

definition getCString :: "nat \<Rightarrow> ('e, int \<times> u8 option list) pc" where
  "getCString max_length = cstring_loop max_length 0 (replicate max_length None)"

text \<open>The string in an array whose bytes may be uninitialised.\<close>

fun opt_string :: "u8 option list \<Rightarrow> fault + u8 list" where
  "opt_string [] = Inl OutOfBounds"
| "opt_string (None # _) = Inl Uninitialised"
| "opt_string (Some c # cs) = (if c = 0 then Inr [] else sbind (opt_string cs) (\<lambda>s. Inr (c # s)))"

text \<open>getByteArray; the bytes are collected, they go to consecutive addresses.\<close>

fun getByteArray :: "nat \<Rightarrow> ('e, int \<times> u8 list) pc" where
  "getByteArray 0 = ret (MSG_OK, [])"
| "getByteArray (Suc n) =
     bnd refill (\<lambda>msg. if msg \<noteq> MSG_OK then ret (msg, []) else
     bnd (peek 0) (\<lambda>c. bnd (advance 1) (\<lambda>_.
     bnd (getByteArray n) (\<lambda>(msg, cs). ret (msg, c # cs)))))"

section \<open>Sending\<close>

text \<open>Taking the mutex twice blocks the thread for ever.\<close>

definition mtx_lock :: "('e, unit) pc" where
  "mtx_lock = bnd (get_st mtxTransmit) (\<lambda>b.
     if b then stop (SysHalt ''mtxTransmit locked twice'') else upd_st (\<lambda>st. st\<lparr>mtxTransmit := True\<rparr>))"

definition mtx_unlock :: "('e, unit) pc" where
  "mtx_unlock = bnd (get_st mtxTransmit) (\<lambda>b.
     if b then upd_st (\<lambda>st. st\<lparr>mtxTransmit := False\<rparr>) else stop (SysHalt ''mtxTransmit not owned''))"

definition usbTransmit :: "u8 list \<Rightarrow> ('e, int) pc" where
  "usbTransmit data = (\<lambda>st.
     case tx_msgs st of
       [] \<Rightarrow> Inr (MSG_OK, st\<lparr>tx := tx st @ [data]\<rparr>)
     | m # rest \<Rightarrow> Inr (m, st\<lparr>tx := tx st @ [data], tx_msgs := rest\<rparr>))"

definition BulkUsbTransmit :: "u8 list \<Rightarrow> ('e, int) pc" where
  "BulkUsbTransmit data = bnd (get_st mtxTransmit) (\<lambda>b.
     if \<not> b then stop (SysHalt ''mtxTransmit was not locked'') else usbTransmit data)"

definition BulkUsbTransmitPacket :: "u8 list \<Rightarrow> ('e, int) pc" where
  "BulkUsbTransmitPacket data =
     bnd (BulkUsbTransmit data) (\<lambda>res.
     if res \<noteq> MSG_OK then ret res
     else if length data \<noteq> 0 \<and> length data mod 64 = 0 then BulkUsbTransmit []
     else ret res)"

text \<open>The calls of a handler that run with the mutex held.\<close>

definition locked :: "('e, 'a) pc \<Rightarrow> ('e, 'a) pc" where
  "locked f = bnd mtx_lock (\<lambda>_. bnd f (\<lambda>r. bnd mtx_unlock (\<lambda>_. ret r)))"

definition BulkUsbTransmitPacket1 :: "u8 list \<Rightarrow> ('e, int) pc" where
  "BulkUsbTransmitPacket1 data = locked (BulkUsbTransmitPacket data)"

end
