(* ===== verification/Pconn.thy ===== *)
theory Pconn
  imports Pconn_Stream
begin

text \<open>
  The handlers of the USB bulk connection and their dispatch (firmware/pconnection.c). Every
  handler reads its arguments from the stream, calls the part of the firmware it serves, and
  sends its reply.
\<close>

section \<open>Replies\<close>

definition packet :: "u32 list \<Rightarrow> u8 list" where
  "packet ws = concat (map le32_bytes ws)"

definition tx_hdr_acknowledge :: u32 where "tx_hdr_acknowledge = 0x416F7841"
definition tx_hdr_fwid :: u32 where "tx_hdr_fwid = 0x566f7841"
definition tx_hdr_log :: u32 where "tx_hdr_log = 0x546F7841"
definition tx_hdr_memrd :: u32 where "tx_hdr_memrd = 0x726f7841"
definition tx_hdr_patch_paramchange :: u32 where "tx_hdr_patch_paramchange = 0x71507841"
definition tx_hdr_patch_disp :: u32 where "tx_hdr_patch_disp = 0x64507841"
definition tx_hdr_patch_list :: u32 where "tx_hdr_patch_list = 0x6C507841"
definition tx_hdr_f_info :: u32 where "tx_hdr_f_info = 0x69467841"
definition tx_hdr_f_read :: u32 where "tx_hdr_f_read = 0x72467841"
definition tx_hdr_f_dir :: u32 where "tx_hdr_f_dir = 0x64467841"
definition tx_hdr_f_dir_end :: u32 where "tx_hdr_f_dir_end = 0x44467841"
definition tx_hdr_f_result :: u32 where "tx_hdr_f_result = 0x65467841"
definition tx_hdr_result_ptr :: u32 where "tx_hdr_result_ptr = 0x536F7841"
definition tx_hdr_cstring :: u32 where "tx_hdr_cstring = 0x736F7841"

text \<open>
  The status packet of 64 bytes; the words that come from other parts of the firmware are the
  load, the voltages, the file system flag, the four level meters, the underruns and the free
  memory of four regions.
\<close>

definition tx_ack :: "('e, int) pc" where
  "tx_ack = bnd (extern Ack_Words) (\<lambda>r.
     locked (BulkUsbTransmitPacket (packet ([tx_hdr_acknowledge, 1, rword 0 r, 0, rword 1 r, - 1, rword 2 r]
       @ map (\<lambda>i. rword i r) [3..<12]))))"

definition running :: "u32 \<Rightarrow> ('e, bool) pc" where
  "running p = bnd (extern (Patch_Status p)) (\<lambda>r. ret (code r = 0))"

fun running_patches :: "u32 list \<Rightarrow> ('e, u32 list) pc" where
  "running_patches [] = ret []"
| "running_patches (p # ps) = bnd (running p) (\<lambda>b.
     bnd (running_patches ps) (\<lambda>qs. ret (if b then p # qs else qs)))"

definition tx_patchList :: "('e, int) pc" where
  "tx_patchList = bnd (get_st patch_ptrs) (\<lambda>ps. bnd (running_patches ps) (\<lambda>qs.
     if length qs > 15 then stop OutOfBounds
     else BulkUsbTransmitPacket1 (packet (tx_hdr_patch_list # qs))))"

definition cstring_packet :: "u8 list option \<Rightarrow> u8 list" where
  "cstring_packet str =
     le32_bytes tx_hdr_cstring @ (case str of None \<Rightarrow> [] | Some s \<Rightarrow> take 58 s) @ [0]"

definition tx_cstring :: "u8 list option \<Rightarrow> ('e, int) pc" where
  "tx_cstring str = BulkUsbTransmitPacket1 (cstring_packet str)"

definition tx_reply_ptr :: "u32 \<Rightarrow> ('e, int) pc" where
  "tx_reply_ptr v = locked (BulkUsbTransmit (packet [tx_hdr_result_ptr, v]))"

definition tx_fresult :: "int \<Rightarrow> u32 \<Rightarrow> ('e, int) pc" where
  "tx_fresult err fref = locked (BulkUsbTransmit (packet [tx_hdr_f_result, fref, word_of_int err]))"

definition AM_DIR :: u8 where "AM_DIR = 0x10"
definition AM_HID :: u8 where "AM_HID = 0x02"

text \<open>The name in the packet: strncpy into 51 bytes, strlen, and a slash after a directory.\<close>

definition fileinfo_name :: "finfo \<Rightarrow> fault + u8 list" where
  "fileinfo_name fi =
     (let filename = take 51 (fname fi @ replicate 51 0) in
      if fattrib fi AND AM_DIR \<noteq> 0 then
        sbind (c_string filename) (\<lambda>s.
        sbind (upd_e filename (length s) 47) (\<lambda>filename.
        sbind (upd_e filename (length s + 1) 0) c_string))
      else c_string filename)"

definition tx_fileinfo :: "finfo \<Rightarrow> int \<Rightarrow> ('e, int) pc" where
  "tx_fileinfo fi err =
     bnd (lift (fileinfo_name fi)) (\<lambda>name.
       BulkUsbTransmitPacket (packet [tx_hdr_f_info, word_of_int err, fsize fi,
         ucast (fdate fi) OR push_bit 16 (ucast (ftime fi))] @ name))"

section \<open>Patches\<close>

definition paramchange_packet :: "u32 \<Rightarrow> u32 \<Rightarrow> nat \<Rightarrow> u8 list" where
  "paramchange_packet p v i = packet [tx_hdr_patch_paramchange, p, v, word_of_nat i]"

fun param_loop :: "nat list \<Rightarrow> u32 \<Rightarrow> int \<Rightarrow> ('e, int) pc" where
  "param_loop [] p r = ret r"
| "param_loop (i # is) p r =
     bnd (extern (Patch_Param p i)) (\<lambda>param.
     if rword 0 param AND 1 \<noteq> 0 then
       bnd (extern (Patch_Param_Ack p i)) (\<lambda>_.
       bnd (BulkUsbTransmit (paramchange_packet p (rword 1 param) i)) (\<lambda>r.
       if r < 0 then ret r else param_loop is p r))
     else param_loop is p r)"

definition bulk_tx_patch_paramchange1 :: "u32 \<Rightarrow> ('e, int) pc" where
  "bulk_tx_patch_paramchange1 p =
     bnd (running p) (\<lambda>b.
     if b then
       locked (bnd (extern (Patch_NParams p)) (\<lambda>n. param_loop [0..<nat (code n)] p 0))
     else ret 0)"

fun paramchange_patches :: "u32 list \<Rightarrow> int \<Rightarrow> ('e, int) pc" where
  "paramchange_patches [] r = ret r"
| "paramchange_patches (p # ps) r =
     bnd (bulk_tx_patch_paramchange1 p) (\<lambda>r. if r < 0 then ret r else paramchange_patches ps r)"

definition tx_patch_paramchange :: "('e, int) pc" where
  "tx_patch_paramchange = bnd (get_st patch_ptrs) (\<lambda>ps. paramchange_patches ps 0)"

definition rcv_ping :: "('e, int) pc" where
  "rcv_ping = bnd tx_ack (\<lambda>_. bnd (get_st log_reset) (\<lambda>reset.
     bnd (if reset then ret () else bnd (extern Check_Exceptions) (\<lambda>_. ret ())) (\<lambda>_.
     bnd tx_patch_paramchange (\<lambda>_. ret MSG_OK))))"

definition rcv_patch_get_disp :: "('e, int) pc" where
  "rcv_patch_get_disp =
     bnd getUInt32 (\<lambda>(msg, patch). if msg \<noteq> MSG_OK then ret msg else
     bnd (use patch) (\<lambda>p.
     bnd (running p) (\<lambda>b.
     if b then
       bnd (extern (Patch_DispSize p)) (\<lambda>n.
       let size = 4 * rword 0 n in
       locked (bnd (BulkUsbTransmit (packet [tx_hdr_patch_disp, size, p])) (\<lambda>msg.
         if msg = MSG_OK \<and> size \<noteq> 0 then
           bnd (extern (Patch_DispVector p)) (\<lambda>d. BulkUsbTransmitPacket (rbytes d))
         else ret msg)))
     else locked (BulkUsbTransmit (packet [tx_hdr_patch_disp, 0, 0])))))"

definition rcv_patch_stop :: "('e, int) pc" where
  "rcv_patch_stop = bnd (get_st s_rem) (\<lambda>r.
     if r \<noteq> 0 then
       bnd getUInt32 (\<lambda>(msg, patch). if msg \<noteq> MSG_OK then ret msg else
       bnd (use patch) (\<lambda>p. bnd (extern (Patch_Stop p)) (\<lambda>_. ret MSG_OK)))
     else bnd (extern (Patch_Stop 0)) (\<lambda>_. ret MSG_OK))"

definition MAX_FNAME_LENGTH :: nat where "MAX_FNAME_LENGTH = 64"

text \<open>A name read into a local array; its result code is ignored.\<close>

definition get_name :: "('e, u8 list) pc" where
  "get_name = bnd (getCString MAX_FNAME_LENGTH) (\<lambda>(_, value). lift (opt_string value))"

definition rcv_patch_start :: "('e, int) pc" where
  "rcv_patch_start = bnd (peek 0) (\<lambda>c.
     if c = 0 then
       bnd getUInt32 (\<lambda>(msg, index). if msg \<noteq> MSG_OK then ret msg else
       bnd (use index) (\<lambda>i. bnd (extern (Patch_LoadIndex i)) (\<lambda>r. tx_reply_ptr (rword 0 r))))
     else
       bnd get_name (\<lambda>name. bnd (extern (Patch_Load name)) (\<lambda>r. tx_reply_ptr (rword 0 r))))"

definition rcv_patch_paramchange :: "('e, int) pc" where
  "rcv_patch_paramchange =
     bnd getUInt32 (\<lambda>(_, patch). bnd getUInt32 (\<lambda>(_, index). bnd getUInt32 (\<lambda>(_, value).
     bnd (use patch) (\<lambda>p. bnd (use index) (\<lambda>i. bnd (use value) (\<lambda>v.
     bnd (extern (Patch_ChangeParam p i v 0xFFFFFFEE)) (\<lambda>_. ret MSG_OK))))))) "

definition rcv_patch_preset_apply :: "('e, int) pc" where
  "rcv_patch_preset_apply =
     bnd getUInt32 (\<lambda>(_, patch). bnd getUInt32 (\<lambda>(msg, index).
     bnd (use patch) (\<lambda>p. bnd (use index) (\<lambda>i.
     bnd (extern (Patch_ApplyPreset p i)) (\<lambda>_. bnd tx_patch_paramchange (\<lambda>_. ret msg))))))"

text \<open>The bytes go to the preset data of the patch, without a check of the size.\<close>

definition rcv_patch_preset_write :: "('e, int) pc" where
  "rcv_patch_preset_write =
     bnd getUInt32 (\<lambda>(_, patch). bnd getUInt32 (\<lambda>(msg, size).
     bnd (use patch) (\<lambda>p. bnd (extern (Patch_PresetData p)) (\<lambda>d.
     if rword 0 d \<noteq> 0 then
       bnd (use size) (\<lambda>n.
       bnd (getByteArray (unat n)) (\<lambda>(msg, bs).
       bnd (extern (Mem_Write (rword 0 d) bs)) (\<lambda>_. ret msg)))
     else ret msg))))"

definition rcv_patch_get_name :: "('e, int) pc" where
  "rcv_patch_get_name =
     bnd getUInt32 (\<lambda>(_, patch). bnd (use patch) (\<lambda>p.
     bnd (extern (Patch_GetName p)) (\<lambda>r. tx_cstring (Some (rbytes r)))))"

definition rcv_patch_get_error :: "('e, int) pc" where
  "rcv_patch_get_error =
     bnd (extern Patch_GetError) (\<lambda>r. tx_cstring (if code r = 0 then None else Some (rbytes r)))"

definition rcv_patch_get_list :: "('e, int) pc" where
  "rcv_patch_get_list = tx_patchList"

section \<open>Memory\<close>

definition rcv_mem_read :: "('e, int) pc" where
  "rcv_mem_read =
     bnd getUInt32 (\<lambda>(_, offset). bnd getUInt32 (\<lambda>(_, size).
     bnd (use offset) (\<lambda>a. bnd (use size) (\<lambda>n.
     locked (bnd (BulkUsbTransmit (packet [tx_hdr_memrd, a, n])) (\<lambda>msg.
       if msg = MSG_OK then
         bnd (extern (Mem_Read a (unat n))) (\<lambda>r. BulkUsbTransmitPacket (rbytes r))
       else ret msg))))))"

text \<open>
  The transfer into memory: transactions until all bytes came or the connection was reset. The
  rest length is an int, so a size from 2^31 on writes nothing.
\<close>

function mem_write_loop :: "u32 \<Rightarrow> int \<Rightarrow> int \<Rightarrow> ('e, int) pc" where
  "mem_write_loop offset rem_length msg st =
     (if rem_length > 0 then
        (case rx st of
           [] \<Rightarrow> Inr (MSG_RESET, st)
         | None # rest \<Rightarrow> Inr (MSG_RESET, st\<lparr>rx := rest\<rparr>)
         | Some bs # rest \<Rightarrow>
             (let bs = take (nat rem_length) bs in
              bnd (extern (Mem_Write offset bs))
                (\<lambda>_ st'. mem_write_loop (offset + word_of_nat (length bs)) (rem_length - int (length bs))
                   (int (length bs)) (st'\<lparr>rx := rest\<rparr>)) st))
      else Inr (msg, st))"
  by pat_completeness auto
termination
  by (relation "measure (\<lambda>(_, _, _, st). length (rx st))") auto

declare mem_write_loop.simps [simp del]

definition rcv_mem_write :: "('e, int) pc" where
  "rcv_mem_write =
     bnd getUInt32 (\<lambda>(_, offset). bnd getUInt32 (\<lambda>(msg, size).
     bnd (use offset) (\<lambda>a. bnd (use size) (\<lambda>n.
     mem_write_loop a (sint n) msg))))"

definition rcv_mem_alloc :: "('e, int) pc" where
  "rcv_mem_alloc =
     bnd getUInt32 (\<lambda>(_, size). bnd getUInt32 (\<lambda>(_, typeflags). bnd getUInt32 (\<lambda>(_, alignment).
     bnd (use size) (\<lambda>n. bnd (use typeflags) (\<lambda>f. bnd (use alignment) (\<lambda>a.
     bnd (extern (Ax_Malloc n f a)) (\<lambda>r. tx_reply_ptr (rword 0 r))))))))"

definition rcv_mem_free :: "('e, int) pc" where
  "rcv_mem_free = bnd getUInt32 (\<lambda>(msg, ptr). bnd (use ptr) (\<lambda>p.
     bnd (extern (Ax_Free p)) (\<lambda>_. ret msg)))"

definition FLASH_BASE_ADDR :: u32 where "FLASH_BASE_ADDR = 0x08000000"
definition FLASH_PATCH_ADDR :: u32 where "FLASH_PATCH_ADDR = 0x08080000"

definition CopyPatchToFlash :: "u32 \<Rightarrow> u32 \<Rightarrow> u32 \<Rightarrow> ('e, int) pc" where
  "CopyPatchToFlash pdest psrc psize =
     (if pdest = FLASH_BASE_ADDR then
        bnd (extern (Calc_CRC32 (4 + psrc) (psize - 4))) (\<lambda>ccrc.
        bnd (extern (Mem_Read psrc 4)) (\<lambda>w.
        if rword 0 ccrc \<noteq> rword 0 w then
          bnd (extern (Log_Text ''verify crc'')) (\<lambda>_. ret (-3))
        else bnd (extern Codec_Clear) (\<lambda>_.
          bnd (extern (Flash_Write pdest (psrc + 4) psize)) (\<lambda>r. ret (code r)))))
      else if pdest = FLASH_PATCH_ADDR then
        bnd (extern Codec_Clear) (\<lambda>_. bnd (extern (Flash_Write pdest psrc psize)) (\<lambda>r. ret (code r)))
      else bnd (extern (Log_Text ''flash to addr not implemented'')) (\<lambda>_. ret (-1)))"

definition rcv_mem_write_flash :: "('e, int) pc" where
  "rcv_mem_write_flash =
     bnd getUInt32 (\<lambda>(_, pdest). bnd getUInt32 (\<lambda>(_, psrc). bnd getUInt32 (\<lambda>(_, size).
     bnd (use pdest) (\<lambda>d. bnd (use psrc) (\<lambda>s. bnd (use size) (\<lambda>n.
     bnd (CopyPatchToFlash d s n) (\<lambda>err.
     if err \<noteq> 0 then bnd (extern (Log_Text ''Flashing failed!'')) (\<lambda>_. tx_reply_ptr (word_of_int err))
     else bnd (extern (Log_Text ''Flashing done.'')) (\<lambda>_. tx_reply_ptr 0))))))))"

section \<open>Files\<close>

definition FR_OK :: int where "FR_OK = 0"
definition FR_TOO_MANY_OPEN_FILES :: int where "FR_TOO_MANY_OPEN_FILES = 18"
definition FR_INVALID_PARAMETER :: int where "FR_INVALID_PARAMETER = 19"
definition fileRef :: u32 where "fileRef = 0xf113"

text \<open>The handlers branch on the flag of the one file object.\<close>

definition with_open :: "(bool \<Rightarrow> ('e, 'a) pc) \<Rightarrow> ('e, 'a) pc" where
  "with_open g = bnd (get_st file_is_open) g"

definition open_file :: "bool \<Rightarrow> ('e, int) pc" where
  "open_file for_writing = with_open (\<lambda>op.
     if op then tx_fresult FR_TOO_MANY_OPEN_FILES 0
     else bnd get_name (\<lambda>fname.
       bnd (extern (F_Open fname for_writing)) (\<lambda>r.
       bnd (if code r = FR_OK then upd_st (\<lambda>st. st\<lparr>file_is_open := True\<rparr>) else ret ()) (\<lambda>_.
       tx_fresult (code r) fileRef))))"

definition rcv_f_open :: "('e, int) pc" where
  "rcv_f_open = open_file False"

definition rcv_f_open_write :: "('e, int) pc" where
  "rcv_f_open_write = open_file True"

definition rcv_f_close :: "('e, int) pc" where
  "rcv_f_close = bnd getUInt32 (\<lambda>(msg, file_ref). with_open (\<lambda>op.
     if msg \<noteq> MSG_OK \<or> \<not> op \<or> file_ref \<noteq> Some fileRef then tx_fresult FR_INVALID_PARAMETER 0
     else bnd (extern F_Close) (\<lambda>r.
       bnd (upd_st (\<lambda>st. st\<lparr>file_is_open := False\<rparr>)) (\<lambda>_. tx_fresult (code r) 0))))"

definition rcv_f_seek :: "('e, int) pc" where
  "rcv_f_seek = bnd getUInt32 (\<lambda>(msg, file_ref).
     if msg \<noteq> MSG_OK then tx_fresult FR_INVALID_PARAMETER 0 else
     bnd getUInt32 (\<lambda>(msg, pos).
     if msg \<noteq> MSG_OK then tx_fresult FR_INVALID_PARAMETER 0 else
     with_open (\<lambda>op.
     if \<not> op \<or> file_ref \<noteq> Some fileRef then tx_fresult FR_INVALID_PARAMETER 0
     else bnd (use pos) (\<lambda>p. bnd (extern (F_Lseek p)) (\<lambda>r. tx_fresult (code r) 0)))))"

text \<open>A read or a write goes through the buffer fbuff of 1024 bytes.\<close>

definition fbuff_size :: nat where "fbuff_size = 1024"

definition rcv_f_read :: "('e, int) pc" where
  "rcv_f_read = bnd getUInt32 (\<lambda>(_, file_ref). bnd getUInt32 (\<lambda>(_, length).
     locked (with_open (\<lambda>op.
       bnd (if op then use file_ref else ret 0) (\<lambda>ref.
       bnd (if op \<and> ref = fileRef then use length else ret 0) (\<lambda>n.
       if \<not> op \<or> ref \<noteq> fileRef \<or> unat n > fbuff_size then
         bnd (BulkUsbTransmit (packet [tx_hdr_f_read, word_of_int FR_INVALID_PARAMETER, 0])) (\<lambda>_.
         bnd (BulkUsbTransmit []) (\<lambda>_. ret MSG_OK))
       else
         bnd (extern (F_Read (unat n))) (\<lambda>r.
         let bs = take (unat n) (rbytes r) in
         bnd (upd_st (\<lambda>st. st\<lparr>fbuff := bs @ drop (List.length bs) (fbuff st)\<rparr>)) (\<lambda>_.
         bnd (BulkUsbTransmit (packet [tx_hdr_f_read, word_of_int (code r), word_of_nat (List.length bs)])) (\<lambda>_.
         bnd (get_st (\<lambda>st. take (List.length bs) (fbuff st))) (\<lambda>data.
         bnd (BulkUsbTransmitPacket data) (\<lambda>_. ret MSG_OK)))))))))))"

text \<open>Storing bytes at a position of fbuff.\<close>

definition put_fbuff :: "nat \<Rightarrow> u8 list \<Rightarrow> ('e, unit) pc" where
  "put_fbuff pos bs = bnd (get_st fbuff) (\<lambda>b.
     if pos + length bs > length b then stop OutOfBounds
     else upd_st (\<lambda>st. st\<lparr>fbuff := take pos b @ bs @ drop (pos + length bs) b\<rparr>))"

fun f_write_loop :: "u8 list option list \<Rightarrow> nat \<Rightarrow> int \<Rightarrow> ('e, unit) pc" where
  "f_write_loop rxs pos rem_length =
     (if rem_length > 0 then
        (case rxs of
           [] \<Rightarrow> ret ()
         | None # rest \<Rightarrow> upd_st (\<lambda>st. st\<lparr>rx := rest\<rparr>)
         | Some bs # rest \<Rightarrow>
             (let bs = take (nat rem_length) bs in
              bnd (upd_st (\<lambda>st. st\<lparr>rx := rest\<rparr>)) (\<lambda>_.
              bnd (put_fbuff pos bs) (\<lambda>_.
              f_write_loop rest (pos + length bs) (rem_length - int (length bs))))))
      else ret ())"

declare f_write_loop.simps [simp del]

definition rcv_f_write :: "('e, int) pc" where
  "rcv_f_write = bnd getUInt32 (\<lambda>(_, file_ref). bnd getUInt32 (\<lambda>(_, fsize).
     bnd (use fsize) (\<lambda>n.
     if unat n > fbuff_size then stop (SysHalt ''f_write too long'') else
     with_open (\<lambda>op.
     bnd (if op then use file_ref else ret 0) (\<lambda>ref.
     if \<not> op \<or> ref \<noteq> fileRef then tx_fresult FR_INVALID_PARAMETER 0 else
     bnd (get_st (\<lambda>st. take (s_rem st) (drop (s_pos st) (s_buf st)))) (\<lambda>first.
     bnd (put_fbuff 0 first) (\<lambda>_.
     bnd (upd_st (\<lambda>st. st\<lparr>s_pos := s_pos st + length first, s_rem := 0\<rparr>)) (\<lambda>_.
     bnd (get_st rx) (\<lambda>rxs.
     bnd (f_write_loop rxs (length first) (int (unat n) - int (length first))) (\<lambda>_.
     bnd (get_st (\<lambda>st. take (unat n) (fbuff st))) (\<lambda>data.
     bnd (extern (F_Write data)) (\<lambda>r. tx_fresult (code r) 0))))))))))))"

text \<open>
  The directory loop: f\_readdir hands out the entries one by one, then an empty name. The macro
  \_USE\_LFN of the code is not defined by the configuration, so the name is fname.
\<close>

definition shown :: "finfo \<Rightarrow> bool" where
  "shown fi \<longleftrightarrow> hd (fname fi) \<noteq> 46 \<and> fattrib fi AND AM_HID = 0"

fun dir_loop :: "finfo list \<Rightarrow> ('e, unit) pc" where
  "dir_loop [] = ret ()"
| "dir_loop (fi # fis) =
     (if fname fi = [] then ret ()
      else if shown fi then bnd (tx_fileinfo fi 0) (\<lambda>_. dir_loop fis)
      else dir_loop fis)"

definition MMCSD_BLOCK_SIZE :: u32 where "MMCSD_BLOCK_SIZE = 512"

definition rcv_f_dirlist :: "('e, int) pc" where
  "rcv_f_dirlist = bnd get_name (\<lambda>path.
     bnd (extern F_GetFree) (\<lambda>free.
     locked (
       bnd (BulkUsbTransmit (packet [tx_hdr_f_dir, rword 0 free, rword 1 free, MMCSD_BLOCK_SIZE])) (\<lambda>_.
       bnd (if code free = FR_OK then
              bnd (extern (F_OpenDir path)) (\<lambda>d.
              if code d = FR_OK then bnd (dir_loop (entries d)) (\<lambda>_. ret (sint (rword 0 d)))
              else ret (code d))
            else ret (code free)) (\<lambda>err.
       BulkUsbTransmit (packet [tx_hdr_f_dir_end, word_of_int err]))))))"

definition rcv_f_getinfo :: "('e, int) pc" where
  "rcv_f_getinfo = bnd get_name (\<lambda>fname. bnd (extern (F_Stat fname)) (\<lambda>r.
     case entries r of
       [] \<Rightarrow> stop Uninitialised
     | fi # _ \<Rightarrow> locked (tx_fileinfo fi (code r))))"

definition rcv_f_setinfo :: "('e, int) pc" where
  "rcv_f_setinfo = bnd getUInt16 (\<lambda>(_, date). bnd getUInt16 (\<lambda>(_, time). bnd get_name (\<lambda>fname.
     bnd (use date) (\<lambda>d. bnd (use time) (\<lambda>t.
     bnd (extern (F_Utime fname d t)) (\<lambda>r. tx_fresult (code r) 0))))))"

definition rcv_f_delete :: "('e, int) pc" where
  "rcv_f_delete = bnd get_name (\<lambda>fname. bnd (extern (F_Unlink fname)) (\<lambda>r. tx_fresult (code r) 0))"

definition rcv_f_mkdir :: "('e, int) pc" where
  "rcv_f_mkdir = bnd get_name (\<lambda>fname. bnd (extern (F_Mkdir fname)) (\<lambda>r. tx_fresult (code r) 0))"

section \<open>Other requests\<close>

definition rcv_getfwid :: "('e, int) pc" where
  "rcv_getfwid = bnd (extern Fw_Words) (\<lambda>r.
     bnd (BulkUsbTransmitPacket1 (packet [tx_hdr_fwid, rword 0 r, rword 1 r, rword 2 r])) (\<lambda>msg.
     bnd (upd_st (\<lambda>st. st\<lparr>log_reset := False\<rparr>)) (\<lambda>_.
     bnd (get_st s_rem) (\<lambda>n.
     bnd (if n = 0 then
            bnd (extern (Log_Text ''Firmware is newer than the software release,'')) (\<lambda>_.
            bnd (extern (Log_Text ''firmware update will fail,'')) (\<lambda>_.
            bnd (extern (Log_Text ''and connection will fail too.'')) (\<lambda>_.
            bnd (extern (Log_Text ''You need to downgrade firmware via the rescue (DFU) method!'')) (\<lambda>_.
            ret ()))))
          else ret ()) (\<lambda>_. ret msg)))))"

definition rcv_midi :: "('e, int) pc" where
  "rcv_midi = bnd getUInt32 (\<lambda>(msg, m). bnd (use m) (\<lambda>w.
     bnd (extern (Midi_In w)) (\<lambda>_. ret msg)))"

definition rcv_virtual_input_event :: "('e, int) pc" where
  "rcv_virtual_input_event = bnd getUInt32 (\<lambda>(msg, evt).
     if msg = MSG_OK then bnd (use evt) (\<lambda>w. bnd (extern (Queue_Input_Event w)) (\<lambda>_. ret msg))
     else ret msg)"

definition rcv_activate_dfu :: "('e, int) pc" where
  "rcv_activate_dfu = bnd (extern (Patch_Stop 0)) (\<lambda>_. bnd (extern Initiate_Dfu) (\<lambda>_. ret MSG_OK))"

definition rcv_extra :: "('e, int) pc" where
  "rcv_extra = bnd getUInt32 (\<lambda>(_, arg). bnd (use arg) (\<lambda>a.
     bnd (extern (if a < 4 then Dbg_Call a else Log_Text ''unknown arg'')) (\<lambda>_. ret MSG_OK)))"

section \<open>Dispatch\<close>

definition rcv_handlers :: "(u32 \<times> ('e, int) pc) list" where
  "rcv_handlers =
    [(0x706f7841, rcv_ping), (0x64507841, rcv_patch_get_disp), (0x70507841, rcv_patch_paramchange),
     (0x4D6f7841, rcv_midi), (0x724d7841, rcv_mem_read), (0x774d7841, rcv_mem_write),
     (0x614d7841, rcv_mem_alloc), (0x664d7841, rcv_mem_free), (0x464d7841, rcv_mem_write_flash),
     (0x53507841, rcv_patch_stop), (0x73507841, rcv_patch_start), (0x54507841, rcv_patch_preset_apply),
     (0x52507841, rcv_patch_preset_write), (0x6E507841, rcv_patch_get_name),
     (0x6C507841, rcv_patch_get_list), (0x65507841, rcv_patch_get_error),
     (0x426f7841, rcv_virtual_input_event), (0x6f467841, rcv_f_open), (0x4f467841, rcv_f_open_write),
     (0x63467841, rcv_f_close), (0x73467841, rcv_f_seek), (0x72467841, rcv_f_read),
     (0x77467841, rcv_f_write), (0x64467841, rcv_f_dirlist), (0x69467841, rcv_f_getinfo),
     (0x49467841, rcv_f_setinfo), (0x52467841, rcv_f_delete), (0x6D467841, rcv_f_mkdir),
     (0x566f7841, rcv_getfwid), (0x446f7841, rcv_activate_dfu), (0x586f7841, rcv_extra)]"

definition dispatch_rcv_header :: "('e, int) pc" where
  "dispatch_rcv_header = bnd getUInt32 (\<lambda>(msg, header). if msg \<noteq> MSG_OK then ret msg else
     bnd (use header) (\<lambda>h.
     case map_of rcv_handlers h of
       Some handler \<Rightarrow> handler
     | None \<Rightarrow> bnd (extern (Log_Text ''unidentified header'')) (\<lambda>_. ret MSG_OK)))"

text \<open>One turn of the reader thread: a packet of at most 64 bytes, or a reset.\<close>

definition BulkReader_turn :: "('e, unit) pc" where
  "BulkReader_turn = bnd (usbReceive 64) (\<lambda>(msg, bs).
     if msg = MSG_RESET then upd_st (\<lambda>st. st\<lparr>log_reset := True\<rparr>)
     else bnd (upd_st (\<lambda>st. st\<lparr>s_buf := bs @ drop (length bs) (s_buf st), s_pos := 0, s_rem := length bs\<rparr>))
       (\<lambda>_. bnd dispatch_rcv_header (\<lambda>_. ret ())))"

fun BulkReader :: "nat \<Rightarrow> ('e, unit) pc" where
  "BulkReader 0 = ret ()"
| "BulkReader (Suc n) = bnd BulkReader_turn (\<lambda>_. BulkReader n)"

text \<open>The log consumer sends at most 59 bytes of the log pipe behind a header.\<close>

definition LogConsumer_turn :: "u8 list \<Rightarrow> ('e, unit) pc" where
  "LogConsumer_turn pipe =
     (let data = take 59 pipe in
      if data \<noteq> [] then
        bnd (locked (BulkUsbTransmitPacket (le32_bytes tx_hdr_log @ data))) (\<lambda>_. ret ())
      else ret ())"

end
