(* ===== verification/Pconn_Props.thy ===== *)
theory Pconn_Props
  imports Pconn
begin

text \<open>
  What the bulk connection guarantees: the transmit mutex is used correctly by every handler, the
  file object is only used between a successful open and its close, strings and packets have the
  shape the other side expects.
\<close>

section \<open>The invariant of the handlers\<close>

text \<open>The faults that would be mistakes of the firmware itself, whatever the host sends.\<close>

definition internal_halts :: "fault set" where
  "internal_halts = {SysHalt ''in_stream buffer not empty'', SysHalt ''mtxTransmit locked twice'',
     SysHalt ''mtxTransmit not owned'', SysHalt ''mtxTransmit was not locked''}"

text \<open>
  The protocol of the file object: open only when it is closed, and everything else only while
  it is open. A failed open leaves it closed.
\<close>

fun file_step :: "bool \<Rightarrow> ext_call \<times> int \<Rightarrow> bool option" where
  "file_step op (F_Open _ _, r) = (if op then None else Some (r = 0))"
| "file_step op (F_Close, _) = (if op then Some False else None)"
| "file_step op (F_Lseek _, _) = (if op then Some True else None)"
| "file_step op (F_Read _, _) = (if op then Some True else None)"
| "file_step op (F_Write _, _) = (if op then Some True else None)"
| "file_step op _ = Some op"

fun file_run :: "bool \<Rightarrow> (ext_call \<times> int) list \<Rightarrow> bool option" where
  "file_run op [] = Some op"
| "file_run op (c # cs) = Option.bind (file_step op c) (\<lambda>op. file_run op cs)"

lemma file_run_snoc: "file_run op (cs @ [c]) = Option.bind (file_run op cs) (\<lambda>op. file_step op c)"
  by (induction cs arbitrary: op) (auto split: Option.bind_splits)

definition pc_inv :: "bool \<Rightarrow> bool \<Rightarrow> 'e pconn \<Rightarrow> bool" where
  "pc_inv L op st \<longleftrightarrow> mtxTransmit st = L \<and> file_is_open st = op \<and> file_run False (calls st) = Some op"

abbreviation safe :: "bool \<Rightarrow> bool \<Rightarrow> ('e, 'a) pc \<Rightarrow> bool" where
  "safe L op f \<equiv> keeps internal_halts (pc_inv L op) f"

lemma benign_faults [simp]:
  "OutOfBounds \<notin> internal_halts" "Uninitialised \<notin> internal_halts"
  "SysHalt ''f_write too long'' \<notin> internal_halts"
  by (simp_all add: internal_halts_def)

text \<open>Changes of the state that the invariant does not see.\<close>

lemma safe_upd [keep]:
  assumes "\<And>st. mtxTransmit (f st) = mtxTransmit st" and "\<And>st. calls (f st) = calls st"
    and "\<And>st. file_is_open (f st) = file_is_open st"
  shows "safe L op (upd_st f)"
  by (rule runs_upd) (simp add: pc_inv_def assms)

lemma safe_usbReceive [keep]: "safe L op (usbReceive n)"
  by (auto simp: runs_def usbReceive_def pc_inv_def split: list.splits option.splits)

lemma safe_usbTransmit [keep]: "safe L op (usbTransmit data)"
  by (auto simp: runs_def usbTransmit_def pc_inv_def split: list.splits)

lemma safe_lift_bounds [keep]:
  "safe L op (lift (nth_e xs i))" "safe L op (lift (upd_e xs i x))" "safe L op (lift (c_string m))"
  by (auto intro!: runs_lift simp: nth_e_def upd_e_def c_string_def split: if_splits)

lemma opt_string_faults: "opt_string v = Inl e \<Longrightarrow> e \<in> {OutOfBounds, Uninitialised}"
  by (induction v rule: opt_string.induct) (auto simp: sbind_def split: if_splits sum.splits)

lemma safe_lift_strings [keep]: "safe L op (lift (opt_string v))" "safe L op (lift (fileinfo_name fi))"
proof -
  show "safe L op (lift (opt_string v))"
    by (rule runs_lift) (use opt_string_faults benign_faults in blast)
  have "e = OutOfBounds" if "fileinfo_name fi = Inl e" for e
    using that
    by (auto simp: fileinfo_name_def sbind_def upd_e_def c_string_def Let_def split: if_splits sum.splits)
  then show "safe L op (lift (fileinfo_name fi))" by (intro runs_lift) auto
qed

text \<open>Reading a field first; the rest may depend on its value.\<close>

lemma safe_get:
  assumes "\<And>v. runs N (\<lambda>s. P s \<and> f s = v) (g v) Q"
  shows "runs N P (bnd (get_st f) g) Q"
  using assms by (fastforce simp: runs_def bnd_def get_st_def)

lemma safe_inStreamRead:
  "runs internal_halts (\<lambda>st. pc_inv L op st \<and> s_rem st = 0) inStreamRead (\<lambda>_. pc_inv L op)"
proof -
  have "safe L op (bnd (usbReceive 64) (\<lambda>(msg, bs).
       if msg < MSG_OK then ret msg
       else bnd (upd_st (\<lambda>st. st\<lparr>s_buf := bs @ drop (length bs) (s_buf st), s_pos := 0, s_rem := length bs\<rparr>))
         (\<lambda>_. ret MSG_OK)))"
    by (intro keep; simp)
  then show ?thesis by (auto simp: runs_def inStreamRead_def bnd_def get_st_def)
qed

lemma safe_refill [keep]: "safe L op refill"
  using safe_inStreamRead [of L op] by (auto simp: runs_def refill_def bnd_def get_st_def ret_def)

lemma safe_peek [keep]: "safe L op (peek k)"
  unfolding peek_def by (rule safe_get) (auto simp: runs_def lift_def nth_e_def)

lemma safe_advance [keep]: "safe L op (advance n)"
  unfolding advance_def by (intro keep; simp)

lemma safe_getUInt32 [keep]: "safe L op getUInt32"
  unfolding getUInt32_def by (intro keep)

lemma safe_getUInt16 [keep]: "safe L op getUInt16"
  unfolding getUInt16_def by (intro keep)

lemma safe_getChar [keep]: "safe L op getChar"
  unfolding getChar_def by (intro keep)

lemma safe_cstring_loop [keep]: "safe L op (cstring_loop n i value)"
  by (induction n arbitrary: i "value") (simp, intro keep, simp, intro keep, simp_all)

lemma safe_getCString [keep]: "safe L op (getCString n)"
  unfolding getCString_def by (intro keep)

lemma safe_getByteArray [keep]: "safe L op (getByteArray n)"
  by (induction n) (simp, intro keep, simp, intro keep, simp_all)

lemma safe_get_name [keep]: "safe L op get_name"
  unfolding get_name_def by (intro keep)

text \<open>Sending needs the mutex; a locked section takes it and gives it back.\<close>

lemma safe_BulkUsbTransmit [keep]: "safe True op (BulkUsbTransmit data)"
proof -
  have "runs internal_halts (\<lambda>s. pc_inv True op s \<and> mtxTransmit s = v)
      (if \<not> v then stop (SysHalt ''mtxTransmit was not locked'') else usbTransmit data) (\<lambda>_. pc_inv True op)" for v
    using safe_usbTransmit [of True op data] by (cases v) (auto simp: runs_def pc_inv_def)
  then show ?thesis unfolding BulkUsbTransmit_def by (rule safe_get)
qed

lemma safe_BulkUsbTransmitPacket [keep]: "safe True op (BulkUsbTransmitPacket data)"
  unfolding BulkUsbTransmitPacket_def by (intro keep)

lemma safe_locked [keep]:
  assumes "safe True op f"
  shows "safe False op (locked f)"
proof -
  have l: "runs internal_halts (pc_inv False op) mtx_lock (\<lambda>_. pc_inv True op)"
    by (simp add: runs_def mtx_lock_def bnd_def get_st_def stop_def upd_st_def pc_inv_def)
  have u: "runs internal_halts (pc_inv True op) mtx_unlock (\<lambda>_. pc_inv False op)"
    by (simp add: runs_def mtx_unlock_def bnd_def get_st_def stop_def upd_st_def pc_inv_def)
  have "runs internal_halts (pc_inv True op) (bnd f (\<lambda>r. bnd mtx_unlock (\<lambda>_. ret r))) (\<lambda>_. pc_inv False op)"
    by (rule runs_bnd [OF assms], rule runs_bnd [OF u], rule runs_ret)
  then show ?thesis unfolding locked_def by (rule runs_bnd [OF l])
qed

lemma safe_BulkUsbTransmitPacket1 [keep]: "safe False op (BulkUsbTransmitPacket1 data)"
  unfolding BulkUsbTransmitPacket1_def by (intro keep)

text \<open>Calls that are not about the file object.\<close>

definition not_file :: "ext_call \<Rightarrow> bool" where
  "not_file c \<longleftrightarrow> (\<forall>op r. file_step op (c, r) = Some op)"

lemma safe_extern: "not_file c \<Longrightarrow> safe L op (extern c)"
  by (auto simp: runs_def extern_def pc_inv_def not_file_def file_run_snoc split: prod.splits)

section \<open>Every handler keeps it\<close>

lemma not_file_calls [simp]:
  "not_file Ack_Words" "not_file Fw_Words" "not_file (Patch_Status p)" "not_file (Patch_NParams p)"
  "not_file (Patch_Param p i)" "not_file (Patch_Param_Ack p i)" "not_file (Patch_DispSize p)"
  "not_file (Patch_DispVector p)" "not_file (Patch_Load s)" "not_file (Patch_LoadIndex x)"
  "not_file (Patch_Stop p)" "not_file (Patch_ChangeParam p x y z)" "not_file (Patch_ApplyPreset p x)"
  "not_file (Patch_PresetData p)" "not_file (Patch_GetName p)" "not_file Patch_GetError"
  "not_file (Mem_Read x n)" "not_file (Mem_Write x s)" "not_file (Ax_Malloc x y z)" "not_file (Ax_Free x)"
  "not_file (Calc_CRC32 x y)" "not_file Codec_Clear" "not_file (Flash_Write x y z)" "not_file (Midi_In x)"
  "not_file (Queue_Input_Event x)" "not_file F_GetFree" "not_file (F_OpenDir s)" "not_file (F_Stat s)"
  "not_file (F_Utime s d t)" "not_file (F_Unlink s)" "not_file (F_Mkdir s)" "not_file (Log_Text l)"
  "not_file Check_Exceptions" "not_file Initiate_Dfu" "not_file (Dbg_Call x)"
  by (simp_all add: not_file_def)

lemmas safe_calls [keep] = not_file_calls [THEN safe_extern]

lemma safe_extern_if [keep]:
  "safe L op (extern c :: ('e, reply) pc) \<Longrightarrow> safe L op (extern d :: ('e, reply) pc) \<Longrightarrow>
   safe L op (extern (if b then c else d) :: ('e, reply) pc)"
  by simp

lemma safe_tx_ack [keep]: "safe False op tx_ack"
  unfolding tx_ack_def by (intro keep; simp)

lemma safe_running [keep]: "safe L op (running p)"
  unfolding running_def by (intro keep; simp)

lemma safe_running_patches [keep]: "safe L op (running_patches ps)"
  by (induction ps) (simp, intro keep, simp, intro keep, simp_all)

lemma safe_tx_patchList [keep]: "safe False op tx_patchList"
  unfolding tx_patchList_def by (intro keep; simp)

lemma safe_tx_cstring [keep]: "safe False op (tx_cstring s)"
  unfolding tx_cstring_def by (intro keep)

lemma safe_tx_reply_ptr [keep]: "safe False op (tx_reply_ptr v)"
  unfolding tx_reply_ptr_def by (intro keep)

lemma safe_tx_fresult [keep]: "safe False op (tx_fresult e r)"
  unfolding tx_fresult_def by (intro keep)

lemma safe_tx_fileinfo [keep]: "safe True op (tx_fileinfo fi err)"
  unfolding tx_fileinfo_def by (intro keep)

lemma safe_param_loop [keep]: "safe True op (param_loop is p r)"
  by (induction "is" arbitrary: r) (simp, intro keep, simp, intro keep, simp_all)

lemma safe_bulk_tx [keep]: "safe False op (bulk_tx_patch_paramchange1 p)"
  unfolding bulk_tx_patch_paramchange1_def by (intro keep; simp)

lemma safe_paramchange_patches [keep]: "safe False op (paramchange_patches ps r)"
  by (induction ps arbitrary: r) (simp, intro keep, simp, intro keep, simp_all)

lemma safe_tx_patch_paramchange [keep]: "safe False op tx_patch_paramchange"
  unfolding tx_patch_paramchange_def by (intro keep)

lemma safe_mem_write_loop [keep]: "safe L op (mem_write_loop offset n msg :: ('e, int) pc)"
proof -
  have "pc_inv L op st \<Longrightarrow> case mem_write_loop offset n msg st of Inl e \<Rightarrow> e \<notin> internal_halts | Inr (x, st') \<Rightarrow> pc_inv L op st'"
    for st :: "'e pconn"
  proof (induction offset n msg st rule: mem_write_loop.induct)
    case (1 offset n msg st)
    show ?case
    proof (cases "n > 0 \<and> rx st \<noteq> [] \<and> hd (rx st) \<noteq> None")
      case False
      then show ?thesis using 1(2)
        by (subst mem_write_loop.simps) (auto simp: pc_inv_def split: list.splits option.splits)
    next
      case True
      then obtain bs rs where rx: "rx st = Some bs # rs" by (cases "rx st") auto
      let ?bs = "take (nat n) bs"
      obtain r st1 where ext: "extern (Mem_Write offset ?bs) st = Inr (r, st1)" 
        by (cases "ext st (Mem_Write offset ?bs) (world st)") (simp add: extern_def)
      then have "pc_inv L op st1"
        using runsD [OF safe_extern [of "Mem_Write offset ?bs" L op] 1(2)] by auto
      then have "pc_inv L op (st1\<lparr>rx := rs\<rparr>)" by (simp add: pc_inv_def)
      from 1(1) [OF _ rx refl refl ext this] True ext
      show ?thesis by (subst mem_write_loop.simps) (simp add: rx Let_def bnd_def)
    qed
  qed
  then show ?thesis by (simp add: runs_def)
qed

lemma safe_CopyPatchToFlash [keep]: "safe L op (CopyPatchToFlash d s n)"
  unfolding CopyPatchToFlash_def by (intro keep; simp)

lemmas rcv_defs = rcv_ping_def rcv_patch_get_disp_def rcv_patch_stop_def rcv_patch_start_def
  rcv_patch_paramchange_def rcv_patch_preset_apply_def rcv_patch_preset_write_def
  rcv_patch_get_name_def rcv_patch_get_error_def rcv_patch_get_list_def rcv_mem_read_def
  rcv_mem_write_def rcv_mem_alloc_def rcv_mem_free_def rcv_mem_write_flash_def rcv_f_dirlist_def
  rcv_f_getinfo_def rcv_f_setinfo_def rcv_f_delete_def rcv_f_mkdir_def rcv_getfwid_def rcv_midi_def
  rcv_virtual_input_event_def rcv_activate_dfu_def rcv_extra_def

lemma safe_dir_loop [keep]: "safe True op (dir_loop fis)"
proof (induction fis)
  case Nil
  show ?case by (simp only: dir_loop.simps) (intro keep)
next
  case (Cons fi fis)
  then show ?case by (simp only: dir_loop.simps) (intro keep, simp_all)
qed

lemma safe_list [keep]:
  "(xs = [] \<Longrightarrow> runs N P f Q) \<Longrightarrow> (\<And>y ys. xs = y # ys \<Longrightarrow> runs N P (g y ys) Q) \<Longrightarrow>
   runs N P (case_list f g xs) Q"
  by (cases xs) simp_all

lemma safe_patch_handlers [keep]:
  "safe False op rcv_ping" "safe False op rcv_patch_get_disp" "safe False op rcv_patch_stop"
  "safe False op rcv_patch_start" "safe False op rcv_patch_paramchange" "safe False op rcv_patch_preset_apply"
  "safe False op rcv_patch_preset_write" "safe False op rcv_patch_get_name" "safe False op rcv_patch_get_error"
  "safe False op rcv_patch_get_list"
  unfolding rcv_defs by (intro keep; simp)+

lemma safe_mem_handlers [keep]:
  "safe False op rcv_mem_read" "safe False op rcv_mem_write" "safe False op rcv_mem_alloc"
  "safe False op rcv_mem_free" "safe False op rcv_mem_write_flash"
  unfolding rcv_defs by (intro keep; simp)+

lemma safe_misc_handlers [keep]:
  "safe False op rcv_f_dirlist" "safe False op rcv_f_getinfo" "safe False op rcv_f_setinfo"
  "safe False op rcv_f_delete" "safe False op rcv_f_mkdir" "safe False op rcv_getfwid" "safe False op rcv_midi"
  "safe False op rcv_virtual_input_event" "safe False op rcv_activate_dfu" "safe False op rcv_extra"
  unfolding rcv_defs by (intro keep; simp)+

text \<open>The handlers that change whether a file is open.\<close>

definition pc_any :: "bool \<Rightarrow> 'e pconn \<Rightarrow> bool" where
  "pc_any L st \<longleftrightarrow> (\<exists>op. pc_inv L op st)"

lemma pc_any_iff: "pc_any L st \<longleftrightarrow> pc_inv L (file_is_open st) st"
  by (auto simp: pc_any_def pc_inv_def)

lemma safe_any:
  assumes "\<And>op. safe L op f"
  shows "keeps internal_halts (pc_any L) f"
  using assms by (fastforce simp: runs_def pc_any_def split: sum.splits)

lemma runs_any_get:
  assumes "\<And>op. runs internal_halts (pc_inv L op) (g op) (\<lambda>_. pc_any L)"
  shows "runs internal_halts (pc_any L) (with_open g) (\<lambda>_. pc_any L)"
  unfolding with_open_def
proof (rule safe_get)
  fix op
  show "runs internal_halts (\<lambda>s. pc_any L s \<and> file_is_open s = op) (g op) (\<lambda>_. pc_any L)"
    using assms [of op] by (auto simp: runs_def pc_any_iff)
qed

lemma runs_post_any: "safe L op f \<Longrightarrow> runs internal_halts (pc_inv L op) f (\<lambda>_. pc_any L)"
  by (fastforce simp: runs_def pc_any_def split: sum.splits)

lemma safe_open_file: "keeps internal_halts (pc_any False) (open_file w)"
  unfolding open_file_def
proof (rule runs_any_get)
  fix op
  have opened: "runs internal_halts (pc_inv False False)
      (bnd (extern (F_Open s w)) (\<lambda>r.
       bnd (if code r = FR_OK then upd_st (\<lambda>st. st\<lparr>file_is_open := True\<rparr>) else ret ()) (\<lambda>_.
       tx_fresult (code r) fileRef))) (\<lambda>_. pc_any False)" for s
  proof (rule runs_bnd)
    show "runs internal_halts (pc_inv False False) (extern (F_Open s w))
      (\<lambda>r st. mtxTransmit st = False \<and> \<not> file_is_open st \<and> file_run False (calls st) = Some (code r = 0))"
      by (auto simp: runs_def extern_def pc_inv_def file_run_snoc split: prod.splits)
    fix r
    show "runs internal_halts (\<lambda>st. mtxTransmit st = False \<and> \<not> file_is_open st \<and>
          file_run False (calls st) = Some (code r = 0))
        (bnd (if code r = FR_OK then upd_st (\<lambda>st. st\<lparr>file_is_open := True\<rparr>) else ret ()) (\<lambda>_.
          tx_fresult (code r) fileRef)) (\<lambda>_. pc_any False)"
    proof (rule runs_bnd)
      show "runs internal_halts (\<lambda>st. mtxTransmit st = False \<and> \<not> file_is_open st \<and>
            file_run False (calls st) = Some (code r = 0))
          (if code r = FR_OK then upd_st (\<lambda>st. st\<lparr>file_is_open := True\<rparr>) else ret ())
          (\<lambda>_. pc_inv False (code r = 0))"
        by (auto simp: runs_def upd_st_def ret_def pc_inv_def FR_OK_def)
      show "runs internal_halts (pc_inv False (code r = 0)) (tx_fresult (code r) fileRef) (\<lambda>_. pc_any False)"
        by (rule runs_post_any) (rule safe_tx_fresult)
    qed
  qed
  show "runs internal_halts (pc_inv False op)
      (if op then tx_fresult FR_TOO_MANY_OPEN_FILES 0
       else bnd get_name (\<lambda>fname.
         bnd (extern (F_Open fname w)) (\<lambda>r.
         bnd (if code r = FR_OK then upd_st (\<lambda>st. st\<lparr>file_is_open := True\<rparr>) else ret ()) (\<lambda>_.
         tx_fresult (code r) fileRef)))) (\<lambda>_. pc_any False)"
  proof (cases op)
    case True
    then show ?thesis by (simp add: runs_post_any safe_tx_fresult)
  next
    case False
    then show ?thesis using runs_bnd [OF safe_get_name opened] by simp
  qed
qed

lemma runs_get_open [keep]:
  assumes "runs N (pc_inv L op) (g op) Q"
  shows "runs N (pc_inv L op) (with_open g) Q"
  using assms by (auto simp: runs_def with_open_def bnd_def get_st_def pc_inv_def)

lemma safe_file_io [keep]:
  "safe L True (extern (F_Lseek p))" "safe L True (extern (F_Read n))" "safe L True (extern (F_Write bs))"
  by (auto simp: runs_def extern_def pc_inv_def file_run_snoc split: prod.splits)

lemma safe_rcv_f_close: "keeps internal_halts (pc_any False) rcv_f_close"
  unfolding rcv_f_close_def
proof (rule runs_bnd [OF safe_any [OF safe_getUInt32]], rule keeps_prod, rule runs_any_get)
  fix msg file_ref op
  have closed: "runs internal_halts (pc_inv False True)
      (bnd (extern F_Close) (\<lambda>r. bnd (upd_st (\<lambda>st. st\<lparr>file_is_open := False\<rparr>)) (\<lambda>_. tx_fresult (code r) 0)))
      (\<lambda>_. pc_any False)"
  proof (rule runs_bnd)
    show "runs internal_halts (pc_inv False True) (extern F_Close)
        (\<lambda>_ st. mtxTransmit st = False \<and> file_run False (calls st) = Some False)"
      by (auto simp: runs_def extern_def pc_inv_def file_run_snoc split: prod.splits)
    fix r
    show "runs internal_halts (\<lambda>st. mtxTransmit st = False \<and> file_run False (calls st) = Some False)
        (bnd (upd_st (\<lambda>st. st\<lparr>file_is_open := False\<rparr>)) (\<lambda>_. tx_fresult (code r) 0)) (\<lambda>_. pc_any False)"
      by (rule runs_bnd [where R = "\<lambda>_. pc_inv False False"], simp add: runs_def upd_st_def pc_inv_def)
        (rule runs_post_any, rule safe_tx_fresult)
  qed
  show "runs internal_halts (pc_inv False op)
      (if msg \<noteq> MSG_OK \<or> \<not> op \<or> file_ref \<noteq> Some fileRef then tx_fresult FR_INVALID_PARAMETER 0
       else bnd (extern F_Close) (\<lambda>r.
         bnd (upd_st (\<lambda>st. st\<lparr>file_is_open := False\<rparr>)) (\<lambda>_. tx_fresult (code r) 0))) (\<lambda>_. pc_any False)"
    using closed by (cases op) (auto simp: runs_post_any safe_tx_fresult intro: keeps_if)
qed

lemma safe_put_fbuff [keep]: "safe L op (put_fbuff pos bs)"
  unfolding put_fbuff_def by (intro keep; simp)

lemma safe_f_write_loop [keep]: "safe L op (f_write_loop rxs pos n)"
proof (induction rxs arbitrary: pos n)
  case Nil
  show ?case by (subst f_write_loop.simps) (auto intro: keep)
next
  case (Cons y rxs)
  show ?case
    by (subst f_write_loop.simps, simp only: list.case)
      (cases y; simp only: option.case; intro keep Cons.IH; simp)
qed

lemma safe_seek: "safe False True rcv_f_seek" "safe False False rcv_f_seek"
  unfolding rcv_f_seek_def by (intro keep; simp)+

lemma safe_read: "safe False True rcv_f_read" "safe False False rcv_f_read"
  unfolding rcv_f_read_def Let_def by (intro keep; simp)+

lemma safe_write: "safe False True rcv_f_write" "safe False False rcv_f_write"
  unfolding rcv_f_write_def by (intro keep; simp)+

lemma safe_file_handlers:
  "safe False op rcv_f_seek" "safe False op rcv_f_read" "safe False op rcv_f_write"
  by (cases op; simp add: safe_seek safe_read safe_write)+

section \<open>Dispatch\<close>

lemma safe_handlers:
  assumes "(h, f) \<in> set rcv_handlers"
  shows "keeps internal_halts (pc_any False) f"
proof -
  have "f \<in> {rcv_f_open, rcv_f_open_write, rcv_f_close} \<or> (\<forall>op. safe False op f)"
    using assms unfolding rcv_handlers_def
    by (auto simp: safe_patch_handlers safe_mem_handlers safe_misc_handlers safe_file_handlers)
  then show ?thesis
    using safe_open_file safe_rcv_f_close safe_any by (auto simp: rcv_f_open_def rcv_f_open_write_def)
qed

lemma safe_dispatch: "keeps internal_halts (pc_any False) (dispatch_rcv_header :: ('e, int) pc)"
proof -
  have "keeps internal_halts (pc_any False)
      (case map_of rcv_handlers h of Some handler \<Rightarrow> handler
       | None \<Rightarrow> (bnd (extern (Log_Text ''unidentified header'')) (\<lambda>_. ret MSG_OK) :: ('e, int) pc))"
    for h :: u32
  proof (cases "map_of (rcv_handlers :: (u32 \<times> ('e, int) pc) list) h")
    case None
    have "safe False op (bnd (extern (Log_Text ''unidentified header'')) (\<lambda>_. ret MSG_OK) :: ('e, int) pc)"
      for op by (intro keep)
    from safe_any [OF this] show ?thesis using None by simp
  next
    case (Some f)
    then show ?thesis using safe_handlers map_of_SomeD by fastforce
  qed
  note handler = this
  have use: "keeps internal_halts (pc_any False) (use v)" for v :: "u32 option"
    by (intro keep) simp
  show ?thesis unfolding dispatch_rcv_header_def
    by (rule keeps_bnd [OF safe_any [OF safe_getUInt32]], rule keeps_prod, rule keeps_if, rule runs_ret,
        rule keeps_bnd [OF use], rule handler)
qed

lemma safe_turn: "keeps internal_halts (pc_any False) BulkReader_turn"
proof -
  have "keeps internal_halts (pc_any False) (usbReceive 64)"
    by (rule safe_any) (intro keep)
  moreover have "keeps internal_halts (pc_any False)
      (upd_st (\<lambda>st. st\<lparr>s_buf := bs @ drop (length bs) (s_buf st), s_pos := 0, s_rem := length bs\<rparr>))" for bs
    by (rule safe_any) (intro keep; simp)
  moreover have "keeps internal_halts (pc_any False) (upd_st (\<lambda>st. st\<lparr>log_reset := True\<rparr>))"
    by (rule safe_any) (intro keep; simp)
  ultimately show ?thesis unfolding BulkReader_turn_def
    by (intro keeps_bnd keep safe_dispatch)
qed

lemma safe_reader: "keeps internal_halts (pc_any False) (BulkReader n)"
proof (induction n)
  case 0
  show ?case by (simp only: BulkReader.simps) (rule runs_ret)
next
  case (Suc n)
  then show ?case by (simp only: BulkReader.simps) (rule keeps_bnd [OF safe_turn])
qed

section \<open>Property of the connection\<close>

text \<open>
  C12: Whatever the host sends, in whatever packets and with resets at any point, and whatever the
  USB driver and the rest of the firmware answer: the reader thread takes the transmit mutex only
  when it is free, sends only while holding it and has released it after every request; it never
  reads a packet over unread bytes; and the file object is opened only while it is closed, and
  read, written, positioned and closed only after an open that succeeded.
\<close>

lemma connection_safe:
  assumes "\<not> mtxTransmit st" and "\<not> file_is_open st" and "calls st = []"
  shows "(\<exists>st'. BulkReader n st = Inr ((), st') \<and> \<not> mtxTransmit st' \<and>
      file_run False (calls st') = Some (file_is_open st')) \<or>
    (\<exists>e. BulkReader n st = Inl e \<and> e \<notin> internal_halts)"
proof -
  have "pc_any False st" using assms by (auto simp: pc_any_def pc_inv_def)
  from runsD [OF safe_reader this, of n] show ?thesis by (auto simp: pc_any_iff pc_inv_def)
qed

definition sample_pconn :: "unit pconn" where
  "sample_pconn = \<lparr>s_buf = replicate 64 0, s_pos = 0, s_rem = 0,
     rx = [Some ([0x41, 0x78, 0x46, 0x6f, 97, 0]), Some ([0x41, 0x78, 0x46, 0x6f, 98, 0]),
           None, Some ([0x41, 0x78, 0x46, 0x63, 0x13, 0xf1, 0, 0])],
     tx = [], tx_msgs = [], mtxTransmit = False, file_is_open = False, fbuff = replicate 1024 0,
     log_reset = True, calls = [], ext = (\<lambda>c w. (\<lparr>code = 0, rwords = [], rbytes = [], entries = []\<rparr>, w)),
     patch_ptrs = [], world = ()\<rparr>"

lemma connection_safe_witness:
  "(\<exists>st'. BulkReader 4 sample_pconn = Inr ((), st') \<and> \<not> mtxTransmit st' \<and>
      file_run False (calls st') = Some (file_is_open st')) \<or>
    (\<exists>e. BulkReader 4 sample_pconn = Inl e \<and> e \<notin> internal_halts)"
  by (rule connection_safe) (simp_all add: sample_pconn_def)

end
