(* ===== verification/Pconn_Transfer.thy ===== *)
theory Pconn_Transfer
  imports Pconn_Props
begin

text \<open>
  What the requests of the bulk connection transfer: names and words read from the packets,
  packets framed for the host, and the data of memory and file writes.
\<close>

section \<open>The bytes ahead in the stream\<close>

text \<open>
  The unread bytes of the current packet, followed by the packets to come, when no reset is among
  them and none is empty or longer than the buffer.
\<close>

definition good_stream :: "'e pconn \<Rightarrow> bool" where
  "good_stream st \<longleftrightarrow> length (s_buf st) = 64 \<and> s_pos st + s_rem st \<le> 64 \<and>
     (\<forall>p \<in> set (rx st). \<exists>bs. p = Some bs \<and> bs \<noteq> [] \<and> length bs \<le> 64)"

definition ahead :: "'e pconn \<Rightarrow> u8 list" where
  "ahead st = take (s_rem st) (drop (s_pos st) (s_buf st)) @ concat (map the (rx st))"

text \<open>Everything but the stream.\<close>

definition same_rest :: "'e pconn \<Rightarrow> 'e pconn \<Rightarrow> bool" where
  "same_rest st st' \<longleftrightarrow> tx st' = tx st \<and> tx_msgs st' = tx_msgs st \<and> mtxTransmit st' = mtxTransmit st \<and>
     file_is_open st' = file_is_open st \<and> fbuff st' = fbuff st \<and> log_reset st' = log_reset st \<and>
     calls st' = calls st \<and> ext st' = ext st \<and> patch_ptrs st' = patch_ptrs st \<and> world st' = world st"

lemma same_rest_refl [simp]: "same_rest st st"
  by (simp add: same_rest_def)

lemma same_rest_trans: "same_rest a b \<Longrightarrow> same_rest b c \<Longrightarrow> same_rest a c"
  by (simp add: same_rest_def)

lemma refill_ahead:
  assumes "good_stream st" and "ahead st \<noteq> []"
  shows "\<exists>st'. refill st = Inr (MSG_OK, st') \<and> good_stream st' \<and> ahead st' = ahead st \<and> s_rem st' \<noteq> 0 \<and>
    same_rest st st' \<and> (s_rem st \<noteq> 0 \<longrightarrow> st' = st)"
proof (cases "s_rem st = 0")
  case False
  then show ?thesis using assms by (simp add: refill_def bnd_def get_st_def ret_def)
next
  case True
  then obtain p ps where rx: "rx st = p # ps" using assms(2) by (cases "rx st") (auto simp: ahead_def)
  then obtain bs where p: "p = Some bs" "bs \<noteq> []" "length bs \<le> 64"
    using assms(1) by (auto simp: good_stream_def)
  then have t: "take 64 bs = bs" by simp
  let ?st' = "st\<lparr>rx := ps, s_buf := bs @ drop (length bs) (s_buf st), s_pos := 0, s_rem := length bs\<rparr>"
  have "refill st = Inr (MSG_OK, ?st')"
    using True rx p t
    by (simp add: refill_def inStreamRead_def usbReceive_def bnd_def get_st_def ret_def upd_st_def MSG_OK_def)
  moreover have "good_stream ?st'" using assms(1) rx p by (simp add: good_stream_def)
  moreover have "ahead ?st' = ahead st" using True rx p by (simp add: ahead_def)
  ultimately show ?thesis using p(2) True by (auto simp: same_rest_def)
qed

lemma ahead_nth:
  assumes "good_stream st" and "k < s_rem st"
  shows "s_pos st + k < length (s_buf st)" and "s_buf st ! (s_pos st + k) = ahead st ! k"
  using assms by (auto simp: good_stream_def ahead_def nth_append)

lemma advance_ahead:
  assumes "good_stream st" and "n \<le> s_rem st"
  shows "\<exists>st'. advance n st = Inr ((), st') \<and> good_stream st' \<and> ahead st' = drop n (ahead st) \<and>
    same_rest st st' \<and> s_rem st' = s_rem st - n \<and> rx st' = rx st"
  using assms
  by (auto simp: advance_def upd_st_def good_stream_def ahead_def same_rest_def drop_take add.commute)

lemma getChar_ahead:
  assumes "good_stream st" and "ahead st = c # cs"
  shows "\<exists>st'. getChar st = Inr ((MSG_OK, Some c), st') \<and> good_stream st' \<and> ahead st' = cs \<and> same_rest st st'"
proof -
  obtain st1 where st1: "refill st = Inr (MSG_OK, st1)" "good_stream st1" "ahead st1 = c # cs"
      "s_rem st1 \<noteq> 0" "same_rest st st1"
    using refill_ahead [OF assms(1)] assms(2) by auto
  obtain st2 where st2: "advance 1 st1 = Inr ((), st2)" "good_stream st2" "ahead st2 = cs" "same_rest st1 st2"
    using advance_ahead [OF st1(2), of 1] st1(3,4) by auto
  have "peek 0 st1 = Inr (c, st1)"
    using ahead_nth [OF st1(2), of 0] st1(3,4)
    by (simp add: peek_def bnd_def get_st_def lift_def)
  then show ?thesis using st1 st2 same_rest_trans
    by (auto simp: getChar_def bnd_def get_st_def ret_def)
qed

text \<open>A word is read when it lies in one packet.\<close>

lemma getUInt32_ahead:
  assumes "good_stream st" and "ahead st = le32_bytes w @ rest" and "4 \<le> s_rem st"
  shows "\<exists>st'. getUInt32 st = Inr ((MSG_OK, Some w), st') \<and> good_stream st' \<and> ahead st' = rest \<and>
    same_rest st st' \<and> s_rem st' = s_rem st - 4 \<and> rx st' = rx st"
proof -
  have "refill st = Inr (MSG_OK, st)" using assms(3) by (simp add: refill_def bnd_def get_st_def ret_def)
  moreover have pk: "peek k st = Inr ((le32_bytes w @ rest) ! k, st)" if "k < 4" for k
    using ahead_nth [OF assms(1), of k] that assms(2,3)
    by (simp add: peek_def bnd_def get_st_def lift_def)
  moreover have "peek 0 st = Inr (byte_of 0 w, st)" "peek 1 st = Inr (byte_of 1 w, st)"
      "peek 2 st = Inr (byte_of 2 w, st)" "peek 3 st = Inr (byte_of 3 w, st)"
    using pk [of 0] pk [of 1] pk [of 2] pk [of 3] by (simp_all add: le32_bytes_def)
  moreover obtain st2 where "advance 4 st = Inr ((), st2)" "good_stream st2" "ahead st2 = rest" "same_rest st st2"
      "s_rem st2 = s_rem st - 4" "rx st2 = rx st"
    using advance_ahead [OF assms(1,3)] assms(2) by auto
  ultimately show ?thesis using assms(3)
    by (simp add: getUInt32_def bnd_def get_st_def ret_def)
qed

section \<open>Names\<close>

text \<open>What the array of a name holds after the bytes bs have been stored from its start.\<close>

lemma cstring_loop_ahead:
  assumes "good_stream st" and "ahead st = s @ rest" and "0 \<notin> set s" and "length s \<le> n"
  shows "\<exists>st'. good_stream st' \<and> ahead st' = rest \<and> same_rest st st' \<and>
    cstring_loop n (length p) (map Some p @ replicate n None) st =
      cstring_loop (n - length s) (length (p @ s)) (map Some (p @ s) @ replicate (n - length s) None) st'"
  using assms
proof (induction s arbitrary: st p n)
  case Nil
  then show ?case by auto
next
  case (Cons c s)
  then obtain m where n: "n = Suc m" by (cases n) auto
  obtain st1 where st1: "getChar st = Inr ((MSG_OK, Some c), st1)" "good_stream st1" "ahead st1 = s @ rest" "same_rest st st1"
    using getChar_ahead [OF Cons.prems(1)] Cons.prems(2) by auto
  obtain st' where st': "good_stream st'" "ahead st' = rest" "same_rest st1 st'"
      "cstring_loop m (length (p @ [c])) (map Some (p @ [c]) @ replicate m None) st1 =
        cstring_loop (m - length s) (length ((p @ [c]) @ s)) (map Some ((p @ [c]) @ s) @ replicate (m - length s) None) st'"
    using Cons.IH [OF st1(2,3), of m "p @ [c]"] Cons.prems(3,4) n by auto
  have "cstring_loop n (length p) (map Some p @ replicate n None) st =
      cstring_loop m (length (p @ [c])) (map Some (p @ [c]) @ replicate m None) st1"
    using st1(1) Cons.prems(3)
    by (simp add: n bnd_def use_def ret_def lift_def upd_e_def list_update_append)
  then show ?case using st' n same_rest_trans [OF st1(4) st'(3)] by auto
qed

lemma opt_string_map: "0 \<notin> set s \<Longrightarrow> opt_string (map Some s @ Some 0 # rest) = Inr s"
  by (induction s) auto

text \<open>
  C14: A name sent by the host arrives unchanged when it has at most 63 bytes, whatever packets it
  is cut into. A longer one is cut to its first 62 bytes and still terminated, because the
  terminator that getCString stores behind the loop lands at index 62; 64 bytes are consumed.
\<close>

lemma name_received:
  assumes "good_stream st" and "ahead st = s @ rest" and "0 \<notin> set s"
    and "length s = 64 \<or> (length s < 64 \<and> rest = 0 # rest')"
  shows "\<exists>st'. get_name st = Inr (if length s < 64 then s else take 62 s, st') \<and> good_stream st' \<and>
    same_rest st st' \<and> ahead st' = (if length s < 64 then rest' else rest)"
proof -
  obtain st1 where st1: "good_stream st1" "ahead st1 = rest" "same_rest st st1"
      "cstring_loop 64 0 (replicate 64 None) st =
        cstring_loop (64 - length s) (length s) (map Some s @ replicate (64 - length s) None) st1"
    using cstring_loop_ahead [OF assms(1,2,3), of 64 "[]"] assms(4) by auto
  show ?thesis
  proof (cases "length s < 64")
    case True
    then obtain m where m: "64 - length s = Suc m" by (cases "64 - length s") auto
    have rest: "rest = 0 # rest'" using True assms(4) by auto
    obtain st2 where st2: "getChar st1 = Inr ((MSG_OK, Some 0), st2)" "good_stream st2" "ahead st2 = rest'" "same_rest st1 st2"
      using getChar_ahead [OF st1(1)] st1(2) rest by auto
    have "cstring_loop 64 0 (replicate 64 None) st = Inr ((MSG_OK, map Some s @ Some 0 # replicate m None), st2)"
      using st1(4) st2(1) by (simp add: m bnd_def use_def ret_def lift_def upd_e_def list_update_append)
    then have "get_name st = Inr (s, st2)"
      using opt_string_map [OF assms(3)]
      by (simp add: get_name_def getCString_def MAX_FNAME_LENGTH_def bnd_def lift_def)
    then show ?thesis using True st2 same_rest_trans [OF st1(3) st2(4)] by auto
  next
    case False
    then have l: "length s = 64" using assms(4) by auto
    have upd: "(map Some s)[62 := Some 0] = map Some (take 62 s) @ Some 0 # map Some (drop 63 s)"
      using l by (simp add: upd_conv_take_nth_drop take_map drop_map)
    have "cstring_loop 64 0 (replicate 64 None) st =
        Inr ((MSG_OK, map Some (take 62 s) @ Some 0 # map Some (drop 63 s)), st1)"
      using st1(4) l upd by (simp add: bnd_def ret_def lift_def upd_e_def)
    moreover have "0 \<notin> set (take 62 s)" using assms(3) by (auto dest: in_set_takeD)
    ultimately have "get_name st = Inr (take 62 s, st1)"
      using opt_string_map [of "take 62 s"]
      by (simp add: get_name_def getCString_def MAX_FNAME_LENGTH_def bnd_def lift_def)
    then show ?thesis using False st1 by auto
  qed
qed

definition name_pconn :: "unit pconn" where
  "name_pconn = sample_pconn\<lparr>s_buf := [47, 97] @ replicate 62 0, s_rem := 2, rx := [Some [98, 0, 7]]\<rparr>"

lemma name_received_witness:
  "\<exists>st'. get_name name_pconn = Inr (if length [47, 97, 98 :: u8] < 64 then [47, 97, 98] else take 62 [47, 97, 98], st') \<and>
    good_stream st' \<and> same_rest name_pconn st' \<and>
    ahead st' = (if length [47, 97, 98 :: u8] < 64 then [7] else [0, 7])"
  by (rule name_received)
    (simp_all add: name_pconn_def sample_pconn_def good_stream_def ahead_def)

section \<open>Starting a patch by its index\<close>

lemma running_extern: "extern c st = Inr (fst (ext st c (world st)),
    st\<lparr>world := snd (ext st c (world st)), calls := calls st @ [(c, code (fst (ext st c (world st))))]\<rparr>)"
  by (simp add: extern_def split: prod.split)

lemma tx_reply_calls:
  "\<not> mtxTransmit st \<Longrightarrow> \<exists>r st'. tx_reply_ptr v st = Inr (r, st') \<and> calls st' = calls st"
  by (auto simp: tx_reply_ptr_def locked_def mtx_lock_def mtx_unlock_def BulkUsbTransmit_def
      usbTransmit_def prog_defs split: list.splits)

text \<open>
  The request to start a patch by index only works for multiples of 256. The host sends the
  index as a little-endian word; its first byte decides how it is read. When that byte is zero
  the patch of that index is loaded; otherwise the bytes up to the first zero byte are taken for a
  file name.
\<close>

lemma patch_start_by_index:
  assumes "good_stream st" and "ahead st = le32_bytes i" and "s_rem st = 4" and "\<not> mtxTransmit st"
    and "unat i < 2 ^ 24"
  shows "\<exists>msg st' r. rcv_patch_start st = Inr (msg, st') \<and>
    calls st' = calls st @
      [(if unat i mod 256 = 0 then Patch_LoadIndex i else Patch_Load (takeWhile (\<lambda>c. c \<noteq> 0) (le32_bytes i)), r)]"
proof -
  have first: "peek 0 st = Inr (byte_of 0 i, st)"
    using ahead_nth [OF assms(1), of 0] assms(2,3)
    by (simp add: peek_def bnd_def get_st_def lift_def le32_bytes_def)
  have zero: "byte_of 0 i = 0 \<longleftrightarrow> unat i mod 256 = 0"
    by (simp add: byte_of_def unat_eq_zero [symmetric] unsigned_ucast_eq take_bit_eq_mod)
  have "unat (drop_bit 24 i) = 0" unfolding unat_drop_bit_eq using assms(5) by (simp add: drop_bit_eq_div)
  then have "drop_bit 24 i = 0" by (simp only: unat_eq_zero)
  then have last: "byte_of 3 i = 0" by (simp add: byte_of_def)
  show ?thesis
  proof (cases "byte_of 0 i = 0")
    case True
    obtain st1 where st1: "getUInt32 st = Inr ((MSG_OK, Some i), st1)" "same_rest st st1"
      using getUInt32_ahead [OF assms(1), of i "[]"] assms(2,3) by auto
    let ?st2 = "snd (case extern (Patch_LoadIndex i) st1 of Inr p \<Rightarrow> p)"
    have "\<not> mtxTransmit ?st2" using st1(2) assms(4) by (simp add: running_extern same_rest_def)
    then obtain r st3 where "tx_reply_ptr (rword 0 (fst (ext st1 (Patch_LoadIndex i) (world st1)))) ?st2 = Inr (r, st3)"
        "calls st3 = calls ?st2"
      using tx_reply_calls by blast
    then show ?thesis using True first zero st1
      by (auto simp: rcv_patch_start_def bnd_def use_def ret_def running_extern same_rest_def)
  next
    case False
    let ?s = "takeWhile (\<lambda>c. c \<noteq> 0) (le32_bytes i)"
    have "0 \<in> set (le32_bytes i)" using last by (simp add: le32_bytes_def)
    then have ne: "dropWhile (\<lambda>c. c \<noteq> 0) (le32_bytes i) \<noteq> []" by (simp add: dropWhile_eq_Nil_conv)
    then obtain rest where "dropWhile (\<lambda>c. c \<noteq> 0) (le32_bytes i) = 0 # rest"
      using hd_dropWhile [OF ne] by (metis list.exhaust_sel)
    then have split: "le32_bytes i = ?s @ 0 # rest" by (metis takeWhile_dropWhile_id)
    have "length ?s \<le> 4" using length_takeWhile_le [of "\<lambda>c. c \<noteq> 0" "le32_bytes i"] by simp
    then have len: "length ?s < 64" by simp
    have nz: "0 \<notin> set ?s" by (auto dest: set_takeWhileD)
    have "ahead st = ?s @ 0 # rest" using assms(2) split by simp
    from name_received [OF assms(1) this nz, of rest] len obtain st1 where
      st1: "get_name st = Inr (?s, st1)" "same_rest st st1" by auto
    let ?st2 = "snd (case extern (Patch_Load ?s) st1 of Inr p \<Rightarrow> p)"
    have "\<not> mtxTransmit ?st2" using st1(2) assms(4) by (simp add: running_extern same_rest_def)
    then obtain r st3 where "tx_reply_ptr (rword 0 (fst (ext st1 (Patch_Load ?s) (world st1)))) ?st2 = Inr (r, st3)"
        "calls st3 = calls ?st2"
      using tx_reply_calls by blast
    then show ?thesis using False first zero st1
      by (auto simp: rcv_patch_start_def bnd_def use_def ret_def running_extern same_rest_def)
  qed
qed

definition start_pconn :: "unit pconn" where
  "start_pconn = sample_pconn\<lparr>s_buf := [0x41, 0x78, 0x50, 0x73, 1, 0, 0, 0] @ replicate 56 0, s_pos := 4, s_rem := 4, rx := []\<rparr>"

lemma patch_start_by_index_witness:
  "\<exists>msg st' r. rcv_patch_start start_pconn = Inr (msg, st') \<and>
    calls st' = calls start_pconn @
      [(if unat (1 :: u32) mod 256 = 0 then Patch_LoadIndex 1 else Patch_Load (takeWhile (\<lambda>c. c \<noteq> 0) (le32_bytes 1)), r)]"
  by (rule patch_start_by_index)
    (simp_all add: start_pconn_def sample_pconn_def good_stream_def ahead_def le32_bytes_def byte_of_def)

section \<open>Packets for the host\<close>

text \<open>
  A transfer goes over the bus in packets of 64 bytes and a shorter last one when the length is
  no multiple of 64; an empty transfer is one empty packet. The host reads up to the first packet
  with less than 64 bytes.
\<close>

function bus_packets :: "u8 list \<Rightarrow> u8 list list" where
  "bus_packets data = (if length data \<le> 64 then [data] else take 64 data # bus_packets (drop 64 data))"
  by pat_completeness auto
termination by (relation "measure length") auto

declare bus_packets.simps [simp del]

fun host_read :: "u8 list list \<Rightarrow> (u8 list \<times> u8 list list) option" where
  "host_read [] = None"
| "host_read (p # ps) =
     (if length p < 64 then Some (p, ps)
      else map_option (\<lambda>(d, rest). (p @ d, rest)) (host_read ps))"

fun host_transfers :: "nat \<Rightarrow> u8 list list \<Rightarrow> (u8 list list \<times> u8 list list) option" where
  "host_transfers 0 ps = Some ([], ps)"
| "host_transfers (Suc n) ps =
     Option.bind (host_read ps) (\<lambda>(d, ps). map_option (\<lambda>(ds, ps). (d # ds, ps)) (host_transfers n ps))"

lemma host_read_full:
  assumes "length data mod 64 = 0" and "data \<noteq> []"
  shows "host_read (bus_packets data @ [] # later) = Some (data, later)"
  using assms
proof (induction data rule: bus_packets.induct)
  case (1 data)
  show ?case
  proof (cases "length data \<le> 64")
    case True
    then have "length data = 64" using 1(2,3) mod_less [of "length data" 64] by (cases "length data = 64") auto
    then show ?thesis by (subst bus_packets.simps) simp
  next
    case False
    then have "length (drop 64 data) mod 64 = 0" using 1(2) by (simp add: mod_if)
    then show ?thesis using 1(1) False by (subst bus_packets.simps) simp
  qed
qed

lemma host_read_short:
  assumes "length data mod 64 \<noteq> 0 \<or> data = []"
  shows "host_read (bus_packets data @ later) = Some (data, later)"
  using assms
proof (induction data rule: bus_packets.induct)
  case (1 data)
  show ?case
  proof (cases "length data \<le> 64")
    case True
    then have "length data < 64" using 1(2) by (cases "length data = 64") auto
    then show ?thesis by (subst bus_packets.simps) simp
  next
    case False
    then have "length (drop 64 data) mod 64 \<noteq> 0"
      using 1(2) le_mod_geq [of 64 "length data"] by auto
    then have "host_read (bus_packets (drop 64 data) @ later) = Some (drop 64 data, later)"
      using 1(1) [OF False] by blast
    then show ?thesis using False by (subst bus_packets.simps) simp
  qed
qed

lemma transmit_accepted:
  "mtxTransmit st \<Longrightarrow> tx_msgs st = [] \<Longrightarrow> BulkUsbTransmit d st = Inr (MSG_OK, st\<lparr>tx := tx st @ [d]\<rparr>)"
  by (simp add: BulkUsbTransmit_def usbTransmit_def bnd_def get_st_def)

definition zlp :: "u8 list \<Rightarrow> u8 list list" where
  "zlp d = (if d \<noteq> [] \<and> length d mod 64 = 0 then [[]] else [])"

lemma packet_accepted:
  "mtxTransmit st \<Longrightarrow> tx_msgs st = [] \<Longrightarrow>
   BulkUsbTransmitPacket d st = Inr (MSG_OK, st\<lparr>tx := tx st @ d # zlp d\<rparr>)"
  by (simp add: BulkUsbTransmitPacket_def bnd_def transmit_accepted ret_def zlp_def)

lemma locked_accepted:
  assumes "\<not> mtxTransmit st" and "f (st\<lparr>mtxTransmit := True\<rparr>) = Inr (r, st')" and "mtxTransmit st'"
  shows "locked f st = Inr (r, st'\<lparr>mtxTransmit := False\<rparr>)"
  using assms by (simp add: locked_def mtx_lock_def mtx_unlock_def prog_defs)

lemma bus_packets_Nil [simp]: "bus_packets [] = [[]]"
  by (subst bus_packets.simps) simp

lemma host_packet: "host_read (concat (map bus_packets (d # zlp d)) @ later) = Some (d, later)"
  using host_read_full [of d later] host_read_short [of d later]
  by (auto simp: zlp_def)

text \<open>
  C13: The reply of a memory read reaches the host complete and delimited, for every size: as long
  as the driver accepts the transfers, the host reads the 12 byte header with address and size, then
  exactly the bytes of memory, and then whatever was sent next. The empty packet the code appends
  after a multiple of 64 bytes is what makes this work.
\<close>

lemma mem_read_framed:
  assumes "good_stream st" and "ahead st = le32_bytes a @ le32_bytes n" and "s_rem st = 8"
    and "\<not> mtxTransmit st" and "tx_msgs st = []"
    and "data = rbytes (fst (ext st (Mem_Read a (unat n)) (world st)))"
  shows "\<exists>st' sent. rcv_mem_read st = Inr (MSG_OK, st') \<and> tx st' = tx st @ sent \<and>
    host_transfers 2 (concat (map bus_packets sent) @ later) =
      Some ([packet [tx_hdr_memrd, a, n], data], later)"
proof -
  obtain st1 where st1: "getUInt32 st = Inr ((MSG_OK, Some a), st1)" "good_stream st1"
      "ahead st1 = le32_bytes n" "same_rest st st1" "s_rem st1 = 4"
    using getUInt32_ahead [OF assms(1,2)] assms(3) by auto
  obtain st2 where st2: "getUInt32 st1 = Inr ((MSG_OK, Some n), st2)" "same_rest st1 st2"
    using getUInt32_ahead [OF st1(2), of n "[]"] st1(3,5) by auto
  have same: "same_rest st st2" using same_rest_trans [OF st1(4) st2(2)] .
  let ?head = "packet [tx_hdr_memrd, a, n]"
  let ?body = "bnd (BulkUsbTransmit ?head) (\<lambda>msg.
       if msg = MSG_OK then
         bnd (extern (Mem_Read a (unat n))) (\<lambda>r. BulkUsbTransmitPacket (rbytes r))
       else ret msg)"
  have st2': "\<not> mtxTransmit st2" "tx_msgs st2 = []" "ext st2 = ext st" "world st2 = world st" "tx st2 = tx st"
    using same assms(4,5) by (simp_all add: same_rest_def)
  obtain st3 where st3: "?body (st2\<lparr>mtxTransmit := True\<rparr>) = Inr (MSG_OK, st3)" "mtxTransmit st3"
      "tx st3 = tx st @ [?head] @ data # zlp data"
    using st2' assms(6) by (simp add: bnd_def transmit_accepted running_extern packet_accepted)
  have "rcv_mem_read st = locked ?body st2"
    using st1(1) st2(1) by (simp add: rcv_mem_read_def bnd_Inr)
  then have run: "rcv_mem_read st = Inr (MSG_OK, st3\<lparr>mtxTransmit := False\<rparr>)"
    using locked_accepted [where f = ?body, OF st2'(1) st3(1,2)] by simp
  have "length ?head = 12" by (simp add: packet_def)
  then have "host_read (bus_packets ?head @ ps) = Some (?head, ps)" for ps
    by (intro host_read_short) simp
  then have "host_transfers 2 (concat (map bus_packets ([?head] @ data # zlp data)) @ later) =
      Some ([?head, data], later)"
    using host_packet [of data later] by (simp add: numeral_2_eq_2)
  with run st3(3) show ?thesis by (intro exI [of _ "st3\<lparr>mtxTransmit := False\<rparr>"] exI [of _ "[?head] @ data # zlp data"]) simp
qed

definition memrd_pconn :: "unit pconn" where
  "memrd_pconn = sample_pconn\<lparr>s_buf := [0x41, 0x78, 0x52, 0x72, 0, 1, 0, 0, 64, 0, 0, 0] @ replicate 52 0,
     s_pos := 4, s_rem := 8, rx := [],
     ext := (\<lambda>c w. (\<lparr>code = 0, rwords = [], rbytes = replicate 64 7, entries = []\<rparr>, w))\<rparr>"

lemma mem_read_framed_witness:
  "\<exists>st' sent. rcv_mem_read memrd_pconn = Inr (MSG_OK, st') \<and> tx st' = tx memrd_pconn @ sent \<and>
    host_transfers 2 (concat (map bus_packets sent) @ [[1]]) =
      Some ([packet [tx_hdr_memrd, 256, 64], replicate 64 7], [[1]])"
  by (rule mem_read_framed)
    (simp_all add: memrd_pconn_def sample_pconn_def good_stream_def ahead_def le32_bytes_def byte_of_def)

end
