(* ===== verification/Pconn_Upload.thy ===== *)
theory Pconn_Upload
  imports Pconn_Transfer
begin

text \<open>
  Data sent by the host (firmware/pconnection.c): a write to memory and a write to the open file
  store exactly the bytes that were sent, however the driver cuts them into transactions.
\<close>

section \<open>Arguments in the packet of the request\<close>

text \<open>The unread bytes of the current packet.\<close>

definition unread :: "'e pconn \<Rightarrow> u8 list" where
  "unread st = take (s_rem st) (drop (s_pos st) (s_buf st))"

lemma getUInt32_unread:
  assumes "unread st = le32_bytes w @ rest"
  shows "getUInt32 st = Inr ((MSG_OK, Some w), st\<lparr>s_pos := s_pos st + 4, s_rem := s_rem st - 4\<rparr>)"
    and "unread (st\<lparr>s_pos := s_pos st + 4, s_rem := s_rem st - 4\<rparr>) = rest"
proof -
  have "length (unread st) \<ge> 4" using assms by (simp add: le32_bytes_def)
  then have r: "4 \<le> s_rem st" "s_pos st + 4 \<le> length (s_buf st)"
    unfolding unread_def by (simp, simp, arith)
  have pk: "peek k st = Inr ((le32_bytes w @ rest) ! k, st)" if "k < 4" for k
  proof -
    have "unread st ! k = s_buf st ! (s_pos st + k)"
      using r that by (simp add: unread_def)
    then show ?thesis using r that assms by (simp add: peek_def bnd_def get_st_def lift_def)
  qed
  have "peek 0 st = Inr (byte_of 0 w, st)" "peek 1 st = Inr (byte_of 1 w, st)"
      "peek 2 st = Inr (byte_of 2 w, st)" "peek 3 st = Inr (byte_of 3 w, st)"
    using pk [of 0] pk [of 1] pk [of 2] pk [of 3] by (simp_all add: le32_bytes_def)
  then show "getUInt32 st = Inr ((MSG_OK, Some w), st\<lparr>s_pos := s_pos st + 4, s_rem := s_rem st - 4\<rparr>)"
    using r by (simp add: getUInt32_def refill_def advance_def prog_defs)
  have "drop 4 (unread st) = rest" using assms by (simp add: le32_bytes_def)
  then show "unread (st\<lparr>s_pos := s_pos st + 4, s_rem := s_rem st - 4\<rparr>) = rest"
    by (simp add: unread_def drop_take add.commute)
qed

section \<open>Writing memory\<close>

text \<open>The bytes a call stores, with their addresses.\<close>

fun stores :: "ext_call \<times> int \<Rightarrow> (u32 \<times> u8) list" where
  "stores (Mem_Write a bs, _) = map (\<lambda>i. (a + word_of_nat i, bs ! i)) [0..<length bs]"
| "stores _ = []"

definition block :: "u32 \<Rightarrow> u8 list \<Rightarrow> (u32 \<times> u8) list" where
  "block a bs = map (\<lambda>i. (a + word_of_nat i, bs ! i)) [0..<length bs]"

lemma block_append: "block a (bs @ cs) = block a bs @ block (a + word_of_nat (length bs)) cs"
proof -
  have "[0..<length (bs @ cs)] = [0..<length bs] @ map (\<lambda>i. i + length bs) [0..<length cs]"
    by (simp add: map_add_upt add.commute upt_add_eq_append [of 0])
  then show ?thesis by (simp add: block_def nth_append add_ac)
qed

lemma mem_write_loop_stores:
  assumes "rx st = map Some ps @ later" and "\<forall>p \<in> set ps. p \<noteq> []"
  shows "\<exists>msg' st' new. mem_write_loop a (int (length (concat ps))) msg st = Inr (msg', st') \<and>
    rx st' = later \<and> calls st' = calls st @ new \<and> concat (map stores new) = block a (concat ps)"
  using assms
proof (induction ps arbitrary: a msg st)
  case Nil
  then show ?case by (subst mem_write_loop.simps) (simp add: block_def)
next
  case (Cons p ps)
  let ?r = "ext st (Mem_Write a p) (world st)"
  let ?st' = "st\<lparr>world := snd ?r, calls := calls st @ [(Mem_Write a p, code (fst ?r))], rx := map Some ps @ later\<rparr>"
  have pos: "0 < int (length p) + int (length (concat ps))" using Cons.prems(2) by (cases p) auto
  have "mem_write_loop a (int (length (concat (p # ps)))) msg st =
      mem_write_loop (a + word_of_nat (length p)) (int (length (concat ps))) (int (length p)) ?st'"
    using Cons.prems(1) pos
    by (subst mem_write_loop.simps) (simp add: bnd_def running_extern)
  moreover obtain msg' st' new where
    "mem_write_loop (a + word_of_nat (length p)) (int (length (concat ps))) (int (length p)) ?st' = Inr (msg', st')"
    "rx st' = later" "calls st' = calls ?st' @ new"
    "concat (map stores new) = block (a + word_of_nat (length p)) (concat ps)"
    using Cons.IH [of ?st' "a + word_of_nat (length p)" "int (length p)"] Cons.prems(2) by auto
  ultimately show ?case by (auto simp: block_append block_def [symmetric])
qed

lemma sint_small:
  assumes "unat (n :: u32) < 2 ^ 31"
  shows "sint n = int (unat n)"
proof -
  have "int (unat n) < 2 ^ 31"
    using assms by (metis of_nat_less_iff of_nat_numeral of_nat_power)
  then have "signed_take_bit 31 (int (unat n)) = int (unat n)"
    by (intro signed_take_bit_int_eq_self) linarith+
  then show ?thesis by (simp add: sint_uint)
qed

text \<open>
  C15: A write to memory stores exactly the bytes the host sent, in order and from the given
  address on, in whatever transactions they arrive, and takes nothing of what comes after them.
\<close>

lemma mem_write_stores:
  assumes "unread st = le32_bytes a @ le32_bytes n @ rest" and "unat n < 2 ^ 31"
    and "rx st = map Some ps @ later" and "\<forall>p \<in> set ps. p \<noteq> []" and "length (concat ps) = unat n"
  shows "\<exists>msg st' new. rcv_mem_write st = Inr (msg, st') \<and> rx st' = later \<and> calls st' = calls st @ new \<and>
    concat (map stores new) = map (\<lambda>i. (a + word_of_nat i, concat ps ! i)) [0..<unat n]"
proof -
  let ?st1 = "st\<lparr>s_pos := s_pos st + 4, s_rem := s_rem st - 4\<rparr>"
  let ?st2 = "?st1\<lparr>s_pos := s_pos ?st1 + 4, s_rem := s_rem ?st1 - 4\<rparr>"
  have "sint n = int (length (concat ps))"
    using assms(2,5) sint_small [of n] by simp
  moreover have "rcv_mem_write st = mem_write_loop a (sint n) MSG_OK ?st2"
    unfolding rcv_mem_write_def bnd_Inr [of getUInt32, OF getUInt32_unread(1) [OF assms(1)]]
    by (simp add: bnd_Inr [of getUInt32, OF getUInt32_unread(1) [OF getUInt32_unread(2) [OF assms(1)]]])
  moreover obtain msg' st' new where
    "mem_write_loop a (int (length (concat ps))) MSG_OK ?st2 = Inr (msg', st')" "rx st' = later"
    "calls st' = calls ?st2 @ new" "concat (map stores new) = block a (concat ps)"
    using mem_write_loop_stores [of ?st2 ps later a MSG_OK] assms(3,4) by auto
  ultimately show ?thesis using assms(5) by (auto simp: block_def)
qed

definition write_pconn :: "unit pconn" where
  "write_pconn = sample_pconn\<lparr>s_buf := [0x41, 0x78, 0x4d, 0x77, 0, 0, 0, 0x11, 3, 0, 0, 0] @ replicate 52 0,
     s_pos := 4, s_rem := 8, rx := [Some [1, 2], Some [3], Some [9]]\<rparr>"

lemma mem_write_stores_witness:
  "\<exists>msg st' new. rcv_mem_write write_pconn = Inr (msg, st') \<and> rx st' = [Some [9]] \<and>
    calls st' = calls write_pconn @ new \<and>
    concat (map stores new) = map (\<lambda>i. (0x11000000 + word_of_nat i, concat [[1, 2], [3]] ! i)) [0..<unat (3 :: u32)]"
  by (rule mem_write_stores [where rest = "[]" and n = 3])
    (simp_all add: write_pconn_def sample_pconn_def unread_def le32_bytes_def byte_of_def)

section \<open>Writing a file\<close>

lemma f_write_loop_stores:
  assumes "rx st = map Some ps @ later" and "\<forall>p \<in> set ps. p \<noteq> []"
    and "pos + length (concat ps) \<le> length (fbuff st)"
  shows "\<exists>st'. f_write_loop (rx st) pos (int (length (concat ps))) st = Inr ((), st') \<and> rx st' = later \<and>
    fbuff st' = take pos (fbuff st) @ concat ps @ drop (pos + length (concat ps)) (fbuff st) \<and>
    calls st' = calls st \<and> mtxTransmit st' = mtxTransmit st"
  using assms
proof (induction ps arbitrary: pos st)
  case Nil
  then show ?case by (subst f_write_loop.simps) (simp add: ret_def)
next
  case (Cons p ps)
  let ?b = "take pos (fbuff st) @ p @ drop (pos + length p) (fbuff st)"
  let ?st' = "st\<lparr>rx := map Some ps @ later, fbuff := ?b\<rparr>"
  have pos: "0 < int (length p) + int (length (concat ps))" using Cons.prems(2) by (cases p) auto
  have "f_write_loop (rx st) pos (int (length (concat (p # ps)))) st =
      f_write_loop (rx ?st') (pos + length p) (int (length (concat ps))) ?st'"
    using Cons.prems(1,3) pos
    by (subst f_write_loop.simps) (simp add: put_fbuff_def prog_defs)
  moreover obtain st' where
    "f_write_loop (rx ?st') (pos + length p) (int (length (concat ps))) ?st' = Inr ((), st')"
    "rx st' = later" "calls st' = calls st" "mtxTransmit st' = mtxTransmit st"
    "fbuff st' = take (pos + length p) ?b @ concat ps @ drop (pos + length p + length (concat ps)) ?b"
  proof -
    have l: "pos + length p + length (concat ps) \<le> length (fbuff st)" using Cons.prems(3) by simp
    then have "length (concat ps) \<le> length (fbuff st) - (pos + length p)" by arith
    then show ?thesis using l that Cons.IH [of ?st' "pos + length p"] Cons.prems(2) by auto
  qed
  ultimately show ?case using Cons.prems(3) by (auto simp: add_ac)
qed

lemma tx_fresult_calls:
  "\<not> mtxTransmit st \<Longrightarrow> \<exists>r. tx_fresult err ref st = Inr r \<and> calls (snd r) = calls st \<and> rx (snd r) = rx st"
  by (auto simp: tx_fresult_def locked_def mtx_lock_def mtx_unlock_def BulkUsbTransmit_def
      usbTransmit_def prog_defs split: list.splits)

text \<open>
  A write request for the open file writes exactly the bytes the host sent to the file, in
  one call: those behind the request in its packet, and those of the transactions after it, in
  whatever sizes they arrive. It takes nothing of what comes after them.
\<close>

lemma file_write_delivers:
  assumes "unread st = le32_bytes fileRef @ le32_bytes n @ first" and "file_is_open st" and "\<not> mtxTransmit st"
    and "length (fbuff st) = 1024" and "unat n \<le> 1024"
    and "rx st = map Some ps @ later" and "\<forall>p \<in> set ps. p \<noteq> []" and "length (first @ concat ps) = unat n"
  shows "\<exists>msg st' r. rcv_f_write st = Inr (msg, st') \<and> rx st' = later \<and>
    calls st' = calls st @ [(F_Write (first @ concat ps), r)]"
proof -
  let ?st1 = "st\<lparr>s_pos := s_pos st + 4, s_rem := s_rem st - 4\<rparr>"
  let ?st2 = "?st1\<lparr>s_pos := s_pos ?st1 + 4, s_rem := s_rem ?st1 - 4\<rparr>"
  note args = getUInt32_unread [OF assms(1)]
  note args2 = getUInt32_unread [OF args(2)]
  let ?b = "first @ drop (length first) (fbuff st)"
  let ?st3 = "?st2\<lparr>fbuff := ?b, s_pos := s_pos ?st2 + length first, s_rem := 0\<rparr>"
  have "length first + length (concat ps) \<le> length (fbuff ?st3)" using assms(4,5,8) by simp
  then obtain st4 where st4:
    "f_write_loop (rx ?st3) (length first) (int (length (concat ps))) ?st3 = Inr ((), st4)" "rx st4 = later"
    "fbuff st4 = first @ concat ps @ drop (length first + length (concat ps)) ?b"
    "calls st4 = calls st" "mtxTransmit st4 = mtxTransmit st"
    using f_write_loop_stores [of ?st3 ps later "length first"] assms(6,7) by auto
  let ?r = "ext st4 (F_Write (first @ concat ps)) (world st4)"
  let ?st5 = "st4\<lparr>world := snd ?r, calls := calls st4 @ [(F_Write (first @ concat ps), code (fst ?r))]\<rparr>"
  obtain msg st' where st': "tx_fresult (code (fst ?r)) 0 ?st5 = Inr (msg, st')"
      "calls st' = calls ?st5" "rx st' = later"
    using tx_fresult_calls [of ?st5 "code (fst ?r)" 0] st4(2,5) assms(3) by auto
  have "int (unat n) = int (length first + length (concat ps))" using assms(8) by (simp only: length_append)
  then have rem: "int (unat n) - int (length first) = int (length (concat ps))" by linarith
  have data: "take (unat n) (fbuff st4) = first @ concat ps" using st4(3) assms(8) by simp
  have "length (unread ?st2) \<le> 1024" using args2(2) assms(5,8) by simp
  then have room: "\<not> (1024 < length (s_buf st) - (8 + s_pos st) \<and> 1024 < s_rem st - 8)"
    by (simp add: unread_def) linarith
  have "rcv_f_write st = tx_fresult (code (fst ?r)) 0 ?st5"
    unfolding rcv_f_write_def bnd_Inr [of getUInt32, OF args(1)] prod.case
      bnd_Inr [of getUInt32, OF args2(1)]
    using assms(2,4,5) room args2(2) st4(1) data rem
    by (simp add: with_open_def put_fbuff_def prog_defs running_extern fbuff_size_def unread_def) blast
  then show ?thesis using st' st4(4) by auto
qed

definition fwrite_pconn :: "unit pconn" where
  "fwrite_pconn = sample_pconn\<lparr>s_buf := [0x41, 0x78, 0x46, 0x77, 0x13, 0xf1, 0, 0, 5, 0, 0, 0, 1, 2] @ replicate 50 0,
     s_pos := 4, s_rem := 10, file_is_open := True, rx := [Some [3], Some [4, 5], Some [9]]\<rparr>"

lemma file_write_delivers_witness:
  "\<exists>msg st' r. rcv_f_write fwrite_pconn = Inr (msg, st') \<and> rx st' = [Some [9]] \<and>
    calls st' = calls fwrite_pconn @ [(F_Write ([1, 2] @ concat [[3], [4, 5]]), r)]"
  by (rule file_write_delivers [where n = 5])
    (simp_all add: fwrite_pconn_def sample_pconn_def unread_def le32_bytes_def byte_of_def fileRef_def)

end
