(* ===== verification/Ui_Event.thy ===== *)
theory Ui_Event
  imports Prelude
begin

text \<open>
  Input events of the control surface and their queue (firmware/input\_evt.h, ui.c). An interrupt
  or the host queues events, the audio thread takes them. The queue is one pending button event
  and one accumulated event per encoder.
\<close>

section \<open>Events\<close>

text \<open>The value is an int8\_t.\<close>

record input_event =
  quadrant :: u8
  modifiers :: u8
  evalue :: u8
  button :: u8

abbreviation (input) quadrant_main :: u8 where "quadrant_main \<equiv> 0"
abbreviation (input) quadrant_topleft :: u8 where "quadrant_topleft \<equiv> 1"
abbreviation (input) quadrant_topright :: u8 where "quadrant_topright \<equiv> 2"
abbreviation (input) quadrant_bottomleft :: u8 where "quadrant_bottomleft \<equiv> 3"
abbreviation (input) quadrant_bottomright :: u8 where "quadrant_bottomright \<equiv> 4"
abbreviation (input) btn_up :: u8 where "btn_up \<equiv> 1"
abbreviation (input) btn_down :: u8 where "btn_down \<equiv> 2"
abbreviation (input) btn_encoder :: u8 where "btn_encoder \<equiv> 3"
abbreviation (input) btn_X :: u8 where "btn_X \<equiv> 6"
abbreviation (input) btn_E :: u8 where "btn_E \<equiv> 7"
abbreviation (input) btn_1 :: u8 where "btn_1 \<equiv> 8"
abbreviation (input) EVT_MODIFIER_SHIFT :: u8 where "EVT_MODIFIER_SHIFT \<equiv> 1"

definition evt_word :: "input_event \<Rightarrow> u32" where
  "evt_word e = le32 (quadrant e) (modifiers e) (evalue e) (button e)"

definition no_event :: input_event where
  "no_event = \<lparr>quadrant = 0, modifiers = 0, evalue = 0, button = 0\<rparr>"

definition evtIsEnter :: "input_event \<Rightarrow> bool" where
  "evtIsEnter e \<longleftrightarrow> button e = btn_E \<and> quadrant e = quadrant_main \<and> evalue e \<noteq> 0"

definition evtIsUp :: "input_event \<Rightarrow> bool" where
  "evtIsUp e =
     (if button e = btn_up then quadrant e = quadrant_main \<and> evalue e \<noteq> 0
      else if button e = btn_encoder \<and> quadrant e = quadrant_topleft then sint (evalue e) < 0
      else False)"

definition evtIsDown :: "input_event \<Rightarrow> bool" where
  "evtIsDown e =
     (if button e = btn_down then quadrant e = quadrant_main \<and> evalue e \<noteq> 0
      else if button e = btn_encoder \<and> quadrant e = quadrant_topleft then sint (evalue e) > 0
      else False)"

definition getValuFromInputEvent :: "input_event \<Rightarrow> int" where
  "getValuFromInputEvent e =
     (if button e = btn_encoder then sint (evalue e)
      else if button e = btn_up then 1
      else if button e = btn_down then - 1
      else 0)"

section \<open>The queue\<close>

record evt_queue =
  btn_event :: input_event
  enc_event :: "input_event list"

definition initial_queue :: evt_queue where
  "initial_queue = \<lparr>btn_event = no_event,
     enc_event = map (\<lambda>q. \<lparr>quadrant = q, modifiers = 0, evalue = 0, button = btn_encoder\<rparr>)
       [quadrant_topleft, quadrant_topright, quadrant_bottomleft, quadrant_bottomright]\<rparr>"

definition queueInputEventI :: "input_event \<Rightarrow> evt_queue \<Rightarrow> evt_queue" where
  "queueInputEventI evt s =
     (if button evt = btn_encoder \<and> quadrant evt > 0 \<and> quadrant evt < 4 then
        let i = unat (quadrant evt - 1); e = enc_event s ! i in
        s\<lparr>enc_event := (enc_event s)[i := e\<lparr>evalue := evalue e + evalue evt,
                                           modifiers := modifiers e + modifiers evt\<rparr>]\<rparr>
      else if evalue evt = 0 then s\<lparr>btn_event := evt\<rparr>
      else if evt_word evt \<noteq> 0 then s\<lparr>btn_event := evt\<rparr>
      else s)"

fun enc_loop :: "nat list \<Rightarrow> evt_queue \<Rightarrow> input_event \<times> evt_queue" where
  "enc_loop [] s = (no_event, s)"
| "enc_loop (i # is) s =
     (let e = enc_event s ! i in
      if evalue e \<noteq> 0 then (e, s\<lparr>enc_event := (enc_event s)[i := e\<lparr>evalue := 0\<rparr>]\<rparr>)
      else enc_loop is s)"

definition getEvent :: "evt_queue \<Rightarrow> input_event \<times> evt_queue" where
  "getEvent s =
     (if evt_word (btn_event s) \<noteq> 0 then (btn_event s, s\<lparr>btn_event := no_event\<rparr>)
      else enc_loop [0, 1, 2, 3] s)"

section \<open>Lemmas\<close>

lemma le32_eq_0: "le32 a b c d = 0 \<longleftrightarrow> a = 0 \<and> b = 0 \<and> c = 0 \<and> d = 0"
proof
  assume z: "le32 a b c d = 0"
  have "byte_of 0 (le32 a b c d) = a \<and> byte_of 1 (le32 a b c d) = b \<and> byte_of 2 (le32 a b c d) = c \<and>
      byte_of 3 (le32 a b c d) = d"
    by (simp add: byte_of_le32)
  then show "a = 0 \<and> b = 0 \<and> c = 0 \<and> d = 0" unfolding z by (simp add: byte_of_def)
next
  assume "a = 0 \<and> b = 0 \<and> c = 0 \<and> d = 0"
  then show "le32 a b c d = 0" by (simp add: le32_def)
qed

lemma evt_word_0: "evt_word e = 0 \<longleftrightarrow> e = no_event"
  by (cases e) (simp add: evt_word_def le32_eq_0 no_event_def)

definition accumulates :: "input_event \<Rightarrow> bool" where
  "accumulates e \<longleftrightarrow> button e = btn_encoder \<and> quadrant e \<in> {1, 2, 3}"

lemma quadrants_1_3: "q > 0 \<and> q < 4 \<longleftrightarrow> q \<in> {1, 2, 3}" for q :: u8
  by (simp add: word_unat_eq_iff word_less_nat_alt) arith

lemma accumulates_iff: "accumulates e \<longleftrightarrow> button e = btn_encoder \<and> quadrant e > 0 \<and> quadrant e < 4"
  using quadrants_1_3 [of "quadrant e"] by (auto simp: accumulates_def)

lemma queue_nonencoder: "\<not> accumulates e \<Longrightarrow> queueInputEventI e s = s\<lparr>btn_event := e\<rparr>"
  by (auto simp: queueInputEventI_def accumulates_iff evt_word_0 no_event_def)

lemma queue_encoder:
  "accumulates e \<Longrightarrow> queueInputEventI e s =
     (let i = unat (quadrant e - 1); c = enc_event s ! i in
      s\<lparr>enc_event := (enc_event s)[i := c\<lparr>evalue := evalue c + evalue e, modifiers := modifiers c + modifiers e\<rparr>]\<rparr>)"
  by (simp add: queueInputEventI_def accumulates_iff)

lemma enc_loop_result:
  "(enc_loop is s = (no_event, s) \<and> (\<forall>i \<in> set is. evalue (enc_event s ! i) = 0)) \<or>
   (\<exists>i \<in> set is. evalue (enc_event s ! i) \<noteq> 0 \<and>
      enc_loop is s = (enc_event s ! i, s\<lparr>enc_event := (enc_event s)[i := (enc_event s ! i)\<lparr>evalue := 0\<rparr>]\<rparr>))"
  by (induction "is") (auto simp: Let_def)

section \<open>What reaches the user interface\<close>

datatype q_op = Queue input_event | Take

fun q_run :: "q_op list \<Rightarrow> evt_queue \<Rightarrow> input_event list \<times> evt_queue" where
  "q_run [] s = ([], s)"
| "q_run (Queue e # ops) s = q_run ops (queueInputEventI e s)"
| "q_run (Take # ops) s =
     (case getEvent s of (e, s) \<Rightarrow> case q_run ops s of (es, s) \<Rightarrow> (e # es, s))"

definition turns :: "u8 \<Rightarrow> input_event list \<Rightarrow> u8" where
  "turns q es = sum_list (map evalue (filter (\<lambda>e. button e = btn_encoder \<and> quadrant e = q) es))"

fun queued_events :: "q_op list \<Rightarrow> input_event list" where
  "queued_events [] = []"
| "queued_events (Queue e # ops) = e # queued_events ops"
| "queued_events (Take # ops) = queued_events ops"

lemma turns_simps:
  "turns q [] = 0"
  "turns q (e # es) = (if button e = btn_encoder \<and> quadrant e = q then evalue e else 0) + turns q es"
  by (simp_all add: turns_def)

text \<open>The encoder events in their quadrants, and no turn of the first three in the button event.\<close>

definition queue_inv :: "evt_queue \<Rightarrow> bool" where
  "queue_inv s \<longleftrightarrow> length (enc_event s) = 4 \<and> \<not> accumulates (btn_event s) \<and>
     map button (enc_event s) = [btn_encoder, btn_encoder, btn_encoder, btn_encoder] \<and>
     map quadrant (enc_event s) = [1, 2, 3, 4]"

lemma queue_inv_cases:
  assumes "queue_inv s"
  obtains a b c d where "enc_event s = [a, b, c, d]" "\<not> accumulates (btn_event s)"
    "button a = btn_encoder" "button b = btn_encoder" "button c = btn_encoder" "button d = btn_encoder"
    "quadrant a = 1" "quadrant b = 2" "quadrant c = 3" "quadrant d = 4"
  using assms by (auto simp: queue_inv_def length_Suc_conv numeral_eq_Suc)

text \<open>The turns of an encoder that wait in the queue.\<close>

definition pending :: "u8 \<Rightarrow> evt_queue \<Rightarrow> u8" where
  "pending q s = evalue (enc_event s ! (unat q - 1))"

lemma queue_step:
  assumes "queue_inv s" and "q \<in> {1, 2, 3}"
  shows "queue_inv (queueInputEventI e s) \<and> pending q (queueInputEventI e s) = pending q s + turns q [e]"
proof (cases "accumulates e")
  case False
  then show ?thesis using assms by (auto simp: queue_nonencoder queue_inv_def pending_def turns_simps accumulates_def)
next
  case True
  then have "quadrant e \<in> {1, 2, 3}" "button e = btn_encoder" by (simp_all add: accumulates_def)
  moreover obtain a b c d where "enc_event s = [a, b, c, d]" "\<not> accumulates (btn_event s)"
    "button a = btn_encoder" "button b = btn_encoder" "button c = btn_encoder" "button d = btn_encoder"
    "quadrant a = 1" "quadrant b = 2" "quadrant c = 3" "quadrant d = 4"
    using queue_inv_cases [OF assms(1)] by blast
  ultimately show ?thesis using assms(2) True
    by (auto simp: queue_encoder Let_def queue_inv_def pending_def turns_simps)
qed

lemma take_step:
  assumes "queue_inv s" and "q \<in> {1, 2, 3}" and "getEvent s = (e, s')"
  shows "queue_inv s' \<and> pending q s = turns q [e] + pending q s' \<and> (e = no_event \<longrightarrow> pending q s' = 0)"
proof -
  obtain a b c d where s: "enc_event s = [a, b, c, d]" "\<not> accumulates (btn_event s)"
    "button a = btn_encoder" "button b = btn_encoder" "button c = btn_encoder" "button d = btn_encoder"
    "quadrant a = 1" "quadrant b = 2" "quadrant c = 3" "quadrant d = 4"
    using queue_inv_cases [OF assms(1)] by blast
  show ?thesis
  proof (cases "btn_event s = no_event")
    case False
    then have "e = btn_event s" "s' = s\<lparr>btn_event := no_event\<rparr>"
      using assms(3) by (simp_all add: getEvent_def evt_word_0)
    then show ?thesis using s assms(2) False
      by (auto simp: queue_inv_def pending_def turns_simps accumulates_def no_event_def)
  next
    case True
    then have "enc_loop [0, 1, 2, 3] s = (e, s')" using assms(3) by (simp add: getEvent_def evt_word_0)
    then show ?thesis using s assms(2)
      by (auto simp: queue_inv_def pending_def turns_simps no_event_def Let_def split: if_splits)
  qed
qed

lemma initial_queue_inv: "queue_inv initial_queue"
  by (simp add: queue_inv_def initial_queue_def accumulates_def no_event_def)

lemma q_run_counts:
  assumes "queue_inv s" and "q \<in> {1, 2, 3}" and "q_run ops s = (es, s')"
  shows "queue_inv s' \<and> pending q s + turns q (queued_events ops) = turns q es + pending q s'"
  using assms
proof (induction ops s arbitrary: es rule: q_run.induct)
  case (1 s)
  then show ?case by (simp add: turns_simps)
next
  case (2 e ops s)
  then show ?case using queue_step [OF 2(2,3), of e] by (auto simp: turns_simps add.assoc)
next
  case (3 ops s)
  obtain e s1 where s1: "getEvent s = (e, s1)" by (cases "getEvent s")
  obtain es1 where es1: "q_run ops s1 = (es1, s')" "es = e # es1"
    using 3(4) s1 by (auto split: prod.splits)
  show ?case using take_step [OF 3(2,3) s1] 3(1) [OF s1 [symmetric]] es1 3(3)
    by (auto simp: turns_simps add.assoc)
qed


definition turn :: "u8 \<Rightarrow> u8 \<Rightarrow> input_event" where
  "turn q v = \<lparr>quadrant = q, modifiers = 0, evalue = v, button = btn_encoder\<rparr>"


text \<open>
  Every other event overwrites the one before it without a trace: when two events that are
  neither of the first three encoders are queued before the next poll, the interface behaves as if
  the first had never been queued. So a press released between two polls is never seen, and the
  turns of the fourth encoder, which falls out of the test of its quadrant, are lost.
\<close>

lemma event_overwritten:
  assumes "\<not> accumulates e1" and "\<not> accumulates e2"
  shows "q_run (Queue e1 # Queue e2 # ops) s = q_run (Queue e2 # ops) s"
  using assms by (simp add: queue_nonencoder)

lemma event_overwritten_witness:
  "q_run [Queue (turn quadrant_bottomright 5), Queue (turn quadrant_bottomright 1), Take, Take] initial_queue =
   q_run [Queue (turn quadrant_bottomright 1), Take, Take] initial_queue"
  by (rule event_overwritten) (simp_all add: accumulates_def turn_def)

end
