(* ===== verification/Ui_State.thy ===== *)
theory Ui_State
  imports Ui_Event Lcd Parameters Midi_Clock Fault_Monad
begin

text \<open>
  The state of the user interface (firmware/ui.h, ui.c, menu\_content): the tree of menu pages, the
  navigation stack, the variables of the pages, and the screen and LEDs they draw on. Pointers to
  pages are the pages themselves, since the tree is constant.
\<close>

section \<open>Pages\<close>

datatype int_var = Dsp_Load_Pct | Load_Patch_Index

datatype ui_action = EnterMenuPatchLoad | EnterMenuFormat | WritePatch

datatype custom_page = Page_loadpatch | Page_midiclock | Page_midicc | Page_midimon | Page_processes | Page_test

datatype ui_node =
    Node_List (node_name: string) "ui_node list"
  | Integer_Value (node_name: string) int_var
  | Short_Value (node_name: string) nat int int
  | Action_Function (node_name: string) "ui_action option"
  | Object_List (node_name: string)
  | Param_List (node_name: string)
  | Custom_Page (node_name: string) custom_page

definition PatchLoadMenu :: "ui_node list" where
  "PatchLoadMenu = [Integer_Value ''Bank Index'' Load_Patch_Index, Action_Function ''Load'' (Some EnterMenuPatchLoad)]"

definition SdcFormatFailed :: ui_node where
  "SdcFormatFailed = Node_List ''Format'' [Action_Function ''Format failed'' None]"

definition SdcFormatOK :: ui_node where
  "SdcFormatOK = Node_List ''Format'' [Action_Function ''Format OK'' None]"

definition SdcMenu :: "ui_node list" where
  "SdcMenu = [Node_List ''Load patch'' PatchLoadMenu, Action_Function ''Format'' (Some EnterMenuFormat),
     Action_Function ''Write'' (Some WritePatch)]"

definition ADCMenu :: "ui_node list" where
  "ADCMenu = map (\<lambda>(s, i). Short_Value s i 0 0x100) (zip
     [''PA0'', ''PA1'', ''PA2'', ''PA3'', ''PA4'', ''PA5'', ''PA6'', ''PA7'', ''PB0'', ''PB1'',
      ''PC0'', ''PC1'', ''PC2'', ''PC3'', ''PC4''] [0..<15])"

definition food :: "string \<Rightarrow> ui_node" where
  "food s = Action_Function s None"

definition FoodMenu :: "ui_node list" where
  "FoodMenu =
     [Node_List ''Nuts'' (map food [''Cashew'', ''Peanut'', ''Pecan'', ''Walnut'', ''Pistachio'', ''Hazelnut'',
        ''Coconut'', ''Brazil nut'', ''Macadamia'', ''Almond'']),
      Node_List ''Apple'' (map food [''JamesGrieve'', ''GrannySmith'', ''Jonagold'', ''Cox'']),
      Node_List ''Dish'' (map food [''Cake'', ''Salad'', ''Soup'', ''Waffle'', ''Ice cream'', ''Rice'', ''Spaghetti'', ''Pizza''])]"

definition MainMenu :: "ui_node list" where
  "MainMenu =
     [Custom_Page ''Load patch'' Page_loadpatch, Object_List ''Objects'', Param_List ''Params'',
      Node_List ''SDCard'' SdcMenu, Node_List ''ADCs'' ADCMenu, Integer_Value ''dsp%'' Dsp_Load_Pct,
      Custom_Page ''MIDI clock'' Page_midiclock, Custom_Page ''MIDI controller'' Page_midicc,
      Custom_Page ''MIDI monitor'' Page_midimon, Custom_Page ''Processes'' Page_processes,
      Custom_Page ''Test'' Page_test, Node_List ''Food'' FoodMenu]"

definition RootMenu :: ui_node where
  "RootMenu = Node_List ''--- AXOLOTI ---'' MainMenu"

section \<open>State\<close>

text \<open>What the interface sees of the first patch slot: the parameters of its instance and their names.\<close>

record patch_view =
  pv_params :: "parameter list"
  pv_names :: "u8 list list"

record midiccdata =
  bend :: int
  shift :: int
  channel :: int
  velo :: int
  rvelo :: int
  cc :: "int list"
  page :: int
  knote :: "int list"

datatype ui_effect = Patch_Load "u8 list" | Patch_Load_Index int | Log_Message string | Fatfs_Error int | Buffer_Event buffer_event

text \<open>The patch is None when no instance exists: patchobject is then a null pointer.\<close>

record ui =
  menu_stack :: "(ui_node \<times> int) list"
  menu_stack_position :: int
  dirty :: u32
  evts :: evt_queue
  lcd_buffer :: lcd
  leds :: "u32 list"
  patch0 :: "patch_view option"
  clk :: midi_clock
  midi_input :: midi_input_buffer
  midicc :: midiccdata
  sel :: int
  nfiles :: int
  load_patch_index :: int
  proc_offset :: int
  vals :: "u8 list"
  last_evt :: input_event
  xpos :: int
  q1 :: int
  effects :: "ui_effect list"

text \<open>
  What the interface reads of the rest of the system: the card and its root directory with the
  results of f\_opendir and f\_stat, the result of formatting, the DSP load, the analog inputs, the
  threads with their names and free stack, and the texts of chsnprintf.
\<close>

record ui_env =
  fs_ready :: bool
  opendir_res :: int
  dir_names :: "u8 list list"
  stat_res :: "u8 list \<Rightarrow> int"
  mkfs_res :: int
  dsp_load :: int
  adc :: "nat \<Rightarrow> int"
  threads :: "(u8 list option \<times> int) list"
  fmt_d7 :: "int \<Rightarrow> u8 list"
  fmt_q27 :: "int \<Rightarrow> u8 list"
  fmt_hex :: "int \<Rightarrow> u8 list"
  fmt_d3 :: "int \<Rightarrow> u8 list"
  fmt_bpm :: "int \<Rightarrow> u8 list"

type_synonym 'a up = "(ui, 'a) prog"

definition chars :: "string \<Rightarrow> u8 list" where
  "chars = map of_char"

section \<open>Drawing\<close>

definition draw :: "(lcd \<Rightarrow> fault + lcd) \<Rightarrow> unit up" where
  "draw f = bnd (get_st lcd_buffer) (\<lambda>b. bnd (lift (f b)) (\<lambda>b. upd_st (\<lambda>st. st\<lparr>lcd_buffer := b\<rparr>)))"

definition led :: "nat \<Rightarrow> (u32 \<Rightarrow> u32) \<Rightarrow> unit up" where
  "led i f = bnd (get_st (\<lambda>st. nth_e (leds st) i)) (\<lambda>r. bnd (lift r) (\<lambda>c.
     upd_st (\<lambda>st. st\<lparr>leds := (leds st)[i := f c]\<rparr>)))"

abbreviation (input) LED_RING_TOPLEFT :: nat where "LED_RING_TOPLEFT \<equiv> 0"
abbreviation (input) LED_RING_TOPRIGHT :: nat where "LED_RING_TOPRIGHT \<equiv> 1"
abbreviation (input) LED_RING_BOTTOMLEFT :: nat where "LED_RING_BOTTOMLEFT \<equiv> 2"
abbreviation (input) LED_RING_BOTTOMRIGHT :: nat where "LED_RING_BOTTOMRIGHT \<equiv> 3"
abbreviation (input) LED_STEPS :: nat where "LED_STEPS \<equiv> 4"
abbreviation (input) LED_LVL :: nat where "LED_LVL \<equiv> 5"

text \<open>The four quadrants of the screen (qgfx.c): q is 0 to 3, the odd ones are on the right.\<close>

definition gfx_line :: "nat \<Rightarrow> int \<Rightarrow> int" where
  "gfx_line q line = (if q < 2 then line + 1 else line + 4)"

definition gfx_drawStringN :: "nat \<Rightarrow> int \<Rightarrow> int \<Rightarrow> u8 list \<Rightarrow> nat \<Rightarrow> unit up" where
  "gfx_drawStringN q x line str n =
     draw (LCD_drawStringN (if q mod 2 = 1 then 63 - x - 3 * int n else x) (gfx_line q line) str n)"

definition gfx_drawStringInvN :: "nat \<Rightarrow> int \<Rightarrow> int \<Rightarrow> u8 list \<Rightarrow> nat \<Rightarrow> unit up" where
  "gfx_drawStringInvN q x line str n =
     draw (LCD_drawStringInvN (if q mod 2 = 1 then 63 - x - 3 * int n else x) (gfx_line q line) str n)"

definition gfx_drawChar :: "nat \<Rightarrow> int \<Rightarrow> int \<Rightarrow> u8 \<Rightarrow> unit up" where
  "gfx_drawChar q x line c = draw (LCD_drawChar (if q mod 2 = 1 then 64 - x - 3 else x) (gfx_line q line) c)"

definition gfx_drawNumber3D :: "nat \<Rightarrow> int \<Rightarrow> int \<Rightarrow> int \<Rightarrow> unit up" where
  "gfx_drawNumber3D q x line i = draw (LCD_drawNumber3D (if q mod 2 = 1 then 64 - x - 12 else x) (gfx_line q line) i)"

text \<open>LED\_setOne shifts by its argument; a negative or too large count is undefined.\<close>

definition gfx_setEncoderOne :: "nat \<Rightarrow> int \<Rightarrow> unit up" where
  "gfx_setEncoderOne q x = (if x < 0 \<or> x \<ge> 32 then stop OutOfBounds else led q (LED_setOne (nat x)))"

section \<open>Events\<close>

definition lcd_dirty_flag_clearscreen :: u32 where "lcd_dirty_flag_clearscreen = 1"
definition lcd_dirty_flag_header :: u32 where "lcd_dirty_flag_header = 2"
definition lcd_dirty_flag_initial :: u32 where "lcd_dirty_flag_initial = 4"
definition lcd_dirty_flag_listnav :: u32 where "lcd_dirty_flag_listnav = 8"
definition lcd_dirty_flag_usr :: "nat \<Rightarrow> u32" where "lcd_dirty_flag_usr i = push_bit (4 + i) 1"

definition chEvtSignal :: "u32 \<Rightarrow> unit up" where
  "chEvtSignal flags = upd_st (\<lambda>st. st\<lparr>dirty := dirty st OR flags\<rparr>)"

definition effect :: "ui_effect \<Rightarrow> unit up" where
  "effect e = upd_st (\<lambda>st. st\<lparr>effects := effects st @ [e]\<rparr>)"

definition initial_midiccdata :: midiccdata where
  "initial_midiccdata = \<lparr>bend = 0, shift = 0, channel = 0, velo = 100, rvelo = 0, cc = replicate 128 0, page = 0,
     knote = replicate 16 (- 1)\<rparr>"

text \<open>The state at power-up, with an empty screen; ui\_init signals every event.\<close>

definition initial_ui :: ui where
  "initial_ui = \<lparr>menu_stack = replicate 10 (RootMenu, 0), menu_stack_position = 0, dirty = - 1, evts = initial_queue,
     lcd_buffer = replicate 1024 0, leds = replicate 6 0, patch0 = None, clk = initial_midi_clock,
     midi_input = \<lparr>read_index = 0, write_index = 0, buf = replicate 32 (mk_msg 0 0 0 0)\<rparr>,
     midicc = initial_midiccdata, sel = 0, nfiles = 0, load_patch_index = 0, proc_offset = 0, vals = replicate 4 0,
     last_evt = no_event, xpos = 0, q1 = 0, effects = []\<rparr>"

end
