(* ===== verification/Ui_Pages.thy ===== *)
theory Ui_Pages
  imports Ui_State
begin

text \<open>
  The event handlers of the pages with a function table of their own: loading a patch, the MIDI
  clock, the MIDI controller, processes and test (firmware/menu\_content). A handler returns the
  events to signal to the painting thread.
\<close>

section \<open>Loading a patch (loadpatch\_menu.c)\<close>

text \<open>chsnprintf(fn\_patch, 64, ...) keeps at most 63 characters.\<close>

definition fn_patch :: "u8 list \<Rightarrow> u8 list" where
  "fn_patch name = take 63 (chars ''/'' @ name @ chars ''/patch.bin'')"

definition has_patch :: "ui_env \<Rightarrow> u8 list \<Rightarrow> bool" where
  "has_patch env name \<longleftrightarrow> hd name \<noteq> 46 \<and> stat_res env (fn_patch name) = 0"

fun count_patches :: "ui_env \<Rightarrow> u8 list list \<Rightarrow> int" where
  "count_patches env [] = 0"
| "count_patches env (name # names) =
     (if name = [] then 0
      else if has_patch env name then 1 + count_patches env names
      else count_patches env names)"

definition loadpatch_init :: "ui_env \<Rightarrow> unit up" where
  "loadpatch_init env =
     bnd (upd_st (\<lambda>st. st\<lparr>sel := 0, nfiles := 0\<rparr>)) (\<lambda>_.
     if \<not> fs_ready env then effect (Log_Message ''sdcard not ready'')
     else if opendir_res env \<noteq> 0 then effect (Fatfs_Error (opendir_res env))
     else upd_st (\<lambda>st. st\<lparr>nfiles := count_patches env (dir_names env)\<rparr>))"

fun blank_lines :: "int list \<Rightarrow> string \<Rightarrow> unit up" where
  "blank_lines [] s = ret ()"
| "blank_lines (l # ls) s = bnd (draw (LCD_drawStringN 0 l (chars s) 20)) (\<lambda>_. blank_lines ls s)"

text \<open>
  The loop over the directory: i counts the patches seen. It returns the count, or None when a
  patch was launched.
\<close>

fun refresh_loop :: "ui_env \<Rightarrow> bool \<Rightarrow> u8 list list \<Rightarrow> int \<Rightarrow> int option up" where
  "refresh_loop env launch [] i = ret (Some i)"
| "refresh_loop env launch (name # names) i =
     (if name = [] then ret (Some i)
      else if \<not> has_patch env name then refresh_loop env launch names i
      else bnd (get_st sel) (\<lambda>sel.
        if i - sel = 0 then
          bnd (draw (LCD_drawStringInvN 0 (1 + i - sel) name 20)) (\<lambda>_.
          if launch then bnd (effect (Patch_Load (fn_patch name))) (\<lambda>_. ret None)
          else refresh_loop env launch names (i + 1))
        else
          bnd (if i - sel > 0 then draw (LCD_drawStringN 0 (1 + i - sel) name 20) else ret ()) (\<lambda>_.
          if i - sel = 6 then ret (Some i) else refresh_loop env launch names (i + 1))))"

definition refresh :: "ui_env \<Rightarrow> bool \<Rightarrow> unit up" where
  "refresh env launch = bnd (get_st nfiles) (\<lambda>n. bnd (get_st sel) (\<lambda>sel.
     if n = 0 then
       bnd (draw (LCD_drawStringN 0 1 (chars ''No patches...'') 20)) (\<lambda>_. blank_lines [2..7] '''')
     else if opendir_res env \<noteq> 0 then blank_lines (map (\<lambda>i. 1 + i - sel) [0..6]) ''////''
     else bnd (refresh_loop env launch (dir_names env) 0) (\<lambda>r.
       case r of
         None \<Rightarrow> ret ()
       | Some i \<Rightarrow> blank_lines (map (\<lambda>j. 1 + j) [i - sel..6]) ''////'')))"

definition loadpatch_evt :: "ui_env \<Rightarrow> input_event \<Rightarrow> u32 up" where
  "loadpatch_evt env e =
     (if evalue e = 0 then ret 0
      else if button e = btn_encoder \<and> quadrant e = quadrant_topleft then
        bnd (upd_st (\<lambda>st.
          let s = sel st + sint (evalue e);
              s = (if s \<ge> nfiles st then nfiles st - 1 else s);
              s = (if s < 0 then 0 else s)
          in st\<lparr>sel := s\<rparr>)) (\<lambda>_. ret (lcd_dirty_flag_usr 1))
      else if button e = btn_down then
        bnd (upd_st (\<lambda>st. let s = sel st + 1 in st\<lparr>sel := (if s = nfiles st then nfiles st - 1 else s)\<rparr>))
          (\<lambda>_. ret (lcd_dirty_flag_usr 1))
      else if button e = btn_up then
        bnd (upd_st (\<lambda>st. st\<lparr>sel := (if sel st > 1 then sel st - 1 else 0)\<rparr>)) (\<lambda>_. ret (lcd_dirty_flag_usr 1))
      else if button e = btn_E then bnd (refresh env True) (\<lambda>_. ret 0)
      else ret 0)"

section \<open>MIDI clock (midi\_clock\_menu.c)\<close>

definition adjustBPM :: "input_event \<Rightarrow> unit up" where
  "adjustBPM e = upd_st (\<lambda>st.
     let p = wrap32 (period (clk st) - sint (evalue e));
         p = (if p < 80 then 80 else p);
         p = (if p > 255 + 80 then 255 + 80 else p)
     in st\<lparr>clk := (clk st)\<lparr>period := p\<rparr>\<rparr>)"

definition doStartStop :: "input_event \<Rightarrow> unit up" where
  "doStartStop e =
     (if button e = btn_up then upd_st (\<lambda>st. st\<lparr>clk := (clk st)\<lparr>active := True\<rparr>\<rparr>)
      else if button e = btn_down then upd_st (\<lambda>st. st\<lparr>clk := (clk st)\<lparr>active := False\<rparr>\<rparr>)
      else ret ())"

text \<open>The table q has four entries; the last two have no adjust function.\<close>

definition midiclock_evt :: "input_event \<Rightarrow> u32 up" where
  "midiclock_evt e =
     (if evalue e = 0 then ret 0
      else let k = int (unat (quadrant e)) - 1 in
        if k < 0 then ret 0
        else if k \<ge> 4 then stop OutOfBounds
        else if k \<ge> 2 then ret 0
        else let e' = (if button e = btn_down then e\<lparr>evalue := - 1\<rparr> else e) in
          bnd (if k = 0 then adjustBPM e' else doStartStop e') (\<lambda>_. ret (lcd_dirty_flag_usr (nat k))))"

section \<open>MIDI controller (midi\_controller.c)\<close>

definition NQUADS :: int where "NQUADS = 12"
definition MIDI_NOTE_OFF :: u8 where "MIDI_NOTE_OFF = 0x80"
definition MIDI_NOTE_ON :: u8 where "MIDI_NOTE_ON = 0x90"
definition MIDI_CONTROL_CHANGE :: u8 where "MIDI_CONTROL_CHANGE = 0xB0"
definition MIDI_PITCH_BEND :: u8 where "MIDI_PITCH_BEND = 0xE0"

text \<open>A message in the MIDI input; its bytes are the low bytes of the integers.\<close>

definition put_midi :: "u8 \<Rightarrow> int \<Rightarrow> int \<Rightarrow> unit up" where
  "put_midi status d1 d2 = upd_st (\<lambda>st.
     case midi_input_buffer_put (midi_input st) (mk_msg 0 (status + word_of_int (channel (midicc st))) (word_of_int d1) (word_of_int d2)) of
       (r, b, evs) \<Rightarrow> st\<lparr>midi_input := b, effects := effects st @ map Buffer_Event evs\<rparr>)"

definition upd_cc :: "(midiccdata \<Rightarrow> midiccdata) \<Rightarrow> unit up" where
  "upd_cc f = upd_st (\<lambda>st. st\<lparr>midicc := f (midicc st)\<rparr>)"

definition get_cc :: "(midiccdata \<Rightarrow> 'a) \<Rightarrow> 'a up" where
  "get_cc f = get_st (\<lambda>st. f (midicc st))"

definition shifted :: "input_event \<Rightarrow> bool" where
  "shifted e \<longleftrightarrow> modifiers e AND EVT_MODIFIER_SHIFT \<noteq> 0"

text \<open>The input handlers of the quadrants return whether the quadrant is to be repainted.\<close>

definition send_bend :: "bool up" where
  "send_bend = bnd (get_cc bend) (\<lambda>b. bnd (put_midi MIDI_PITCH_BEND 0 (64 + b)) (\<lambda>_. ret True))"

definition handleInputBend :: "input_event \<Rightarrow> bool up" where
  "handleInputBend e =
     (if evalue e = 0 then ret False
      else if button e = btn_encoder then
        bnd (upd_cc (\<lambda>d.
          let b = bend d + sint (evalue e);
              b = (if b > 63 then 63 else b);
              b = (if b < - 64 then - 64 else b)
          in d\<lparr>bend := b\<rparr>)) (\<lambda>_. send_bend)
      else if button e = btn_up then
        bnd (upd_cc (\<lambda>d. d\<lparr>bend := (if shifted e then 63 else wrap32 (bend d + 1))\<rparr>)) (\<lambda>_. send_bend)
      else if button e = btn_down then
        bnd (upd_cc (\<lambda>d. d\<lparr>bend := (if shifted e then - 64 else wrap32 (bend d - 1))\<rparr>)) (\<lambda>_. send_bend)
      else ret False)"

definition handleInputChannel :: "input_event \<Rightarrow> bool up" where
  "handleInputChannel e =
     (if evalue e = 0 then ret False
      else if button e = btn_up then bnd (upd_cc (\<lambda>d. d\<lparr>channel := (channel d + 1) mod 16\<rparr>)) (\<lambda>_. ret True)
      else if button e = btn_down then bnd (upd_cc (\<lambda>d. d\<lparr>channel := (channel d - 1) mod 16\<rparr>)) (\<lambda>_. ret True)
      else ret False)"

definition handleInputOct :: "input_event \<Rightarrow> bool up" where
  "handleInputOct e =
     (if evalue e = 0 then ret False
      else if button e = btn_up then
        bnd (upd_cc (\<lambda>d. d\<lparr>shift := (if shift d + 1 > 3 then 3 else shift d + 1)\<rparr>)) (\<lambda>_. ret True)
      else if button e = btn_down then
        bnd (upd_cc (\<lambda>d. d\<lparr>shift := (if shift d - 1 < - 3 then - 3 else shift d - 1)\<rparr>)) (\<lambda>_. ret True)
      else ret False)"

definition step_velocity :: "input_event \<Rightarrow> int \<Rightarrow> int" where
  "step_velocity e v =
     (if button e = btn_encoder then
        let v = v + sint (evalue e); v = (if v > 127 then 127 else v) in (if v < 1 then 1 else v)
      else if button e = btn_up then (v + 1) mod 128
      else (v - 1) mod 128)"

definition handleInputVelocity :: "input_event \<Rightarrow> bool up" where
  "handleInputVelocity e =
     (if evalue e \<noteq> 0 \<and> button e \<in> {btn_encoder, btn_up, btn_down} then
        bnd (upd_cc (\<lambda>d. d\<lparr>velo := step_velocity e (velo d)\<rparr>)) (\<lambda>_. ret True)
      else ret False)"

definition handleInputRVelocity :: "input_event \<Rightarrow> bool up" where
  "handleInputRVelocity e =
     (if evalue e \<noteq> 0 \<and> button e \<in> {btn_encoder, btn_up, btn_down} then
        bnd (upd_cc (\<lambda>d. d\<lparr>rvelo := step_velocity e (rvelo d)\<rparr>)) (\<lambda>_. ret True)
      else ret False)"

definition handleInputCC :: "nat \<Rightarrow> input_event \<Rightarrow> bool up" where
  "handleInputCC i e =
     (if evalue e \<noteq> 0 \<and> button e \<in> {btn_encoder, btn_up, btn_down} then
        bnd (get_cc (\<lambda>d. cc d ! i)) (\<lambda>c.
        let c = usat (c + getValuFromInputEvent e) 7 in
        bnd (upd_cc (\<lambda>d. d\<lparr>cc := (cc d)[i := c]\<rparr>)) (\<lambda>_.
        bnd (put_midi MIDI_CONTROL_CHANGE (int i) c) (\<lambda>_. ret True)))
      else ret False)"

definition quads :: "(input_event \<Rightarrow> bool up) list" where
  "quads = [handleInputBend, handleInputChannel, handleInputOct, handleInputVelocity, handleInputRVelocity]
     @ map handleInputCC [0..<7]"

text \<open>The keys: button btn\_1 + i plays the note i + 60 in the chosen octave.\<close>

definition key_down :: "nat \<Rightarrow> u32 up" where
  "key_down i = bnd (get_cc (\<lambda>d. nth_e (knote d) i)) (\<lambda>old. bnd (lift old) (\<lambda>old.
     bnd (get_cc (\<lambda>d. int i + 60 + 12 * shift d)) (\<lambda>n.
     if old \<noteq> n then
       bnd (if old \<noteq> - 1 then put_midi MIDI_NOTE_OFF old 100 else ret ()) (\<lambda>_.
       bnd (get_cc velo) (\<lambda>v. bnd (put_midi MIDI_NOTE_ON n v) (\<lambda>_.
       bnd (upd_cc (\<lambda>d. d\<lparr>knote := (knote d)[i := n]\<rparr>)) (\<lambda>_. ret (lcd_dirty_flag_usr 5)))))
     else ret 0)))"

definition key_up :: "nat \<Rightarrow> input_event \<Rightarrow> u32 up" where
  "key_up i e = (if shifted e then ret 0 else
     bnd (get_cc (\<lambda>d. nth_e (knote d) i)) (\<lambda>old. bnd (lift old) (\<lambda>old.
     if old \<noteq> - 1 then
       bnd (get_cc velo) (\<lambda>v. bnd (put_midi MIDI_NOTE_OFF old v) (\<lambda>_.
       bnd (upd_cc (\<lambda>d. d\<lparr>knote := (knote d)[i := - 1]\<rparr>)) (\<lambda>_. ret (lcd_dirty_flag_usr 5))))
     else ret 0)))"

definition midicc_evt :: "input_event \<Rightarrow> u32 up" where
  "midicc_evt e =
     (if quadrant e \<in> {1, 2, 3, 4} then
        let k = unat (quadrant e) - 1 in
        bnd (get_cc (\<lambda>d. nth_e quads (nat (page d) + k))) (\<lambda>h. bnd (lift h) (\<lambda>h.
        bnd (h e) (\<lambda>r. ret (if r then lcd_dirty_flag_usr (1 + k) else 0))))
      else if button e \<ge> btn_1 then
        let i = unat (button e) - 8 in
        if evalue e \<noteq> 0 then key_down i else key_up i e
      else if evalue e \<noteq> 0 \<and> quadrant e = quadrant_main then
        (if button e = btn_up then
           bnd (upd_cc (\<lambda>d. d\<lparr>page := (if page d - 2 < 0 then 0 else page d - 2)\<rparr>)) (\<lambda>_. ret (- 1))
         else if button e = btn_down then
           bnd (upd_cc (\<lambda>d. d\<lparr>page := (if page d + 2 > NQUADS - 4 then NQUADS - 4 else page d + 2)\<rparr>)) (\<lambda>_. ret (- 1))
         else ret 0)
      else ret 0)"

section \<open>Processes and test\<close>

definition processes_evt :: "input_event \<Rightarrow> u32 up" where
  "processes_evt e =
     (if evalue e = 0 then ret 0
      else if button e = btn_up then
        bnd (upd_st (\<lambda>st. st\<lparr>proc_offset := (if proc_offset st > 0 then proc_offset st - 1 else 0)\<rparr>)) (\<lambda>_. ret 0)
      else if button e = btn_down then
        bnd (upd_st (\<lambda>st. st\<lparr>proc_offset := wrap32 (proc_offset st + 1)\<rparr>)) (\<lambda>_. ret 0)
      else ret 0)"

definition test_evt :: "input_event \<Rightarrow> u32 up" where
  "test_evt e =
     (if button e = btn_encoder \<and> quadrant e \<in> {1, 2, 3, 4} then
        let k = unat (quadrant e) - 1 in
        bnd (upd_st (\<lambda>st. st\<lparr>vals := (vals st)[k := vals st ! k + evalue e]\<rparr>)) (\<lambda>_. ret (lcd_dirty_flag_usr k))
      else bnd (upd_st (\<lambda>st. st\<lparr>last_evt := e\<rparr>)) (\<lambda>_. ret (lcd_dirty_flag_usr 4)))"

end
