(* ===== verification/Ui_Menu.thy ===== *)
theory Ui_Menu
  imports Ui_Pages
begin

text \<open>
  Navigation (firmware/ui.c, ui\_nodes): the stack of open pages with the cursor of each, the event
  handler of every kind of page, and the processing of the queued events.
\<close>

section \<open>The navigation stack\<close>

definition menu_stack_size :: int where "menu_stack_size = 10"

definition top :: "(ui_node \<times> int) up" where
  "top = bnd (get_st (\<lambda>st. if 0 \<le> menu_stack_position st then nth_e (menu_stack st) (nat (menu_stack_position st))
                           else Inl OutOfBounds)) lift"

definition currentpos :: "int up" where
  "currentpos = bnd top (\<lambda>(_, p). ret p)"

definition set_currentpos :: "int \<Rightarrow> unit up" where
  "set_currentpos p = bnd top (\<lambda>(n, _).
     upd_st (\<lambda>st. st\<lparr>menu_stack := (menu_stack st)[nat (menu_stack_position st) := (n, p)]\<rparr>))"

definition list_nav_down :: "int \<Rightarrow> u32 up" where
  "list_nav_down maxposition = bnd currentpos (\<lambda>p.
     bnd (if p < maxposition - 1 then set_currentpos (p + 1) else ret ()) (\<lambda>_. ret lcd_dirty_flag_listnav))"

definition list_nav_up :: "u32 up" where
  "list_nav_up = bnd currentpos (\<lambda>p.
     bnd (if p > 0 then set_currentpos (p - 1) else ret ()) (\<lambda>_. ret lcd_dirty_flag_listnav))"

definition nav_Back :: "u32 up" where
  "nav_Back = bnd (upd_st (\<lambda>st. if menu_stack_position st > 0
       then st\<lparr>menu_stack_position := menu_stack_position st - 1\<rparr> else st)) (\<lambda>_. ret (- 1))"

definition ui_enter_node :: "ui_node \<Rightarrow> u32 up" where
  "ui_enter_node n = bnd (get_st menu_stack_position) (\<lambda>p.
     if p < menu_stack_size - 1 then
       bnd (draw LCD_clear) (\<lambda>_.
       bnd (upd_st (\<lambda>st. st\<lparr>menu_stack := (menu_stack st)[nat (p + 1) := (n, 0)], menu_stack_position := p + 1\<rparr>))
         (\<lambda>_. ret (- 1)))
     else ret 0)"

definition ui_go_home :: "unit up" where
  "ui_go_home = bnd (upd_st (\<lambda>st. st\<lparr>menu_stack_position := 0\<rparr>)) (\<lambda>_. chEvtSignal (- 1))"

section \<open>The patch behind the pages (patch\_wrapper.cpp)\<close>

text \<open>
  The calls go through the instance of the first slot, without a test whether there is one. The
  firmware has no embedded objects: patch\_getNObjects is 0 and patch\_getObject a null pointer.
\<close>

definition instance_of :: "patch_view up" where
  "instance_of = bnd (get_st patch0) (\<lambda>v. case v of None \<Rightarrow> stop NullCall | Some p \<Rightarrow> ret p)"

definition patch_getNParams :: "int up" where
  "patch_getNParams = bnd instance_of (\<lambda>p. ret (int (length (pv_params p))))"

definition patch_getParam :: "nat \<Rightarrow> parameter up" where
  "patch_getParam i = bnd instance_of (\<lambda>p. lift (nth_e (pv_params p) i))"

definition patch_setParam :: "nat \<Rightarrow> parameter \<Rightarrow> unit up" where
  "patch_setParam i x = bnd instance_of (\<lambda>p.
     upd_st (\<lambda>st. st\<lparr>patch0 := Some (p\<lparr>pv_params := (pv_params p)[i := x]\<rparr>)\<rparr>))"

definition patch_getNObjects :: int where "patch_getNObjects = 0"

section \<open>The handlers of the pages\<close>

definition node_list_evt :: "ui_node list \<Rightarrow> input_event \<Rightarrow> u32 up" where
  "node_list_evt nodes e =
     (if evtIsUp e then list_nav_up
      else if evtIsDown e then list_nav_down (int (length nodes))
      else if evtIsEnter e \<and> nodes \<noteq> [] then
        bnd currentpos (\<lambda>p. bnd (lift (if p < 0 then Inl OutOfBounds else nth_e nodes (nat p))) ui_enter_node)
      else ret 0)"

text \<open>WritePatch is an endless loop: the thread that handles the event stops there.\<close>

fun run_action :: "ui_env \<Rightarrow> ui_action \<Rightarrow> unit up" where
  "run_action env EnterMenuPatchLoad = bnd (get_st load_patch_index) (\<lambda>i. effect (Patch_Load_Index i))"
| "run_action env EnterMenuFormat =
     bnd (ui_enter_node (if mkfs_res env \<noteq> 0 then SdcFormatFailed else SdcFormatOK)) (\<lambda>_. ret ())"
| "run_action env WritePatch = stop (SysHalt ''WritePatch never returns'')"

definition action_evt :: "ui_env \<Rightarrow> ui_action option \<Rightarrow> input_event \<Rightarrow> u32 up" where
  "action_evt env f e =
     (if evtIsEnter e then (case f of Some a \<Rightarrow> bnd (run_action env a) (\<lambda>_. ret 0) | None \<Rightarrow> ret 0) else ret 0)"

text \<open>The pages of parameters and objects scroll by four.\<close>

definition scroll_by_4 :: "input_event \<Rightarrow> int up \<Rightarrow> u32 up" where
  "scroll_by_4 e count =
     (if button e = btn_up then
        bnd currentpos (\<lambda>p. if p \<ge> 4 then bnd (set_currentpos (p - 4)) (\<lambda>_. ret (- 1)) else ret 0)
      else if button e = btn_down then
        bnd count (\<lambda>n. bnd currentpos (\<lambda>p.
          if p + 4 < n then bnd (set_currentpos (p + 4)) (\<lambda>_. ret (- 1)) else ret 0))
      else ret 0)"

definition param_list_evt :: "input_event \<Rightarrow> u32 up" where
  "param_list_evt e =
     (if evalue e = 0 then ret 0
      else if quadrant e = quadrant_main then scroll_by_4 e patch_getNParams
      else
        let q = unat (quadrant e) - 1 in
        bnd currentpos (\<lambda>p. bnd patch_getNParams (\<lambda>n.
        let i = int q + p; v = getValuFromInputEvent e in
        if i < n \<and> v \<noteq> 0 then
          bnd (patch_getParam (nat i)) (\<lambda>x.
          bnd (patch_setParam (nat i) (ProcessEncoderParameter x v)) (\<lambda>_. ret (lcd_dirty_flag_usr (1 + q))))
        else ret 0)))"

definition object_list_evt :: "input_event \<Rightarrow> u32 up" where
  "object_list_evt e =
     (if evalue e = 0 then ret 0
      else if quadrant e = quadrant_main then scroll_by_4 e (ret patch_getNObjects)
      else bnd currentpos (\<lambda>p.
        if int (unat (quadrant e)) - 1 + p < patch_getNObjects then stop Dangling else ret 0))"

fun custom_evt :: "ui_env \<Rightarrow> custom_page \<Rightarrow> input_event \<Rightarrow> u32 up" where
  "custom_evt env Page_loadpatch e = loadpatch_evt env e"
| "custom_evt env Page_midiclock e = midiclock_evt e"
| "custom_evt env Page_midicc e = midicc_evt e"
| "custom_evt env Page_midimon e = ret 0"
| "custom_evt env Page_processes e = processes_evt e"
| "custom_evt env Page_test e = test_evt e"

fun handle_evt :: "ui_env \<Rightarrow> ui_node \<Rightarrow> input_event \<Rightarrow> u32 up" where
  "handle_evt env (Node_List _ nodes) e = node_list_evt nodes e"
| "handle_evt env (Integer_Value _ _) e = ret 0"
| "handle_evt env (Short_Value _ _ _ _) e = ret 0"
| "handle_evt env (Action_Function _ f) e = action_evt env f e"
| "handle_evt env (Object_List _) e = object_list_evt e"
| "handle_evt env (Param_List _) e = param_list_evt e"
| "handle_evt env (Custom_Page _ p) e = custom_evt env p e"

definition processUIEvent :: "ui_env \<Rightarrow> input_event \<Rightarrow> unit up" where
  "processUIEvent env e = bnd top (\<lambda>(n, _).
     bnd (handle_evt env n e) (\<lambda>r.
     bnd (if r \<noteq> 0 then chEvtSignal r else ret ()) (\<lambda>_.
     if button e = btn_X \<and> quadrant e = quadrant_main \<and> evalue e \<noteq> 0 then bnd nav_Back chEvtSignal else ret ())))"

section \<open>Taking the queued events\<close>

text \<open>
  The events pending before a poll are a button event and one per encoder, and nothing is queued
  by the handlers, so a poll takes at most five events: the fuel counts them.
\<close>

definition takeEvent :: "input_event up" where
  "takeEvent = (\<lambda>st. case getEvent (evts st) of (e, q) \<Rightarrow> Inr (e, st\<lparr>evts := q\<rparr>))"

fun poll_loop :: "ui_env \<Rightarrow> nat \<Rightarrow> bool up" where
  "poll_loop env 0 = ret False"
| "poll_loop env (Suc n) = bnd takeEvent (\<lambda>e.
     if evt_word e = 0 then ret True else bnd (processUIEvent env e) (\<lambda>_. poll_loop env n))"

definition pollProcessUIEvent :: "ui_env \<Rightarrow> bool up" where
  "pollProcessUIEvent env = poll_loop env 6"

end
