(* ===== verification/Lcd_Safe.thy ===== *)
theory Lcd_Safe
  imports Lcd
begin

text \<open>
  When a drawing function stays inside the frame buffer: for every function of the display, the
  positions and values for which it stores only bytes of the buffer and reads only glyphs of the
  font. The pages of the user interface are checked against these facts.
\<close>

named_theorems lcd_safe \<open>drawing functions that stay inside the frame buffer\<close>

definition lcd_ok :: "(lcd \<Rightarrow> fault + lcd) \<Rightarrow> bool" where
  "lcd_ok f \<longleftrightarrow> (\<forall>b. length b = 1024 \<longrightarrow> (\<exists>b'. f b = Inr b' \<and> length b' = 1024))"

lemma lcd_okD: "lcd_ok f \<Longrightarrow> length b = 1024 \<Longrightarrow> \<exists>b'. f b = Inr b' \<and> length b' = 1024"
  by (simp add: lcd_ok_def)

lemma lcd_ok_put: "0 \<le> p \<Longrightarrow> nat p + length xs \<le> 1024 \<Longrightarrow> lcd_ok (put_bytes p xs)"
  by (simp add: lcd_ok_def put_bytes_ok)

lemma lcd_ok_Inr: "lcd_ok Inr"
  by (simp add: lcd_ok_def)

lemma lcd_ok_sbind: "r = Inr x \<Longrightarrow> lcd_ok (f x) \<Longrightarrow> lcd_ok (\<lambda>b. sbind r (\<lambda>x. f x b))"
  by (simp add: lcd_ok_def)

lemma lcd_ok_sfold:
  assumes "\<And>i. i \<in> set xs \<Longrightarrow> lcd_ok (f i)"
  shows "lcd_ok (sfold f xs)"
  unfolding lcd_ok_def
proof (intro allI impI)
  fix b :: lcd
  assume "length b = 1024"
  then show "\<exists>b'. sfold f xs b = Inr b' \<and> length b' = 1024"
    by (rule sfold_inv [rotated]) (use assms lcd_okD in blast)
qed

lemma clear_ok [lcd_safe]: "lcd_ok LCD_clear"
proof -
  have "lcd_ok (sfold (\<lambda>i. put_bytes (int i * LCDWIDTH) (concat (replicate 32 (le32_bytes 0)))) [0..<8])"
    by (rule lcd_ok_sfold, rule lcd_ok_put) (auto simp: LCDWIDTH_def length_concat sum_list_replicate)
  then show ?thesis unfolding LCD_clear_def [abs_def] .
qed

text \<open>Whatever is stored, the buffer keeps its length.\<close>

lemma put_bytes_length: "put_bytes p xs b = Inr b' \<Longrightarrow> length b' = length b"
  by (induction p xs b rule: put_bytes.induct) (auto simp: sbind_eq_Inr upd_e_length split: if_splits)

lemma char_number_length:
  "draw_char iv x line c b = Inr b' \<Longrightarrow> length b' = length b"
  "draw_number ps ovf iv x line v b = Inr b' \<Longrightarrow> length b' = length b"
  by (auto simp: draw_char_def draw_number_def sbind_eq_Inr Let_def dest: put_bytes_length split: if_splits)

lemma stringN_length: "draw_stringN iv x line s n b = Inr b' \<Longrightarrow> length b' = length b"
  by (auto simp: draw_stringN_def sbind_eq_Inr Let_def dest: put_bytes_length split: if_splits)

section \<open>Characters and strings\<close>

text \<open>The font has no glyph for code 255.\<close>

definition printable :: "u8 list \<Rightarrow> bool" where
  "printable s \<longleftrightarrow> 255 \<notin> set s"

lemma glyph_code: "c \<noteq> 255 \<Longrightarrow> unat c < 255" for c :: u8
  using unsigned_less [of c, where ?'a = nat] by (cases "unat c = 255") (auto simp: word_unat_eq_iff)

lemma printable_codes: "printable s \<Longrightarrow> \<forall>c \<in> set (map unat s). c < 255"
  by (auto simp: printable_def intro!: glyph_code)

lemma draw_char_ok:
  assumes "c \<noteq> 255" and "line \<noteq> 7 \<or> half_x \<le> 61"
  shows "lcd_ok (draw_char iv half_x line c)"
proof -
  obtain g where g: "glyph_bytes iv (unat c) = Inr g" "length g = 6"
    using glyph_bytes_ok glyph_code [OF assms(1)] by blast
  have "lcd_ok (\<lambda>b. if half_x < 0 \<or> half_x \<ge> LCDWIDTH - 5 \<or> line < 0 \<or> line \<ge> LCDROWS then Inr b
      else put_bytes (LCD_position_to_pointer half_x line) g b)"
    unfolding lcd_ok_def using assms(2) g(2)
    by (auto simp: put_bytes_ok LCD_position_to_pointer_def LCDWIDTH_def LCDROWS_def)
  then show ?thesis by (simp add: draw_char_def [abs_def] g cong: if_cong)
qed

lemma draw_stringN_ok:
  assumes "printable s" and "8 \<le> line \<or> line * 128 + half_x * 2 + 2 + 6 * int n \<le> 1024"
  shows "lcd_ok (draw_stringN iv half_x line s n)"
proof -
  have "printable (take n s)" using assms(1) by (auto simp: printable_def dest: in_set_takeD)
  from printable_codes [OF this] obtain gs where
    gs: "glyphs iv (map unat (take n s)) = Inr gs" "length gs = 6 * length (take n s)"
    using glyphs_ok by (metis length_map)
  show ?thesis
    unfolding lcd_ok_def using assms(2) gs
    by (auto simp: draw_stringN_def Let_def put_bytes_ok LCD_position_to_pointer_def LCDWIDTH_def LCDROWS_def min_def)
qed

section \<open>Numbers\<close>

lemma draw_codes_ok:
  assumes "\<forall>c \<in> set cs. c < 255" and "0 \<le> p"
    and "nat p + length lead + 6 * length cs + length trail \<le> 1024"
  shows "lcd_ok (\<lambda>b. sbind (glyphs iv cs) (\<lambda>gs. put_bytes p (lead @ gs @ trail) b))"
proof -
  obtain gs where "glyphs iv cs = Inr gs" "length gs = 6 * length cs" using glyphs_ok [OF assms(1)] by blast
  then show ?thesis using assms(2,3) by (simp add: lcd_ok_def put_bytes_ok)
qed

text \<open>
  The decimal functions with n + 1 digits and an overflow text of the same length. The negated
  smallest integer is itself again, and its digits are codes behind the font.
\<close>

lemma draw_number_ok:
  assumes "int32 v" and "v \<noteq> - (2 ^ 31)" and "0 < n" and "n < 7"
    and "length ovf = Suc n" and "\<forall>c \<in> set ovf. c < 255"
    and "0 \<le> line" and "0 \<le> half_x" and "line * 128 + half_x * 2 + 6 * (int n + 2) + 2 \<le> 1024"
  shows "lcd_ok (draw_number (powers n) ovf iv half_x line v)"
proof -
  have "length (number_text (powers n) ovf v) = n + 2 \<and> (\<forall>c \<in> set (number_text (powers n) ovf v). c < 255)"
  proof (cases "\<bar>v\<bar> < 10 ^ Suc n")
    case True
    from number_text_fits [OF this assms(4,3), of ovf] show ?thesis using digits_glyphs by (auto)
  next
    case False
    obtain k where n: "n = Suc k" using assms(3) by (cases n) auto
    have s: "sign_abs v = (if v < 0 then 45 else 32, \<bar>v\<bar>)"
      using assms(1,2) wrap32_id [of "- v"] by (auto simp: sign_abs_def int32_def)
    have "10 * 10 ^ n \<le> \<bar>v\<bar>" using False by simp
    then have "10 \<le> \<bar>v\<bar> div 10 ^ n"
      using zdiv_mono1 [of "10 * 10 ^ n" "\<bar>v\<bar>" "10 ^ n"] by simp
    moreover have "\<bar>v\<bar> sdiv 10 ^ n = \<bar>v\<bar> div 10 ^ n"
      by (cases "v = 0") (simp_all add: signed_divide_int_def)
    ultimately have "number_text (powers n) ovf v = (if v < 0 then 45 else 32) # ovf"
      by (simp add: number_text_def s n)
    then show ?thesis using assms(5,6) by auto
  qed
  then show ?thesis
    using draw_codes_ok [of "number_text (powers n) ovf v" "LCD_position_to_pointer half_x line" "[]"
        "replicate 2 (inv8 iv 0)" iv] assms(7,8,9)
    by (simp add: draw_number_def [abs_def] LCD_position_to_pointer_def LCDWIDTH_def)
qed

lemma powers_3: "powers 2 = [100, 10]" "powers 4 = [10000, 1000, 100, 10]"
  "powers 6 = [1000000, 100000, 10000, 1000, 100, 10]"
  by (simp_all add: numeral_eq_Suc)

lemma number_ok [lcd_safe]:
  assumes "int32 v" and "v \<noteq> - (2 ^ 31)" and "0 \<le> line" and "0 \<le> half_x"
  shows "line * 128 + half_x * 2 + 26 \<le> 1024 \<Longrightarrow> lcd_ok (LCD_drawNumber3D half_x line v)"
    and "line * 128 + half_x * 2 + 38 \<le> 1024 \<Longrightarrow> lcd_ok (LCD_drawNumber5D half_x line v)"
    and "line * 128 + half_x * 2 + 38 \<le> 1024 \<Longrightarrow> lcd_ok (LCD_drawNumber5DInv half_x line v)"
    and "line * 128 + half_x * 2 + 50 \<le> 1024 \<Longrightarrow> lcd_ok (LCD_drawNumber7D half_x line v)"
    and "line * 128 + half_x * 2 + 50 \<le> 1024 \<Longrightarrow> lcd_ok (LCD_drawNumber7DInv half_x line v)"
proof -
  have ovfs: "length ovr = Suc 2" "length ovrfl = Suc 4" "length ovrflow = Suc 6"
    "\<forall>c \<in> set ovr. c < 255" "\<forall>c \<in> set ovrfl. c < 255" "\<forall>c \<in> set ovrflow. c < 255"
    by (simp_all add: ovr_def ovrfl_def ovrflow_def)
  note num = draw_number_ok [OF assms(1,2) _ _ _ _ assms(3,4)]
  show "line * 128 + half_x * 2 + 26 \<le> 1024 \<Longrightarrow> lcd_ok (LCD_drawNumber3D half_x line v)"
    unfolding LCD_drawNumber3D_def powers_3(1) [symmetric] using ovfs by (intro num) simp_all
  show "line * 128 + half_x * 2 + 38 \<le> 1024 \<Longrightarrow> lcd_ok (LCD_drawNumber5D half_x line v)"
    unfolding LCD_drawNumber5D_def powers_3(2) [symmetric] using ovfs by (intro num) simp_all
  show "line * 128 + half_x * 2 + 38 \<le> 1024 \<Longrightarrow> lcd_ok (LCD_drawNumber5DInv half_x line v)"
    unfolding LCD_drawNumber5DInv_def powers_3(2) [symmetric] using ovfs by (intro num) simp_all
  show "line * 128 + half_x * 2 + 50 \<le> 1024 \<Longrightarrow> lcd_ok (LCD_drawNumber7D half_x line v)"
    unfolding LCD_drawNumber7D_def powers_3(3) [symmetric] using ovfs by (intro num) simp_all
  show "line * 128 + half_x * 2 + 50 \<le> 1024 \<Longrightarrow> lcd_ok (LCD_drawNumber7DInv half_x line v)"
    unfolding LCD_drawNumber7DInv_def powers_3(3) [symmetric] using ovfs by (intro num) simp_all
qed

lemma draw_hex32_ok [lcd_safe]:
  assumes "line * 128 + half_x * 2 + 50 \<le> 1024"
  shows "lcd_ok (LCD_drawNumberHex32 half_x line v)" and "lcd_ok (LCD_drawNumberHex32Inv half_x line v)"
proof -
  have "hexchar_from_nibble (unat (w AND 0xF)) < 255" for w :: u32
  proof -
    have "w AND 0xF = take_bit 4 w" by (simp add: take_bit_eq_mask mask_numeral)
    then have "unat (w AND 0xF) = take_bit 4 (unat w)" by (simp only: unsigned_take_bit_eq)
    then have "unat (w AND 0xF) < 2 ^ 4" by (simp only: take_bit_nat_less_exp)
    then show ?thesis by (simp add: hexchar_from_nibble_def)
  qed
  then have c: "\<forall>c \<in> set (hex_text v). c < 255" by (auto simp: hex_text_def)
  have l: "length (hex_text v) = 8" by (simp add: hex_text_def)
  have "lcd_ok (draw_hex32 iv half_x line v)" for iv
  proof (cases "line < 0 \<or> line \<ge> LCDHEIGHT \<or> half_x < 0 \<or> half_x > LCDWIDTH - 48")
    case True
    then show ?thesis by (simp add: draw_hex32_def [abs_def] lcd_ok_def)
  next
    case False
    then have "lcd_ok (\<lambda>b. sbind (glyphs iv (hex_text v)) (\<lambda>gs.
        put_bytes (LCD_position_to_pointer half_x line) (replicate 2 (inv8 iv 0) @ gs @ []) b))"
      using c l assms by (intro draw_codes_ok) (auto simp: LCD_position_to_pointer_def LCDWIDTH_def)
    then show ?thesis using False by (simp add: draw_hex32_def [abs_def] lcd_ok_def)
  qed
  then show "lcd_ok (LCD_drawNumberHex32 half_x line v)" and "lcd_ok (LCD_drawNumberHex32Inv half_x line v)"
    by (simp_all add: LCD_drawNumberHex32_def LCD_drawNumberHex32Inv_def)
qed

text \<open>Fixed point: three integer digits, or the overflow text, and three decimals.\<close>

lemma digits_3:
  assumes "0 \<le> v" and "v < 20000"
  shows "length (digits [100, 10] nz v) = 3 \<and> (\<forall>c \<in> set (digits [100, 10] nz v). c < 255)"
proof -
  have sd: "w sdiv k = w div k" if "0 \<le> w" "0 < k" for w k :: int
    using that by (cases "w = 0") (simp_all add: signed_divide_int_def)
  have r: "v - v div 100 * 100 = v mod 100" "v mod 100 - v mod 100 div 10 * 10 = v mod 100 mod 10"
    by (simp_all add: minus_div_mult_eq_mod)
  have b: "0 \<le> v div 100" "v div 100 < 200" "v mod 100 div 10 < 10" "0 \<le> v mod 100 div 10"
    using assms by (simp_all add: pos_imp_zdiv_nonneg_iff)
  have "digit_code d < 255" if "0 \<le> d" "d < 200" for d using that by (simp add: digit_code_def)
  moreover have "v mod 100 mod 10 < 10" "0 \<le> v mod 100 mod 10" by simp_all
  ultimately show ?thesis using b by (simp add: Let_def sd assms(1) r)
qed

lemma q27_codes:
  assumes "int32 v" and "v \<noteq> - (2 ^ 31)" and "f \<le> 1000" and "0 \<le> f"
  shows "length (q27_text f v) = 8 \<and> (\<forall>c \<in> set (q27_text f v). c < 255)"
proof -
  have s: "sign_abs v = (if v < 0 then 45 else 32, \<bar>v\<bar>)"
    using assms(1,2) wrap32_id [of "- v"] by (auto simp: sign_abs_def int32_def)
  define w where "w = \<bar>v\<bar>"
  have w: "0 \<le> w" "w \<le> 2 ^ 31" using assms(1) by (auto simp: w_def int32_def)
  have i: "0 \<le> w div 2 ^ 21" "w div 2 ^ 21 < 20000" using w by (simp_all add: pos_imp_zdiv_nonneg_iff)
  have "0 \<le> w mod 2 ^ 21" "w mod 2 ^ 21 < 2 ^ 21" by simp_all
  then have "0 \<le> (w mod 2 ^ 21) * f" "(w mod 2 ^ 21) * f \<le> 2 ^ 21 * 1000"
    using assms(3,4) mult_mono [of "w mod 2 ^ 21" "2 ^ 21" f 1000] by simp_all
  then have f: "0 \<le> ((w mod 2 ^ 21) * f + 0x0100000) div 2 ^ 21" "((w mod 2 ^ 21) * f + 0x0100000) div 2 ^ 21 < 20000"
    by (simp_all add: pos_imp_zdiv_nonneg_iff)
  show ?thesis
    unfolding q27_text_def s prod.case Let_def w_def [symmetric]
    using digits_3 [OF i, of False] digits_3 [OF f, of True]
    by (simp del: digits.simps add: ovrflow_def ball_Un)
qed

lemma draw_q27_ok [lcd_safe]:
  assumes "int32 v" and "v \<noteq> - (2 ^ 31)" and "0 \<le> line" and "0 \<le> half_x" and "line * 128 + half_x * 2 + 50 \<le> 1024"
  shows "lcd_ok (LCD_drawNumberQ27x64 half_x line v)" and "lcd_ok (LCD_drawNumberQ27x64Inv half_x line v)"
proof -
  have "lcd_ok (draw_q27 iv half_x line v)" for iv
    using q27_codes [OF assms(1,2), of "if iv then 1000 else 999"] assms(3,4,5)
      draw_codes_ok [of "q27_text (if iv then 1000 else 999) v" "LCD_position_to_pointer half_x line"
        "replicate 2 (inv8 iv 0)" "[]" iv]
    by (simp add: draw_q27_def [abs_def] LCD_position_to_pointer_def LCDWIDTH_def)
  then show "lcd_ok (LCD_drawNumberQ27x64 half_x line v)" and "lcd_ok (LCD_drawNumberQ27x64Inv half_x line v)"
    by (simp_all add: LCD_drawNumberQ27x64_def LCD_drawNumberQ27x64Inv_def)
qed

section \<open>Text and bit fields\<close>

lemma text_ok [lcd_safe]:
  assumes "printable s" and "8 \<le> line \<or> line * 128 + half_x * 2 + 2 + 6 * int n \<le> 1024"
  shows "lcd_ok (LCD_drawStringN half_x line s n)" and "lcd_ok (LCD_drawStringInvN half_x line s n)"
  using draw_stringN_ok [OF assms] by (simp_all add: LCD_drawStringN_def LCD_drawStringInvN_def)

lemma char_ok [lcd_safe]:
  assumes "c \<noteq> 255" and "line \<noteq> 7 \<or> half_x \<le> 61"
  shows "lcd_ok (LCD_drawChar half_x line c)" and "lcd_ok (LCD_drawCharInv half_x line c)"
  using draw_char_ok [OF assms] by (simp_all add: LCD_drawChar_def LCD_drawCharInv_def)

lemma length_pairs: "length (concat (map (\<lambda>i. replicate 2 (f i)) [0..<n])) = 2 * n"
  by (induction n) simp_all

lemma bitfield_ok [lcd_safe]:
  assumes "0 \<le> line" and "0 \<le> half_x" and "line * 128 + half_x * 2 + 50 \<le> 1024"
  shows "n \<le> 45 \<Longrightarrow> lcd_ok (LCD_drawBitField half_x line v n)"
    and "n \<le> 45 \<Longrightarrow> lcd_ok (LCD_drawBitFieldInv half_x line v n)"
    and "n \<le> 23 \<Longrightarrow> lcd_ok (LCD_drawBitField2 half_x line v n)"
    and "n \<le> 23 \<Longrightarrow> lcd_ok (LCD_drawBitField2Inv half_x line v n)"
proof -
  have p: "0 \<le> LCD_position_to_pointer half_x line" "nat (LCD_position_to_pointer half_x line) + 50 \<le> 1024"
    using assms by (simp_all add: LCD_position_to_pointer_def LCDWIDTH_def)
  have ok: "lcd_ok (put_bytes (LCD_position_to_pointer half_x line) xs)" if "length xs \<le> 50" for xs
    using p that by (intro lcd_ok_put) linarith+
  show "n \<le> 45 \<Longrightarrow> lcd_ok (LCD_drawBitField half_x line v n)"
    unfolding LCD_drawBitField_def [abs_def] by (rule ok) (simp only: length_append length_map length_replicate length_upt, simp)
  show "n \<le> 45 \<Longrightarrow> lcd_ok (LCD_drawBitFieldInv half_x line v n)"
    unfolding LCD_drawBitFieldInv_def [abs_def] by (rule ok) (simp only: length_append length_map length_replicate length_upt, simp)
  show "n \<le> 23 \<Longrightarrow> lcd_ok (LCD_drawBitField2 half_x line v n)"
    unfolding LCD_drawBitField2_def [abs_def] by (rule ok) (simp only: length_append length_pairs length_replicate, simp)
  show "n \<le> 23 \<Longrightarrow> lcd_ok (LCD_drawBitField2Inv half_x line v n)"
    unfolding LCD_drawBitField2Inv_def [abs_def] by (rule ok) (simp only: length_append length_pairs length_replicate, simp)
qed

end
