(* ===== verification/Ui_Nav.thy ===== *)
theory Ui_Nav
  imports Ui_Menu Lcd_Safe
begin

text \<open>
  The invariant of the user interface: the open pages form a path in the menu tree, every cursor
  lies in its page, and the variables of the pages stay in their ranges. Every handler keeps it,
  so no event of the control surface makes the interface leave an array.
\<close>

section \<open>The open pages\<close>

text \<open>How many pages can be stacked from a page on; the format action opens a page of its own.\<close>

fun height :: "ui_node \<Rightarrow> nat" where
  "height (Node_List _ nodes) = Suc (foldr max (map height nodes) 0)"
| "height (Action_Function _ (Some EnterMenuFormat)) = 3"
| "height _ = 1"

lemma height_child: "n \<in> set nodes \<Longrightarrow> height n < height (Node_List s nodes)"
proof -
  assume "n \<in> set nodes"
  then have "height n \<le> foldr max (map height nodes) 0" by (induction nodes) auto
  then show ?thesis by simp
qed

lemma height_pos: "0 < height n"
  by (cases n rule: height.cases) simp_all

text \<open>The page m was opened from page n at cursor p.\<close>

fun opens :: "ui_node \<times> int \<Rightarrow> ui_node \<Rightarrow> bool" where
  "opens (Node_List _ nodes, p) m \<longleftrightarrow> 0 \<le> p \<and> p < int (length nodes) \<and> m = nodes ! nat p"
| "opens (Action_Function _ (Some EnterMenuFormat), p) m \<longleftrightarrow> m = SdcFormatOK \<or> m = SdcFormatFailed"
| "opens _ m \<longleftrightarrow> False"

lemma opens_height: "opens (n, p) m \<Longrightarrow> height m < height n"
proof (cases n)
  case (Node_List s nodes)
  moreover assume "opens (n, p) m"
  ultimately show ?thesis using height_child [of m nodes s] by auto
next
  case (Action_Function s f)
  moreover assume o: "opens (n, p) m"
  ultimately obtain a where f: "f = Some a" by (cases f) auto
  then show ?thesis using Action_Function o
    by (cases a) (auto simp: SdcFormatOK_def SdcFormatFailed_def)
qed simp_all

fun cursor_ok :: "ui_node \<times> int \<Rightarrow> bool" where
  "cursor_ok (Node_List _ nodes, p) \<longleftrightarrow> p = 0 \<or> 0 < p \<and> p < int (length nodes)"
| "cursor_ok (Param_List _, p) \<longleftrightarrow> 0 \<le> p \<and> p mod 4 = 0"
| "cursor_ok (_, p) \<longleftrightarrow> p = 0"

definition depth :: "ui \<Rightarrow> nat" where
  "depth st = nat (menu_stack_position st)"

definition entry :: "ui \<Rightarrow> ui_node \<times> int" where
  "entry st = menu_stack st ! depth st"

definition nav_inv :: "ui \<Rightarrow> bool" where
  "nav_inv st \<longleftrightarrow> length (menu_stack st) = 10 \<and> 0 \<le> menu_stack_position st \<and>
     fst (menu_stack st ! 0) = RootMenu \<and>
     (\<forall>i \<le> depth st. i + height (fst (menu_stack st ! i)) \<le> 5 \<and> cursor_ok (menu_stack st ! i)) \<and>
     (\<forall>i < depth st. opens (menu_stack st ! i) (fst (menu_stack st ! Suc i)))"

section \<open>The variables of the pages\<close>

definition panel_event :: "input_event \<Rightarrow> bool" where
  "panel_event e \<longleftrightarrow> quadrant e \<le> 4 \<and> button e \<le> 23"

definition cc_inv :: "midiccdata \<Rightarrow> bool" where
  "cc_inv d \<longleftrightarrow> length (cc d) = 128 \<and> length (knote d) = 16 \<and> page d \<in> {0..8} \<and> int32 (bend d) \<and>
     channel d \<in> {0..15} \<and> shift d \<in> {- 3..3} \<and> velo d \<in> {0..127} \<and> rvelo d \<in> {0..127} \<and>
     (\<forall>c \<in> set (cc d). c \<in> {0..127})"

text \<open>The images of patches name every parameter, with a glyph for every character.\<close>

definition patch_ok :: "patch_view \<Rightarrow> bool" where
  "patch_ok v \<longleftrightarrow> length (pv_names v) = length (pv_params v) \<and> (\<forall>s \<in> set (pv_names v). printable s) \<and>
     (\<forall>x \<in> set (pv_params v). typed x)"

definition clock_ok :: "midi_clock \<Rightarrow> bool" where
  "clock_ok c \<longleftrightarrow> period c \<in> {80..335}"

definition page_inv :: "ui \<Rightarrow> bool" where
  "page_inv st \<longleftrightarrow> length (lcd_buffer st) = 1024 \<and> length (leds st) = 6 \<and> length (vals st) = 4 \<and>
     queue_inv (evts st) \<and> panel_event (btn_event (evts st)) \<and> cc_inv (midicc st) \<and> clock_ok (clk st) \<and>
     length (buf (midi_input st)) = 32 \<and> load_patch_index st = 0 \<and> xpos st \<in> {0..127} \<and> q1 st \<in> {0..3} \<and>
     (case patch0 st of None \<Rightarrow> True | Some v \<Rightarrow> patch_ok v)"

definition ui_inv :: "ui \<Rightarrow> bool" where
  "ui_inv st \<longleftrightarrow> nav_inv st \<and> page_inv st"

lemma depth_bound: "nav_inv st \<Longrightarrow> depth st \<le> 4"
  using height_pos [of "fst (menu_stack st ! depth st)"] by (force simp: nav_inv_def)

lemma nav_frame:
  "menu_stack st' = menu_stack st \<Longrightarrow> menu_stack_position st' = menu_stack_position st \<Longrightarrow> nav_inv st \<Longrightarrow> nav_inv st'"
  by (simp add: nav_inv_def depth_def)

lemma RootMenu_height: "height RootMenu = 5"
  by (simp add: RootMenu_def MainMenu_def SdcMenu_def PatchLoadMenu_def ADCMenu_def FoodMenu_def food_def
      upt_rec numeral_eq_Suc)

lemma initial_ui_inv: "ui_inv initial_ui"
  by (simp add: ui_inv_def nav_inv_def page_inv_def initial_ui_def depth_def RootMenu_height cc_inv_def
      initial_midiccdata_def initial_queue_inv panel_event_def clock_ok_def initial_midi_clock_def int32_def)
    (simp add: RootMenu_def initial_queue_def no_event_def)

section \<open>Moving the cursor and opening pages\<close>

definition move :: "int \<Rightarrow> ui \<Rightarrow> ui" where
  "move p st = st\<lparr>menu_stack := (menu_stack st)[depth st := (fst (entry st), p)]\<rparr>"

lemma ui_invD:
  assumes "ui_inv st"
  shows "depth st < length (menu_stack st)" "0 \<le> menu_stack_position st" "menu_stack_position st = int (depth st)"
    "cursor_ok (entry st)" "depth st + height (fst (entry st)) \<le> 5" "length (lcd_buffer st) = 1024"
  using assms depth_bound [of st] by (auto simp: ui_inv_def nav_inv_def page_inv_def entry_def depth_def)

lemma top_run: "ui_inv st \<Longrightarrow> top st = Inr (entry st, st)"
  using ui_invD(1,2) [of st] by (simp add: top_def prog_defs entry_def depth_def)

lemma currentpos_run: "ui_inv st \<Longrightarrow> currentpos st = Inr (snd (entry st), st)"
  by (cases "entry st") (simp add: currentpos_def bnd_Inr [OF top_run] ret_def)

lemma set_run: "ui_inv st \<Longrightarrow> set_currentpos p st = Inr ((), move p st)"
  by (simp add: set_currentpos_def bnd_Inr [OF top_run] upd_st_def move_def depth_def split: prod.split)

lemma move_inv:
  assumes "ui_inv st" and "cursor_ok (fst (entry st), p)"
  shows "ui_inv (move p st)"
proof -
  let ?s = "menu_stack st" and ?d = "depth st"
  let ?s' = "?s[?d := (fst (entry st), p)]"
  have d: "?d < length ?s" using ui_invD(1) [OF assms(1)] .
  have n: "nav_inv st" "page_inv st" using assms(1) by (simp_all add: ui_inv_def)
  have fst: "fst (?s' ! i) = fst (?s ! i)" for i
    using d by (cases "i = ?d") (simp_all add: entry_def)
  have cur: "cursor_ok (?s' ! i)" if "i \<le> ?d" for i
    using that assms(2) n(1) d by (cases "i = ?d") (simp_all add: nav_inv_def)
  have path: "opens (?s' ! i) (fst (?s' ! Suc i))" if "i < ?d" for i
    using that n(1) fst [of "Suc i"] by (simp add: nav_inv_def)
  have "depth (move p st) = ?d" by (simp add: move_def depth_def)
  moreover have "menu_stack (move p st) = ?s'" "menu_stack_position (move p st) = menu_stack_position st"
    by (simp_all add: move_def)
  ultimately have "nav_inv (move p st)" using n(1) fst cur path unfolding nav_inv_def by simp
  then show ?thesis using n(2) by (simp add: ui_inv_def page_inv_def move_def)
qed

lemma cursor_0: "cursor_ok (n, 0)"
  by (cases n) simp_all

lemma enter_run:
  assumes "ui_inv st" and "opens (entry st) m"
  shows "\<exists>st'. ui_enter_node m st = Inr (- 1, st') \<and> ui_inv st' \<and> depth st' = Suc (depth st) \<and> entry st' = (m, 0)"
proof -
  obtain b where b: "LCD_clear (lcd_buffer st) = Inr b" "length b = 1024"
    using lcd_okD [OF clear_ok ui_invD(6) [OF assms(1)]] by blast
  let ?d = "depth st"
  let ?st' = "st\<lparr>lcd_buffer := b, menu_stack := (menu_stack st)[Suc ?d := (m, 0)], menu_stack_position := int (Suc ?d)\<rparr>"
  have n: "nav_inv st" using assms(1) by (simp add: ui_inv_def)
  have d: "?d \<le> 4" using n by (rule depth_bound)
  have pos: "menu_stack_position st = int ?d" using ui_invD(3) [OF assms(1)] .
  have run: "ui_enter_node m st = Inr (- 1, ?st')"
    using b d by (simp add: ui_enter_node_def draw_def prog_defs menu_stack_size_def pos nat_add_distrib add.commute)
  have l: "length (menu_stack st) = 10" using assms(1) by (simp add: ui_inv_def nav_inv_def)
  have h: "height m < height (fst (entry st))" using assms(2) opens_height [of "fst (entry st)" "snd (entry st)" m] by simp
  have d': "depth ?st' = Suc ?d" unfolding depth_def [of ?st'] by simp
  have "i + height (fst (menu_stack ?st' ! i)) \<le> 5 \<and> cursor_ok (menu_stack ?st' ! i)" if "i \<le> Suc ?d" for i
    using that n h d l ui_invD(5) [OF assms(1)] cursor_0
    by (cases "i = Suc ?d") (simp_all add: nav_inv_def)
  moreover have "opens (menu_stack ?st' ! i) (fst (menu_stack ?st' ! Suc i))" if "i < Suc ?d" for i
    using that assms(2) n l d by (cases "i = ?d") (simp_all add: nav_inv_def entry_def)
  ultimately have "nav_inv ?st'" using n l unfolding nav_inv_def d' by simp
  then have "ui_inv ?st'" using assms(1) b by (simp add: ui_inv_def page_inv_def)
  moreover have "entry ?st' = (m, 0)" using l d unfolding entry_def d' by simp
  ultimately show ?thesis using run d' by blast
qed

text \<open>Going back and going home leave a path.\<close>

lemma shorter_inv:
  assumes "ui_inv st" and "0 \<le> p" and "p \<le> menu_stack_position st"
  shows "ui_inv (st\<lparr>menu_stack_position := p\<rparr>)"
proof -
  have "nat p \<le> depth st" using assms(2,3) by (simp add: depth_def)
  then have "i \<le> depth st" if "i \<le> nat p" for i using that by simp
  moreover have "i < depth st" if "i < nat p" for i using that \<open>nat p \<le> depth st\<close> by simp
  ultimately have "nav_inv (st\<lparr>menu_stack_position := p\<rparr>)"
    using assms(1,2) by (simp add: ui_inv_def nav_inv_def depth_def)
  then show ?thesis using assms(1) by (simp add: ui_inv_def page_inv_def)
qed

end
