(* ===== verification/Ui_Handlers.thy ===== *)
theory Ui_Handlers
  imports Ui_Nav
begin

text \<open>
  Every event handler of the user interface keeps its invariant and stays inside its arrays, for
  the events the control surface can produce.
\<close>

section \<open>Operations that keep the invariant\<close>

definition nav_faults :: "fault set" where
  "nav_faults = {OutOfBounds, Uninitialised, Dangling}"

abbreviation safe_ui :: "'a up \<Rightarrow> bool" where
  "safe_ui \<equiv> keeps nav_faults ui_inv"

lemma ui_inv_simps [simp]:
  "ui_inv (st\<lparr>sel := i\<rparr>) = ui_inv st" "ui_inv (st\<lparr>nfiles := i\<rparr>) = ui_inv st"
  "ui_inv (st\<lparr>effects := es\<rparr>) = ui_inv st" "ui_inv (st\<lparr>proc_offset := i\<rparr>) = ui_inv st"
  "ui_inv (st\<lparr>last_evt := e\<rparr>) = ui_inv st" "ui_inv (st\<lparr>dirty := d\<rparr>) = ui_inv st"
  by (simp_all add: ui_inv_def nav_inv_def page_inv_def depth_def)

lemma ui_inv_updates:
  "ui_inv st \<Longrightarrow> length b = 1024 \<Longrightarrow> ui_inv (st\<lparr>lcd_buffer := b\<rparr>)"
  "ui_inv st \<Longrightarrow> length l = 6 \<Longrightarrow> ui_inv (st\<lparr>leds := l\<rparr>)"
  "ui_inv st \<Longrightarrow> length v = 4 \<Longrightarrow> ui_inv (st\<lparr>vals := v\<rparr>)"
  "ui_inv st \<Longrightarrow> cc_inv d \<Longrightarrow> ui_inv (st\<lparr>midicc := d\<rparr>)"
  "ui_inv st \<Longrightarrow> queue_inv q \<Longrightarrow> panel_event (btn_event q) \<Longrightarrow> ui_inv (st\<lparr>evts := q\<rparr>)"
  "ui_inv st \<Longrightarrow> clock_ok c \<Longrightarrow> ui_inv (st\<lparr>clk := c\<rparr>)"
  "ui_inv st \<Longrightarrow> 0 \<le> i \<Longrightarrow> i \<le> 127 \<Longrightarrow> ui_inv (st\<lparr>xpos := i\<rparr>)"
  "ui_inv st \<Longrightarrow> 0 \<le> j \<Longrightarrow> j \<le> 3 \<Longrightarrow> ui_inv (st\<lparr>q1 := j\<rparr>)"
  "ui_inv st \<Longrightarrow> patch_ok p \<Longrightarrow> ui_inv (st\<lparr>patch0 := Some p\<rparr>)"
  "ui_inv st \<Longrightarrow> ui_inv (st\<lparr>patch0 := None\<rparr>)"
  "ui_inv st \<Longrightarrow> length (buf m) = 32 \<Longrightarrow> ui_inv (st\<lparr>midi_input := m\<rparr>)"
  by (simp_all add: ui_inv_def nav_inv_def page_inv_def depth_def)

lemma ui_invD2:
  assumes "ui_inv st"
  shows "length (leds st) = 6" "length (vals st) = 4" "cc_inv (midicc st)" "queue_inv (evts st)"
    "panel_event (btn_event (evts st))" "clock_ok (clk st)" "patch0 st = Some p \<Longrightarrow> patch_ok p"
    "load_patch_index st = 0" "xpos st \<in> {0..127}" "q1 st \<in> {0..3}" "length (buf (midi_input st)) = 32"
  using assms by (simp_all add: ui_inv_def page_inv_def)

lemma safe_ui_upd: "(\<And>st. ui_inv st \<Longrightarrow> ui_inv (f st)) \<Longrightarrow> safe_ui (upd_st f)"
  by (rule runs_upd)

lemma safe_draw: "lcd_ok f \<Longrightarrow> safe_ui (draw f)"
  unfolding runs_def
proof (intro allI impI)
  fix st
  assume f: "lcd_ok f" and inv: "ui_inv st"
  obtain b where "f (lcd_buffer st) = Inr b" "length b = 1024" using lcd_okD [OF f ui_invD(6) [OF inv]] by blast
  then show "case draw f st of Inl e \<Rightarrow> e \<notin> nav_faults | Inr (x, s) \<Rightarrow> ui_inv s"
    using ui_inv_updates(1) [OF inv] by (simp add: draw_def prog_defs)
qed

lemma safe_effect [keep]: "safe_ui (effect e)"
  unfolding effect_def by (rule safe_ui_upd) simp

lemma safe_signal [keep]: "safe_ui (chEvtSignal f)"
  unfolding chEvtSignal_def by (rule safe_ui_upd) simp

lemma safe_get_cc [keep]: "safe_ui (get_cc f)"
  unfolding get_cc_def by (rule runs_get)

lemma safe_upd_cc: "(\<And>d. cc_inv d \<Longrightarrow> cc_inv (f d)) \<Longrightarrow> safe_ui (upd_cc f)"
  unfolding upd_cc_def by (rule safe_ui_upd) (simp add: ui_inv_updates ui_invD2)

lemma safe_put_midi [keep]: "safe_ui (put_midi s a b)"
  unfolding put_midi_def
  by (rule safe_ui_upd)
    (auto simp: midi_input_buffer_put_def Let_def ui_invD2 intro!: ui_inv_updates split: prod.split if_splits)

section \<open>The page that loads a patch\<close>

lemma printable_chars: "255 \<notin> set (chars s) \<Longrightarrow> printable (chars s)"
  by (simp add: printable_def)

lemma safe_text [keep]:
  assumes "printable s"
  shows "safe_ui (draw (LCD_drawStringN 0 line s 20))" and "safe_ui (draw (LCD_drawStringInvN 0 line s 20))"
  using assms by (auto intro!: safe_draw text_ok)

lemma safe_blank_lines: "printable (chars s) \<Longrightarrow> safe_ui (blank_lines ls s)"
  by (induction ls) (auto intro!: keep)

lemma safe_refresh_loop:
  "\<forall>n \<in> set names. printable n \<Longrightarrow> safe_ui (refresh_loop env launch names i)"
  by (induction names arbitrary: i) (auto intro!: keep)

lemma safe_refresh:
  assumes "\<forall>n \<in> set (dir_names env). printable n"
  shows "safe_ui (refresh env launch)"
proof -
  have "printable (chars ''No patches...'')" "printable (chars '''')" "printable (chars ''////'')"
    by (simp_all add: printable_def chars_def)
  then show ?thesis unfolding refresh_def
    using safe_refresh_loop [OF assms] safe_blank_lines by (auto intro!: keep)
qed

lemma safe_loadpatch_evt:
  assumes "\<forall>n \<in> set (dir_names env). printable n"
  shows "safe_ui (loadpatch_evt env e)"
  unfolding loadpatch_evt_def
  by (auto intro!: keep safe_ui_upd safe_refresh [OF assms] simp: Let_def)

section \<open>The other pages\<close>

lemma panel_quadrant: "panel_event e \<Longrightarrow> unat (quadrant e) \<le> 4"
  by (simp add: panel_event_def word_le_nat_alt)

lemma panel_uint: "panel_event e \<Longrightarrow> uint (quadrant e) \<le> 4"
  by (simp add: panel_event_def word_le_def)

lemma panel_button: "panel_event e \<Longrightarrow> unat (button e) \<le> 23"
  by (simp add: panel_event_def word_le_nat_alt)

lemma clock_ok_keep: "clock_ok c \<Longrightarrow> clock_ok (c\<lparr>active := a\<rparr>)"
  by (simp add: clock_ok_def)

lemma safe_midiclock_evt:
  assumes "panel_event e"
  shows "safe_ui (midiclock_evt e)"
proof -
  have "safe_ui (adjustBPM e')" for e'
    unfolding adjustBPM_def by (rule safe_ui_upd) (auto simp: Let_def clock_ok_def intro!: ui_inv_updates)
  moreover have "safe_ui (doStartStop e')" for e'
    unfolding doStartStop_def by (auto intro!: keep safe_ui_upd ui_inv_updates simp: ui_invD2 clock_ok_keep)
  ultimately show ?thesis unfolding midiclock_evt_def using panel_uint [OF assms]
    by (auto intro!: keep simp: Let_def)
qed

lemma safe_send_bend [keep]: "safe_ui send_bend"
  unfolding send_bend_def by (intro keep)

lemma cc_inv_note [simp]: "cc_inv (d\<lparr>knote := (knote d)[j := i]\<rparr>) = cc_inv d"
  by (simp add: cc_inv_def)

text \<open>The variables stay in their ranges.\<close>

lemma cc_inv_updates:
  "cc_inv d \<Longrightarrow> int32 i \<Longrightarrow> cc_inv (d\<lparr>bend := i\<rparr>)"
  "cc_inv d \<Longrightarrow> i \<in> {0..15} \<Longrightarrow> cc_inv (d\<lparr>channel := i\<rparr>)"
  "cc_inv d \<Longrightarrow> i \<in> {- 3..3} \<Longrightarrow> cc_inv (d\<lparr>shift := i\<rparr>)"
  "cc_inv d \<Longrightarrow> i \<in> {0..127} \<Longrightarrow> cc_inv (d\<lparr>velo := i\<rparr>)"
  "cc_inv d \<Longrightarrow> i \<in> {0..127} \<Longrightarrow> cc_inv (d\<lparr>rvelo := i\<rparr>)"
  "cc_inv d \<Longrightarrow> i \<in> {0..8} \<Longrightarrow> cc_inv (d\<lparr>page := i\<rparr>)"
  "cc_inv d \<Longrightarrow> i \<in> {0..127} \<Longrightarrow> cc_inv (d\<lparr>cc := (cc d)[j := i]\<rparr>)"
  by (auto simp: cc_inv_def dest!: set_update_subset_insert [THEN subsetD])

lemma step_velocity_range: "v \<in> {0..127} \<Longrightarrow> step_velocity e v \<in> {0..127}"
  by (auto simp: step_velocity_def Let_def)

lemma usat7: "usat v 7 \<in> {0..127}"
  using usat_range [of 7 v] by simp

lemma cc_invD:
  assumes "cc_inv d"
  shows "length (cc d) = 128" "length (knote d) = 16" "page d \<in> {0..8}" "int32 (bend d)" "channel d \<in> {0..15}"
    "shift d \<in> {- 3..3}" "velo d \<in> {0..127}" "rvelo d \<in> {0..127}" "i < 128 \<Longrightarrow> cc d ! i \<in> {0..127}"
  using assms by (simp_all add: cc_inv_def)

lemma safe_quads:
  assumes "h \<in> set quads"
  shows "safe_ui (h e)"
proof -
  have bend: "cc_inv (d\<lparr>bend := let b = bend d + sint v; b = if b > 63 then 63 else b in if b < - 64 then - 64 else b\<rparr>)"
    if "cc_inv d" for d and v :: u8
    using that by (auto simp: Let_def int32_def intro!: cc_inv_updates)
  have "safe_ui (handleInputBend e)"
    using bend unfolding handleInputBend_def Let_def
    by (auto intro!: keep safe_upd_cc cc_inv_updates simp: int32_def wrap32_def)
  moreover have "safe_ui (handleInputChannel e)"
    unfolding handleInputChannel_def by (auto intro!: keep safe_upd_cc cc_inv_updates)
  moreover have "safe_ui (handleInputOct e)"
    unfolding handleInputOct_def by (auto intro!: keep safe_upd_cc cc_inv_updates dest: cc_invD)
  moreover have "safe_ui (handleInputVelocity e)" "safe_ui (handleInputRVelocity e)"
    unfolding handleInputVelocity_def handleInputRVelocity_def
    by (auto intro!: keep safe_upd_cc cc_inv_updates step_velocity_range cc_invD simp del: atLeastAtMost_iff)
  moreover have "safe_ui (handleInputCC i e)" for i
    unfolding handleInputCC_def Let_def
    by (auto intro!: keep safe_upd_cc cc_inv_updates usat7 simp del: atLeastAtMost_iff)
  ultimately show ?thesis using assms unfolding quads_def by auto
qed

text \<open>An index that the invariant bounds.\<close>

lemma safe_nth:
  assumes "\<And>st. ui_inv st \<Longrightarrow> i (midicc st) < length (xs (midicc st))"
    and "\<And>x st. ui_inv st \<Longrightarrow> x = xs (midicc st) ! i (midicc st) \<Longrightarrow> safe_ui (f x)"
  shows "safe_ui (bnd (get_cc (\<lambda>d. nth_e (xs d) (i d))) (\<lambda>r. bnd (lift r) f))"
  unfolding runs_def
proof (intro allI impI)
  fix st
  assume inv: "ui_inv st"
  then have "bnd (get_cc (\<lambda>d. nth_e (xs d) (i d))) (\<lambda>r. bnd (lift r) f) st = f (xs (midicc st) ! i (midicc st)) st"
    using assms(1) [OF inv] by (simp add: get_cc_def prog_defs)
  then show "case bnd (get_cc (\<lambda>d. nth_e (xs d) (i d))) (\<lambda>r. bnd (lift r) f) st of
      Inl e \<Rightarrow> e \<notin> nav_faults | Inr (x, s) \<Rightarrow> ui_inv s"
    using assms(2) [OF inv refl] inv by (simp add: runs_def)
qed

lemma safe_keys:
  assumes "i < 16"
  shows "safe_ui (key_down i)" and "safe_ui (key_up i e)"
proof -
  have l: "i < length (knote (midicc st))" if "ui_inv st" for st
    using assms ui_invD2(3) [OF that] by (simp add: cc_inv_def)
  show "safe_ui (key_down i)" unfolding key_down_def
    using l by (intro safe_nth) (auto intro!: keep safe_upd_cc)
  have "safe_ui (bnd (get_cc (\<lambda>d. nth_e (knote d) i)) (\<lambda>old. bnd (lift old) (\<lambda>old.
     if old \<noteq> - 1 then
       bnd (get_cc velo) (\<lambda>v. bnd (put_midi MIDI_NOTE_OFF old v) (\<lambda>_.
       bnd (upd_cc (\<lambda>d. d\<lparr>knote := (knote d)[i := - 1]\<rparr>)) (\<lambda>_. ret (lcd_dirty_flag_usr 5))))
     else ret 0)))"
    using l by (intro safe_nth) (auto intro!: keep safe_upd_cc)
  then show "safe_ui (key_up i e)" unfolding key_up_def by (auto intro!: keep)
qed

lemma safe_midicc_evt:
  assumes "panel_event e"
  shows "safe_ui (midicc_evt e)"
proof -
  have len: "length quads = 12" by (simp add: quads_def)
  have "nat (page (midicc st)) + (unat (quadrant e) - 1) < length quads" if "ui_inv st" "quadrant e \<in> {1, 2, 3, 4}" for st
    using ui_invD2(3) [OF that(1)] panel_quadrant [OF assms] len by (auto simp: cc_inv_def)
  then have "safe_ui (bnd (get_cc (\<lambda>d. nth_e quads (nat (page d) + (unat (quadrant e) - 1)))) (\<lambda>h. bnd (lift h) (\<lambda>h.
        bnd (h e) (\<lambda>r. ret (if r then lcd_dirty_flag_usr (1 + (unat (quadrant e) - 1)) else 0)))))"
    if "quadrant e \<in> {1, 2, 3, 4}" using that safe_quads by (intro safe_nth) (auto intro!: keep)
  moreover have "unat (button e) - 8 < 16" using panel_button [OF assms] by simp
  moreover have "safe_ui (upd_cc (\<lambda>d. d\<lparr>page := (if page d - 2 < 0 then 0 else page d - 2)\<rparr>))"
    by (rule safe_upd_cc) (simp add: cc_inv_def)
  moreover have "safe_ui (upd_cc (\<lambda>d. d\<lparr>page := (if page d + 2 > NQUADS - 4 then NQUADS - 4 else page d + 2)\<rparr>))"
    by (rule safe_upd_cc) (simp add: cc_inv_def NQUADS_def)
  ultimately show ?thesis unfolding midicc_evt_def Let_def
    using safe_keys by (auto intro!: keep)
qed

lemma safe_processes_evt: "safe_ui (processes_evt e)"
  unfolding processes_evt_def by (auto intro!: keep safe_ui_upd)

lemma safe_test_evt: "safe_ui (test_evt e)"
  unfolding test_evt_def Let_def by (auto intro!: keep safe_ui_upd ui_inv_updates simp: ui_invD2)

lemma safe_custom_evt:
  assumes "panel_event e" and "\<forall>n \<in> set (dir_names env). printable n"
  shows "safe_ui (custom_evt env p e)"
  using assms safe_loadpatch_evt safe_midiclock_evt safe_midicc_evt safe_processes_evt safe_test_evt
  by (cases p) (auto intro!: keep)

section \<open>Navigation\<close>

text \<open>The outcome of an operation in one state, for proofs by evaluation.\<close>

definition good :: "'a up \<Rightarrow> ui \<Rightarrow> bool" where
  "good f st \<longleftrightarrow> (case f st of Inl e \<Rightarrow> e \<notin> nav_faults | Inr (_, st') \<Rightarrow> ui_inv st')"

lemma goodI: "safe_ui f \<Longrightarrow> ui_inv st \<Longrightarrow> good f st"
  by (auto simp: good_def runs_def split: sum.splits)

lemma good_ret [simp]: "good (ret x) st = ui_inv st"
  by (simp add: good_def ret_def)

lemma good_stop [simp]: "good (stop e) st \<longleftrightarrow> e \<notin> nav_faults"
  by (simp add: good_def stop_def)

lemma good_bnd: "good f st \<Longrightarrow> (\<And>x st'. f st = Inr (x, st') \<Longrightarrow> ui_inv st' \<Longrightarrow> good (g x) st') \<Longrightarrow> good (bnd f g) st"
  by (auto simp: good_def bnd_def split: sum.splits prod.splits)

lemma good_pos:
  assumes "ui_inv st" and "good (g (snd (entry st))) st"
  shows "good (bnd currentpos g) st"
  using assms(2) by (simp add: good_def bnd_Inr [of currentpos, OF currentpos_run [OF assms(1)]])

lemma good_set:
  assumes "ui_inv st" and "cursor_ok (fst (entry st), p)"
  shows "good (bnd (set_currentpos p) (\<lambda>_. ret r)) st"
  using move_inv [OF assms] by (simp add: good_def bnd_Inr [of "set_currentpos p", OF set_run [OF assms(1)]] ret_def)

lemma list_cursor:
  "cursor_ok (Node_List s nodes, p) \<Longrightarrow> p = 0 \<or> 0 < p \<and> p < int (length nodes)"
  by simp

lemma good_node_list:
  assumes inv: "ui_inv st" and n: "fst (entry st) = Node_List s nodes"
  shows "good (node_list_evt nodes e) st"
proof -
  let ?p = "snd (entry st)"
  have p: "?p = 0 \<or> 0 < ?p \<and> ?p < int (length nodes)"
    using ui_invD(4) [OF inv] n by (cases "entry st") simp
  have c: "cursor_ok (fst (entry st), ?p - 1)" if "0 < ?p" using that p n by auto
  have up: "good list_nav_up st" and down: "good (list_nav_down (int (length nodes))) st"
    unfolding list_nav_up_def list_nav_down_def using inv p n move_inv [OF inv c]
    by (auto simp: good_def currentpos_run set_run move_inv ret_def bnd_def)
  have enter: "good (bnd currentpos (\<lambda>p. bnd (lift (if p < 0 then Inl OutOfBounds else nth_e nodes (nat p))) ui_enter_node)) st"
    if "nodes \<noteq> []"
  proof (rule good_pos [OF inv])
    have i: "nat ?p < length nodes" "0 \<le> ?p" using p that by auto
    have "opens (entry st) (nodes ! nat ?p)" using i n by (cases "entry st") auto
    from enter_run [OF inv this] i show
      "good (bnd (lift (if ?p < 0 then Inl OutOfBounds else nth_e nodes (nat ?p))) ui_enter_node) st"
      by (auto simp: good_def bnd_def lift_def)
  qed
  show ?thesis unfolding node_list_evt_def using up down enter inv by simp
qed

lemma good_action:
  assumes inv: "ui_inv st" and n: "fst (entry st) = Action_Function s f"
  shows "good (action_evt env f e) st"
proof (cases f)
  case None
  then show ?thesis using inv by (simp add: action_evt_def)
next
  case (Some a)
  have "good (bnd (run_action env a) (\<lambda>_. ret 0 :: u32 up)) st"
  proof (cases a)
    case EnterMenuPatchLoad
    then show ?thesis using inv by (auto intro!: goodI keep)
  next
    case EnterMenuFormat
    let ?m = "if mkfs_res env \<noteq> 0 then SdcFormatFailed else SdcFormatOK"
    have "opens (entry st) ?m" using n Some EnterMenuFormat by (cases "entry st") simp
    from enter_run [OF inv this] show ?thesis using EnterMenuFormat by (auto simp: good_def bnd_def ret_def)
  next
    case WritePatch
    then show ?thesis by (simp add: good_def bnd_def stop_def nav_faults_def)
  qed
  then show ?thesis using inv Some by (simp add: action_evt_def)
qed

text \<open>The counts of the pages leave the state alone.\<close>

lemma nparams_run:
  "patch_getNParams st = (case patch0 st of None \<Rightarrow> Inl NullCall | Some v \<Rightarrow> Inr (int (length (pv_params v)), st))"
  by (simp add: patch_getNParams_def instance_of_def prog_defs split: option.split)

lemma good_scroll:
  assumes inv: "ui_inv st" and n: "fst (entry st) = Param_List s \<or> (fst (entry st) = Object_List s \<and> k = 0)"
    and count: "count st = Inr (k, st) \<or> count st = Inl NullCall"
  shows "good (scroll_by_4 e count) st"
proof -
  obtain m p where e: "entry st = (m, p)" by (cases "entry st")
  have p: "cursor_ok (m, p)" using ui_invD(4) [OF inv] e by simp
  have up: "good (bnd currentpos (\<lambda>p. if p \<ge> 4 then bnd (set_currentpos (p - 4)) (\<lambda>_. ret (- 1 :: u32)) else ret 0)) st"
    using n p inv e by (intro good_pos) (auto intro!: good_set)
  have "good (bnd currentpos (\<lambda>p. if p + 4 < k then bnd (set_currentpos (p + 4)) (\<lambda>_. ret (- 1 :: u32)) else ret 0)) st"
    using n p inv e by (intro good_pos) (auto intro!: good_set)
  then have down: "good (bnd count (\<lambda>n. bnd currentpos (\<lambda>p. if p + 4 < n then bnd (set_currentpos (p + 4)) (\<lambda>_. ret (- 1 :: u32)) else ret 0))) st"
    using count by (auto simp: good_def bnd_def nav_faults_def)
  show ?thesis unfolding scroll_by_4_def using up down inv by simp
qed

lemma patch_ok_nth: "patch_ok v \<Longrightarrow> i < length (pv_params v) \<Longrightarrow> typed (pv_params v ! i)"
  by (simp add: patch_ok_def)

lemma patch_ok_set: "patch_ok v \<Longrightarrow> typed x \<Longrightarrow> patch_ok (v\<lparr>pv_params := (pv_params v)[i := x]\<rparr>)"
  by (auto simp: patch_ok_def dest!: set_update_subset_insert [THEN subsetD])

lemma good_param_list:
  assumes inv: "ui_inv st" and n: "fst (entry st) = Param_List s"
  shows "good (param_list_evt e) st"
proof -
  let ?p = "snd (entry st)" and ?q = "unat (quadrant e) - 1" and ?v = "getValuFromInputEvent e"
  have p: "0 \<le> ?p" using ui_invD(4) [OF inv] n by (cases "entry st") simp
  have scroll: "good (scroll_by_4 e patch_getNParams) st"
    using good_scroll [OF inv, of s _ patch_getNParams] n nparams_run [of st] by (cases "patch0 st") auto
  have change: "good (bnd currentpos (\<lambda>p. bnd patch_getNParams (\<lambda>n.
        let i = int ?q + p; v = ?v in
        if i < n \<and> v \<noteq> 0 then
          bnd (patch_getParam (nat i)) (\<lambda>x.
          bnd (patch_setParam (nat i) (ProcessEncoderParameter x v)) (\<lambda>_. ret (lcd_dirty_flag_usr (1 + ?q))))
        else ret 0))) st"
  proof (cases "patch0 st")
    case None
    then show ?thesis using inv by (simp add: good_def bnd_def currentpos_run nparams_run nav_faults_def)
  next
    case (Some v)
    have i: "nat (int ?q + ?p) < length (pv_params v)" if "int ?q + ?p < int (length (pv_params v))"
      using that p by linarith
    have ok: "patch_ok v" using ui_invD2(7) [OF inv Some] .
    show ?thesis using Some inv i ui_inv_updates(9) [OF inv patch_ok_set [OF ok encoder_typed [OF patch_ok_nth [OF ok]]]]
      by (auto simp: good_def currentpos_run nparams_run patch_getParam_def patch_setParam_def
          instance_of_def prog_defs Let_def)
  qed
  show ?thesis unfolding param_list_evt_def Let_def
    using scroll change inv by (simp add: Let_def del: One_nat_def)
qed

lemma good_object_list:
  assumes inv: "ui_inv st" and n: "fst (entry st) = Object_List s"
  shows "good (object_list_evt e) st"
proof -
  have p: "snd (entry st) = 0" using ui_invD(4) [OF inv] n by (cases "entry st") simp
  have "good (scroll_by_4 e (ret patch_getNObjects)) st"
    using good_scroll [OF inv, of s 0] n by (simp add: ret_def patch_getNObjects_def)
  moreover have "good (bnd currentpos (\<lambda>p.
      if int (unat (quadrant e)) - 1 + p < patch_getNObjects then stop Dangling else ret (0 :: u32))) st" if "quadrant e \<noteq> 0"
  proof (rule good_pos [OF inv])
    have "uint (quadrant e) \<noteq> 0" "0 \<le> uint (quadrant e)" using that by (simp_all add: uint_0_iff)
    then have "\<not> uint (quadrant e) < 1" by linarith
    then show "good (if int (unat (quadrant e)) - 1 + snd (entry st) < patch_getNObjects then stop Dangling else ret (0 :: u32)) st"
      using inv p by (simp add: patch_getNObjects_def)
  qed
  ultimately show ?thesis unfolding object_list_evt_def using inv by simp
qed

lemma good_handle_evt:
  assumes "ui_inv st" and "fst (entry st) = n" and "panel_event e" and "\<forall>n \<in> set (dir_names env). printable n"
  shows "good (handle_evt env n e) st"
  using assms good_node_list [OF assms(1)] good_action [OF assms(1)] good_param_list [OF assms(1)]
    good_object_list [OF assms(1)] goodI [OF safe_custom_evt [OF assms(3,4)] assms(1)]
  by (cases n) auto

lemma safe_nav_Back: "safe_ui nav_Back"
  unfolding nav_Back_def by (intro keep safe_ui_upd) (auto intro: shorter_inv)

lemma safe_go_home: "safe_ui ui_go_home"
  unfolding ui_go_home_def by (intro keep safe_ui_upd) (auto intro: shorter_inv dest: ui_invD(2))

lemma safe_process:
  assumes "panel_event e" and "\<forall>n \<in> set (dir_names env). printable n"
  shows "safe_ui (processUIEvent env e)"
proof -
  let ?rest = "\<lambda>r. bnd (if r \<noteq> 0 then chEvtSignal r else ret ()) (\<lambda>_.
     if button e = btn_X \<and> quadrant e = quadrant_main \<and> evalue e \<noteq> 0 then bnd nav_Back chEvtSignal else ret ())"
  have rest: "safe_ui (?rest r)" for r by (auto intro!: keep safe_nav_Back)
  have "good (processUIEvent env e) st" if inv: "ui_inv st" for st
  proof -
    have "good (bnd (handle_evt env (fst (entry st)) e) ?rest) st"
      by (rule good_bnd, rule good_handle_evt [OF inv refl assms], rule goodI [OF rest])
    then show ?thesis
      by (cases "entry st") (simp add: good_def processUIEvent_def bnd_Inr [of top, OF top_run [OF inv]])
  qed
  then show ?thesis by (auto simp: runs_def good_def)
qed

section \<open>Polling\<close>

lemma getEvent_panel:
  assumes "queue_inv q" and "panel_event (btn_event q)" and "getEvent q = (e, q')"
  shows "panel_event e \<and> queue_inv q' \<and> panel_event (btn_event q')"
proof -
  obtain a b c d where "enc_event q = [a, b, c, d]" "\<not> accumulates (btn_event q)"
    "button a = btn_encoder" "button b = btn_encoder" "button c = btn_encoder" "button d = btn_encoder"
    "quadrant a = 1" "quadrant b = 2" "quadrant c = 3" "quadrant d = 4"
    using queue_inv_cases [OF assms(1)] by blast
  then show ?thesis using assms(2,3) take_step [OF assms(1) _ assms(3), of 1]
    by (auto simp: getEvent_def Let_def panel_event_def no_event_def split: if_splits)
qed

lemma safe_poll:
  assumes "\<forall>n \<in> set (dir_names env). printable n"
  shows "safe_ui (poll_loop env k)"
proof (induction k)
  case 0
  show ?case by (simp add: runs_ret)
next
  case (Suc k)
  have "good (poll_loop env (Suc k)) st" if inv: "ui_inv st" for st
  proof -
    obtain e q where g: "getEvent (evts st) = (e, q)" by (cases "getEvent (evts st)")
    have ev: "panel_event e" "ui_inv (st\<lparr>evts := q\<rparr>)"
      using getEvent_panel [OF ui_invD2(4,5) [OF inv] g] ui_inv_updates(5) [OF inv] by simp_all
    have "good (if evt_word e = 0 then ret True else bnd (processUIEvent env e) (\<lambda>_. poll_loop env k)) (st\<lparr>evts := q\<rparr>)"
      using ev Suc by (auto intro!: goodI keeps_bnd safe_process [OF _ assms])
    then show ?thesis using g by (simp add: good_def bnd_def takeEvent_def)
  qed
  then show ?case by (auto simp: runs_def good_def)
qed

end
