(* ===== verification/Ui_Paint.thy ===== *)
theory Ui_Paint
  imports Ui_Menu
begin

text \<open>
  The painting thread of the user interface (ThreadUI2 of firmware/ui.c) and the painting functions
  of the pages (ui\_nodes, menu\_content). The thread takes one event at a time and paints the part of
  the open page that belongs to it.
\<close>

abbreviation (input) STATUSROW :: int where "STATUSROW \<equiv> 7"
abbreviation (input) LCD_COL_EQ :: int where "LCD_COL_EQ \<equiv> 45"
abbreviation (input) LCD_COL_VAL :: int where "LCD_COL_VAL \<equiv> 45"
abbreviation (input) LCD_COL_INDENT :: int where "LCD_COL_INDENT \<equiv> 3"
abbreviation (input) CHAR_ARROW_UP :: u8 where "CHAR_ARROW_UP \<equiv> 24"
abbreviation (input) CHAR_ARROW_DOWN :: u8 where "CHAR_ARROW_DOWN \<equiv> 25"
abbreviation (input) CHAR_SPACE :: u8 where "CHAR_SPACE \<equiv> 32"
abbreviation (input) CHAR_STAR :: u8 where "CHAR_STAR \<equiv> 42"

text \<open>Text constants and blanks at a position, and a text drawn normal or inverted.\<close>

definition put_text :: "bool \<Rightarrow> int \<Rightarrow> int \<Rightarrow> u8 list \<Rightarrow> nat \<Rightarrow> unit up" where
  "put_text iv x line s n = draw ((if iv then LCD_drawStringInvN else LCD_drawStringN) x line s n)"

fun each :: "('a \<Rightarrow> unit up) \<Rightarrow> 'a list \<Rightarrow> unit up" where
  "each f [] = ret ()"
| "each f (x # xs) = bnd (f x) (\<lambda>_. each f xs)"

definition show_ring :: "nat \<Rightarrow> int option \<Rightarrow> unit up" where
  "show_ring q i = (case i of None \<Rightarrow> led q LED_clear | Some i \<Rightarrow> gfx_setEncoderOne q i)"

section \<open>Headings and lists\<close>

text \<open>DisplayHeading: the names of the open pages from the innermost out, from the right edge.\<close>

fun heading_loop :: "nat \<Rightarrow> int \<Rightarrow> unit up" where
  "heading_loop 0 h = ret ()"
| "heading_loop (Suc i) h =
     bnd (get_st (\<lambda>st. nth_e (menu_stack st) (Suc i))) (\<lambda>r. bnd (lift r) (\<lambda>(n, _).
     let name = chars (node_name n); l = int (length name) in
     if l > h then put_text True 0 0 (chars ''......................'') (nat h)
     else
       let h = h - l in
       bnd (put_text True (h * 3) 0 name (nat l)) (\<lambda>_.
       let h = h - 1 in
       if h \<ge> 0 then bnd (draw (LCD_drawCharInv (h * 3) 0 62)) (\<lambda>_. heading_loop i h) else ret ())))"

definition DisplayHeading :: "unit up" where
  "DisplayHeading = bnd (get_st menu_stack_position) (\<lambda>p. heading_loop (nat p) 21)"

definition list_offset :: "int \<Rightarrow> int \<Rightarrow> int" where
  "list_offset pos l =
     (let offset = (if pos > 3 then pos - 3 else 0);
          offset = (if l - pos < 3 then l - 6 else offset)
      in if l < STATUSROW then 0 else offset)"

definition update_list_nav :: "int \<Rightarrow> unit up" where
  "update_list_nav l = bnd currentpos (\<lambda>pos.
     bnd (show_ring LED_RING_TOPLEFT (ShowListPositionOnEncoderLEDRing pos l)) (\<lambda>_.
     bnd (draw (LCD_drawChar 0 STATUSROW (if pos > 0 then CHAR_ARROW_UP else 0))) (\<lambda>_.
     bnd (draw (LCD_drawChar 12 STATUSROW (if pos < l - 1 then CHAR_ARROW_DOWN else 0))) (\<lambda>_.
     led LED_STEPS LED_clear))))"

text \<open>
  The line of a page in the list of its parent. Some tables have no function for it (None); the
  list then draws blanks.
\<close>

definition number5 :: "bool \<Rightarrow> int \<Rightarrow> int \<Rightarrow> unit up" where
  "number5 iv y v = draw ((if iv then LCD_drawNumber5DInv else LCD_drawNumber5D) LCD_COL_VAL y v)"

fun paint_line :: "ui_env \<Rightarrow> bool \<Rightarrow> ui_node \<Rightarrow> int \<Rightarrow> unit up option" where
  "paint_line env iv (Node_List _ _) y = Some (put_text iv LCD_COL_EQ y (chars ''     *'') 6)"
| "paint_line env iv (Integer_Value _ Dsp_Load_Pct) y = Some (number5 iv y (dsp_load env))"
| "paint_line env iv (Integer_Value _ Load_Patch_Index) y = Some (bnd (get_st load_patch_index) (number5 iv y))"
| "paint_line env iv (Short_Value _ i _ _) y = Some (number5 iv y (adc env i))"
| "paint_line env iv (Action_Function _ _) y = Some (ret ())"
| "paint_line env iv _ y = None"

definition list_line :: "ui_env \<Rightarrow> ui_node list \<Rightarrow> bool \<Rightarrow> int \<Rightarrow> int \<Rightarrow> nat \<Rightarrow> unit up" where
  "list_line env nodes full pos offset line =
     (let i = offset + int line; y = int line + 1; iv = (i = pos) in
      if i < int (length nodes) then
        bnd (lift (if i < 0 then Inl OutOfBounds else nth_e nodes (nat i))) (\<lambda>n.
        if full then
          bnd (put_text iv LCD_COL_INDENT y (chars (node_name n)) 14) (\<lambda>_.
          case paint_line env iv n y of Some p \<Rightarrow> p | None \<Rightarrow> put_text iv LCD_COL_EQ y (chars '''') 6)
        else case paint_line env iv n y of Some p \<Rightarrow> p | None \<Rightarrow> ret ())
      else if full then put_text False LCD_COL_INDENT y (chars '''') 19
      else ret ())"

definition paint_node_list :: "ui_env \<Rightarrow> ui_node list \<Rightarrow> u32 \<Rightarrow> unit up" where
  "paint_node_list env nodes flags = bnd currentpos (\<lambda>pos.
     let l = int (length nodes); offset = list_offset pos l; full = (flags AND lcd_dirty_flag_listnav \<noteq> 0) in
     bnd (if full then update_list_nav l else ret ()) (\<lambda>_.
     each (list_line env nodes full pos offset) [0..<6]))"

section \<open>The oscilloscope of an analog input (short\_value.c)\<close>

text \<open>The bytes of a column of 6 rows: the dot at row position y, with the zero line y0 on stippled columns.\<close>

fun scope_bytes :: "nat \<Rightarrow> u32 \<Rightarrow> u32 option \<Rightarrow> u8 list" where
  "scope_bytes 0 uy y0 = []"
| "scope_bytes (Suc v) uy y0 =
     ((if uy < 8 then push_bit (unat uy) 1 else 0) OR
      (case y0 of Some z \<Rightarrow> if z < 8 then push_bit (unat z) 1 else 0 | None \<Rightarrow> 0)) #
     scope_bytes v (uy - 8) (map_option (\<lambda>z. z - 8) y0)"

definition scope_column :: "int \<Rightarrow> u8 list \<Rightarrow> lcd \<Rightarrow> fault + lcd" where
  "scope_column x bytes = sfold (\<lambda>(k, c). put_bytes (x + LCDWIDTH * (int k + 1)) [c]) (zip [0..<length bytes] bytes)"

definition paint_short_value :: "ui_env \<Rightarrow> nat \<Rightarrow> int \<Rightarrow> int \<Rightarrow> u32 \<Rightarrow> unit up" where
  "paint_short_value env i minv scale flags =
     (if flags AND lcd_dirty_flag_initial \<noteq> 0 then upd_st (\<lambda>st. st\<lparr>xpos := 0\<rparr>)
      else
        let v = adc env i; ylim = 6 * 8 - 1;
            y = ylim - ((v - minv) * 3 * scale) div 2 ^ 16;
            y0 = ylim - ((0 - minv) * 3 * scale) div 2 ^ 16;
            yc = (let y = (if y < 0 then 0 else y) in if y > ylim then ylim else y) in
        bnd (draw (LCD_drawNumber5D 20 7 v)) (\<lambda>_. bnd (get_st xpos) (\<lambda>x.
        bnd (draw (scope_column x
          (if x mod 2 = 1 then scope_bytes 6 (word_of_int y) None
           else scope_bytes 6 (word_of_int yc) (Some (word_of_int y0))))) (\<lambda>_.
        upd_st (\<lambda>st. st\<lparr>xpos := (x + 1) mod LCDWIDTH\<rparr>)))))"

section \<open>Parameters and objects\<close>

text \<open>drawParamValue1 of ui\_nodes\_common.c; chsnprintf keeps 7 characters.\<close>

definition drawParamValue1 :: "ui_env \<Rightarrow> nat \<Rightarrow> parameter \<Rightarrow> unit up" where
  "drawParamValue1 env q p =
     (case ptype p of
        param_type_bin_1bit_momentary \<Rightarrow> gfx_drawStringN q 3 1 (chars (if pvalue p \<noteq> 0 then ''on'' else ''off'')) 8
      | param_type_bin_1bit_toggle \<Rightarrow> gfx_drawStringN q 3 1 (chars (if pvalue p \<noteq> 0 then ''on'' else ''off'')) 8
      | param_type_bin_16bits \<Rightarrow> ret ()
      | param_type_bin_32bits \<Rightarrow> ret ()
      | param_type_int \<Rightarrow> gfx_drawStringN q 3 1 (take 7 (fmt_d7 env (pvalue p))) 8
      | param_type_frac_sq27 \<Rightarrow> bnd (gfx_drawStringN q 3 1 (take 7 (fmt_q27 env (pvalue p))) 8)
            (\<lambda>_. gfx_drawStringN q 3 2 (take 7 (fmt_hex env (pvalue p))) 8)
      | param_type_frac_uq27 \<Rightarrow> bnd (gfx_drawStringN q 3 1 (take 7 (fmt_q27 env (pvalue p))) 8)
            (\<lambda>_. gfx_drawStringN q 3 2 (take 7 (fmt_hex env (pvalue p))) 8)
      | param_type_undefined \<Rightarrow> gfx_drawStringN q 3 1 (take 7 (fmt_hex env (pvalue p))) 8)"

definition patch_getParamName :: "nat \<Rightarrow> u8 list up" where
  "patch_getParamName i = bnd instance_of (\<lambda>p. lift (nth_e (pv_names p) i))"

definition scroll_arrows :: "int up \<Rightarrow> unit up" where
  "scroll_arrows count = bnd currentpos (\<lambda>p.
     bnd (if p \<ge> 4 then draw (LCD_drawChar 0 7 CHAR_ARROW_UP) else ret ()) (\<lambda>_.
     bnd count (\<lambda>n. if p + 4 < n then draw (LCD_drawChar 10 7 CHAR_ARROW_DOWN) else ret ())))"

text \<open>The idle paint looks for parameters that changed, and signals their quadrants.\<close>

definition poll_param :: "int \<Rightarrow> int \<Rightarrow> nat \<Rightarrow> unit up" where
  "poll_param pos n q =
     (if pos + int q < n then
        bnd (patch_getParam (nat (pos + int q))) (\<lambda>x.
        if signals x AND 4 \<noteq> 0 then
          bnd (patch_setParam (nat (pos + int q)) (x\<lparr>signals := signals x AND NOT 4\<rparr>))
            (\<lambda>_. chEvtSignal (lcd_dirty_flag_usr (1 + q)))
        else ret ())
      else ret ())"

definition param_value :: "ui_env \<Rightarrow> int \<Rightarrow> int \<Rightarrow> nat \<Rightarrow> unit up" where
  "param_value env pos n q =
     (if pos + int q \<ge> n then ret ()
      else bnd (patch_getParam (nat (pos + int q))) (\<lambda>x.
        bnd (drawParamValue1 env q x) (\<lambda>_. show_ring q (ShowParameterOnEncoderLEDRing x))))"

definition paint_param_list :: "ui_env \<Rightarrow> u32 \<Rightarrow> unit up" where
  "paint_param_list env flag = bnd currentpos (\<lambda>pos. bnd patch_getNParams (\<lambda>n.
     if flag = 0 then each (poll_param pos n) [0..<4]
     else if flag = lcd_dirty_flag_initial then
       bnd (each (\<lambda>q. if pos + int q < n then
              bnd (patch_getParamName (nat (pos + int q))) (\<lambda>s. gfx_drawStringInvN q 3 0 s 8) else ret ()) [0..<4])
         (\<lambda>_. scroll_arrows patch_getNParams)
     else if flag = lcd_dirty_flag_usr 1 then param_value env pos n 0
     else if flag = lcd_dirty_flag_usr 2 then param_value env pos n 1
     else if flag = lcd_dirty_flag_usr 3 then param_value env pos n 2
     else if flag = lcd_dirty_flag_usr 4 then param_value env pos n 3
     else ret ()))"

text \<open>There are no objects: an access would go through the null pointer of patch\_getObject.\<close>

definition paint_object_list :: "u32 \<Rightarrow> unit up" where
  "paint_object_list flag = bnd currentpos (\<lambda>pos.
     let quadrant = (\<lambda>i. if pos + i \<ge> patch_getNObjects then ret () else stop Dangling) in
     if flag = 0 then bnd (upd_st (\<lambda>st. st\<lparr>q1 := (q1 st + 1) mod 4\<rparr>)) (\<lambda>_. bnd (get_st q1) quadrant)
     else if flag = lcd_dirty_flag_initial then
       bnd (if pos < patch_getNObjects then stop Dangling else ret ()) (\<lambda>_. scroll_arrows (ret patch_getNObjects))
     else if flag = lcd_dirty_flag_usr 1 then quadrant 0
     else if flag = lcd_dirty_flag_usr 2 then quadrant 1
     else if flag = lcd_dirty_flag_usr 3 then quadrant 2
     else if flag = lcd_dirty_flag_usr 4 then quadrant 3
     else ret ())"

section \<open>The pages with functions of their own (menu\_content)\<close>

definition paint_loadpatch :: "ui_env \<Rightarrow> u32 \<Rightarrow> unit up" where
  "paint_loadpatch env flags =
     (if flags = 0 then ret ()
      else if flags = lcd_dirty_flag_usr 1 then refresh env False
      else if flags = lcd_dirty_flag_initial then loadpatch_init env
      else ret ())"

text \<open>MIDI clock: the functions of the two used quadrants return a text of at most 8 characters and a number.\<close>

definition printBPM :: "ui_env \<Rightarrow> midi_clock \<Rightarrow> u8 list \<times> int" where
  "printBPM env c = (take 8 (fmt_bpm env (period c)), 255 - (period c - 80))"

definition printBPM2 :: "ui_env \<Rightarrow> midi_clock \<Rightarrow> u8 list \<times> int" where
  "printBPM2 env c = (take 8 (fmt_d3 env (period c)), 0)"

definition printDo :: "midi_clock \<Rightarrow> u8 list \<times> int" where
  "printDo c = (chars (if active c then ''Running'' else ''Halted''), - 1)"

definition printStop :: "midi_clock \<Rightarrow> u8 list \<times> int" where
  "printStop c = (chars ''Stop'', - 1)"

definition update_quadrant :: "nat \<Rightarrow> (midi_clock \<Rightarrow> u8 list \<times> int) \<Rightarrow> (midi_clock \<Rightarrow> u8 list \<times> int) \<Rightarrow> unit up" where
  "update_quadrant i printVal printVal2 =
     bnd (get_st (\<lambda>st. printVal (clk st))) (\<lambda>(str, r).
     bnd (gfx_drawStringN i 4 1 str 9) (\<lambda>_.
     bnd (gfx_drawChar i 0 0 (if r = - 1 then CHAR_STAR else if r < 255 then CHAR_ARROW_UP else CHAR_SPACE)) (\<lambda>_.
     bnd (gfx_drawChar i 0 2 (if r = - 1 then CHAR_SPACE else if r > 0 then CHAR_ARROW_DOWN else CHAR_SPACE)) (\<lambda>_.
     bnd (gfx_setEncoderOne i (if r = - 1 then - 1 else r div 2 ^ 4)) (\<lambda>_.
     bnd (get_st (\<lambda>st. printVal2 (clk st))) (\<lambda>(str, r).
     bnd (if r = - 1 then gfx_drawChar i 0 2 CHAR_STAR else ret ()) (\<lambda>_.
     gfx_drawStringN i 4 2 str 9)))))))"

definition paint_midiclock :: "ui_env \<Rightarrow> u32 \<Rightarrow> unit up" where
  "paint_midiclock env flags =
     (if flags = lcd_dirty_flag_initial then
        each (\<lambda>(i, name). gfx_drawStringN i 4 0 (chars name) 9) (zip [0..<4] [''BPM'', ''Start'', '''', ''''])
      else if flags = lcd_dirty_flag_usr 0 then update_quadrant 0 (printBPM env) (printBPM2 env)
      else if flags = lcd_dirty_flag_usr 1 then update_quadrant 1 printDo printStop
      else ret ())"

text \<open>MIDI controller: the first painting of a quadrant, and the painting of its value.\<close>

definition cc_title :: "int \<Rightarrow> u8 list" where
  "cc_title i =
     (let j0 = i sdiv 100; i1 = i - j0; j1 = i1 sdiv 10; i2 = i1 - j1 in
      chars ''CC'' @ map (\<lambda>j. word_of_int (48 + j)) [j0, j1, i2])"

definition paint_title :: "u8 list \<times> nat \<Rightarrow> nat \<Rightarrow> unit up" where
  "paint_title = (\<lambda>(s, n) q.
     bnd (gfx_drawStringN q 3 0 s n) (\<lambda>_.
     bnd (gfx_drawChar q 0 0 CHAR_ARROW_UP) (\<lambda>_. gfx_drawChar q 0 2 CHAR_ARROW_DOWN)))"

definition draw_inits :: "(u8 list \<times> nat) list" where
  "draw_inits = [(chars ''Bend'', 7), (chars ''Channel'', 7), (chars ''Oct'', 7), (chars ''Velocity'', 8), (chars ''RelVelo'', 8)]
     @ map (\<lambda>i. (cc_title i, 6)) [0..6]"

definition paint_number :: "nat \<Rightarrow> int \<Rightarrow> unit up" where
  "paint_number q v = gfx_drawNumber3D q 4 1 v"

definition ring_8 :: "nat \<Rightarrow> int \<Rightarrow> unit up" where
  "ring_8 q v = gfx_setEncoderOne q (v div 2 ^ 3 mod 16)"

definition draw_updates :: "(nat \<Rightarrow> midiccdata \<Rightarrow> unit up) list" where
  "draw_updates =
     [\<lambda>q d. bnd (gfx_setEncoderOne q ((8 + bend d div 2 ^ 3) mod 16)) (\<lambda>_. paint_number q (bend d)),
      \<lambda>q d. paint_number q (channel d + 1),
      \<lambda>q d. paint_number q (shift d),
      \<lambda>q d. bnd (paint_number q (velo d)) (\<lambda>_. ring_8 q (velo d)),
      \<lambda>q d. bnd (paint_number q (rvelo d)) (\<lambda>_. ring_8 q (rvelo d))]
     @ map (\<lambda>i q d. bnd (paint_number q (cc d ! i)) (\<lambda>_. ring_8 q (cc d ! i))) [0..<7]"

fun note_leds :: "int list \<Rightarrow> u32" where
  "note_leds [] = 0"
| "note_leds (n # ns) = (if n = - 1 then 0 else 1) OR push_bit 1 (note_leds ns)"

definition paint_quadrant :: "nat \<Rightarrow> unit up" where
  "paint_quadrant k = bnd (get_cc (\<lambda>d. nth_e draw_updates (nat (page d) + k))) (\<lambda>f. bnd (lift f) (\<lambda>f.
     bnd (get_cc id) (f k)))"

definition paint_midicc :: "u32 \<Rightarrow> unit up" where
  "paint_midicc flag =
     (if flag = lcd_dirty_flag_initial then
        bnd (each (\<lambda>k. bnd (get_cc (\<lambda>d. nth_e draw_inits (nat (page d) + k))) (\<lambda>t. bnd (lift t) (\<lambda>t. paint_title t k))) [0..<4])
          (\<lambda>_. draw (LCD_drawStringN 20 7 (chars ''...KEYS...'') 10))
      else if flag = lcd_dirty_flag_usr 0 then
        bnd (draw (LCD_drawStringN 20 7 (chars ''...KEYS...'') 10)) (\<lambda>_. bnd (get_cc page) (\<lambda>p.
        bnd (draw (LCD_drawChar 0 7 (if p > 0 then CHAR_ARROW_UP else CHAR_SPACE))) (\<lambda>_.
        if p < NQUADS - 4 then draw (LCD_drawChar 10 7 CHAR_ARROW_DOWN) else draw (LCD_drawChar 12 7 CHAR_SPACE))))
      else if flag = lcd_dirty_flag_usr 1 then paint_quadrant 0
      else if flag = lcd_dirty_flag_usr 2 then paint_quadrant 1
      else if flag = lcd_dirty_flag_usr 3 then paint_quadrant 2
      else if flag = lcd_dirty_flag_usr 4 then paint_quadrant 3
      else if flag = lcd_dirty_flag_usr 5 then bnd (get_cc (\<lambda>d. note_leds (knote d))) (\<lambda>w. led LED_STEPS (LED_set w))
      else ret ())"

text \<open>MIDI monitor: the names of the messages; the names without end are read up to 4 characters.\<close>

definition midiStatusNames :: "string list" where
  "midiStatusNames = [''NOff'', ''NOn'', ''KPrs'', ''CC'', ''Pgm'', ''CPrs'', ''Bend'']"

definition midiRTNames :: "string list" where
  "midiRTNames = [''SEx['', ''MTC'', ''SPP'', ''SSel'', ''?F4?'', ''?F5?'', ''Tune'', ''SEX]'', ''Clk'', ''Meas'', ''Strt'',
     ''Cont'', ''Stop'', ''?FD?'', ''Sens'', ''Rst'']"

definition message_name :: "u8 \<Rightarrow> fault + string" where
  "message_name b =
     (if b AND 0xF0 < 0xF0 then
        let i = int (unat (drop_bit 4 b)) - 8 in if i < 0 then Inl OutOfBounds else nth_e midiStatusNames (nat i)
      else nth_e midiRTNames (unat (b - 0xF0)))"

definition paint_message :: "int \<Rightarrow> unit up" where
  "paint_message j = bnd (get_st (\<lambda>st. nth_e (buf (midi_input st)) (nat ((read_index (midi_input st) - (j - 2)) mod 32)))) (\<lambda>r.
     bnd (lift r) (\<lambda>m.
     bnd (draw (LCD_drawChar 3 j (port m + 49))) (\<lambda>_.
     if b0 m = 0 then draw (LCD_drawStringN 0 j (chars '''') 21)
     else
       bnd (lift (message_name (b0 m))) (\<lambda>s.
       bnd (draw (LCD_drawStringN 8 j (chars s) 4)) (\<lambda>_.
       bnd (draw (LCD_drawNumber3D 21 j (int (unat (b0 m AND 0xF)) + 1))) (\<lambda>_.
       bnd (draw (LCD_drawNumber3D 35 j (int (unat (b1 m))))) (\<lambda>_.
       draw (LCD_drawNumber3D 49 j (int (unat (b2 m)))))))))))"

definition paint_midimon :: "u32 \<Rightarrow> unit up" where
  "paint_midimon flags =
     (if flags = lcd_dirty_flag_initial then
        each (\<lambda>(x, s, n). draw (LCD_drawStringInvN x 1 (chars s) n))
          [(2, ''P'', 1), (8, ''Type'', 4), (24, ''Ch'', 3), (35, ''B1'', 4), (49, ''B2'', 4)]
      else each paint_message [2..7])"

text \<open>
  Processes: the threads from the chosen one on. The loop that draws them ends with the number of
  the line it has drawn last when there is no further thread, and with 7 after five lines.
\<close>

fun thread_lines :: "(u8 list option \<times> int) list \<Rightarrow> int \<Rightarrow> int up" where
  "thread_lines ts j =
     (if j \<ge> 7 then ret j
      else case ts of [] \<Rightarrow> stop NullCall
      | (name, free) # ts \<Rightarrow>
          bnd (draw (LCD_drawStringN 2 j (case name of None \<Rightarrow> chars ''????'' | Some s \<Rightarrow> s) 14)) (\<lambda>_.
          bnd (draw (LCD_drawNumber5D 44 j free)) (\<lambda>_.
          if ts = [] then ret j else thread_lines ts (j + 1))))"

declare thread_lines.simps [simp del]

definition paint_processes :: "ui_env \<Rightarrow> u32 \<Rightarrow> unit up" where
  "paint_processes env flags =
     (if flags = lcd_dirty_flag_initial then
        bnd (draw (LCD_drawStringInvN 2 1 (chars ''Name'') 14)) (\<lambda>_.
        bnd (draw (LCD_drawStringInvN 46 1 (chars ''Free '') 5)) (\<lambda>_.
        bnd (draw (LCD_drawChar 0 7 CHAR_ARROW_UP)) (\<lambda>_. draw (LCD_drawChar 10 7 CHAR_ARROW_DOWN))))
      else bnd (get_st proc_offset) (\<lambda>n.
        if int (length (threads env)) \<le> n then draw (LCD_drawStringN 2 2 (chars ''<END>'') 20)
        else bnd (thread_lines (drop (nat n) (threads env)) 2) (\<lambda>j.
          each (\<lambda>j. draw (LCD_drawStringN 2 j (chars '''') 20)) [j..6])))"

definition button_names :: "string list" where
  "button_names = [''up'', ''down'', ''enc'', ''F'', ''S'', ''X'', ''E'', ''1'', ''2'', ''3'', ''4'', ''5'', ''6'', ''7'', ''8'',
     ''9'', ''10'', ''11'', ''12'', ''13'', ''14'', ''15'', ''16'']"

definition evt_btn_to_string :: "u8 \<Rightarrow> string" where
  "evt_btn_to_string b = (if 1 \<le> unat b \<and> unat b \<le> 23 then button_names ! (unat b - 1) else ''???'')"

definition paint_encoder :: "nat \<Rightarrow> int \<Rightarrow> int \<Rightarrow> int \<Rightarrow> unit up" where
  "paint_encoder k x1 x2 line = bnd (get_st (\<lambda>st. nth_e (vals st) k)) (\<lambda>r. bnd (lift r) (\<lambda>v.
     bnd (gfx_setEncoderOne k (int (unat v) mod 16)) (\<lambda>_.
     bnd (draw (LCD_drawNumber3D x1 line (int (unat v)))) (\<lambda>_.
     draw (LCD_drawChar x2 (line + 1) v)))))"

definition paint_test :: "u32 \<Rightarrow> unit up" where
  "paint_test flags =
     (if flags = lcd_dirty_flag_initial then draw (LCD_drawStringN 4 6 (chars ''last evt:'') 10)
      else if flags = lcd_dirty_flag_usr 0 then paint_encoder 0 10 10 2
      else if flags = lcd_dirty_flag_usr 1 then paint_encoder 1 44 40 2
      else if flags = lcd_dirty_flag_usr 2 then paint_encoder 2 10 10 4
      else if flags = lcd_dirty_flag_usr 3 then paint_encoder 3 44 40 4
      else if flags = lcd_dirty_flag_usr 4 then
        bnd (get_st last_evt) (\<lambda>e.
        bnd (draw (LCD_drawStringN 32 6 (chars (evt_btn_to_string (button e))) 5)) (\<lambda>_.
        bnd (draw (LCD_drawNumber3D 0 7 (int (unat (quadrant e))))) (\<lambda>_.
        bnd (draw (LCD_drawNumber3D 14 7 (sint (evalue e)))) (\<lambda>_.
        draw (LCD_drawNumber3D 28 7 (int (unat (modifiers e))))))))
      else ret ())"

section \<open>The painting thread\<close>

fun paint_screen_update :: "ui_env \<Rightarrow> ui_node \<Rightarrow> u32 \<Rightarrow> unit up" where
  "paint_screen_update env (Node_List _ nodes) flags = paint_node_list env nodes flags"
| "paint_screen_update env (Integer_Value _ _) flags = ret ()"
| "paint_screen_update env (Short_Value _ i minv scale) flags = paint_short_value env i minv scale flags"
| "paint_screen_update env (Action_Function _ _) flags = ret ()"
| "paint_screen_update env (Object_List _) flags = paint_object_list flags"
| "paint_screen_update env (Param_List _) flags = paint_param_list env flags"
| "paint_screen_update env (Custom_Page _ Page_loadpatch) flags = paint_loadpatch env flags"
| "paint_screen_update env (Custom_Page _ Page_midiclock) flags = paint_midiclock env flags"
| "paint_screen_update env (Custom_Page _ Page_midicc) flags = paint_midicc flags"
| "paint_screen_update env (Custom_Page _ Page_midimon) flags = paint_midimon flags"
| "paint_screen_update env (Custom_Page _ Page_processes) flags = paint_processes env flags"
| "paint_screen_update env (Custom_Page _ Page_test) flags = paint_test flags"

text \<open>chEvtWaitOneTimeout takes the pending event with the lowest number, 0 when the time is up.\<close>

definition chEvtWaitOne :: "u32 up" where
  "chEvtWaitOne = bnd (get_st dirty) (\<lambda>d. let e = d AND (- d) in
     bnd (upd_st (\<lambda>st. st\<lparr>dirty := d AND NOT e\<rparr>)) (\<lambda>_. ret e))"

definition ThreadUI2 :: "ui_env \<Rightarrow> unit up" where
  "ThreadUI2 env = bnd chEvtWaitOne (\<lambda>evt. bnd top (\<lambda>(n, _).
     if evt = lcd_dirty_flag_clearscreen then
       bnd (draw LCD_clear) (\<lambda>_.
       each (\<lambda>i. led i LED_clear)
         [LED_RING_TOPLEFT, LED_RING_TOPRIGHT, LED_RING_BOTTOMLEFT, LED_RING_BOTTOMRIGHT, LED_STEPS, LED_LVL])
     else if evt = lcd_dirty_flag_header then DisplayHeading
     else paint_screen_update env n evt))"

end
