(* ===== verification/Ui_Paint_Safe.thy ===== *)
theory Ui_Paint_Safe
  imports Ui_Handlers Ui_Paint
begin

text \<open>
  The painting functions keep the invariant of the user interface and stay inside the frame buffer,
  the font and the arrays of the pages, except on the pages of the MIDI clock, the MIDI monitor and
  the test, and for a pitch bend of the smallest integer.
\<close>

section \<open>Operations that only paint\<close>

text \<open>What an operation that only paints leaves alone.\<close>

definition rest :: "ui \<Rightarrow> ui" where
  "rest st = st\<lparr>lcd_buffer := [], leds := [], dirty := 0\<rparr>"

abbreviation paints :: "fault set \<Rightarrow> ui \<Rightarrow> 'a up \<Rightarrow> bool" where
  "paints N r \<equiv> keeps N (\<lambda>st. ui_inv st \<and> rest st = r)"

named_theorems paint \<open>operations that only paint\<close>

lemmas [paint] = runs_ret keeps_bnd keeps_if keeps_let keeps_prod keeps_option

lemma rest_simps [simp]:
  "rest (st\<lparr>lcd_buffer := b\<rparr>) = rest st" "rest (st\<lparr>leds := l\<rparr>) = rest st" "rest (st\<lparr>dirty := d\<rparr>) = rest st"
  by (simp_all add: rest_def)

lemma rest_keeps:
  "menu_stack (rest st) = menu_stack st" "menu_stack_position (rest st) = menu_stack_position st"
  "midicc (rest st) = midicc st" "patch0 (rest st) = patch0 st" "clk (rest st) = clk st"
  "midi_input (rest st) = midi_input st" "vals (rest st) = vals st" "last_evt (rest st) = last_evt st"
  "xpos (rest st) = xpos st" "load_patch_index (rest st) = load_patch_index st"
  "proc_offset (rest st) = proc_offset st" "q1 (rest st) = q1 st"
  unfolding rest_def by simp_all

lemma rest_sel:
  assumes "rest st = r"
  shows "menu_stack st = menu_stack r" "menu_stack_position st = menu_stack_position r" "midicc st = midicc r"
    "patch0 st = patch0 r" "clk st = clk r" "midi_input st = midi_input r" "vals st = vals r" "last_evt st = last_evt r"
    "xpos st = xpos r" "load_patch_index st = load_patch_index r" "proc_offset st = proc_offset r" "q1 st = q1 r"
    "entry st = entry r" "depth st = depth r"
  unfolding assms [symmetric] entry_def depth_def rest_keeps by (rule refl)+

lemma runs_weaken: "runs N P f Q \<Longrightarrow> M \<subseteq> N \<Longrightarrow> runs M P f Q"
  by (fastforce simp: runs_def split: sum.splits)

lemma good_paints: "paints nav_faults (rest st) f \<Longrightarrow> ui_inv st \<Longrightarrow> good f st"
  by (drule runsD [of _ _ _ _ st]) (auto simp: good_def)

lemma paint_draw:
  assumes "lcd_ok f"
  shows "paints N r (draw f)"
  unfolding runs_def
proof (intro allI impI)
  fix st
  assume st: "ui_inv st \<and> rest st = r"
  obtain b where "f (lcd_buffer st) = Inr b" "length b = 1024"
    using lcd_okD [OF assms ui_invD(6)] st by blast
  then show "case draw f st of Inl e \<Rightarrow> e \<notin> N | Inr (x, s) \<Rightarrow> ui_inv s \<and> rest s = r"
    using ui_inv_updates(1) [of st b] st by (simp add: draw_def prog_defs)
qed

text \<open>A drawing function that may stop, but keeps the length of the buffer when it returns.\<close>

lemma paint_draw_length:
  assumes "\<And>b b'. f b = Inr b' \<Longrightarrow> length b' = length b"
  shows "paints {} r (draw f)"
  using assms ui_inv_updates(1) ui_invD(6)
  by (auto simp: runs_def draw_def prog_defs split: sum.splits)

lemma paint_led [paint]: "i < 6 \<Longrightarrow> paints N r (led i f)"
  unfolding runs_def
proof (intro allI impI)
  fix st
  assume i: "i < 6" and st: "ui_inv st \<and> rest st = r"
  have "ui_inv (st\<lparr>leds := (leds st)[i := f (leds st ! i)]\<rparr>)" using st by (intro ui_inv_updates) (simp_all add: ui_invD2)
  moreover have "led i f st = Inr ((), st\<lparr>leds := (leds st)[i := f (leds st ! i)]\<rparr>)"
    using i st by (simp add: led_def prog_defs ui_invD2)
  ultimately show "case led i f st of Inl e \<Rightarrow> e \<notin> N | Inr (x, s) \<Rightarrow> ui_inv s \<and> rest s = r"
    using st by simp
qed

lemma paint_signal [paint]: "paints N r (chEvtSignal f)"
  unfolding chEvtSignal_def by (rule runs_upd) simp

lemma paint_get:
  assumes "\<And>st. ui_inv st \<Longrightarrow> rest st = r \<Longrightarrow> paints N r (k (g st))"
  shows "paints N r (bnd (get_st g) k)"
  using assms unfolding runs_def by (auto simp: bnd_def get_st_def)

lemma paint_lift: "x = Inr y \<Longrightarrow> paints N r (k y) \<Longrightarrow> paints N r (bnd (lift x) k)"
  by (simp add: bnd_def lift_def)

lemma paint_pos:
  assumes "paints N r (k (snd (entry r)))"
  shows "paints N r (bnd currentpos k)"
  unfolding runs_def
proof (intro allI impI)
  fix st
  assume st: "ui_inv st \<and> rest st = r"
  have "entry st = entry r" using rest_sel(13) st by blast
  then have "bnd currentpos k st = k (snd (entry r)) st"
    using currentpos_run st by (simp add: bnd_def)
  then show "case bnd currentpos k st of Inl e \<Rightarrow> e \<notin> N | Inr (x, s) \<Rightarrow> ui_inv s \<and> rest s = r"
    using assms st unfolding runs_def by simp
qed

lemma paint_each [paint]: "(\<And>x. x \<in> set xs \<Longrightarrow> paints N r (f x)) \<Longrightarrow> paints N r (each f xs)"
  by (induction xs) (auto intro!: paint)

lemma paint_ring:
  assumes "q < 6" and "0 \<le> x" and "x < 32"
  shows "paints N r (gfx_setEncoderOne q x)"
  using assms by (auto simp: gfx_setEncoderOne_def intro!: paint)

lemma paint_show_ring:
  assumes "q < 6" and "case i of None \<Rightarrow> True | Some x \<Rightarrow> 0 \<le> x \<and> x < 16"
  shows "paints N r (show_ring q i)"
  using assms by (cases i) (auto simp: show_ring_def intro!: paint paint_ring)

section \<open>Texts on the screen\<close>

lemma paint_text [paint]:
  assumes "printable s" and "line * 128 + x * 2 + 2 + 6 * int n \<le> 1024"
  shows "paints N r (put_text iv x line s n)" "paints N r (draw (LCD_drawStringN x line s n))"
    "paints N r (draw (LCD_drawStringInvN x line s n))"
  using assms by (auto simp: put_text_def intro!: paint_draw text_ok)

lemma paint_char [paint]:
  "c \<noteq> 255 \<Longrightarrow> line \<noteq> 7 \<or> x \<le> 61 \<Longrightarrow> paints N r (draw (LCD_drawChar x line c))"
  "c \<noteq> 255 \<Longrightarrow> line \<noteq> 7 \<or> x \<le> 61 \<Longrightarrow> paints N r (draw (LCD_drawCharInv x line c))"
  by (auto intro!: paint_draw char_ok)

definition small :: "int \<Rightarrow> bool" where
  "small v \<longleftrightarrow> int32 v \<and> v \<noteq> - (2 ^ 31)"

lemma smallI: "- 65536 \<le> v \<Longrightarrow> v \<le> 65536 \<Longrightarrow> small v"
  by (simp add: small_def int32_def)

lemma paint_number_5 [paint]:
  assumes "small v" and "0 \<le> line" and "0 \<le> x" and "line * 128 + x * 2 + 38 \<le> 1024"
  shows "paints N r (draw (LCD_drawNumber5D x line v))" "paints N r (draw (LCD_drawNumber5DInv x line v))"
  using assms by (auto simp: small_def intro!: paint_draw number_ok)

lemma paint_number_3 [paint]:
  assumes "small v" and "0 \<le> line" and "0 \<le> x" and "line * 128 + x * 2 + 26 \<le> 1024"
  shows "paints N r (draw (LCD_drawNumber3D x line v))"
  using assms by (auto simp: small_def intro!: paint_draw number_ok)

text \<open>The four quadrants: on the right half the column is mirrored.\<close>

lemma paint_gfx_text [paint]:
  assumes "printable s" and "q < 4" and "0 \<le> x" and "x \<le> 4" and "n \<le> 9" and "0 \<le> line" and "line \<le> 2"
  shows "paints N r (gfx_drawStringN q x line s n)" "paints N r (gfx_drawStringInvN q x line s n)"
  using assms by (auto simp: gfx_drawStringN_def gfx_drawStringInvN_def gfx_line_def intro!: paint)

lemma paint_gfx_char [paint]:
  assumes "c \<noteq> 255" and "q < 4" and "line \<le> 2"
  shows "paints N r (gfx_drawChar q x line c)"
  using assms by (auto simp: gfx_drawChar_def gfx_line_def intro!: paint)

lemma paint_gfx_number [paint]:
  assumes "small v" and "q < 4" and "0 \<le> x" and "x \<le> 4" and "0 \<le> line" and "line \<le> 2"
  shows "paints N r (gfx_drawNumber3D q x line v)"
  using assms by (auto simp: gfx_drawNumber3D_def gfx_line_def intro!: paint)

section \<open>What the interface reads of the rest of the system\<close>

text \<open>Names and formatted numbers are printable, and the values shown as numbers are not the smallest integer.\<close>

definition env_ok :: "ui_env \<Rightarrow> bool" where
  "env_ok env \<longleftrightarrow> (\<forall>n \<in> set (dir_names env). printable n) \<and> small (dsp_load env) \<and>
     (\<forall>i. adc env i \<in> {- (2 ^ 15)..< 2 ^ 15}) \<and>
     (\<forall>(n, k) \<in> set (threads env). small k \<and> (case n of None \<Rightarrow> True | Some s \<Rightarrow> printable s)) \<and>
     threads env \<noteq> [] \<and>
     (\<forall>v. printable (fmt_d7 env v) \<and> printable (fmt_q27 env v) \<and> printable (fmt_hex env v) \<and>
          printable (fmt_d3 env v) \<and> printable (fmt_bpm env v))"

lemma env_okD:
  assumes "env_ok env"
  shows "\<forall>n \<in> set (dir_names env). printable n" "small (dsp_load env)" "small (adc env i)"
    "printable (fmt_d7 env v)" "printable (fmt_q27 env v)" "printable (fmt_hex env v)"
    "printable (fmt_d3 env v)" "printable (fmt_bpm env v)"
proof -
  have "adc env i \<in> {- (2 ^ 15)..< 2 ^ 15}" using assms unfolding env_ok_def by blast
  then show "small (adc env i)" by (intro smallI) simp_all
qed (use assms in \<open>auto simp: env_ok_def\<close>)

lemma printable_take: "printable s \<Longrightarrow> printable (take n s)"
  by (auto simp: printable_def dest: in_set_takeD)

section \<open>Headings and lists\<close>

fun named :: "ui_node \<Rightarrow> bool" where
  "named (Node_List s nodes) \<longleftrightarrow> printable (chars s) \<and> (\<forall>n \<in> set nodes. named n)"
| "named n \<longleftrightarrow> printable (chars (node_name n))"

lemma named_name: "named n \<Longrightarrow> printable (chars (node_name n))"
  by (cases n) simp_all

lemma named_RootMenu: "named RootMenu"
  by (simp add: RootMenu_def MainMenu_def SdcMenu_def PatchLoadMenu_def ADCMenu_def FoodMenu_def food_def
      upt_rec numeral_eq_Suc) (simp add: printable_def chars_def)

lemma opens_named: "opens (n, p) m \<Longrightarrow> named n \<Longrightarrow> named m"
proof (cases n)
  case (Action_Function s f)
  moreover assume "opens (n, p) m"
  ultimately show ?thesis
    by (cases f; cases "the f") (auto simp: SdcFormatOK_def SdcFormatFailed_def printable_def chars_def)
qed auto

lemma stack_named:
  assumes "ui_inv st" and "i \<le> depth st"
  shows "named (fst (menu_stack st ! i))"
  using assms(2)
proof (induction i)
  case 0
  then show ?case using assms(1) named_RootMenu by (simp add: ui_inv_def nav_inv_def)
next
  case (Suc i)
  have "opens (menu_stack st ! i) (fst (menu_stack st ! Suc i))"
    using assms(1) Suc.prems by (simp add: ui_inv_def nav_inv_def)
  then show ?case using Suc opens_named [of "fst (menu_stack st ! i)" "snd (menu_stack st ! i)"] by simp
qed

lemma printable_constants [simp]:
  "printable (chars '''')" "printable (chars ''     *'')" "printable (chars ''......................'')"
  "printable (chars ''on'')" "printable (chars ''off'')" "printable (chars ''No patches...'')" "printable (chars ''////'')"
  "printable (chars ''BPM'')" "printable (chars ''Start'')" "printable (chars ''Running'')" "printable (chars ''Halted'')"
  "printable (chars ''Stop'')" "printable (chars ''...KEYS...'')" "printable (chars ''????'')" "printable (chars ''Name'')"
  "printable (chars ''Free '')" "printable (chars ''<END>'')" "printable (chars ''last evt:'')"
  by (simp_all add: printable_def chars_def)

lemma paint_heading_loop:
  assumes "ui_inv r0" and "rest r0 = r" and "i \<le> depth r" and "h \<le> 21"
  shows "paints N r (heading_loop i h)"
  using assms(3,4)
proof (induction i arbitrary: h)
  case 0
  show ?case by (simp add: paint)
next
  case (Suc i)
  let ?n = "fst (menu_stack r ! Suc i)"
  have r: "menu_stack r0 = menu_stack r" "depth r0 = depth r" using rest_sel [OF assms(2)] by simp_all
  have ok: "printable (chars (node_name ?n))"
    using stack_named [OF assms(1), of "Suc i"] Suc.prems r named_name by simp
  have len: "Suc i < length (menu_stack r)" using ui_invD(1) [OF assms(1)] Suc.prems r by simp
  have nth: "nth_e (menu_stack st) (Suc i) = Inr (menu_stack r ! Suc i)" if "rest st = r" for st
    using len rest_sel(1) [OF that] by simp
  show ?case
    unfolding heading_loop.simps
    by (rule paint_get, simp only: nth, rule paint_lift, rule refl, rule keeps_prod)
      (use ok Suc in \<open>auto simp: Let_def intro!: paint paint_text\<close>)
qed

lemma paint_DisplayHeading:
  assumes "ui_inv r0" and "rest r0 = r"
  shows "paints N r DisplayHeading"
  unfolding DisplayHeading_def
proof (rule paint_get)
  fix st
  assume "rest st = r"
  then have "depth st = depth r" by (rule rest_sel(14))
  then have "nat (menu_stack_position st) = depth r" by (simp add: depth_def [of st])
  then show "paints N r (heading_loop (nat (menu_stack_position st)) 21)"
    using paint_heading_loop [OF assms] by simp
qed

lemma list_offset_nonneg: "0 \<le> pos \<Longrightarrow> 0 \<le> list_offset pos l"
  by (simp add: list_offset_def Let_def)

lemma ring_list_position:
  assumes "0 \<le> pos" and "pos < len \<or> pos = 0"
  shows "case ShowListPositionOnEncoderLEDRing pos len of None \<Rightarrow> True | Some x \<Rightarrow> 0 \<le> x \<and> x < 16"
proof (cases "len < 2 \<or> pos = 0 \<or> pos = len - 1")
  case False
  then have d: "0 < pos * 14" "0 < len - 1" using assms by auto
  then have "(pos * 14) sdiv (len - 1) = (pos * 14) div (len - 1)" by (simp add: signed_divide_int_def)
  moreover have "(pos * 14) div (len - 1) < 14"
  proof -
    have "(pos * 14) div (len - 1) * (len - 1) \<le> pos * 14"
      using d by (simp add: minus_mod_eq_div_mult [symmetric])
    also have "\<dots> < 14 * (len - 1)" using False assms by auto
    finally have "(pos * 14) div (len - 1) * (len - 1) < 14 * (len - 1)" .
    then show ?thesis using d(2) unfolding mult_less_cancel_right by linarith
  qed
  moreover have "0 \<le> (pos * 14) div (len - 1)" using d by (simp add: pos_imp_zdiv_nonneg_iff)
  ultimately show ?thesis using False by (simp add: ShowListPositionOnEncoderLEDRing_def)
qed (auto simp: ShowListPositionOnEncoderLEDRing_def)

lemma paint_update_list_nav:
  assumes "snd (entry r) = pos" and "0 \<le> pos" and "pos < l \<or> pos = 0"
  shows "paints N r (update_list_nav l)"
  unfolding update_list_nav_def
  by (rule paint_pos) (use ring_list_position [OF assms(2,3)] assms(1) in \<open>auto intro!: paint paint_show_ring\<close>)

lemma paint_paint_line:
  assumes "env_ok env" and "1 \<le> y" and "y \<le> 6" and "paint_line env iv n y = Some f"
  shows "paints N r f"
proof -
  have num: "paints N r (number5 iv y v)" if "small v" for v
    using assms(2,3) that by (auto simp: number5_def intro!: paint)
  have "paints N r (bnd (get_st load_patch_index) (number5 iv y))"
    by (rule paint_get) (use num ui_invD2(8) in \<open>simp add: small_def int32_def\<close>)
  then show ?thesis
    using assms num env_okD(2,3) [OF assms(1)]
    by (cases "(env, iv, n, y)" rule: paint_line.cases) (auto intro!: paint runs_ret)
qed

lemma paint_list_line:
  assumes env: "env_ok env" and nodes: "\<forall>n \<in> set nodes. named n" and "0 \<le> offset" and line: "line < 6"
  shows "paints N r (list_line env nodes full pos offset line)"
proof -
  have y: "1 \<le> int line + 1" "int line + 1 \<le> 6" using line by simp_all
  have blank: "paints N r (put_text iv 45 (int line + 1) (chars '''') 6)" for iv
    using line by (auto intro!: paint_text)
  have tail: "paints N r (case paint_line env iv n (int line + 1) of Some p \<Rightarrow> p | None \<Rightarrow> put_text iv 45 (int line + 1) (chars '''') 6)"
    "paints N r (case paint_line env iv n (int line + 1) of Some p \<Rightarrow> p | None \<Rightarrow> ret ())" for iv n
    using paint_paint_line [OF env y] blank by (auto intro!: paint split: option.split)
  show ?thesis
  proof (cases "offset + int line < int (length nodes)")
    case True
    let ?n = "nodes ! nat (offset + int line)"
    have n: "named ?n" "nth_e nodes (nat (offset + int line)) = Inr ?n" using True assms(3) nodes by simp_all
    show ?thesis
      unfolding list_line_def Let_def if_P [OF True]
      by (rule paint_lift [of _ ?n]) (use n assms(3) tail line named_name [OF n(1)] in \<open>auto intro!: keeps_if keeps_bnd paint_text\<close>)
  next
    case False
    then show ?thesis unfolding list_line_def Let_def using line by (auto intro!: paint paint_text)
  qed
qed

lemma good_paint_node_list:
  assumes "ui_inv st" and n: "fst (entry st) = Node_List s nodes" and "env_ok env"
  shows "paints N (rest st) (paint_node_list env nodes flags)"
proof -
  have e: "entry (rest st) = entry st" using rest_sel(13) [of st "rest st"] by simp
  obtain p where p: "entry st = (Node_List s nodes, p)" using n by (cases "entry st") simp
  have c: "0 \<le> p" "p < int (length nodes) \<or> p = 0" using ui_invD(4) [OF assms(1)] p by auto
  have "named (fst (entry st))" using stack_named [OF assms(1) order.refl] by (simp add: entry_def)
  then have nodes: "\<forall>n \<in> set nodes. named n" using n by simp
  have "paints N (rest st) (bnd (if full then update_list_nav (int (length nodes)) else ret ()) (\<lambda>_.
      each (list_line env nodes full p (list_offset p (int (length nodes)))) [0..<6]))" for full
    using paint_update_list_nav [of "rest st" p] c p e
      paint_list_line [OF assms(3) nodes list_offset_nonneg [OF c(1)]]
    by (auto intro!: paint)
  then show ?thesis
    unfolding paint_node_list_def Let_def by (intro paint_pos) (simp add: e p)
qed

section \<open>Analog inputs\<close>

lemma length_scope_bytes [simp]: "length (scope_bytes v uy y0) = v"
  by (induction v arbitrary: uy y0) simp_all

lemma scope_column_ok:
  assumes "0 \<le> x" and "x < 128" and "length bytes = 6"
  shows "lcd_ok (scope_column x bytes)"
  unfolding scope_column_def
proof (rule lcd_ok_sfold)
  fix i
  assume i: "i \<in> set (zip [0..<length bytes] bytes)"
  obtain k c where "i = (k, c)" by (cases i)
  then have "fst i < 6" using set_zip_leftD [of k c "[0..<length bytes]" bytes] i assms(3) by (metis atLeastLessThan_iff fst_conv set_upt)
  then show "lcd_ok ((\<lambda>(k, c). put_bytes (x + LCDWIDTH * (int k + 1)) [c]) i)"
    using assms(1,2) by (cases i) (auto simp: LCDWIDTH_def intro!: lcd_ok_put)
qed

lemma safe_paint_short_value:
  assumes "env_ok env"
  shows "safe_ui (paint_short_value env i minv scale flags)"
proof -
  have draw: "safe_ui (draw (LCD_drawNumber5D 20 7 (adc env i)))"
    using env_okD(3) [OF assms] by (auto simp: small_def intro!: safe_draw number_ok)
  have column: "safe_ui (bnd (get_st xpos) (\<lambda>x. bnd (draw (scope_column x (f x))) (\<lambda>_.
      upd_st (\<lambda>st. st\<lparr>xpos := (x + 1) mod LCDWIDTH\<rparr>))))" if "\<And>x. length (f x) = 6" for f
  proof -
    have "safe_ui (bnd (draw (scope_column x (f x))) (\<lambda>_. upd_st (\<lambda>st. st\<lparr>xpos := (x + 1) mod LCDWIDTH\<rparr>)))"
      if "x \<in> {0..127}" for x
      using that \<open>\<And>x. length (f x) = 6\<close>
      by (auto simp: LCDWIDTH_def intro!: keeps_bnd safe_draw scope_column_ok safe_ui_upd ui_inv_updates)
    then show ?thesis using ui_invD2(9) by (auto simp: runs_def bnd_def get_st_def)
  qed
  have "safe_ui (bnd (draw (LCD_drawNumber5D 20 7 (adc env i))) (\<lambda>_. bnd (get_st xpos) (\<lambda>x.
      bnd (draw (scope_column x (if x mod 2 = 1 then scope_bytes 6 a b else scope_bytes 6 c d))) (\<lambda>_.
      upd_st (\<lambda>st. st\<lparr>xpos := (x + 1) mod LCDWIDTH\<rparr>)))))" for a b c d
    by (rule keeps_bnd [OF draw], rule column) simp
  moreover have "safe_ui (upd_st (\<lambda>st. st\<lparr>xpos := 0\<rparr>))" by (rule safe_ui_upd) (simp add: ui_inv_updates)
  ultimately show ?thesis unfolding paint_short_value_def Let_def by (intro keeps_if)
qed

section \<open>Parameters and objects\<close>

lemma paint_drawParamValue1:
  assumes "env_ok env" and "q < 4"
  shows "paints N r (drawParamValue1 env q p)"
  using assms(2) env_okD(4-6) [OF assms(1)]
  by (cases "ptype p") (auto simp: drawParamValue1_def intro!: paint printable_take)

text \<open>Reads of the patch behind the page.\<close>

lemma paint_nparams:
  assumes "patch0 r = Some v" and "paints N r (k (int (length (pv_params v))))"
  shows "paints N r (bnd patch_getNParams k)"
proof -
  have "bnd patch_getNParams k st = k (int (length (pv_params v))) st" if "rest st = r" for st
    using rest_sel(4) [OF that] assms(1) by (simp add: bnd_def nparams_run)
  then show ?thesis using assms(2) by (auto simp: runs_def)
qed

lemma paint_instance:
  assumes "patch0 r = Some v" and "g v = Inr x" and "paints N r (k x)"
  shows "paints N r (bnd (bnd instance_of (\<lambda>p. lift (g p))) k)"
proof -
  have "bnd (bnd instance_of (\<lambda>p. lift (g p))) k st = k x st" if "rest st = r" for st
    using rest_sel(4) [OF that] assms(1,2) by (simp add: instance_of_def prog_defs)
  then show ?thesis using assms(3) by (auto simp: runs_def)
qed

lemma paint_param_value:
  assumes "env_ok env" and "patch0 r = Some v" and "0 \<le> pos" and "q < 4"
  shows "paints N r (param_value env pos (int (length (pv_params v))) q)"
proof (cases "pos + int q < int (length (pv_params v))")
  case True
  then have "nth_e (pv_params v) (nat (pos + int q)) = Inr (pv_params v ! nat (pos + int q))"
    using assms(3) by simp
  then show ?thesis
    unfolding param_value_def patch_getParam_def
    using True assms(4) paint_drawParamValue1 [OF assms(1,4)] ring_position
    by (simp add: not_le, intro paint_instance [OF assms(2)]) (auto intro!: keeps_bnd paint_show_ring)
qed (simp add: param_value_def paint)

lemma paint_scroll_arrows:
  assumes "\<And>k :: int \<Rightarrow> unit up. (\<And>n. paints N r (k n)) \<Longrightarrow> paints N r (bnd count k)"
  shows "paints N r (scroll_arrows count)"
  unfolding scroll_arrows_def
proof (rule paint_pos, rule keeps_bnd)
  show "paints N r (if 4 \<le> snd (entry r) then draw (LCD_drawChar 0 7 24) else ret ())"
    by (auto intro!: paint)
  show "paints N r (bnd count (\<lambda>n. if snd (entry r) + 4 < n then draw (LCD_drawChar 10 7 25) else ret ()))"
    by (rule assms) (auto intro!: paint)
qed

lemma paint_param_names:
  assumes "patch0 r = Some v" and "patch_ok v" and "0 \<le> pos" and "q < 4"
  shows "paints N r (if pos + int q < int (length (pv_params v)) then
     bnd (patch_getParamName (nat (pos + int q))) (\<lambda>s. gfx_drawStringInvN q 3 0 s 8) else ret ())"
proof (cases "pos + int q < int (length (pv_params v))")
  case True
  let ?i = "nat (pos + int q)"
  have i: "?i < length (pv_names v)" using True assms(2,3) by (simp add: patch_ok_def)
  then have "nth_e (pv_names v) ?i = Inr (pv_names v ! ?i)" "printable (pv_names v ! ?i)"
    using assms(2) by (simp_all add: patch_ok_def)
  then show ?thesis
    unfolding patch_getParamName_def using True assms(4)
    by (auto intro!: paint_instance [OF assms(1)] paint_gfx_text)
qed (simp add: paint)

lemma typed_signals: "typed (x\<lparr>signals := z\<rparr>) = typed x"
  by (cases "ptype x") (simp_all add: typed_def)

lemma good_poll_param:
  assumes "0 \<le> pos"
  shows "keeps nav_faults (\<lambda>st. ui_inv st \<and> (\<exists>v. patch0 st = Some v \<and> int (length (pv_params v)) = n)) (poll_param pos n q)"
  unfolding runs_def
proof (intro allI impI, elim conjE exE)
  fix st v
  assume inv: "ui_inv st" and v: "patch0 st = Some v" "int (length (pv_params v)) = n"
  let ?i = "nat (pos + int q)"
  let ?v = "v\<lparr>pv_params := (pv_params v)[?i := (pv_params v ! ?i)\<lparr>signals := signals (pv_params v ! ?i) AND NOT 4\<rparr>]\<rparr>"
  have ok: "patch_ok v" using ui_invD2(7) [OF inv v(1)] .
  have i: "?i < length (pv_params v)" if "pos + int q < n" using that v(2) assms by linarith
  have "typed ((pv_params v ! ?i)\<lparr>signals := z\<rparr>)" if "pos + int q < n" for z
    using typed_signals patch_ok_nth [OF ok i [OF that]] by simp
  then have "ui_inv (st\<lparr>patch0 := Some ?v\<rparr>)" if "pos + int q < n"
    using that by (intro ui_inv_updates inv patch_ok_set ok)
  then show "case poll_param pos n q st of Inl e \<Rightarrow> e \<notin> nav_faults
      | Inr (x, st) \<Rightarrow> ui_inv st \<and> (\<exists>v. patch0 st = Some v \<and> int (length (pv_params v)) = n)"
    using inv v i
    by (auto simp: poll_param_def patch_getParam_def patch_setParam_def instance_of_def chEvtSignal_def prog_defs)
qed

lemma keeps_each: "(\<And>x. x \<in> set xs \<Longrightarrow> keeps N P (f x)) \<Longrightarrow> keeps N P (each f xs)"
  by (induction xs) (auto intro!: keep)

lemma good_paint_param_list:
  assumes inv: "ui_inv st" and n: "fst (entry st) = Param_List s" and env: "env_ok env"
  shows "good (paint_param_list env flag) st"
proof -
  obtain p where p: "entry st = (Param_List s, p)" "0 \<le> p"
    using n ui_invD(4) [OF inv] by (cases "entry st") auto
  have e: "snd (entry (rest st)) = p" using rest_sel(13) [OF refl, of st] p by (metis snd_conv)
  show ?thesis
  proof (cases "patch0 st")
    case None
    then show ?thesis using p inv
      by (simp add: paint_param_list_def good_def bnd_def currentpos_run nparams_run nav_faults_def)
  next
    case (Some v)
    let ?n = "int (length (pv_params v))"
    have v: "patch0 (rest st) = Some v" using rest_sel(4) [of st "rest st"] Some by simp
    have ok: "patch_ok v" using ui_invD2(7) [OF inv Some] .
    have vals: "paints nav_faults (rest st) (param_value env p ?n q)" if "q < 4" for q
      using paint_param_value [OF env v p(2) that] .
    have names: "paints nav_faults (rest st) (bnd (each (\<lambda>q. if p + int q < ?n then
        bnd (patch_getParamName (nat (p + int q))) (\<lambda>s. gfx_drawStringInvN q 3 0 s 8) else ret ()) [0..<4])
        (\<lambda>_. scroll_arrows patch_getNParams))"
      using paint_param_names [OF v ok p(2)] by (intro keeps_bnd paint_each paint_scroll_arrows paint_nparams [OF v]) auto
    have run: "paint_param_list env flag st =
        (if flag = 0 then each (poll_param p ?n) [0..<4] st else paint_param_list env flag st)"
      using p Some inv by (simp add: paint_param_list_def bnd_def currentpos_run nparams_run)
    show ?thesis
    proof (cases "flag = 0")
      case True
      have "keeps nav_faults (\<lambda>st. ui_inv st \<and> (\<exists>v. patch0 st = Some v \<and> int (length (pv_params v)) = ?n))
          (each (poll_param p ?n) [0..<4])"
        by (intro keeps_each good_poll_param p(2))
      from runsD [OF this, of st] show ?thesis using inv Some run True by (auto simp: good_def)
    next
      case False
      show ?thesis
        unfolding paint_param_list_def
        by (rule good_paints [OF _ inv], rule paint_pos, rule paint_nparams [OF v])
          (use False vals names e in \<open>auto intro!: keeps_if runs_ret\<close>)
    qed
  qed
qed

lemma good_paint_object_list:
  assumes inv: "ui_inv st" and n: "fst (entry st) = Object_List s"
  shows "good (paint_object_list flag) st"
proof -
  have e: "snd (entry st) = 0" using n ui_invD(4) [OF inv] by (cases "entry st") simp
  have arrows: "good (scroll_arrows (ret patch_getNObjects)) st"
    by (rule good_paints [OF _ inv], rule paint_scroll_arrows) (simp add: bnd_def ret_def)
  have idle: "good (bnd (upd_st (\<lambda>st. st\<lparr>q1 := (q1 st + 1) mod 4\<rparr>)) (\<lambda>_. bnd (get_st q1)
      (\<lambda>i. if 0 \<le> i then ret () else stop Dangling))) st"
    using inv by (simp add: good_def prog_defs ui_inv_updates)
  show ?thesis
    unfolding paint_object_list_def Let_def
    by (rule good_pos [OF inv]) (use arrows idle inv e in \<open>simp add: patch_getNObjects_def bnd_def ret_def good_def\<close>)
qed

section \<open>The pages with functions of their own\<close>

lemma safe_paint_loadpatch:
  assumes "env_ok env"
  shows "safe_ui (paint_loadpatch env flags)"
  unfolding paint_loadpatch_def loadpatch_init_def
  using safe_refresh [OF env_okD(1) [OF assms]] by (auto intro!: keep safe_ui_upd)

text \<open>What makes a page leave its arrays when it is painted.\<close>

definition hazard :: "ui \<Rightarrow> ui_node \<Rightarrow> u32 \<Rightarrow> bool" where
  "hazard st n flags \<longleftrightarrow>
     (case n of
        Custom_Page _ Page_midiclock \<Rightarrow> flags = lcd_dirty_flag_usr 1
      | Custom_Page _ Page_midicc \<Rightarrow> bend (midicc st) = - (2 ^ 31)
      | Custom_Page _ Page_midimon \<Rightarrow> (\<exists>m \<in> set (buf (midi_input st)). b0 m \<noteq> 0 \<and> b0 m < 0x80)
      | Custom_Page _ Page_test \<Rightarrow> 255 \<in> set (vals st)
      | _ \<Rightarrow> False)"

lemma paint_stop: "paints {} r (stop e)"
  by (rule runs_stop) simp

lemma paint_update_quadrant:
  assumes "i < 4" and "\<And>st. ui_inv st \<Longrightarrow> rest st = r \<Longrightarrow>
      printable (fst (f (clk st))) \<and> printable (fst (g (clk st))) \<and> (N = {} \<or> snd (f (clk st)) \<in> {0..255})"
  shows "paints N r (update_quadrant i f g)"
proof -
  have ring: "paints N r (gfx_setEncoderOne i (if x = - 1 then - 1 else x div 2 ^ 4))" if "N = {} \<or> x \<in> {0..255}" for x
  proof (cases "x \<in> {0..255}")
    case True
    then show ?thesis using assms(1) by (intro paint_ring) auto
  next
    case False
    then have "N = {}" using that by blast
    then show ?thesis using assms(1) by (auto simp: gfx_setEncoderOne_def intro!: keeps_if paint_led paint_stop)
  qed
  show ?thesis
    unfolding update_quadrant_def
  proof (rule paint_get, rule keeps_prod)
    fix st s x
    assume st: "ui_inv st" "rest st = r" and f: "f (clk st) = (s, x)"
    have sx: "printable s" "N = {} \<or> x \<in> {0..255}" using assms(2) [OF st] f by auto
    have "paints N r (bnd (get_st (\<lambda>st. g (clk st))) (\<lambda>(str, r).
        bnd (if r = - 1 then gfx_drawChar i 0 2 42 else ret ()) (\<lambda>_. gfx_drawStringN i 4 2 str 9)))"
    proof (rule paint_get, rule keeps_prod)
      fix st s x
      assume st: "ui_inv st" "rest st = r" and g: "g (clk st) = (s, x)"
      have "printable s" using assms(2) [OF st] g by auto
      then show "paints N r (bnd (if x = - 1 then gfx_drawChar i 0 2 42 else ret ()) (\<lambda>_. gfx_drawStringN i 4 2 s 9))"
        using assms(1) by (auto intro!: paint)
    qed
    then show "paints N r (bnd (gfx_drawStringN i 4 1 s 9) (\<lambda>_.
      bnd (gfx_drawChar i 0 0 (if x = - 1 then 42 else if x < 255 then 24 else 32)) (\<lambda>_.
      bnd (gfx_drawChar i 0 2 (if x = - 1 then 32 else if x > 0 then 25 else 32)) (\<lambda>_.
      bnd (gfx_setEncoderOne i (if x = - 1 then - 1 else x div 2 ^ 4)) (\<lambda>_.
      bnd (get_st (\<lambda>st. g (clk st))) (\<lambda>(str, r).
        bnd (if r = - 1 then gfx_drawChar i 0 2 42 else ret ()) (\<lambda>_. gfx_drawStringN i 4 2 str 9)))))))"
      using sx assms(1) ring [OF sx(2)] by (auto intro!: paint simp del: atLeastAtMost_iff)
  qed
qed

lemma paint_paint_midiclock:
  assumes "env_ok env" and "N = {} \<or> flags \<noteq> lcd_dirty_flag_usr 1"
  shows "paints N r (paint_midiclock env flags)"
proof -
  have "paints N r (update_quadrant 0 (printBPM env) (printBPM2 env))"
    using env_okD(7,8) [OF assms(1)] ui_invD2(6)
    by (intro paint_update_quadrant) (auto simp: printBPM_def printBPM2_def clock_ok_def intro!: printable_take)
  moreover have "paints {} r (update_quadrant 1 printDo printStop)"
    by (intro paint_update_quadrant) (auto simp: printDo_def printStop_def)
  moreover have "paints N r (each (\<lambda>(i, name). gfx_drawStringN i 4 0 (chars name) 9) (zip [0..<4] [''BPM'', ''Start'', '''', '''']))"
    by (auto simp: upt_rec numeral_eq_Suc intro!: paint)
  ultimately show ?thesis unfolding paint_midiclock_def using assms(2) by (auto intro!: keeps_if runs_ret)
qed

text \<open>MIDI controller.\<close>

lemma draw_updates_ok:
  assumes "f \<in> set draw_updates" and "k < 4" and d: "cc_inv d" "N = {} \<or> bend d \<noteq> - (2 ^ 31)"
  shows "paints N r (f k d)"
proof -
  have ring: "paints N r (ring_8 k v)" "paints N r (gfx_setEncoderOne k (v mod 16))" for v
    using assms(2) unfolding ring_8_def by (intro paint_ring; force intro: order.strict_trans [OF pos_mod_bound])+
  have num: "paints N r (paint_number k v)" if "v \<in> {- 200..200}" for v
    using that assms(2) by (auto simp: paint_number_def intro!: paint_gfx_number smallI)
  have "paints N r (paint_number k (bend d))"
  proof (cases "bend d = - (2 ^ 31)")
    case True
    then have "N = {}" using d(2) by simp
    show ?thesis unfolding \<open>N = {}\<close> paint_number_def gfx_drawNumber3D_def LCD_drawNumber3D_def
      by (rule paint_draw_length) (rule char_number_length)
  next
    case False
    then show ?thesis using cc_invD(4) [OF d(1)] assms(2)
      by (auto simp: paint_number_def small_def intro!: paint_gfx_number)
  qed
  moreover have "paints N r (paint_number k (cc d ! i))" if "i < 7" for i
    using that cc_invD(9) [OF d(1), of i] by (intro num) simp
  ultimately show ?thesis
    using assms(1) ring num cc_invD(1-8) [OF d(1)]
    by (auto simp: draw_updates_def intro!: keeps_bnd)
qed

lemma length_draw_tables: "length draw_updates = 12" "length draw_inits = 12"
  by (simp_all add: draw_updates_def draw_inits_def upto.simps)

lemma draw_inits_printable: "(s, n) \<in> set draw_inits \<Longrightarrow> printable s \<and> n \<le> 9"
  by (auto simp: draw_inits_def cc_title_def chars_def printable_def upto.simps signed_divide_int_def)

lemma paint_quadrant_ok:
  assumes "k < 4" and "N = {} \<or> bend (midicc r) \<noteq> - (2 ^ 31)"
  shows "paints N r (paint_quadrant k)"
  unfolding paint_quadrant_def get_cc_def
proof (rule paint_get)
  fix st
  assume st: "ui_inv st" "rest st = r"
  let ?i = "nat (page (midicc st)) + k"
  have i: "?i < length draw_updates"
    using cc_invD(3) [OF ui_invD2(3) [OF st(1)]] assms(1) length_draw_tables by auto
  show "paints N r (bnd (lift (nth_e draw_updates ?i)) (\<lambda>f. bnd (get_st (\<lambda>st. id (midicc st))) (f k)))"
  proof (rule paint_lift, rule nth_e_in [OF i], rule paint_get)
    fix st'
    assume st': "ui_inv st'" "rest st' = r"
    have "N = {} \<or> bend (midicc st') \<noteq> - (2 ^ 31)" using assms(2) rest_sel(3) [OF st'(2)] by simp
    then show "paints N r ((draw_updates ! ?i) k (id (midicc st')))"
      using draw_updates_ok [OF nth_mem [OF i] assms(1) ui_invD2(3) [OF st'(1)]] by simp
  qed
qed

lemma paint_paint_midicc:
  assumes "N = {} \<or> bend (midicc r) \<noteq> - (2 ^ 31)"
  shows "paints N r (paint_midicc flag)"
proof -
  have title: "paints N r (bnd (get_cc (\<lambda>d. nth_e draw_inits (nat (page d) + k))) (\<lambda>t. bnd (lift t) (\<lambda>t. paint_title t k)))"
    if "k < 4" for k
    unfolding get_cc_def
  proof (rule paint_get)
    fix st
    assume st: "ui_inv st"
    let ?i = "nat (page (midicc st)) + k"
    have i: "?i < length draw_inits"
      using cc_invD(3) [OF ui_invD2(3) [OF st]] that length_draw_tables by auto
    obtain s n where sn: "draw_inits ! ?i = (s, n)" by (cases "draw_inits ! ?i")
    then have "printable s \<and> n \<le> 9" using draw_inits_printable nth_mem [OF i] by metis
    then have "paints N r (paint_title (draw_inits ! ?i) k)"
      using that sn by (auto simp: paint_title_def intro!: paint)
    then show "paints N r (bnd (lift (nth_e draw_inits ?i)) (\<lambda>t. paint_title t k))"
      by (rule paint_lift [OF nth_e_in [OF i]])
  qed
  have page: "paints N r (bnd (get_cc page) (\<lambda>p.
        bnd (draw (LCD_drawChar 0 7 (if p > 0 then 24 else 32))) (\<lambda>_.
        if p < NQUADS - 4 then draw (LCD_drawChar 10 7 25) else draw (LCD_drawChar 12 7 32))))"
    unfolding get_cc_def by (rule paint_get) (auto intro!: paint)
  have leds: "paints N r (bnd (get_cc (\<lambda>d. note_leds (knote d))) (\<lambda>w. led 4 (LED_set w)))"
    unfolding get_cc_def by (rule paint_get) (auto intro!: paint)
  have keys: "paints N r (draw (LCD_drawStringN 20 7 (chars ''...KEYS...'') 10))"
    by (rule paint_text) simp_all
  have titles: "paints N r (each (\<lambda>k. bnd (get_cc (\<lambda>d. nth_e draw_inits (nat (page d) + k))) (\<lambda>t. bnd (lift t) (\<lambda>t. paint_title t k))) [0..<4])"
    by (rule paint_each, rule title) simp
  show ?thesis
    unfolding paint_midicc_def
    by (intro keeps_if keeps_bnd [OF titles] keeps_bnd [OF keys] keys page leds runs_ret paint_quadrant_ok [OF _ assms]) simp_all
qed

text \<open>MIDI monitor.\<close>

lemma high_bits: "unat (b AND 0xF0) = unat b div 16 * 16" for b :: u8
proof -
  have "b AND NOT (mask 4) = push_bit 4 (drop_bit 4 b)"
    by (rule bit_word_eqI) (auto simp: bit_simps not_less)
  moreover have "NOT (mask 4) = (0xF0 :: u8)" by (simp add: mask_eq_exp_minus_1)
  ultimately have eq: "b AND 0xF0 = push_bit 4 (drop_bit 4 b)" by simp
  have "unat b div 16 < 16" using unat_u8 [of b] by (simp add: div16)
  then show ?thesis
    unfolding eq unsigned_push_bit_eq by (simp add: unat_nibble take_bit_eq_mod push_bit_eq_mult)
qed

lemma message_name_ok:
  assumes "b \<ge> 0x80"
  shows "\<exists>s. message_name b = Inr s \<and> printable (chars s)"
proof -
  have names: "printable (chars s)" if "s \<in> set midiStatusNames \<union> set midiRTNames" for s
    using that by (auto simp: midiStatusNames_def midiRTNames_def printable_def chars_def)
  have u: "128 \<le> unat b" "unat b < 256" using assms unat_u8 by (simp_all add: word_le_nat_alt)
  show ?thesis
  proof (cases "unat b < 240")
    case True
    then have "unat (b AND 0xF0) < 240" using high_nibble(1) [OF u(1)] by (simp add: high_bits)
    then have "b AND 0xF0 < 0xF0" by (simp add: word_less_nat_alt)
    moreover have i: "unat b div 16 - 8 < length midiStatusNames" "8 \<le> unat b div 16"
      using high_nibble(1) [OF u(1) True] by (simp_all add: midiStatusNames_def less_diff_conv2)
    ultimately have "message_name b = Inr (midiStatusNames ! (unat b div 16 - 8))"
      by (simp add: message_name_def unat_nibble nat_diff_distrib)
    then show ?thesis using names nth_mem [OF i(1)] by simp
  next
    case False
    then have "\<not> b AND 0xF0 < 0xF0" using high_nibble(3) [of "unat b"] u by (simp add: word_less_nat_alt high_bits)
    moreover have i: "unat (b - 0xF0) < length midiRTNames"
      using False u by (simp add: unat_sub word_le_nat_alt midiRTNames_def)
    ultimately have "message_name b = Inr (midiRTNames ! unat (b - 0xF0))"
      by (simp add: message_name_def)
    then show ?thesis using names nth_mem [OF i] by simp
  qed
qed

lemma lift_fault: "paints {} r (lift x)"
  by (rule runs_lift) simp

lemma port_char: "port m + 49 \<noteq> 255"
proof -
  have "unat (port m) < 16" using unat_u8 [of "ph m"] by (simp add: port_def unat_nibble div16)
  then have "unat (port m + 49) < 65" by (simp add: unat_word_ariths)
  then show ?thesis by (auto dest: arg_cong [where f = unat])
qed

lemma paint_paint_message:
  assumes "2 \<le> j" and "j \<le> 7" and "N = {} \<or> (\<forall>m \<in> set (buf (midi_input r)). b0 m = 0 \<or> b0 m \<ge> 0x80)"
  shows "paints N r (paint_message j)"
  unfolding paint_message_def
proof (rule paint_get)
  fix st
  assume st: "ui_inv st" "rest st = r"
  let ?i = "nat ((read_index (midi_input st) - (j - 2)) mod 32)"
  let ?m = "buf (midi_input st) ! ?i"
  have i: "?i < length (buf (midi_input st))" using ui_invD2(11) [OF st(1)] by (simp add: nat_less_iff)
  have num: "paints N r (draw (LCD_drawNumber3D x j (int (unat b))))" "paints N r (draw (LCD_drawNumber3D x j (int (unat b) + 1)))"
    if "0 \<le> x" "x \<le> 49" for x and b :: u8
  proof -
    have "small (int (unat b))" "small (int (unat b) + 1)" using unat_u8 [of b] by (rule_tac smallI; linarith)+
    then show "paints N r (draw (LCD_drawNumber3D x j (int (unat b))))" "paints N r (draw (LCD_drawNumber3D x j (int (unat b) + 1)))"
      using that assms(1,2) by (auto intro!: paint_number_3 simp del: of_nat_unat)
  qed
  have blank: "paints N r (draw (LCD_drawStringN 0 j (chars '''') 21))"
    using assms(1,2) by (intro paint_text) simp_all
  have name: "paints N r (bnd (lift (message_name (b0 ?m))) (\<lambda>s. bnd (draw (LCD_drawStringN 8 j (chars s) 4)) (\<lambda>_. k)))"
    if "b0 ?m \<noteq> 0" "paints N r k" for k :: "unit up"
  proof (cases "b0 ?m \<ge> 0x80")
    case True
    then obtain s where s: "message_name (b0 ?m) = Inr s" "printable (chars s)" using message_name_ok by blast
    have "paints N r (draw (LCD_drawStringN 8 j (chars s) 4))" using s(2) assms(1,2) by (intro paint_text) simp_all
    then show ?thesis by (intro paint_lift [OF s(1)] keeps_bnd that(2))
  next
    case False
    have "N = {}" using assms(3) False that(1) nth_mem [OF i] rest_sel(6) [OF st(2)] by auto
    have "paints {} r (draw (LCD_drawStringN 8 j (chars s) 4))" for s
      by (rule paint_draw_length) (auto simp: LCD_drawStringN_def dest: stringN_length)
    then show ?thesis unfolding \<open>N = {}\<close> by (intro keeps_bnd lift_fault that(2) [unfolded \<open>N = {}\<close>])
  qed
  have char: "paints N r (draw (LCD_drawChar 3 j (port ?m + 49)))"
    using port_char by (intro paint_char) simp_all
  show "paints N r (bnd (lift (nth_e (buf (midi_input st)) ?i)) (\<lambda>m.
     bnd (draw (LCD_drawChar 3 j (port m + 49))) (\<lambda>_.
     if b0 m = 0 then draw (LCD_drawStringN 0 j (chars '''') 21)
     else
       bnd (lift (message_name (b0 m))) (\<lambda>s.
       bnd (draw (LCD_drawStringN 8 j (chars s) 4)) (\<lambda>_.
       bnd (draw (LCD_drawNumber3D 21 j (int (unat (b0 m AND 0xF)) + 1))) (\<lambda>_.
       bnd (draw (LCD_drawNumber3D 35 j (int (unat (b1 m))))) (\<lambda>_.
       draw (LCD_drawNumber3D 49 j (int (unat (b2 m)))))))))))"
    by (rule paint_lift [OF nth_e_in [OF i]], rule keeps_bnd [OF char], rule keeps_if [OF blank],
        rule name, simp, intro keeps_bnd num) simp_all
qed

lemma paint_paint_midimon:
  assumes "N = {} \<or> (\<forall>m \<in> set (buf (midi_input r)). b0 m = 0 \<or> b0 m \<ge> 0x80)"
  shows "paints N r (paint_midimon flags)"
proof -
  have "printable (chars ''P'')" "printable (chars ''Type'')" "printable (chars ''Ch'')"
    "printable (chars ''B1'')" "printable (chars ''B2'')"
    by (simp_all add: printable_def chars_def)
  then have "paints N r (each (\<lambda>(x, s, n). draw (LCD_drawStringInvN x 1 (chars s) n))
      [(2, ''P'', 1), (8, ''Type'', 4), (24, ''Ch'', 3), (35, ''B1'', 4), (49, ''B2'', 4)])"
    by (simp only: each.simps prod.case) (intro keeps_bnd runs_ret paint_text(3); simp)
  moreover have "paints N r (each paint_message [2..7])"
    by (rule paint_each, rule paint_paint_message [OF _ _ assms]) auto
  ultimately show ?thesis unfolding paint_midimon_def by (rule keeps_if)
qed

text \<open>Processes and test.\<close>

lemma paint_thread_lines:
  assumes "2 \<le> j" and "ts \<noteq> []"
    and "\<forall>(n, k) \<in> set ts. small k \<and> (case n of None \<Rightarrow> True | Some s \<Rightarrow> printable s)"
  shows "paints N r (thread_lines ts j)"
  using assms
proof (induction ts arbitrary: j)
  case (Cons t ts)
  obtain n k where t: "t = (n, k)" by (cases t)
  have name: "printable (case n of None \<Rightarrow> chars ''????'' | Some s \<Rightarrow> s)" and k: "small k"
    using Cons.prems(3) t by (auto split: option.split)
  have "paints N r (draw (LCD_drawStringN 2 j (case n of None \<Rightarrow> chars ''????'' | Some s \<Rightarrow> s) 14))" if "j < 7"
    using name that by (intro paint_text) simp_all
  moreover have "paints N r (draw (LCD_drawNumber5D 44 j k))" if "j < 7"
    using k that Cons.prems(1) by (intro paint_number_5) simp_all
  moreover have "paints N r (if ts = [] then ret j else thread_lines ts (j + 1))"
    using Cons by (auto intro!: keeps_if runs_ret)
  ultimately show ?case
    unfolding t thread_lines.simps [of "(n, k) # ts"] by (auto intro!: keeps_bnd runs_ret)
qed simp

lemma paint_paint_processes:
  assumes "env_ok env"
  shows "paints N r (paint_processes env flags)"
proof -
  have texts: "paints N r (draw (LCD_drawStringInvN 2 1 (chars ''Name'') 14))" "paints N r (draw (LCD_drawStringInvN 46 1 (chars ''Free '') 5))"
    "paints N r (draw (LCD_drawStringN 2 2 (chars ''<END>'') 20))"
    by (rule paint_text; simp)+
  have blanks: "paints N r (each (\<lambda>j. draw (LCD_drawStringN 2 j (chars '''') 20)) [i..6])" for i
    by (rule paint_each, rule paint_text) simp_all
  have lines: "paints N r (thread_lines (drop (nat n) (threads env)) 2)" if "\<not> int (length (threads env)) \<le> n" for n
  proof (rule paint_thread_lines)
    have "0 < length (threads env)" using assms by (simp add: env_ok_def)
    then show "drop (nat n) (threads env) \<noteq> []" using that by (cases "0 \<le> n") (auto simp: nat_less_iff)
  qed (use assms in \<open>auto simp: env_ok_def dest: in_set_dropD\<close>)
  have "paints N r (bnd (get_st proc_offset) (\<lambda>n.
        if int (length (threads env)) \<le> n then draw (LCD_drawStringN 2 2 (chars ''<END>'') 20)
        else bnd (thread_lines (drop (nat n) (threads env)) 2) (\<lambda>j.
          each (\<lambda>j. draw (LCD_drawStringN 2 j (chars '''') 20)) [j..6])))"
    by (rule paint_get) (intro keeps_if texts keeps_bnd [OF lines] blanks)
  then show ?thesis unfolding paint_processes_def
    by (intro keeps_if keeps_bnd [OF texts(1)] keeps_bnd [OF texts(2)] keeps_bnd [OF paint_char(1)] paint_char(1)) simp_all
qed

text \<open>Test.\<close>

lemma byte_printable: "printable (chars (evt_btn_to_string b))"
proof -
  have names: "printable (chars s)" if "s \<in> set button_names" for s
    using that by (auto simp: button_names_def printable_def chars_def)
  have "printable (chars ''???'')" by (simp add: printable_def chars_def)
  moreover have "unat b - 1 < length button_names" if "1 \<le> unat b" "unat b \<le> 23"
    using that by (simp add: button_names_def)
  ultimately show ?thesis using names nth_mem by (auto simp: evt_btn_to_string_def)
qed

lemma small_byte: "small (int (unat b))" "small (sint b)" for b :: u8
  using unat_u8 [of b] sint_greater_eq [of b] sint_less [of b] by (auto simp: small_def int32_def simp del: of_nat_unat)

lemma paint_paint_encoder:
  assumes "k < 4" and "0 \<le> x1" and "x1 \<le> 44" and "x2 \<le> 61" and "0 \<le> line" and "line \<le> 6"
    and "N = {} \<or> 255 \<notin> set (vals r)"
  shows "paints N r (paint_encoder k x1 x2 line)"
  unfolding paint_encoder_def
proof (rule paint_get)
  fix st
  assume st: "ui_inv st" "rest st = r"
  let ?v = "vals st ! k"
  have k: "k < length (vals st)" using ui_invD2(2) [OF st(1)] assms(1) by simp
  have ring: "paints N r (gfx_setEncoderOne k (int (unat ?v) mod 16))"
    using assms(1) by (intro paint_ring; force intro: order.strict_trans [OF pos_mod_bound])
  have num: "paints N r (draw (LCD_drawNumber3D x1 line (int (unat ?v))))"
    using assms by (intro paint_number_3 small_byte) auto
  have char: "paints N r (draw (LCD_drawChar x2 (line + 1) ?v))"
  proof (cases "N = {}")
    case True
    then show ?thesis unfolding LCD_drawChar_def
      by (simp only:) (rule paint_draw_length, rule char_number_length)
  next
    case False
    then have "?v \<noteq> 255" using assms(7) nth_mem [OF k] rest_sel(7) [OF st(2)] by auto
    then show ?thesis using assms by (intro paint_char) auto
  qed
  show "paints N r (bnd (lift (nth_e (vals st) k)) (\<lambda>v.
     bnd (gfx_setEncoderOne k (int (unat v) mod 16)) (\<lambda>_.
     bnd (draw (LCD_drawNumber3D x1 line (int (unat v)))) (\<lambda>_.
     draw (LCD_drawChar x2 (line + 1) v)))))"
    by (rule paint_lift [OF nth_e_in [OF k]], intro keeps_bnd ring num char)
qed

lemma paint_paint_test:
  assumes "N = {} \<or> 255 \<notin> set (vals r)"
  shows "paints N r (paint_test flags)"
proof -
  have "paints N r (bnd (get_st last_evt) (\<lambda>e.
        bnd (draw (LCD_drawStringN 32 6 (chars (evt_btn_to_string (button e))) 5)) (\<lambda>_.
        bnd (draw (LCD_drawNumber3D 0 7 (int (unat (quadrant e))))) (\<lambda>_.
        bnd (draw (LCD_drawNumber3D 14 7 (sint (evalue e)))) (\<lambda>_.
        draw (LCD_drawNumber3D 28 7 (int (unat (modifiers e)))))))))"
    by (rule paint_get, intro keeps_bnd paint_text(2) byte_printable paint_number_3 small_byte) simp_all
  then show ?thesis unfolding paint_test_def
    by (intro keeps_if paint_paint_encoder assms paint_text(2)) (simp_all add: runs_ret)
qed

section \<open>The painting thread\<close>

text \<open>Whatever the page reads, a painting that returns keeps the invariant.\<close>

definition sound :: "'a up \<Rightarrow> ui \<Rightarrow> bool" where
  "sound f st \<longleftrightarrow> (case f st of Inl e \<Rightarrow> True | Inr (_, st') \<Rightarrow> ui_inv st')"

lemma sound_paints: "paints {} (rest st) f \<Longrightarrow> ui_inv st \<Longrightarrow> sound f st"
  by (drule runsD [of _ _ _ _ st]) (auto simp: sound_def)

lemma good_sound: "good f st \<Longrightarrow> sound f st"
  by (auto simp: good_def sound_def split: sum.splits)

lemma paint_custom:
  assumes "env_ok env" and "ui_inv st" and "N = {} \<or> N = nav_faults \<and> \<not> hazard st (Custom_Page s p) flags"
    and "p \<noteq> Page_loadpatch"
  shows "paints N (rest st) (paint_screen_update env (Custom_Page s p) flags)"
  using assms(3,4)
  by (cases p) (auto simp: hazard_def rest_keeps intro!: paint_paint_midiclock paint_paint_midicc paint_paint_midimon
      paint_paint_processes paint_paint_test assms(1))

lemma paint_screen_outcome:
  assumes inv: "ui_inv st" and n: "fst (entry st) = n" and env: "env_ok env"
  shows "sound (paint_screen_update env n flags) st"
    and "\<not> hazard st n flags \<Longrightarrow> good (paint_screen_update env n flags) st"
proof -
  have plain: "good (paint_screen_update env n flags) st" if "\<forall>s p. n \<noteq> Custom_Page s p \<or> p = Page_loadpatch"
  proof (cases n)
    case (Node_List s nodes)
    then show ?thesis using good_paints [OF good_paint_node_list [OF inv _ env] inv] n by simp
  next
    case (Custom_Page s p)
    then show ?thesis using that goodI [OF safe_paint_loadpatch [OF env] inv] by simp
  qed (use inv n env good_paint_param_list good_paint_object_list goodI [OF safe_paint_short_value [OF env] inv] in auto)
  show "sound (paint_screen_update env n flags) st"
    using plain good_sound sound_paints [OF paint_custom [OF env inv, of "{}"] inv]
    by (cases n; cases "\<forall>s. n \<noteq> Custom_Page s Page_loadpatch") auto
  show "good (paint_screen_update env n flags) st" if "\<not> hazard st n flags"
    using that plain good_paints [OF paint_custom [OF env inv, of nav_faults] inv]
    by (cases n; cases "\<forall>s. n \<noteq> Custom_Page s Page_loadpatch") auto
qed

text \<open>The event a pass of the thread takes: the pending one with the lowest number.\<close>

definition taken :: "ui \<Rightarrow> u32" where
  "taken st = dirty st AND (- dirty st)"

definition waited :: "ui \<Rightarrow> ui" where
  "waited st = st\<lparr>dirty := dirty st AND NOT (taken st)\<rparr>"

lemma waited_inv: "ui_inv (waited st) = ui_inv st" "entry (waited st) = entry st" "hazard (waited st) n flags = hazard st n flags"
  unfolding hazard_def by (simp_all add: waited_def entry_def depth_def split: ui_node.split custom_page.split)

definition paint_event :: "ui_env \<Rightarrow> ui_node \<Rightarrow> u32 \<Rightarrow> unit up" where
  "paint_event env n evt =
     (if evt = lcd_dirty_flag_clearscreen then
       bnd (draw LCD_clear) (\<lambda>_. each (\<lambda>i. led i LED_clear) [0, 1, 2, 3, 4, 5])
     else if evt = lcd_dirty_flag_header then DisplayHeading
     else paint_screen_update env n evt)"

lemma ThreadUI2_run:
  assumes "ui_inv st"
  shows "ThreadUI2 env st = paint_event env (fst (entry st)) (taken st) (waited st)"
proof -
  have "top (waited st) = Inr (entry st, waited st)"
    using top_run [of "waited st"] assms by (simp add: waited_inv)
  then have "bnd top (\<lambda>(n, p). paint_event env n (taken st)) (waited st) = paint_event env (fst (entry st)) (taken st) (waited st)"
    by (cases "entry st") (simp add: bnd_def)
  moreover have "ThreadUI2 env st = bnd top (\<lambda>(n, p). paint_event env n (taken st)) (waited st)"
    unfolding ThreadUI2_def paint_event_def by (rule bnd_Inr) (simp add: chEvtWaitOne_def prog_defs taken_def waited_def Let_def)
  ultimately show ?thesis by simp
qed

lemma paint_event_outcome:
  assumes inv: "ui_inv st" and n: "fst (entry st) = n" and env: "env_ok env"
  shows "sound (paint_event env n evt) st" and "\<not> hazard st n evt \<Longrightarrow> good (paint_event env n evt) st"
proof -
  have clear: "good (bnd (draw LCD_clear) (\<lambda>_. each (\<lambda>i. led i LED_clear) [0, 1, 2, 3, 4, 5])) st"
    by (rule good_paints [OF _ inv], rule keeps_bnd [OF paint_draw [OF clear_ok]], rule paint_each, rule paint_led) auto
  have heading: "good DisplayHeading st"
    using good_paints [OF paint_DisplayHeading [OF inv refl] inv] .
  show "sound (paint_event env n evt) st"
    unfolding paint_event_def using good_sound [OF clear] good_sound [OF heading] paint_screen_outcome(1) [OF assms] by simp
  show "good (paint_event env n evt) st" if "\<not> hazard st n evt"
    unfolding paint_event_def using clear heading paint_screen_outcome(2) [OF assms that] by simp
qed

lemma thread_outcome:
  assumes "ui_inv st" and "env_ok env"
  shows "sound (ThreadUI2 env) st" and "\<not> hazard st (fst (entry st)) (taken st) \<Longrightarrow> good (ThreadUI2 env) st"
  using paint_event_outcome [of "waited st" "fst (entry st)" env "taken st"] assms
  by (simp_all add: sound_def good_def ThreadUI2_run [OF assms(1)] waited_inv)

end
