(* ===== verification/Ui_Props.thy ===== *)
theory Ui_Props
  imports Ui_Paint_Safe
begin

text \<open>
  Properties of the user interface over whole runs: navigation from power-up, the end of every
  poll, and what happens on the pages of a patch that is not there.
\<close>

section \<open>Runs of the interface\<close>

text \<open>
  What changes the interface: an event of the control surface, a poll of the audio thread that
  returns, a pass of the painting thread that returns, a patch that becomes available or is released
  by the loader thread, and the loader thread going back to the main page.
\<close>

inductive ui_step :: "ui_env \<Rightarrow> ui \<Rightarrow> ui \<Rightarrow> bool" for env where
  queued: "panel_event e \<Longrightarrow> ui_step env st (st\<lparr>evts := queueInputEventI e (evts st)\<rparr>)"
| polled: "pollProcessUIEvent env st = Inr (b, st') \<Longrightarrow> ui_step env st st'"
| painted: "ThreadUI2 env st = Inr ((), st') \<Longrightarrow> ui_step env st st'"
| patch_loaded: "patch_ok v \<Longrightarrow> ui_step env st (st\<lparr>patch0 := Some v\<rparr>)"
| patch_released: "ui_step env st (st\<lparr>patch0 := None\<rparr>)"
| gone_home: "ui_go_home st = Inr ((), st') \<Longrightarrow> ui_step env st st'"

inductive_cases ui_stepE: "ui_step env st st'"

lemma queue_panel: "panel_event e \<Longrightarrow> panel_event (btn_event q) \<Longrightarrow> panel_event (btn_event (queueInputEventI e q))"
  by (simp add: queueInputEventI_def Let_def)

lemma ui_step_inv:
  assumes "ui_step env st st'" and "ui_inv st" and env: "env_ok env"
  shows "ui_inv st'"
  using assms(1)
proof (cases rule: ui_step.cases)
  case (queued e)
  then show ?thesis using assms(2) ui_invD2(4,5) [OF assms(2)] queue_step [of "evts st" 1 e] queue_panel
    by (auto intro!: ui_inv_updates)
next
  case (polled b)
  then show ?thesis using safe_poll [OF env_okD(1) [OF env], of 6] assms(2) by (auto simp: runs_def pollProcessUIEvent_def split: sum.splits)
next
  case painted
  then show ?thesis using thread_outcome(1) [OF assms(2) env] by (simp add: sound_def)
next
  case (patch_loaded v)
  then show ?thesis using assms(2) by (simp add: ui_inv_updates)
next
  case patch_released
  then show ?thesis using assms(2) by (simp add: ui_inv_updates)
next
  case gone_home
  then show ?thesis using safe_go_home assms(2) by (auto simp: runs_def split: sum.splits)
qed

lemma ui_reachable_inv:
  assumes "(ui_step env)\<^sup>*\<^sup>* initial_ui st" and "env_ok env"
  shows "ui_inv st"
  using assms(1) by (induction rule: rtranclp_induct) (auto intro: initial_ui_inv ui_step_inv [OF _ _ assms(2)])

text \<open>The outcomes of a poll.\<close>

lemma poll_outcome:
  assumes "ui_inv st" and "env_ok env"
  shows "(\<exists>b st'. pollProcessUIEvent env st = Inr (b, st')) \<or> pollProcessUIEvent env st = Inl NullCall \<or>
     (\<exists>s. pollProcessUIEvent env st = Inl (SysHalt s))"
proof (cases "pollProcessUIEvent env st")
  case (Inl e)
  then have "e \<notin> nav_faults"
    using runsD [OF safe_poll [OF env_okD(1) [OF assms(2)]], of st 6] assms(1) by (simp add: pollProcessUIEvent_def)
  then show ?thesis using Inl by (cases e) (simp_all add: nav_faults_def)
qed auto

section \<open>Properties\<close>

definition sample_env :: ui_env where
  "sample_env = \<lparr>fs_ready = True, opendir_res = 0, dir_names = [[97], [98]], stat_res = (\<lambda>_. 0), mkfs_res = 0,
     dsp_load = 0, adc = (\<lambda>_. 0), threads = [(None, 0)], fmt_d7 = (\<lambda>_. []), fmt_q27 = (\<lambda>_. []), fmt_hex = (\<lambda>_. []),
     fmt_d3 = (\<lambda>_. []), fmt_bpm = (\<lambda>_. [])\<rparr>"


definition key :: "u8 \<Rightarrow> input_event" where
  "key b = \<lparr>quadrant = quadrant_main, modifiers = 0, evalue = 1, button = b\<rparr>"

lemma sample_env_ok: "env_ok sample_env"
  by (simp add: sample_env_def env_ok_def printable_def small_def int32_def)


section \<open>Every poll ends\<close>

text \<open>Operations that leave the event queue alone.\<close>

abbreviation quiet :: "evt_queue \<Rightarrow> 'a up \<Rightarrow> bool" where
  "quiet q \<equiv> keeps {} (\<lambda>st. evts st = q)"

lemma quiet_upd: "(\<And>st. evts (f st) = evts st) \<Longrightarrow> quiet q (upd_st f)"
  by (rule runs_upd) simp

lemma quiet_lift: "quiet q (lift r)"
  by (rule runs_lift) simp

lemma quiet_stop: "quiet q (stop e)"
  by (rule runs_stop) simp

lemma quiet_draw: "quiet q (draw f)"
  unfolding draw_def by (intro keep quiet_lift quiet_upd) simp

lemma quiet_effect: "quiet q (effect e)"
  unfolding effect_def by (rule quiet_upd) simp

lemma quiet_cc: "quiet q (get_cc f)" "quiet q (upd_cc g)"
  unfolding get_cc_def upd_cc_def by (auto intro!: keep quiet_upd)

lemma quiet_midi: "quiet q (put_midi s a b)"
  unfolding put_midi_def by (rule quiet_upd) (simp split: prod.split)

lemma quiet_signal: "quiet q (chEvtSignal f)"
  unfolding chEvtSignal_def by (rule quiet_upd) simp

lemmas quiet_intros = keep quiet_lift quiet_stop quiet_draw quiet_effect quiet_cc quiet_midi quiet_signal quiet_upd

lemma quiet_top: "quiet q top" "quiet q currentpos" "quiet q (set_currentpos p)"
  unfolding top_def currentpos_def set_currentpos_def by (auto intro!: quiet_intros)

lemma quiet_blank: "quiet q (blank_lines ls s)"
  by (induction ls) (auto intro!: quiet_intros)

lemma quiet_refresh_loop: "quiet q (refresh_loop env launch names i)"
  by (induction names arbitrary: i) (auto intro!: quiet_intros)

lemma quiet_loadpatch: "quiet q (loadpatch_evt env e)"
  unfolding loadpatch_evt_def refresh_def
  by (auto intro!: quiet_intros quiet_blank quiet_refresh_loop simp: Let_def)

lemma quiet_quads: "h \<in> set quads \<Longrightarrow> quiet q (h e)"
  unfolding quads_def
  by (auto simp: handleInputBend_def handleInputChannel_def handleInputOct_def handleInputVelocity_def
      handleInputRVelocity_def handleInputCC_def send_bend_def Let_def intro!: quiet_intros)

lemma quiet_nth: "(\<And>x. x \<in> set xs \<Longrightarrow> quiet q (f x)) \<Longrightarrow> quiet q (bnd (get_cc (\<lambda>d. nth_e xs (i d))) (\<lambda>r. bnd (lift r) f))"
  by (auto simp: runs_def get_cc_def prog_defs nth_e_def split: sum.splits)

lemma quiet_midicc: "quiet q (midicc_evt e)"
  unfolding midicc_evt_def key_down_def key_up_def Let_def
  by (auto intro!: quiet_nth quiet_quads quiet_intros)

lemma quiet_custom: "quiet q (custom_evt env p e)"
  by (cases p) (auto simp: midiclock_evt_def adjustBPM_def doStartStop_def processes_evt_def test_evt_def Let_def
      intro!: quiet_loadpatch quiet_midicc quiet_intros)

lemma quiet_enter: "quiet q (ui_enter_node n)"
  unfolding ui_enter_node_def by (auto intro!: quiet_intros)

lemma quiet_patch: "quiet q patch_getNParams" "quiet q (patch_getParam i)" "quiet q (patch_setParam i x)"
  unfolding patch_getNParams_def patch_getParam_def patch_setParam_def instance_of_def
  by (auto intro!: quiet_intros)

lemma quiet_scroll: "quiet q c \<Longrightarrow> quiet q (scroll_by_4 e c)"
  unfolding scroll_by_4_def by (auto intro!: quiet_intros quiet_top)

lemma quiet_action: "quiet q (run_action env a)"
  by (cases a) (auto intro!: quiet_intros quiet_enter)

lemma quiet_handle: "quiet q (handle_evt env n e)"
proof (cases n)
  case (Node_List s ns)
  then show ?thesis
    by (auto simp: node_list_evt_def list_nav_up_def list_nav_down_def intro!: quiet_intros quiet_top quiet_enter)
next
  case (Param_List s)
  then show ?thesis
    by (auto simp: param_list_evt_def Let_def intro!: quiet_intros quiet_top quiet_scroll quiet_patch)
next
  case (Object_List s)
  then show ?thesis by (auto simp: object_list_evt_def intro!: quiet_intros quiet_top quiet_scroll)
next
  case (Action_Function s f)
  then show ?thesis by (auto simp: action_evt_def intro!: quiet_intros quiet_action)
qed (auto intro!: quiet_intros quiet_custom)

lemma quiet_process: "quiet q (processUIEvent env e)"
  unfolding processUIEvent_def nav_Back_def by (auto intro!: quiet_intros quiet_top quiet_handle)

definition waiting :: "evt_queue \<Rightarrow> nat" where
  "waiting q = (if btn_event q = no_event then 0 else 1) + length (filter (\<lambda>e. evalue e \<noteq> 0) (enc_event q))"

lemma take_one:
  assumes "queue_inv q" and "getEvent q = (e, q')"
  shows "if e = no_event then waiting q = 0 \<and> q' = q else waiting q = Suc (waiting q')"
proof -
  obtain a b c d where q: "enc_event q = [a, b, c, d]" "\<not> accumulates (btn_event q)"
    "button a = btn_encoder" "button b = btn_encoder" "button c = btn_encoder" "button d = btn_encoder"
    "quadrant a = 1" "quadrant b = 2" "quadrant c = 3" "quadrant d = 4"
    using queue_inv_cases [OF assms(1)] by blast
  have n: "x \<noteq> no_event" if "button x = btn_encoder" for x using that by (auto simp: no_event_def)
  show ?thesis
  proof (cases "btn_event q = no_event")
    case False
    then have "e = btn_event q" "q' = q\<lparr>btn_event := no_event\<rparr>"
      using assms(2) by (simp_all add: getEvent_def evt_word_0)
    then show ?thesis using False by (simp add: waiting_def)
  next
    case True
    then have "enc_loop [0, 1, 2, 3] q = (e, q')" using assms(2) by (simp add: getEvent_def evt_word_0)
    then show ?thesis using q True n
      by (auto simp: waiting_def Let_def split: if_splits)
  qed
qed

lemma waiting_bound: "queue_inv q \<Longrightarrow> waiting q \<le> 5"
proof -
  assume "queue_inv q"
  then have "length (enc_event q) = 4" by (simp add: queue_inv_def)
  then show ?thesis using length_filter_le [of "\<lambda>e. evalue e \<noteq> 0" "enc_event q"] by (simp add: waiting_def)
qed

text \<open>With more fuel than waiting events the loop does not run out of it.\<close>

lemma poll_loop_ends:
  assumes "queue_inv (evts st)" and "waiting (evts st) < k" and "waiting (evts st) < m"
  shows "poll_loop env k st = poll_loop env m st \<and>
    (case poll_loop env k st of Inl e \<Rightarrow> True | Inr (b, st') \<Rightarrow> b \<and> waiting (evts st') = 0)"
  using assms
proof (induction k arbitrary: st m)
  case 0
  then show ?case by simp
next
  case (Suc k)
  obtain n where m: "m = Suc n" using Suc.prems(3) by (cases m) simp_all
  obtain e q where g: "getEvent (evts st) = (e, q)" by (cases "getEvent (evts st)")
  note t = take_one [OF Suc.prems(1) g]
  let ?st = "st\<lparr>evts := q\<rparr>"
  have step: "poll_loop env (Suc j) st =
      (if e = no_event then Inr (True, ?st) else bnd (processUIEvent env e) (\<lambda>_. poll_loop env j) ?st)" for j
    using g by (simp add: bnd_def takeEvent_def evt_word_0 ret_def)
  show ?case
  proof (cases "e = no_event")
    case True
    then show ?thesis using t by (simp add: m step del: poll_loop.simps)
  next
    case False
    show ?thesis
    proof (cases "processUIEvent env e ?st")
      case (Inl f)
      then show ?thesis using False by (simp add: m step bnd_def del: poll_loop.simps)
    next
      case (Inr r)
      obtain u st1 where r: "r = (u, st1)" by (cases r)
      have "evts st1 = q" using runsD [OF quiet_process [of q env e], of ?st] Inr r by simp
      moreover have "queue_inv q" using take_step [OF Suc.prems(1) _ g, of 1] by simp
      moreover have "waiting q < k" "waiting q < n" using t False Suc.prems(2,3) m by simp_all
      ultimately have ih: "poll_loop env k st1 = poll_loop env n st1"
          "case poll_loop env n st1 of Inl e \<Rightarrow> True | Inr (b, st') \<Rightarrow> b \<and> waiting (evts st') = 0"
        using Suc.IH [of st1 n] by (metis, metis)
      show ?thesis using ih Inr r False by (simp add: m step bnd_def del: poll_loop.simps)
    qed
  qed
qed



section \<open>Pages of a patch that is not there\<close>

fun run_events :: "ui_env \<Rightarrow> input_event list \<Rightarrow> unit up" where
  "run_events env [] = ret ()"
| "run_events env (e # es) = bnd (processUIEvent env e) (\<lambda>_. run_events env es)"

text \<open>Down in a list, and Enter on a page of it.\<close>

lemma step_down:
  assumes inv: "ui_inv st" and n: "fst (entry st) = Node_List s nodes" and "snd (entry st) + 1 < int (length nodes)"
  shows "\<exists>st'. processUIEvent env (key btn_down) st = Inr ((), st') \<and> ui_inv st' \<and>
    entry st' = (Node_List s nodes, snd (entry st) + 1) \<and> patch0 st' = patch0 st"
proof -
  obtain p where e: "entry st = (Node_List s nodes, p)" using n by (cases "entry st") simp
  have p: "0 \<le> p" using ui_invD(4) [OF inv] e by auto
  let ?m = "move (p + 1) st"
  let ?st' = "?m\<lparr>dirty := dirty st OR lcd_dirty_flag_listnav\<rparr>"
  have "ui_inv ?m" using p e assms(3) by (intro move_inv [OF inv]) simp
  moreover have "entry ?st' = (Node_List s nodes, p + 1)"
    using ui_invD(1) [OF inv] e by (simp add: entry_def depth_def move_def)
  moreover have "processUIEvent env (key btn_down) st = Inr ((), ?st')"
    using e assms(3) by (simp add: processUIEvent_def top_run [OF inv] node_list_evt_def
        list_nav_down_def currentpos_run [OF inv] evtIsUp_def evtIsDown_def key_def set_run [OF inv] lcd_dirty_flag_listnav_def chEvtSignal_def prog_defs move_def)
  ultimately show ?thesis using e by (auto simp: move_def)
qed

lemma step_enter:
  assumes inv: "ui_inv st" and e: "entry st = (Node_List s nodes, p)" and p: "0 \<le> p" "p < int (length nodes)"
  shows "\<exists>st'. processUIEvent env (key btn_E) st = Inr ((), st') \<and> ui_inv st' \<and>
    entry st' = (nodes ! nat p, 0) \<and> patch0 st' = patch0 st"
proof -
  have "opens (entry st) (nodes ! nat p)" using e p by simp
  from enter_run [OF inv this] obtain st1 where st1: "ui_enter_node (nodes ! nat p) st = Inr (- 1, st1)"
    "ui_inv st1" "entry st1 = (nodes ! nat p, 0)" by blast
  let ?st' = "st1\<lparr>dirty := dirty st1 OR - 1\<rparr>"
  have "nodes \<noteq> []" using p by auto
  then have "processUIEvent env (key btn_E) st = Inr ((), ?st')"
    using e p st1(1) by (simp add: processUIEvent_def top_run [OF inv] node_list_evt_def
        currentpos_run [OF inv] evtIsUp_def evtIsDown_def evtIsEnter_def key_def
        chEvtSignal_def prog_defs)
  moreover have "patch0 st1 = patch0 st" using st1(1)
    by (auto simp: ui_enter_node_def draw_def prog_defs split: if_splits sum.splits)
  moreover have "entry ?st' = entry st1" by (simp add: entry_def depth_def)
  ultimately show ?thesis using st1(2,3) by auto
qed

text \<open>
  After power-up, before any patch is loaded, opening the page of parameters (two steps down in
  the main menu and Enter) and turning any encoder or pressing Down calls a function through the null
  pointer of the missing instance.
\<close>

lemma params_page_without_patch:
  assumes "evalue e \<noteq> 0" and "quadrant e \<noteq> quadrant_main \<or> button e = btn_down"
  shows "run_events env [key btn_down, key btn_down, key btn_E, e] initial_ui = Inl NullCall"
proof -
  have l: "int (length MainMenu) = 12" and n: "MainMenu ! 2 = Param_List ''Params''" by (simp_all add: MainMenu_def)
  have "entry initial_ui = (Node_List ''--- AXOLOTI ---'' MainMenu, 0)" "patch0 initial_ui = None"
    by (simp_all add: entry_def depth_def initial_ui_def RootMenu_def)
  then obtain st1 where 1: "processUIEvent env (key btn_down) initial_ui = Inr ((), st1)" "ui_inv st1"
      "entry st1 = (Node_List ''--- AXOLOTI ---'' MainMenu, 1)" "patch0 st1 = None"
    using step_down [OF initial_ui_inv, of "''--- AXOLOTI ---''" MainMenu env] l by auto
  then obtain st2 where 2: "processUIEvent env (key btn_down) st1 = Inr ((), st2)" "ui_inv st2"
      "entry st2 = (Node_List ''--- AXOLOTI ---'' MainMenu, 2)" "patch0 st2 = None"
    using step_down [OF 1(2), of "''--- AXOLOTI ---''" MainMenu env] l by auto
  then obtain st3 where 3: "processUIEvent env (key btn_E) st2 = Inr ((), st3)" "ui_inv st3"
      "entry st3 = (Param_List ''Params'', 0)" "patch0 st3 = None"
    using step_enter [OF 2(2,3), of env] l n by auto
  have "param_list_evt e st3 = Inl NullCall"
    using assms 3 by (auto simp: param_list_evt_def scroll_by_4_def Let_def
        currentpos_run [OF 3(2)] bnd_def nparams_run)
  then have "processUIEvent env e st3 = Inl NullCall"
    using 3(3) by (simp add: processUIEvent_def bnd_def top_run [OF 3(2)])
  then show ?thesis by (simp add: bnd_Inr [of "processUIEvent env (key btn_down)", OF 1(1)]
      bnd_Inr [of "processUIEvent env (key btn_down)", OF 2(1)] bnd_Inr [of "processUIEvent env (key btn_E)", OF 3(1)])
      (simp add: bnd_def)
qed

lemma params_page_without_patch_witness:
  "run_events sample_env [key btn_down, key btn_down, key btn_E, turn 1 1] initial_ui = Inl NullCall"
  by (rule params_page_without_patch) (simp_all add: turn_def)

section \<open>Painting\<close>




definition sample_patch :: patch_view where
  "sample_patch = \<lparr>pv_params = [\<lparr>ptype = param_type_int, signals = 0, pfun = None, finalvalue = 5, pvalue = 5, modvalue = 5,
     minimum = 0, maximum = 7\<rparr>], pv_names = [[97]]\<rparr>"


text \<open>
  On the test page, one step left of an encoder that stands at 0 makes the painting thread draw the
  character 255, for which the font has no glyph: it reads behind the font.
\<close>

lemma test_page_reads_behind_font:
  assumes "ui_inv st" and "quadrant e \<in> {1, 2, 3, 4}" and "button e = btn_encoder" and "evalue e = - 1"
    and "vals st ! (unat (quadrant e) - 1) = 0"
  shows "bnd (test_evt e) paint_test st = Inl OutOfBounds"
proof -
  let ?k = "unat (quadrant e) - 1"
  let ?st = "st\<lparr>vals := (vals st)[?k := 255]\<rparr>"
  have minus_one: "(- 1 :: u8) = 255" by simp
  have k: "?k < length (vals st)" using assms(2) ui_invD2(2) [OF assms(1)] by auto
  have inv: "ui_inv ?st" using ui_inv_updates(3) [OF assms(1)] ui_invD2(2) [OF assms(1)] by simp
  have "test_evt e st = Inr (lcd_dirty_flag_usr ?k, ?st)"
    using assms(2-5) minus_one by (simp add: test_evt_def Let_def prog_defs)
  then have run: "bnd (test_evt e) paint_test st = paint_test (lcd_dirty_flag_usr ?k) ?st"
    by (rule bnd_Inr)
  have stops: "paint_encoder ?k x1 x2 line ?st = Inl OutOfBounds"
    if x: "x1 \<in> {10, 44}" "x2 \<in> {10, 40}" "line \<in> {2, 4}" for x1 x2 line
  proof -
    let ?r = "rest ?st"
    have ring: "paints UNIV ?r (gfx_setEncoderOne ?k (int (unat (255 :: u8)) mod 16))"
      using assms(2) by (intro paint_ring) auto
    have num: "paints UNIV ?r (draw (LCD_drawNumber3D x1 line (int (unat (255 :: u8)))))"
      using x by (intro paint_number_3 small_byte) auto
    obtain st1 where 1: "gfx_setEncoderOne ?k (int (unat (255 :: u8)) mod 16) ?st = Inr ((), st1)" "ui_inv st1" "rest st1 = ?r"
      using runsD [OF ring, of ?st] inv by (auto split: sum.splits)
    obtain st2 where 2: "draw (LCD_drawNumber3D x1 line (int (unat (255 :: u8)))) st1 = Inr ((), st2)"
      using runsD [OF num, of st1] 1(2,3) by (auto split: sum.splits)
    have "draw (LCD_drawChar x2 (line + 1) 255) st2 = Inl OutOfBounds"
      using x(2,3) by (auto simp: draw_def prog_defs LCD_drawChar_def draw_char_def LCDWIDTH_def LCDROWS_def
          glyph_bytes_def glyph_def nth_e_def length_font)
    then show ?thesis unfolding paint_encoder_def using 1(1) 2 k by (simp add: prog_defs)
  qed
  show ?thesis unfolding run using stops assms(2) by (auto simp: paint_test_def lcd_dirty_flag_usr_def lcd_dirty_flag_initial_def)
qed

lemma test_page_reads_behind_font_witness:
  "bnd (test_evt (turn 1 (- 1))) paint_test initial_ui = Inl OutOfBounds"
  by (rule test_page_reads_behind_font [OF initial_ui_inv]) (simp_all add: turn_def initial_ui_def)

end
