(* ===== verification/Spilink.thy ===== *)
theory Spilink
  imports Ui_State
begin

text \<open>
  The link between two boards over SPI (firmware/spilink.c, spilink\_lld.h, spidb.c, spidb.h). Both
  sides exchange packets of fixed size in two alternating buffers. The master (the synthesizer)
  sends pieces of its screen and LEDs with each packet and receives input events of the control
  board. A packet is sent and received by DMA while the processor works on the same buffer: the model
  takes the values written before the transfer ends as sent, and hands the received packet to the
  processor when the buffer comes up again.
\<close>

section \<open>Packets\<close>

record spilink_data =
  header :: u32
  frameno :: u32
  audio_io :: "u32 list list"
  control_type :: u32
  control_data :: "u8 list"
  midi1 :: u32
  midi2 :: u32
  footer :: u32

definition SPILINK_BUFSIZE :: nat where "SPILINK_BUFSIZE = 16"
definition SPILINK_CHANNELS :: nat where "SPILINK_CHANNELS = 4"
definition SPILINK_CTLDATASIZE :: nat where "SPILINK_CTLDATASIZE = 16"
definition SPILINK_HEADER :: u32 where "SPILINK_HEADER = 0x6F3C4178"
definition SPILINK_FOOTER :: u32 where "SPILINK_FOOTER = 0x6F3E4178"

definition framed :: "spilink_data \<Rightarrow> bool" where
  "framed d \<longleftrightarrow> header d = SPILINK_HEADER \<and> footer d = SPILINK_FOOTER"

definition filled :: "u32 \<Rightarrow> u32 list list" where
  "filled v = replicate SPILINK_CHANNELS (replicate SPILINK_BUFSIZE v)"

section \<open>State\<close>

text \<open>
  Where the audio code finds the samples: in one of the two buffers, or at the address in flash that
  stands for no signal. The field transfers lists the buffer of every exchange started.
\<close>

datatype samples_at = Rx_Buffer nat | Tx_Buffer nat | Flash_0x080F0000

record spilink =
  spilink_toggle :: bool
  spilink_master_active :: bool
  spilink_tx :: "spilink_data list"
  spilink_rx :: "spilink_data list"
  spilink_rx_samples :: samples_at
  spilink_tx_samples :: samples_at
  frame_count :: u32
  spilink_update_index :: int
  lcd_update_index :: int
  transfers :: "nat list"
  resyncs :: nat

definition zero_packet :: spilink_data where
  "zero_packet = \<lparr>header = 0, frameno = 0, audio_io = filled 0, control_type = 0,
     control_data = replicate SPILINK_CTLDATASIZE 0, midi1 = 0, midi2 = 0, footer = 0\<rparr>"

definition init_tx :: "nat \<Rightarrow> spilink_data \<Rightarrow> spilink_data" where
  "init_tx i d = d\<lparr>header := SPILINK_HEADER, footer := SPILINK_FOOTER, audio_io := filled (of_nat i + 1),
     control_data := replicate SPILINK_CTLDATASIZE 0\<rparr>"

definition init_rx :: "nat \<Rightarrow> spilink_data \<Rightarrow> spilink_data" where
  "init_rx i d = d\<lparr>audio_io := filled (of_nat i), control_data := replicate SPILINK_CTLDATASIZE 0\<rparr>"

text \<open>spidbMasterStart then clears as many bytes as one packet has: the first reception buffer.\<close>

definition spidbMasterStart :: "spilink \<Rightarrow> spilink" where
  "spidbMasterStart st = st\<lparr>spilink_rx := (spilink_rx st)[0 := zero_packet]\<rparr>"

definition spilink_init :: "bool \<Rightarrow> spilink \<Rightarrow> spilink" where
  "spilink_init isMaster st =
     (let st = st\<lparr>spilink_tx := [init_tx 0 (spilink_tx st ! 0), init_tx 1 (spilink_tx st ! 1)],
        spilink_rx := [init_rx 0 (spilink_rx st ! 0), init_rx 1 (spilink_rx st ! 1)],
        spilink_rx_samples := Rx_Buffer 0, spilink_tx_samples := Tx_Buffer 0\<rparr>
      in if isMaster then (spidbMasterStart (st\<lparr>spilink_toggle := False\<rparr>))\<lparr>spilink_master_active := True\<rparr> else st)"

definition spilink_clear_audio_tx :: "spilink \<Rightarrow> spilink" where
  "spilink_clear_audio_tx st =
     st\<lparr>spilink_tx := map (\<lambda>(i, d). d\<lparr>audio_io := filled (of_nat i + 1)\<rparr>) (enumerate 0 (spilink_tx st))\<rparr>"

text \<open>The variables at power-up.\<close>

definition link_boot :: spilink where
  "link_boot = \<lparr>spilink_toggle = False, spilink_master_active = False, spilink_tx = [zero_packet, zero_packet],
     spilink_rx = [zero_packet, zero_packet], spilink_rx_samples = Rx_Buffer 0, spilink_tx_samples = Tx_Buffer 0,
     frame_count = 0, spilink_update_index = 0, lcd_update_index = 0, transfers = [], resyncs = 0\<rparr>"

section \<open>The master\<close>

text \<open>
  Every eighth packet carries LEDs, the rings and the others in turn; the other packets carry the
  64 pieces of the screen, one after the other.
\<close>

definition control_packet :: "u32 list \<Rightarrow> lcd \<Rightarrow> int \<Rightarrow> int \<Rightarrow> int \<times> int \<times> u32 \<times> u8 list" where
  "control_packet ls lcd u l =
     (let u = wrap32 (u + 1) in
      if u mod 8 = 0 then
        if u mod 16 = 8 then (u, l, 0x200, concat (map le32_bytes (take 4 ls)))
        else (u, l, 0x201, concat (map le32_bytes [ls ! 4, ls ! 5, 0, 0]))
      else
        let l = (l + 1) mod 64 in
        (u, l, 0x100 + word_of_int l, take SPILINK_CTLDATASIZE (drop (16 * nat l) lcd)))"

definition event_of_data :: "u8 list \<Rightarrow> input_event" where
  "event_of_data d = \<lparr>quadrant = d ! 0, modifiers = d ! 1, evalue = d ! 2, button = d ! 3\<rparr>"

definition receive_event :: "spilink_data \<Rightarrow> evt_queue \<Rightarrow> evt_queue" where
  "receive_event r q =
     (if control_type r = 0x80 then
        let e = event_of_data (control_data r) in if evt_word e \<noteq> 0 then queueInputEventI e q else q
      else q)"

text \<open>spidbMasterExchangeI starts the exchange of the buffer the toggle chooses.\<close>

definition half :: "bool \<Rightarrow> nat" where
  "half t = (if t then 0 else 1)"

definition spidbMasterExchangeI :: "bool \<Rightarrow> spilink \<Rightarrow> spilink" where
  "spidbMasterExchangeI t st = st\<lparr>transfers := transfers st @ [half t]\<rparr>"

definition spilink_master_process1 ::
  "u32 list \<Rightarrow> lcd \<Rightarrow> nat \<Rightarrow> spilink \<times> evt_queue \<Rightarrow> spilink \<times> evt_queue" where
  "spilink_master_process1 ls lcd k = (\<lambda>(st, q).
     (case control_packet ls lcd (spilink_update_index st) (lcd_update_index st) of (u, l, t, d) \<Rightarrow>
        (st\<lparr>spilink_update_index := u, lcd_update_index := l,
            spilink_tx := (spilink_tx st)[k := (spilink_tx st ! k)\<lparr>control_type := t, control_data := d\<rparr>]\<rparr>,
         receive_event (spilink_rx st ! k) q)))"

text \<open>The check of the received frame looks at the first buffer, whichever buffer is due.\<close>

definition spilink_master_process :: "u32 list \<Rightarrow> lcd \<Rightarrow> spilink \<times> evt_queue \<Rightarrow> spilink \<times> evt_queue" where
  "spilink_master_process ls lcd = (\<lambda>(st, q).
     if \<not> spilink_master_active st then (st, q)
     else
       let t = (\<not> spilink_toggle st); k = half t;
           st = spidbMasterExchangeI t (st\<lparr>spilink_toggle := t\<rparr>);
           st = st\<lparr>spilink_tx := (spilink_tx st)[k := (spilink_tx st ! k)\<lparr>frameno := frame_count st\<rparr>],
             frame_count := frame_count st + 1,
             spilink_rx_samples := (if framed (spilink_rx st ! 0) then Rx_Buffer k else Flash_0x080F0000),
             spilink_tx_samples := Tx_Buffer k\<rparr>
       in spilink_master_process1 ls lcd k (st, q))"

section \<open>The slave\<close>

definition spidbSlaveResync :: "spilink \<Rightarrow> spilink" where
  "spidbSlaveResync st = st\<lparr>resyncs := resyncs st + 1\<rparr>"

definition half_transfer_complete :: u32 where "half_transfer_complete = 1"
definition full_transfer_complete :: u32 where "full_transfer_complete = 2"

text \<open>The interrupt of the reception turns the flags of the DMA controller into an event of the thread.\<close>

definition dma_spidb_slave_interrupt :: "bool \<Rightarrow> bool \<Rightarrow> u32 \<Rightarrow> u32" where
  "dma_spidb_slave_interrupt tcif htif events =
     (if tcif then events OR full_transfer_complete
      else if htif then events OR half_transfer_complete
      else events)"

text \<open>One pass of the thread, for the events it was woken with; none is a timeout.\<close>

definition ThreadSpilinkSlave :: "u32 \<Rightarrow> spilink \<Rightarrow> spilink" where
  "ThreadSpilinkSlave m st =
     (if m = 0 then
        spidbSlaveResync (st\<lparr>spilink_rx := map (\<lambda>(i, d). d\<lparr>audio_io := filled (of_nat i + 2)\<rparr>) (enumerate 0 (spilink_rx st))\<rparr>)
      else if m AND half_transfer_complete \<noteq> 0 then
        let st = st\<lparr>spilink_toggle := False\<rparr> in
        if header (spilink_rx st ! 0) \<noteq> SPILINK_HEADER then spidbSlaveResync st else st
      else if m AND full_transfer_complete \<noteq> 0 then
        (if header (spilink_rx st ! 0) \<noteq> SPILINK_HEADER then spidbSlaveResync st else st)\<lparr>spilink_toggle := True\<rparr>
      else if m AND 4 \<noteq> 0 then spidbSlaveResync st
      else st)"

definition spilink_slave_process :: "spilink \<Rightarrow> spilink" where
  "spilink_slave_process st =
     (let k = half (spilink_toggle st);
          st = (if framed (spilink_rx st ! k) then st\<lparr>spilink_rx_samples := Rx_Buffer k\<rparr> else st)
      in st\<lparr>spilink_tx_samples := Tx_Buffer k\<rparr>)"

section \<open>Exchanges\<close>

text \<open>
  One exchange: the interrupt runs, then the DMA stores the packet of the other side. The packet
  that goes out is the transmission buffer. An input is the LEDs and the screen at the interrupt and
  the packet of the other side.
\<close>

fun link_run :: "(u32 list \<times> lcd \<times> spilink_data) list \<Rightarrow> spilink \<times> evt_queue \<Rightarrow> spilink_data list \<times> spilink \<times> evt_queue" where
  "link_run [] s = ([], s)"
| "link_run ((ls, lcd, p) # xs) s =
     (case spilink_master_process ls lcd s of (st, q) \<Rightarrow>
        let k = half (spilink_toggle st); st' = st\<lparr>spilink_rx := (spilink_rx st)[k := p]\<rparr>
        in (case link_run xs (st', q) of (out, s') \<Rightarrow> (spilink_tx st ! k # out, s')))"

definition link_ok :: "spilink \<Rightarrow> bool" where
  "link_ok st \<longleftrightarrow> spilink_master_active st \<and> length (spilink_tx st) = 2 \<and> length (spilink_rx st) = 2 \<and>
     0 \<le> lcd_update_index st \<and> lcd_update_index st < 64"

lemma half_simps [simp]: "half t < 2" "half t < Suc (Suc 0)" "half (\<not> t) = 1 - half t" "half t \<le> 1"
  by (simp_all add: half_def)

lemma control_packet_index:
  "control_packet ls lcd u l = (u', l', c) \<Longrightarrow> 0 \<le> l \<Longrightarrow> l < 64 \<Longrightarrow> 0 \<le> l' \<and> l' < 64"
  by (auto simp: control_packet_def Let_def split: if_splits)

text \<open>One exchange in terms of the control part of the packet.\<close>

lemma exchange:
  assumes "link_ok st" and "control_packet ls lcd (spilink_update_index st) (lcd_update_index st) = (u, l, t, d)"
    and "spilink_master_process ls lcd (st, q) = (st1, qa)"
    and "st2 = st1\<lparr>spilink_rx := (spilink_rx st1)[half (spilink_toggle st1) := p]\<rparr>"
  shows "link_ok st2" "spilink_toggle st1 = (\<not> spilink_toggle st)" "spilink_toggle st2 = (\<not> spilink_toggle st)"
    "spilink_update_index st2 = u" "lcd_update_index st2 = l"
    "control_type (spilink_tx st1 ! half (spilink_toggle st1)) = t"
    "control_data (spilink_tx st1 ! half (spilink_toggle st1)) = d"
    "qa = receive_event (spilink_rx st ! half (\<not> spilink_toggle st)) q"
    "spilink_rx st2 = (spilink_rx st)[half (\<not> spilink_toggle st) := p]"
  using assms control_packet_index [OF assms(2)]
  by (auto simp: link_ok_def spilink_master_process_def spilink_master_process1_def spidbMasterExchangeI_def Let_def
      simp del: half_simps(3))

section \<open>What the other side can show\<close>

text \<open>
  The copy of the screen and the LEDs that the packets describe: a receiver that stores the data of
  each packet at the place its type names.
\<close>

record panel =
  screen :: "u8 list"
  rings :: "u8 list"
  others :: "u8 list"

definition show_packet :: "spilink_data \<Rightarrow> panel \<Rightarrow> panel" where
  "show_packet p c =
     (if control_type p = 0x200 then c\<lparr>rings := control_data p\<rparr>
      else if control_type p = 0x201 then c\<lparr>others := control_data p\<rparr>
      else if 0x100 \<le> control_type p \<and> control_type p < 0x140 then
        let i = 16 * (unat (control_type p) - 0x100) in
        c\<lparr>screen := take i (screen c) @ control_data p @ drop (i + 16) (screen c)\<rparr>
      else c)"

definition block :: "nat \<Rightarrow> 'a list \<Rightarrow> 'a list" where
  "block b xs = take 16 (drop (16 * b) xs)"

lemma screen_type:
  assumes "0 \<le> l" and "l < 64"
  shows "unat (0x100 + word_of_int l :: u32) = 0x100 + nat l" "0x100 \<le> (0x100 + word_of_int l :: u32)"
    "(0x100 + word_of_int l :: u32) < 0x140" "(0x100 + word_of_int l :: u32) \<noteq> 0x200" "(0x100 + word_of_int l :: u32) \<noteq> 0x201"
proof -
  have "unat (word_of_int l :: u32) = nat l" using assms by (simp add: unsigned_of_int take_bit_int_eq_self)
  then show u: "unat (0x100 + word_of_int l :: u32) = 0x100 + nat l" using assms by (simp add: unat_word_ariths)
  show "0x100 \<le> (0x100 + word_of_int l :: u32)" "(0x100 + word_of_int l :: u32) < 0x140"
    using u assms by (simp_all add: word_le_nat_alt word_less_nat_alt)
  show "(0x100 + word_of_int l :: u32) \<noteq> 0x200" "(0x100 + word_of_int l :: u32) \<noteq> 0x201"
    using u assms by (auto dest: arg_cong [where f = unat])
qed

lemma length_block: "length xs = 1024 \<Longrightarrow> b < 64 \<Longrightarrow> length (block b xs) = 16"
  by (simp add: block_def)

lemma nth_block: "length xs = 1024 \<Longrightarrow> b < 64 \<Longrightarrow> i < 16 \<Longrightarrow> block b xs ! i = xs ! (16 * b + i)"
  by (simp add: block_def)

lemma block_replace:
  assumes "length xs = 1024" and "length d = 16" and "b < 64" and "b' < 64"
  shows "block b' (take (16 * b) xs @ d @ drop (16 * b + 16) xs) = (if b' = b then d else block b' xs)"
proof (rule nth_equalityI)
  let ?ys = "take (16 * b) xs @ d @ drop (16 * b + 16) xs"
  have len: "length ?ys = 1024" using assms by simp
  then show "length (block b' ?ys) = length (if b' = b then d else block b' xs)"
    using assms by (simp add: length_block del: length_append)
  fix i
  assume "i < length (block b' ?ys)"
  then have i: "i < 16" using len assms(4) by (simp only: length_block)
  have "?ys ! (16 * b' + i) = (if b' = b then d ! i else xs ! (16 * b' + i))"
    using assms i by (auto simp: nth_append)
  then show "block b' ?ys ! i = (if b' = b then d else block b' xs) ! i"
    unfolding nth_block [OF len assms(4) i] using nth_block [OF assms(1,4) i] by simp
qed

lemma blocks_equal:
  assumes "length xs = 1024" and "length ys = 1024" and "\<And>b. b < 64 \<Longrightarrow> block b xs = block b ys"
  shows "xs = ys"
proof (rule nth_equalityI)
  fix i
  assume "i < length xs"
  then have b: "i div 16 < 64" using assms(1) by (simp add: less_mult_imp_div_less)
  have "block (i div 16) zs ! (i mod 16) = zs ! i" if "length zs = 1024" for zs :: "'a list"
    using nth_block [OF that b, of "i mod 16"] by simp
  then show "xs ! i = ys ! i" using assms(1,2) assms(3) [OF b] by metis
qed (use assms in simp)

text \<open>The number of screen packets in the next n exchanges.\<close>

fun lcd_packets :: "int \<Rightarrow> nat \<Rightarrow> nat" where
  "lcd_packets u 0 = 0"
| "lcd_packets u (Suc n) = (if (u + 1) mod 8 = 0 then 0 else 1) + lcd_packets (u + 1) n"

lemma lcd_packets_mod: "u mod 8 = v mod 8 \<Longrightarrow> lcd_packets u n = lcd_packets v n"
proof (induction n arbitrary: u v)
  case (Suc n)
  have m: "(u + 1) mod 8 = (v + 1) mod 8" using mod_add_cong [OF Suc.prems refl] .
  show ?case unfolding lcd_packets.simps m Suc.IH [OF m] by (rule refl)
qed simp

lemma lcd_packets_count: "int (lcd_packets u n) = int n - (u mod 8 + int n) div 8"
proof (induction n arbitrary: u)
  case (Suc n)
  define r where "r = u mod 8"
  have r: "0 \<le> r" "r < 8" by (simp_all add: r_def)
  have "(u + 1) mod 8 = (r + 1) mod 8" by (simp add: r_def mod_add_left_eq)
  then have m: "(u + 1) mod 8 = (if r = 7 then 0 else r + 1)" using r by simp
  have "int (lcd_packets u (Suc n)) = (if (u + 1) mod 8 = 0 then 0 else 1) + (int n - ((u + 1) mod 8 + int n) div 8)"
    using Suc.IH [of "u + 1"] by simp
  then show ?case unfolding m r_def [symmetric] using r by (auto split: if_splits)
qed simp

lemma wrap32_mod16: "wrap32 x mod 16 = x mod 16"
proof -
  have "wrap32 x mod 2 ^ 32 mod 16 = x mod 2 ^ 32 mod 16" using wrap32_mod [of x] by simp
  then show ?thesis by (simp add: mod_mod_cancel)
qed

definition rings_of :: "u32 list \<Rightarrow> u8 list" where
  "rings_of ls = concat (map le32_bytes (take 4 ls))"

definition others_of :: "u32 list \<Rightarrow> u8 list" where
  "others_of ls = concat (map le32_bytes [ls ! 4, ls ! 5, 0, 0])"

lemma show_step:
  assumes "control_packet ls lcd u l = (u', l', t, d)" and "control_type p = t" and "control_data p = d"
    and "0 \<le> l" and "l < 64" and "length lcd = 1024" and "length (screen c) = 1024"
  shows "u' mod 16 = (u + 1) mod 16"
    and "(u + 1) mod 8 = 0 \<Longrightarrow> l' = l \<and> screen (show_packet p c) = screen c \<and>
      rings (show_packet p c) = (if (u + 1) mod 16 = 8 then rings_of ls else rings c) \<and>
      others (show_packet p c) = (if (u + 1) mod 16 = 8 then others c else others_of ls)"
    and "(u + 1) mod 8 \<noteq> 0 \<Longrightarrow> l' = (l + 1) mod 64 \<and> rings (show_packet p c) = rings c \<and>
      others (show_packet p c) = others c \<and> length (screen (show_packet p c)) = 1024 \<and>
      (\<forall>b < 64. block b (screen (show_packet p c)) = (if b = nat l' then block b lcd else block b (screen c)))"
proof -
  have m: "wrap32 (u + 1) mod 16 = (u + 1) mod 16" by (rule wrap32_mod16)
  then have m8: "wrap32 (u + 1) mod 8 = (u + 1) mod 8" by (metis mod_mod_cancel dvd_def mult_2_right numeral_Bit0)
  show "u' mod 16 = (u + 1) mod 16"
    using assms(1) m by (auto simp: control_packet_def Let_def split: if_splits)
  show "l' = l \<and> screen (show_packet p c) = screen c \<and>
      rings (show_packet p c) = (if (u + 1) mod 16 = 8 then rings_of ls else rings c) \<and>
      others (show_packet p c) = (if (u + 1) mod 16 = 8 then others c else others_of ls)" if "(u + 1) mod 8 = 0"
    using that assms(1-3) m m8
    by (auto simp: control_packet_def Let_def show_packet_def rings_of_def others_of_def split: if_splits)
  show "l' = (l + 1) mod 64 \<and> rings (show_packet p c) = rings c \<and>
      others (show_packet p c) = others c \<and> length (screen (show_packet p c)) = 1024 \<and>
      (\<forall>b < 64. block b (screen (show_packet p c)) = (if b = nat l' then block b lcd else block b (screen c)))"
    if "(u + 1) mod 8 \<noteq> 0"
  proof -
    let ?l = "(l + 1) mod 64"
    have l: "0 \<le> ?l" "?l < 64" by simp_all
    have p: "l' = ?l" "control_type p = 0x100 + word_of_int ?l" "control_data p = block (nat ?l) lcd"
      using that assms(1-3) m8 by (auto simp: control_packet_def Let_def SPILINK_CTLDATASIZE_def block_def)
    have d: "length (block (nat ?l) lcd) = 16" using l assms(6) by (simp add: block_def nat_less_iff)
    have i: "16 * (unat (control_type p) - 0x100) = 16 * nat ?l" using screen_type(1) [OF l] p(2) by simp
    have shown: "show_packet p c = c\<lparr>screen := take (16 * nat ?l) (screen c) @ block (nat ?l) lcd @ drop (16 * nat ?l + 16) (screen c)\<rparr>"
      unfolding show_packet_def Let_def i using screen_type(2-5) [OF l] p(2,3) by simp
    have n: "nat ?l < 64" using l by linarith
    have "length (screen (show_packet p c)) = 1024" unfolding shown using d n assms(7) by simp
    moreover have "block b (screen (show_packet p c)) = (if b = nat ?l then block b lcd else block b (screen c))" if "b < 64" for b
      unfolding shown using block_replace [OF assms(7) d n that] by simp
    ultimately show ?thesis using p(1) shown by simp
  qed
qed

lemma refresh_run:
  assumes "link_ok st" and "length lcd = 1024" and "length (screen c) = 1024"
    and "link_run (map (\<lambda>p. (ls, lcd, p)) ps) (st, q) = (out, s')"
  shows "length (screen (fold show_packet out c)) = 1024 \<and>
    (\<forall>b < 64. block b (screen c) = block b lcd \<or>
        (\<exists>j. 1 \<le> j \<and> j \<le> lcd_packets (spilink_update_index st) (length ps) \<and> int b = (lcd_update_index st + int j) mod 64) \<longrightarrow>
      block b (screen (fold show_packet out c)) = block b lcd) \<and>
    (rings c = rings_of ls \<or> (\<exists>i. 1 \<le> i \<and> i \<le> length ps \<and> (spilink_update_index st + int i) mod 16 = 8) \<longrightarrow>
      rings (fold show_packet out c) = rings_of ls) \<and>
    (others c = others_of ls \<or> (\<exists>i. 1 \<le> i \<and> i \<le> length ps \<and> (spilink_update_index st + int i) mod 16 = 0) \<longrightarrow>
      others (fold show_packet out c) = others_of ls)"
  using assms(1,3,4)
proof (induction ps arbitrary: st q out c)
  case Nil
  then show ?case by auto
next
  case (Cons p ps)
  let ?u = "spilink_update_index st" and ?l = "lcd_update_index st"
  obtain u l t d where cp: "control_packet ls lcd ?u ?l = (u, l, t, d)" by (metis prod_cases4)
  obtain st1 qa where sp: "spilink_master_process ls lcd (st, q) = (st1, qa)" by fastforce
  define st2 where "st2 = st1\<lparr>spilink_rx := (spilink_rx st1)[half (spilink_toggle st1) := p]\<rparr>"
  note ex = exchange [OF Cons.prems(1) cp sp st2_def]
  define x where "x = spilink_tx st1 ! half (spilink_toggle st1)"
  obtain out' where out: "link_run (map (\<lambda>p. (ls, lcd, p)) ps) (st2, qa) = (out', s')" "out = x # out'"
    using Cons.prems(3) sp by (auto simp: Let_def st2_def x_def split: prod.splits)
  have l: "0 \<le> ?l" "?l < 64" using Cons.prems(1) by (simp_all add: link_ok_def)
  note step = show_step [OF cp ex(6,7) [folded x_def] l assms(2) Cons.prems(2)]
  let ?c = "show_packet x c"
  have len: "length (screen ?c) = 1024" using step(2,3) Cons.prems(2) by metis
  note ih = Cons.IH [OF ex(1) len out(1), unfolded ex(4,5)]
  note ihs = conjunct1 [OF ih] conjunct1 [OF conjunct2 [OF ih]] conjunct1 [OF conjunct2 [OF conjunct2 [OF ih]]]
    conjunct2 [OF conjunct2 [OF conjunct2 [OF ih]]]
  have u8: "u mod 8 = (?u + 1) mod 8" using step(1) by (metis mod_mod_cancel dvd_def mult_2_right numeral_Bit0)
  have cnt: "lcd_packets u n = lcd_packets (?u + 1) n" for n using lcd_packets_mod [OF u8] .
  have um: "(u + int i) mod 16 = (?u + int (Suc i)) mod 16" for i
    using step(1) by (metis mod_add_left_eq add.assoc of_nat_Suc)
  have later: "(\<exists>i. 1 \<le> i \<and> i \<le> length (p # ps) \<and> (?u + int i) mod 16 = v) \<longleftrightarrow>
      (?u + 1) mod 16 = v \<or> (\<exists>i. 1 \<le> i \<and> i \<le> length ps \<and> (u + int i) mod 16 = v)" for v
    unfolding um
  proof (intro iffI; (elim exE conjE disjE)?)
    fix i
    assume "1 \<le> i" "i \<le> length (p # ps)" "(?u + int i) mod 16 = v"
    then show "(?u + 1) mod 16 = v \<or> (\<exists>i. 1 \<le> i \<and> i \<le> length ps \<and> (?u + int (Suc i)) mod 16 = v)"
      by (cases "i = 1") (auto intro!: exI [of _ "i - 1"])
  next
    assume "(?u + 1) mod 16 = v"
    then show "\<exists>i. 1 \<le> i \<and> i \<le> length (p # ps) \<and> (?u + int i) mod 16 = v" by (intro exI [of _ 1]) simp
  next
    fix i
    assume "1 \<le> i" "i \<le> length ps" "(?u + int (Suc i)) mod 16 = v"
    then show "\<exists>i. 1 \<le> i \<and> i \<le> length (p # ps) \<and> (?u + int i) mod 16 = v" by (intro exI [of _ "Suc i"]) simp
  qed
  show ?case
  proof (cases "(?u + 1) mod 8 = 0")
    case True
    have m: "(?u + 1) mod 16 = 8 \<or> (?u + 1) mod 16 = 0" using True by presburger
    have s: "l = ?l" "screen ?c = screen c"
      "rings ?c = (if (?u + 1) mod 16 = 8 then rings_of ls else rings c)"
      "others ?c = (if (?u + 1) mod 16 = 8 then others c else others_of ls)"
      using step(2) [OF True] by simp_all
    have n: "lcd_packets ?u (length (p # ps)) = lcd_packets u (length ps)" using True cnt by simp
    show ?thesis
      unfolding out(2) fold_simps later n
      using ihs s m by (intro conjI) (simp | blast)+
  next
    case False
    have s: "l = (?l + 1) mod 64" "rings ?c = rings c" "others ?c = others c"
      "\<And>b. b < 64 \<Longrightarrow> block b (screen ?c) = (if b = nat l then block b lcd else block b (screen c))"
      using step(3) [OF False] by auto
    have m: "(?u + 1) mod 16 \<noteq> 8" "(?u + 1) mod 16 \<noteq> 0" using False by presburger+
    have "block b (screen ?c) = block b lcd \<or> (\<exists>j. 1 \<le> j \<and> j \<le> lcd_packets u (length ps) \<and> int b = (l + int j) mod 64)"
      if b: "b < 64" and "block b (screen c) = block b lcd \<or>
        (\<exists>j. 1 \<le> j \<and> j \<le> lcd_packets ?u (length (p # ps)) \<and> int b = (?l + int j) mod 64)" for b
      using that(2)
    proof (elim disjE exE conjE)
      fix j
      assume j: "1 \<le> j" "j \<le> lcd_packets ?u (length (p # ps))" "int b = (?l + int j) mod 64"
      show ?thesis
      proof (cases "j = 1")
        case True
        then have "b = nat l" using j(3) s(1) by simp
        then show ?thesis using s(4) [OF b] by simp
      next
        case False
        have "(l + int (j - 1)) mod 64 = (?l + int j) mod 64" using j(1) s(1) by (simp add: of_nat_diff mod_add_left_eq)
        moreover have "j - 1 \<le> lcd_packets u (length ps)" using j(2) \<open>(?u + 1) mod 8 \<noteq> 0\<close> cnt by simp
        ultimately show ?thesis using False j(1,3) by (intro disjI2 exI [of _ "j - 1"]) auto
      qed
    qed (use s(4) [OF b] in simp)
    note blocks = this
    show ?thesis
      unfolding out(2) fold_simps later
    proof (intro conjI allI impI)
      show "length (screen (fold show_packet out' ?c)) = 1024" by (rule ihs(1))
      show "block b (screen (fold show_packet out' ?c)) = block b lcd"
        if "b < 64" and "block b (screen c) = block b lcd \<or>
          (\<exists>j. 1 \<le> j \<and> j \<le> lcd_packets ?u (length (p # ps)) \<and> int b = (?l + int j) mod 64)" for b
        by (rule ihs(2) [rule_format, OF that(1) blocks [OF that]])
    qed (rule ihs(3) [rule_format], (use s(2) m(1) in simp)[1], rule ihs(4) [rule_format], (use s(3) m(2) in simp)[1])
  qed
qed

section \<open>Properties\<close>

text \<open>
  C23: The other side of the link sees the whole screen: after 74 exchanges in which the screen and the
  LEDs do not change, whatever it showed before and wherever the cycle stood, a receiver that stores
  the data of each packet where its type says has the exact screen, encoder rings and LEDs.
\<close>

lemma spilink_refresh:
  assumes "link_ok st" and "length lcd = 1024" and "length (screen c) = 1024" and "74 \<le> length ps"
    and "link_run (map (\<lambda>p. (ls, lcd, p)) ps) (st, q) = (out, s')"
  shows "fold show_packet out c = \<lparr>screen = lcd, rings = rings_of ls, others = others_of ls\<rparr>"
proof -
  let ?u = "spilink_update_index st" and ?l = "lcd_update_index st"
  note r = refresh_run [OF assms(1-3,5)]
  have "int (lcd_packets ?u (length ps)) \<ge> 64"
  proof -
    have "?u mod 8 < 8" by simp
    then show ?thesis using lcd_packets_count [of ?u "length ps"] assms(4) by linarith
  qed
  then have n: "64 \<le> lcd_packets ?u (length ps)" by simp
  have j: "\<exists>j. 1 \<le> j \<and> j \<le> lcd_packets ?u (length ps) \<and> int b = (?l + int j) mod 64" if "b < 64" for b
  proof (intro exI conjI)
    let ?j = "nat ((int b - ?l - 1) mod 64) + 1"
    show "1 \<le> ?j" "?j \<le> lcd_packets ?u (length ps)" using n by (simp, linarith)
    have "(?l + int ?j) mod 64 = (?l + 1 + (int b - ?l - 1)) mod 64" by (simp add: mod_add_right_eq add.assoc [symmetric])
    then show "int b = (?l + int ?j) mod 64" using that by simp
  qed
  have "\<exists>i. 1 \<le> i \<and> i \<le> length ps \<and> (?u + int i) mod 16 = v" if "0 \<le> v" "v < 16" for v
  proof (intro exI conjI)
    let ?i = "nat ((v - ?u - 1) mod 16) + 1"
    show "1 \<le> ?i" "?i \<le> length ps" using assms(4) by (simp, linarith)
    have "(?u + int ?i) mod 16 = (?u + 1 + (v - ?u - 1)) mod 16" by (simp add: mod_add_right_eq add.assoc [symmetric])
    then show "(?u + int ?i) mod 16 = v" using that by simp
  qed
  then have i: "\<exists>i. 1 \<le> i \<and> i \<le> length ps \<and> (?u + int i) mod 16 = 8" "\<exists>i. 1 \<le> i \<and> i \<le> length ps \<and> (?u + int i) mod 16 = 0"
    by simp_all
  have "screen (fold show_packet out c) = lcd"
  proof (rule blocks_equal [OF conjunct1 [OF r] assms(2)])
    fix b :: nat
    assume "b < 64"
    then show "block b (screen (fold show_packet out c)) = block b lcd"
      using conjunct1 [OF conjunct2 [OF r]] j by blast
  qed
  moreover have "rings (fold show_packet out c) = rings_of ls"
    using conjunct1 [OF conjunct2 [OF conjunct2 [OF r]]] i(1) by blast
  moreover have "others (fold show_packet out c) = others_of ls"
    using conjunct2 [OF conjunct2 [OF conjunct2 [OF r]]] i(2) by blast
  ultimately show ?thesis by (cases "fold show_packet out c") simp
qed

definition master_link :: spilink where
  "master_link = spilink_init True link_boot"

lemma master_link_ok: "link_ok master_link"
  by (simp add: link_ok_def master_link_def spilink_init_def link_boot_def spidbMasterStart_def)

lemma spilink_refresh_witness:
  "fold show_packet (fst (link_run (replicate 100 (replicate 6 5, replicate 1024 7, zero_packet)) (master_link, initial_queue)))
     \<lparr>screen = replicate 1024 0, rings = [], others = []\<rparr> =
   \<lparr>screen = replicate 1024 7, rings = rings_of (replicate 6 5), others = others_of (replicate 6 5)\<rparr>"
proof -
  let ?xs = "replicate 100 (replicate 6 5, replicate 1024 7, zero_packet)"
  obtain out s' where r: "link_run ?xs (master_link, initial_queue) = (out, s')" by (rule prod.exhaust)
  have "map (\<lambda>p. (replicate 6 5, replicate 1024 7, p)) (replicate 100 zero_packet) = ?xs" by (simp only: map_replicate)
  from spilink_refresh [OF master_link_ok _ _ _ r [folded this], of "\<lparr>screen = replicate 1024 0, rings = [], others = []\<rparr>"]
  show ?thesis unfolding r by simp
qed

text \<open>
  C24: Every packet of the other side is handled exactly once and in order, two exchanges after it
  arrived: the input events of n exchanges are those of the two packets already in the buffers and
  of the first n - 2 packets received.
\<close>

lemma spilink_events_in_order:
  assumes "link_ok st" and "link_run xs (st, q) = (out, st', q')"
  shows "q' = fold receive_event (take (length xs)
    (spilink_rx st ! half (\<not> spilink_toggle st) # spilink_rx st ! half (spilink_toggle st) # map (\<lambda>(_, _, p). p) xs)) q"
  using assms
proof (induction xs arbitrary: st q out)
  case (Cons x xs)
  obtain ls lcd p where x: "x = (ls, lcd, p)" by (cases x)
  obtain u l t d where cp: "control_packet ls lcd (spilink_update_index st) (lcd_update_index st) = (u, l, t, d)"
    by (metis prod_cases4)
  obtain st1 qa where sp: "spilink_master_process ls lcd (st, q) = (st1, qa)" by fastforce
  define st2 where "st2 = st1\<lparr>spilink_rx := (spilink_rx st1)[half (spilink_toggle st1) := p]\<rparr>"
  note ex = exchange [OF Cons.prems(1) cp sp st2_def]
  obtain out' where out: "link_run xs (st2, qa) = (out', st', q')"
    using Cons.prems(2) sp x by (auto simp: Let_def st2_def split: prod.splits)
  have rx: "length (spilink_rx st) = 2" using Cons.prems(1) by (simp add: link_ok_def)
  have "spilink_rx st2 ! half (\<not> spilink_toggle st2) = spilink_rx st ! half (spilink_toggle st)"
    "spilink_rx st2 ! half (spilink_toggle st2) = p"
    using ex(3,9) rx by (simp_all add: half_def)
  then show ?case using Cons.IH [OF ex(1) out] ex(8) x by simp
qed simp

definition event_packet :: spilink_data where
  "event_packet = zero_packet\<lparr>control_type := 0x80, control_data := [0, 0, 1, 7] @ replicate 12 0\<rparr>"

lemma spilink_events_in_order_witness:
  "snd (snd (link_run (replicate 3 (replicate 6 5, replicate 1024 7, event_packet)) (master_link, initial_queue))) =
   receive_event event_packet initial_queue"
proof -
  obtain out st' q' where r: "link_run (replicate 3 (replicate 6 5, replicate 1024 7, event_packet)) (master_link, initial_queue) = (out, st', q')"
    by (metis prod_cases3)
  have "receive_event zero_packet q = q" "receive_event (init_rx 1 zero_packet) q = q" for q
    by (simp_all add: receive_event_def zero_packet_def init_rx_def)
  moreover have "spilink_rx master_link = [zero_packet, init_rx 1 zero_packet]"
    by (simp add: master_link_def spilink_init_def spidbMasterStart_def link_boot_def)
  ultimately show ?thesis
    using spilink_events_in_order [OF master_link_ok r] r by (simp add: half_def numeral_3_eq_3 numeral_2_eq_2)
qed

text \<open>
  The master checks the frame of the first reception buffer also when the second one is due: a
  damaged packet in the second buffer is played as audio when the first is sound, and a sound one is
  dropped when the first is damaged.
\<close>

lemma spilink_checks_first_buffer:
  assumes "spilink_master_active st" and "spilink_toggle st"
  shows "spilink_rx_samples (fst (spilink_master_process ls lcd (st, q))) =
    (if framed (spilink_rx st ! 0) then Rx_Buffer 1 else Flash_0x080F0000)"
  using assms
  by (simp add: spilink_master_process_def spilink_master_process1_def spidbMasterExchangeI_def half_def Let_def
      split: prod.split)

lemma spilink_checks_first_buffer_witness:
  "spilink_rx_samples (fst (spilink_master_process [] [] (master_link\<lparr>spilink_toggle := True,
     spilink_rx := [init_tx 0 zero_packet, zero_packet]\<rparr>, initial_queue))) = Rx_Buffer 1"
proof -
  have "spilink_master_active (master_link\<lparr>spilink_toggle := True, spilink_rx := [init_tx 0 zero_packet, zero_packet]\<rparr>)"
    by (simp add: master_link_def spilink_init_def Let_def)
  from spilink_checks_first_buffer [OF this, of "[]" "[]" initial_queue]
  show ?thesis by (simp add: framed_def init_tx_def)
qed

end
