(* ===== verification/Exceptions.thy ===== *)
theory Exceptions
  imports Prelude
begin

text \<open>
  The reports of errors over a reset (firmware/exceptions.c). An error is stored in the backup RAM,
  which keeps its content, and reported to the host after the reset. The text of a report starts at
  byte 12 and shares its place with the saved registers.
\<close>

section \<open>State\<close>

definition ERROR_MAGIC_NUMBER :: u32 where "ERROR_MAGIC_NUMBER = 0xE1212012"

datatype faulttype = Fault | Watchdog_soft | Watchdog_hard | Brownout | Goto_DFU | Fatfs_error
  | Patch_load_crc_fail | Patch_load_sdram_overflow | Usbh_midi_ringbuffer_overflow | Halt

text \<open>
  The start of the backup RAM: the fields before byte 12, where None is any other value of the type,
  and the bytes from there to the end of its 4096 bytes.
\<close>

record exceptiondump =
  magicnumber :: u32
  error_type :: "faulttype option"
  reg_r0 :: u32
  area :: "u8 list"

text \<open>The place of the fields r1 to i in that area.\<close>

abbreviation (input) at_r1 :: nat where "at_r1 \<equiv> 0"
abbreviation (input) at_r2 :: nat where "at_r2 \<equiv> 4"
abbreviation (input) at_r3 :: nat where "at_r3 \<equiv> 8"
abbreviation (input) at_r12 :: nat where "at_r12 \<equiv> 12"
abbreviation (input) at_lr :: nat where "at_lr \<equiv> 16"
abbreviation (input) at_pc :: nat where "at_pc \<equiv> 20"
abbreviation (input) at_psr :: nat where "at_psr \<equiv> 24"
abbreviation (input) at_ipsr :: nat where "at_ipsr \<equiv> 28"
abbreviation (input) at_cfsr :: nat where "at_cfsr \<equiv> 32"
abbreviation (input) at_hfsr :: nat where "at_hfsr \<equiv> 36"
abbreviation (input) at_mmfar :: nat where "at_mmfar \<equiv> 40"
abbreviation (input) at_bfar :: nat where "at_bfar \<equiv> 44"
abbreviation (input) at_i :: nat where "at_i \<equiv> 48"

definition load_word :: "nat \<Rightarrow> u8 list \<Rightarrow> u32" where
  "load_word k a = le32 (a ! k) (a ! (k + 1)) (a ! (k + 2)) (a ! (k + 3))"

definition store_word :: "nat \<Rightarrow> u32 \<Rightarrow> u8 list \<Rightarrow> u8 list" where
  "store_word k w a = take k a @ le32_bytes w @ drop (k + 4) a"

definition set_word :: "nat \<Rightarrow> u32 \<Rightarrow> exceptiondump \<Rightarrow> exceptiondump" where
  "set_word k w d = d\<lparr>area := store_word k w (area d)\<rparr>"

definition get_word :: "exceptiondump \<Rightarrow> nat \<Rightarrow> u32" where
  "get_word d k = load_word k (area d)"

section \<open>Storing\<close>

definition exception_check :: "exceptiondump \<Rightarrow> bool" where
  "exception_check d \<longleftrightarrow> magicnumber d = ERROR_MAGIC_NUMBER"

definition exception_clear :: "exceptiondump \<Rightarrow> exceptiondump" where
  "exception_clear d = d\<lparr>magicnumber := 0\<rparr>"

definition raise_report :: "faulttype \<Rightarrow> exceptiondump \<Rightarrow> exceptiondump" where
  "raise_report t d = d\<lparr>magicnumber := ERROR_MAGIC_NUMBER, error_type := Some t\<rparr>"

text \<open>
  The text for a file: at most 20 characters of the name, after the working directory and a slash
  unless the name starts with one. The working directory is what f\_getcwd stores in 40 bytes.
\<close>

definition report_text :: "u8 list \<Rightarrow> u8 list option \<Rightarrow> u8 list" where
  "report_text cwd fn = (case fn of None \<Rightarrow> []
     | Some f \<Rightarrow> (if f = [] \<or> hd f \<noteq> 47 then cwd @ [47] else []) @ take 20 f)"

definition store_text :: "u8 list \<Rightarrow> exceptiondump \<Rightarrow> exceptiondump" where
  "store_text s d = d\<lparr>area := s @ [0] @ drop (length s + 1) (area d)\<rparr>"

definition report_fatfs_error :: "u8 list \<Rightarrow> u32 \<Rightarrow> u8 list option \<Rightarrow> exceptiondump \<Rightarrow> exceptiondump" where
  "report_fatfs_error cwd errno fn d =
     (if exception_check d then d
      else (raise_report Fatfs_error (store_text (report_text cwd fn) d))\<lparr>reg_r0 := errno\<rparr>)"

definition report_patchLoadFail :: "u8 list \<Rightarrow> u8 list option \<Rightarrow> exceptiondump \<Rightarrow> exceptiondump" where
  "report_patchLoadFail cwd fn d =
     (if exception_check d then d else store_text (report_text cwd fn) (raise_report Patch_load_crc_fail d))"

definition report_patchLoadSDRamOverflow :: "u8 list \<Rightarrow> u8 list option \<Rightarrow> u32 \<Rightarrow> exceptiondump \<Rightarrow> exceptiondump" where
  "report_patchLoadSDRamOverflow cwd fn amount d =
     (if exception_check d then d
      else store_text (report_text cwd fn) ((raise_report Patch_load_sdram_overflow d)\<lparr>reg_r0 := amount\<rparr>))"

definition report_usbh_midi_ringbuffer_overflow :: "exceptiondump \<Rightarrow> exceptiondump" where
  "report_usbh_midi_ringbuffer_overflow d =
     (if exception_check d then d else raise_report Usbh_midi_ringbuffer_overflow d)"

definition dbg_set_i :: "u32 \<Rightarrow> exceptiondump \<Rightarrow> exceptiondump" where
  "dbg_set_i i d = set_word at_i i d"

text \<open>The fault handler: the eight stacked registers and the status registers of the processor; then a reset.\<close>

record fault_status =
  IPSR :: u32
  CFSR :: u32
  HFSR :: u32
  MMFAR :: u32
  BFAR :: u32

definition prvGetRegistersFromStack :: "u32 list \<Rightarrow> fault_status \<Rightarrow> exceptiondump \<Rightarrow> exceptiondump" where
  "prvGetRegistersFromStack stack scb d =
     fold (\<lambda>(k, w). set_word k w)
       [(at_r1, stack ! 1), (at_r2, stack ! 2), (at_r3, stack ! 3), (at_r12, stack ! 4), (at_lr, stack ! 5),
        (at_pc, stack ! 6), (at_psr, stack ! 7), (at_ipsr, IPSR scb), (at_cfsr, CFSR scb), (at_hfsr, HFSR scb),
        (at_mmfar, MMFAR scb), (at_bfar, BFAR scb)]
       ((raise_report Fault d)\<lparr>reg_r0 := stack ! 0\<rparr>)"

text \<open>A halt stores the address of its reason, a constant in flash.\<close>

definition report_halt :: "u32 \<Rightarrow> exceptiondump \<Rightarrow> exceptiondump" where
  "report_halt reason d = (raise_report Halt d)\<lparr>reg_r0 := reason\<rparr>"

definition exception_initiate_dfu :: "exceptiondump \<Rightarrow> exceptiondump" where
  "exception_initiate_dfu d = raise_report Goto_DFU
     (fold (\<lambda>(k, w). set_word k w) [(at_r1, 2), (at_r2, 3), (at_r3, 4)] (d\<lparr>reg_r0 := 1\<rparr>))"

section \<open>After a reset\<close>

text \<open>exception\_check\_DFU says whether it jumps to the boot loader.\<close>

definition exception_check_DFU :: "exceptiondump \<Rightarrow> bool \<times> exceptiondump" where
  "exception_check_DFU d =
     (if exception_check d \<and> error_type d = Some Goto_DFU then (True, exception_clear d) else (False, d))"

text \<open>The causes of the reset: window watchdog, brown-out and power-on.\<close>

record reset_flags =
  WWDGRSTF :: bool
  BORRSTF :: bool
  PORRSTF :: bool

definition exception_init :: "reset_flags \<Rightarrow> exceptiondump \<Rightarrow> exceptiondump" where
  "exception_init csr d =
     (if exception_check d then d
      else if WWDGRSTF csr then raise_report Watchdog_hard d
      else if BORRSTF csr \<and> \<not> PORRSTF csr then raise_report Brownout d
      else fold (\<lambda>k. set_word k 0) [at_lr, at_pc, at_psr, at_ipsr] (d\<lparr>error_type := None\<rparr>))"

section \<open>Reporting\<close>

definition fs_err_name :: "string list" where
  "fs_err_name = [''FR_OK'', ''FR_DISK_ERR'', ''FR_INT_ERR'', ''FR_NOT_READY'', ''FR_NO_FILE'', ''FR_NO_PATH'',
     ''FR_INVALID_NAME'', ''FR_DENIED'', ''FR_EXIST'', ''FR_INVALID_OBJECT'', ''FR_WRITE_PROTECTED'',
     ''FR_INVALID_DRIVE'', ''FR_NOT_ENABLED'', ''FR_NO_FILESYSTEM'', ''FR_MKFS_ABORTED'', ''FR_TIMEOUT'',
     ''FR_LOCKED'', ''FR_NOT_ENOUGH_CORE'', ''FR_TOO_MANY_OPEN_FILES'', ''FR_INVALID_PARAMETER'']"

text \<open>A line for the host: the format and its arguments; the text behind an address is not read here.\<close>

datatype log_arg = Num u32 | Str "u8 list" | Const string | Str_at u32

type_synonym log_line = "string \<times> log_arg list"

definition register_lines :: "exceptiondump \<Rightarrow> log_line list" where
  "register_lines d =
     [(''pc=0x%x'', [Num (get_word d at_pc)]), (''psr=0x%x'', [Num (get_word d at_psr)]),
      (''lr=0x%x'', [Num (get_word d at_lr)]), (''r12=0x%x'', [Num (get_word d at_r12)]),
      (''cfsr=0x%x'', [Num (get_word d at_cfsr)])]
     @ (if bit (get_word d at_cfsr) 15 then [(''bfar=0x%x'', [Num (get_word d at_bfar)])] else [])
     @ (if bit (get_word d at_cfsr) 7 then [(''mmfar=0x%x'', [Num (get_word d at_mmfar)])] else [])"

definition report_lines :: "exceptiondump \<Rightarrow> fault + log_line list" where
  "report_lines d = (case error_type d of
       Some Fault \<Rightarrow> Inr ((''exception report:'', []) # register_lines d)
     | Some Watchdog_soft \<Rightarrow> Inr ((''exception: soft watchdog'', []) # register_lines d)
     | Some Watchdog_hard \<Rightarrow> Inr [(''exception: hard watchdog i=0x%x'', [Num (get_word d at_i)])]
     | Some Brownout \<Rightarrow> Inr [(''exception: brownout'', [])]
     | Some Fatfs_error \<Rightarrow> sbind (nth_e fs_err_name (unat (reg_r0 d))) (\<lambda>name. sbind (c_string (area d)) (\<lambda>s.
         Inr [(''file error: %s, filename:\"%s\"'', [Const name, Str s])]))
     | Some Patch_load_crc_fail \<Rightarrow> sbind (c_string (area d)) (\<lambda>s.
         Inr [(''failed to load patch, firmware mismatch? \"%s\"'', [Str s])])
     | Some Patch_load_sdram_overflow \<Rightarrow> Inr [(''sdram overflow by %d bytes'', [Num (reg_r0 d)])]
     | Some Usbh_midi_ringbuffer_overflow \<Rightarrow> Inr [(''midi output overflow'', [])]
     | Some Halt \<Rightarrow> Inr [(''Rebooted after fatal error: %s'', [Str_at (reg_r0 d)])]
     | _ \<Rightarrow> Inr [(''unknown exception?'', [])])"

definition exception_checkandreport :: "exceptiondump \<Rightarrow> fault + (log_line list \<times> exceptiondump)" where
  "exception_checkandreport d =
     (if exception_check d then
        let d = exception_clear d in sbind (report_lines d) (\<lambda>ls. Inr (ls, d))
      else Inr ([], d))"

section \<open>Properties\<close>

datatype report =
    Rep_fatfs "u8 list" u32 "u8 list option"
  | Rep_patch "u8 list" "u8 list option"
  | Rep_sdram "u8 list" "u8 list option" u32
  | Rep_usbh

fun do_report :: "report \<Rightarrow> exceptiondump \<Rightarrow> exceptiondump" where
  "do_report (Rep_fatfs cwd e fn) = report_fatfs_error cwd e fn"
| "do_report (Rep_patch cwd fn) = report_patchLoadFail cwd fn"
| "do_report (Rep_sdram cwd fn n) = report_patchLoadSDRamOverflow cwd fn n"
| "do_report Rep_usbh = report_usbh_midi_ringbuffer_overflow"

lemma do_report_pending: "exception_check d \<Longrightarrow> do_report r d = d"
  by (cases r) (simp_all add: report_fatfs_error_def report_patchLoadFail_def
      report_patchLoadSDRamOverflow_def report_usbh_midi_ringbuffer_overflow_def)

lemma reports_pending: "exception_check d \<Longrightarrow> fold do_report rs d = d"
  by (induction rs) (simp_all add: do_report_pending)

lemma raise_pending [simp]:
  "exception_check (raise_report t d)" "exception_check (store_text s d) = exception_check d"
  "exception_check (set_word k w d) = exception_check d" "exception_check (d\<lparr>reg_r0 := x\<rparr>) = exception_check d"
  "exception_check (d\<lparr>error_type := y\<rparr>) = exception_check d" "\<not> exception_check (exception_clear d)"
  by (simp_all add: exception_check_def raise_report_def store_text_def set_word_def exception_clear_def ERROR_MAGIC_NUMBER_def)

text \<open>What a report should say: its line in terms of the arguments of the report.\<close>

fun report_line :: "report \<Rightarrow> log_line" where
  "report_line (Rep_fatfs cwd e fn) =
     (''file error: %s, filename:\"%s\"'', [Const (fs_err_name ! unat e), Str (report_text cwd fn)])"
| "report_line (Rep_patch cwd fn) = (''failed to load patch, firmware mismatch? \"%s\"'', [Str (report_text cwd fn)])"
| "report_line (Rep_sdram cwd fn n) = (''sdram overflow by %d bytes'', [Num n])"
| "report_line Rep_usbh = (''midi output overflow'', [])"

text \<open>The error codes of FatFs, and texts without a zero.\<close>

fun report_ok :: "report \<Rightarrow> bool" where
  "report_ok (Rep_fatfs cwd e fn) \<longleftrightarrow> e < 20 \<and> 0 \<notin> set (report_text cwd fn)"
| "report_ok (Rep_patch cwd fn) \<longleftrightarrow> 0 \<notin> set (report_text cwd fn)"
| "report_ok r \<longleftrightarrow> True"

lemma text_read: "0 \<notin> set s \<Longrightarrow> c_string (area (store_text s d)) = Inr s"
  by (simp add: store_text_def)


definition blank_dump :: exceptiondump where
  "blank_dump = \<lparr>magicnumber = 0, error_type = None, reg_r0 = 0, area = replicate 4084 0\<rparr>"


text \<open>Registers.\<close>

lemma length_store_word [simp]: "k + 4 \<le> length a \<Longrightarrow> length (store_word k w a) = length a"
  by (simp add: store_word_def)

lemma store_word_nth:
  assumes "k + 4 \<le> length a"
  shows "store_word k w a ! j = (if k \<le> j \<and> j < k + 4 then byte_of (j - k) w else a ! j)"
proof -
  have "le32_bytes w ! i = byte_of i w" if "i < 4" for i
    using that by (auto simp: le32_bytes_def less_Suc_eq numeral_eq_Suc)
  then show ?thesis using assms by (auto simp: store_word_def nth_append)
qed

lemma load_store_word:
  assumes "k + 4 \<le> length a" and "j = k \<or> j + 4 \<le> k \<or> k + 4 \<le> j"
  shows "load_word j (store_word k w a) = (if j = k then w else load_word j a)"
  using assms by (auto simp: load_word_def store_word_nth)

lemma get_set_word [simp]:
  "k + 4 \<le> length (area d) \<Longrightarrow> j = k \<or> j + 4 \<le> k \<or> k + 4 \<le> j \<Longrightarrow>
   get_word (set_word k w d) j = (if j = k then w else get_word d j)"
  by (simp add: get_word_def set_word_def load_store_word)

lemma set_word_frame [simp]:
  "magicnumber (set_word k w d) = magicnumber d" "error_type (set_word k w d) = error_type d"
  "reg_r0 (set_word k w d) = reg_r0 d" "k + 4 \<le> length (area d) \<Longrightarrow> length (area (set_word k w d)) = length (area d)"
  by (simp_all add: set_word_def)

lemma get_words:
  assumes "\<forall>(k, w) \<in> set ps. k mod 4 = 0 \<and> k + 4 \<le> length (area d)" and "j mod 4 = 0"
  shows "get_word (fold (\<lambda>(k, w). set_word k w) ps d) j = (case map_of (rev ps) j of Some w \<Rightarrow> w | None \<Rightarrow> get_word d j)"
  using assms(1)
proof (induction ps arbitrary: d)
  case (Cons p ps)
  obtain k w where p: "p = (k, w)" by (cases p)
  have k: "k + 4 \<le> length (area d)" "j = k \<or> j + 4 \<le> k \<or> k + 4 \<le> j"
    using Cons.prems p assms(2) by (auto simp: mod_eq_0_iff_dvd elim!: dvdE)
  show ?case using Cons.IH [of "set_word k w d"] Cons.prems get_set_word [OF k, of w] set_word_frame(4) [OF k(1)] p
    by (simp add: map_add_def map_of_append split: option.split)
qed simp

lemma get_word_frame [simp]:
  "get_word (exception_clear d) k = get_word d k" "get_word (raise_report t d) k = get_word d k"
  "get_word (d\<lparr>reg_r0 := x\<rparr>) k = get_word d k"
  by (simp_all add: get_word_def exception_clear_def raise_report_def)

text \<open>
  A processor fault is reported after the reset with the registers of the interrupted code: the
  program counter, status, link register and r12 of the stack frame, and the fault addresses when
  the status register says that they are valid; also over an earlier report that was pending.
\<close>

lemma fault_report_registers:
  assumes "52 \<le> length (area d)"
  shows "\<exists>d'. exception_checkandreport (exception_init csr (prvGetRegistersFromStack stack scb d)) =
     Inr ([(''exception report:'', []), (''pc=0x%x'', [Num (stack ! 6)]), (''psr=0x%x'', [Num (stack ! 7)]),
           (''lr=0x%x'', [Num (stack ! 5)]), (''r12=0x%x'', [Num (stack ! 4)]), (''cfsr=0x%x'', [Num (CFSR scb)])]
          @ (if bit (CFSR scb) 15 then [(''bfar=0x%x'', [Num (BFAR scb)])] else [])
          @ (if bit (CFSR scb) 7 then [(''mmfar=0x%x'', [Num (MMFAR scb)])] else []), d')"
proof -
  let ?d = "prvGetRegistersFromStack stack scb d"
  have l: "length (area (raise_report Fault d)) = length (area d)" by (simp add: raise_report_def)
  have words: "get_word ?d at_pc = stack ! 6" "get_word ?d at_psr = stack ! 7" "get_word ?d at_lr = stack ! 5"
    "get_word ?d at_r12 = stack ! 4" "get_word ?d at_cfsr = CFSR scb" "get_word ?d at_bfar = BFAR scb"
    "get_word ?d at_mmfar = MMFAR scb"
    using assms l unfolding prvGetRegistersFromStack_def by (subst get_words; simp)+
  have "exception_check ?d" "error_type ?d = Some Fault"
    by (simp_all add: prvGetRegistersFromStack_def exception_check_def raise_report_def)
  then show ?thesis
    using words by (simp add: exception_checkandreport_def exception_init_def report_lines_def register_lines_def
        exception_clear_def Let_def) (simp add: get_word_def)
qed

lemma fault_report_registers_witness:
  "\<exists>d'. exception_checkandreport (exception_init \<lparr>WWDGRSTF = False, BORRSTF = False, PORRSTF = False\<rparr>
      (prvGetRegistersFromStack [0, 1, 2, 3, 4, 5, 6, 7] \<lparr>IPSR = 3, CFSR = 0, HFSR = 0, MMFAR = 0, BFAR = 0\<rparr> blank_dump)) =
     Inr ([(''exception report:'', []), (''pc=0x%x'', [Num 6]), (''psr=0x%x'', [Num 7]),
           (''lr=0x%x'', [Num 5]), (''r12=0x%x'', [Num 4]), (''cfsr=0x%x'', [Num 0])], d')"
  using fault_report_registers [of blank_dump _ "[0, 1, 2, 3, 4, 5, 6, 7]" "\<lparr>IPSR = 3, CFSR = 0, HFSR = 0, MMFAR = 0, BFAR = 0\<rparr>"]
  by (simp add: blank_dump_def)

end
