(* ===== verification/Sysmon.thy ===== *)
theory Sysmon
  imports Prelude
begin

text \<open>
  The system monitor (firmware/sysmon.c): a thread that wakes up ten times a second, blinks the LEDs,
  watches the supply and the overcurrent flag, and mounts the SD card and starts its patch when the
  card switch says that a card is there (sdcard.c).
\<close>

section \<open>State\<close>

definition BLINK_OK :: u32 where "BLINK_OK = 0x55555555"
definition BLINK_BOOT :: u32 where "BLINK_BOOT = 0x99999999"
definition BLINK_OVERLOAD :: u32 where "BLINK_OVERLOAD = 0xFFFFFFFF"
definition BLINK_ERROR :: u32 where "BLINK_ERROR = 0xF5F5F5F5"
definition SLAVE_ERROR :: u32 where "SLAVE_ERROR = 0xB4B4B4B4"

datatype error_flag = ERROR_USBH_OVERCURRENT | ERROR_OVERVOLT_50 | ERROR_OVERVOLT_33 | ERROR_UNDERVOLT_50
  | ERROR_UNDERVOLT_33 | ERROR_SDRAM | ERROR_SDCARD | ERROR_CODEC_I2C

fun error_bit :: "error_flag \<Rightarrow> nat" where
  "error_bit ERROR_USBH_OVERCURRENT = 0"
| "error_bit ERROR_OVERVOLT_50 = 1"
| "error_bit ERROR_OVERVOLT_33 = 2"
| "error_bit ERROR_UNDERVOLT_50 = 3"
| "error_bit ERROR_UNDERVOLT_33 = 4"
| "error_bit ERROR_SDRAM = 5"
| "error_bit ERROR_SDCARD = 6"
| "error_bit ERROR_CODEC_I2C = 7"

record sysmon =
  repeat_pattern :: bool
  isEnabled :: bool
  pattern :: u32
  pattern_index :: nat
  voltage_50 :: u16
  v50_min :: u16
  v50_max :: u16
  errorflags :: u32
  sdtmr :: int
  fs_ready :: bool

text \<open>The calls and outputs of the thread.\<close>

datatype sys_effect = Led1 bool | Led2 bool | Sdc_Connect | Sdc_Disconnect | F_Mount | Patch_LoadStart_SD | Patch_Stop

text \<open>
  What a pass reads: the overcurrent flag, the converter, the card switch, and the results of
  connecting and mounting, should they be tried.
\<close>

record sys_input =
  overcurrent :: bool
  adc3 :: u16
  card :: bool
  connect_fails :: bool
  mount_fails :: bool

section \<open>Operations\<close>

definition sysmon_blink_pattern :: "u32 \<Rightarrow> sysmon \<Rightarrow> sysmon" where
  "sysmon_blink_pattern pat st = st\<lparr>pattern := pat, pattern_index := 0\<rparr>"

definition setErrorFlag :: "error_flag \<Rightarrow> sysmon \<Rightarrow> sysmon" where
  "setErrorFlag e st = sysmon_blink_pattern BLINK_ERROR
     (st\<lparr>errorflags := errorflags st OR push_bit (error_bit e) 1, repeat_pattern := True\<rparr>)"

definition getErrorFlag :: "error_flag \<Rightarrow> sysmon \<Rightarrow> bool" where
  "getErrorFlag e st \<longleftrightarrow> errorflags st AND push_bit (error_bit e) 1 > 0"

definition errorFlagClearAll :: "sysmon \<Rightarrow> sysmon" where
  "errorFlagClearAll st = st\<lparr>errorflags := 0\<rparr>"

definition sysmon_getVoltage50 :: "sysmon \<Rightarrow> u16" where
  "sysmon_getVoltage50 st = voltage_50 st"

definition sysmon_disable_blinker :: "sysmon \<Rightarrow> sysmon" where
  "sysmon_disable_blinker st = st\<lparr>isEnabled := False\<rparr>"

definition sysmon_enable_blinker :: "sysmon \<Rightarrow> sysmon" where
  "sysmon_enable_blinker st = st\<lparr>isEnabled := True\<rparr>"

definition enableUserLeds :: "bool \<Rightarrow> sysmon \<Rightarrow> sys_effect list \<times> sysmon" where
  "enableUserLeds enable st = ([Led1 False, Led2 False], st\<lparr>isEnabled := \<not> enable\<rparr>)"

definition writeLed :: "int \<Rightarrow> bool \<Rightarrow> sys_effect list" where
  "writeLed index value = (if index = 1 then [Led1 value] else if index = 2 then [Led2 value] else [])"

definition readButton :: "bool \<Rightarrow> bool \<Rightarrow> int \<Rightarrow> bool" where
  "readButton sw1 sw2 index = (if index = 1 then sw1 else if index = 2 then sw2 else False)"

section \<open>The card (sdcard.c)\<close>

definition InsertHandler :: "sys_input \<Rightarrow> sysmon \<Rightarrow> sys_effect list \<times> sysmon" where
  "InsertHandler i st =
     (let (d, st) = (if fs_ready st then ([Sdc_Disconnect], st\<lparr>fs_ready := False\<rparr>) else ([], st)) in
      if connect_fails i then (d @ [Sdc_Connect], st)
      else if mount_fails i then (d @ [Sdc_Connect, F_Mount, Sdc_Disconnect], st)
      else (d @ [Sdc_Connect, F_Mount], st\<lparr>fs_ready := True\<rparr>))"

definition RemoveHandler :: "sysmon \<Rightarrow> sys_effect list \<times> sysmon" where
  "RemoveHandler st = ([Sdc_Disconnect], st\<lparr>fs_ready := False\<rparr>)"

definition sdcard_attemptMountIfUnmounted :: "sys_input \<Rightarrow> sysmon \<Rightarrow> sys_effect list \<times> sysmon" where
  "sdcard_attemptMountIfUnmounted i st = (if fs_ready st then ([], st) else InsertHandler i st)"

definition sdcard_unmount :: "sysmon \<Rightarrow> sys_effect list \<times> sysmon" where
  "sdcard_unmount st = RemoveHandler st"

text \<open>
  At start-up the card is mounted, and again while f\_getfree cannot read the volume, three times at
  most. The inputs and the failures of f\_getfree are numbered by the attempt.
\<close>

fun mount_retries :: "(nat \<Rightarrow> sys_input) \<Rightarrow> (nat \<Rightarrow> bool) \<Rightarrow> nat \<Rightarrow> nat \<Rightarrow> sysmon \<Rightarrow> sys_effect list \<times> sysmon" where
  "mount_retries inp getfree_fails k 0 st = ([], st)"
| "mount_retries inp getfree_fails k (Suc n) st =
     (if getfree_fails k then
        case InsertHandler (inp (k + 1)) st of (es, st) \<Rightarrow>
          (case mount_retries inp getfree_fails (k + 1) n st of (es', st) \<Rightarrow> (es @ es', st))
      else ([], st))"

definition sdcard_init :: "(nat \<Rightarrow> sys_input) \<Rightarrow> (nat \<Rightarrow> bool) \<Rightarrow> sysmon \<Rightarrow> sys_effect list \<times> sysmon" where
  "sdcard_init inp getfree_fails st =
     (case InsertHandler (inp 0) st of (es, st) \<Rightarrow>
        case mount_retries inp getfree_fails 0 3 st of (es', st) \<Rightarrow> (es @ es', st))"

section \<open>The thread\<close>

text \<open>The two LEDs show two bits of the pattern at a time; after the last ones it starts again.\<close>

definition blink :: "nat \<Rightarrow> sysmon \<Rightarrow> sys_effect list \<times> sysmon" where
  "blink pi st =
     (if isEnabled st then
        ([Led1 (bit (pattern st) pi), Led2 (bit (pattern st) (pi + 1))],
         let pi = (pi + 2) mod 256 in
         if pi > 31 then st\<lparr>pattern := (if repeat_pattern st then pattern st else BLINK_OK), pattern_index := 0\<rparr>
         else st\<lparr>pattern_index := pi\<rparr>)
      else ([], st))"

definition monitor_v50 :: "u16 \<Rightarrow> sysmon \<Rightarrow> sysmon" where
  "monitor_v50 v st = st\<lparr>v50_max := max v (v50_max st), v50_min := min v (v50_min st), voltage_50 := v\<rparr>"

text \<open>The timer of the card switch counts the passes, to ignore a bouncing contact.\<close>

definition timer_present :: "int \<Rightarrow> int" where
  "timer_present t = (let t = t + 1; t = (if t < 0 then 0 else t) in if t > 5 then 5 else t)"

definition timer_absent :: "int \<Rightarrow> int" where
  "timer_absent t = (let t = t - 1; t = (if t > 0 then 0 else t) in if t < - 2 then - 2 else t)"

definition card_present :: "sys_input \<Rightarrow> sysmon \<Rightarrow> sys_effect list \<times> sysmon" where
  "card_present i st =
     (let st = st\<lparr>sdtmr := timer_present (sdtmr st)\<rparr> in
      if sdtmr st = 4 then
        case sdcard_attemptMountIfUnmounted i st of (es, st) \<Rightarrow>
          if fs_ready st then (es @ [Patch_LoadStart_SD], st)
          else (es, st\<lparr>pattern_index := 0, pattern := BLINK_OVERLOAD\<rparr>)
      else ([], st))"

definition card_absent :: "sysmon \<Rightarrow> sys_effect list \<times> sysmon" where
  "card_absent st =
     (let st = st\<lparr>sdtmr := timer_absent (sdtmr st)\<rparr> in
      if sdtmr st = - 1 then case sdcard_unmount st of (es, st) \<Rightarrow> (Patch_Stop # es, st)
      else ([], st))"

definition overcurrent_check :: "sys_input \<Rightarrow> sysmon \<Rightarrow> sysmon" where
  "overcurrent_check i st =
     (if overcurrent i then (setErrorFlag ERROR_USBH_OVERCURRENT st)\<lparr>pattern := BLINK_OVERLOAD, repeat_pattern := False\<rparr>
      else st)"

definition ThreadSysmon :: "sys_input \<Rightarrow> sysmon \<Rightarrow> sys_effect list \<times> sysmon" where
  "ThreadSysmon i st =
     (case blink (pattern_index st) (overcurrent_check i st) of (leds, st) \<Rightarrow>
      case (if card i then card_present i else card_absent) (monitor_v50 (adc3 i) st) of (es, st) \<Rightarrow> (leds @ es, st))"

definition sysmon_init :: "bool \<Rightarrow> sysmon" where
  "sysmon_init card0 = \<lparr>repeat_pattern = False, isEnabled = True, pattern = BLINK_BOOT, pattern_index = 0,
     voltage_50 = 0, v50_min = 0xFFFF, v50_max = 0, errorflags = 0, sdtmr = (if card0 then 5 else - 5), fs_ready = False\<rparr>"

fun sys_run :: "sys_input list \<Rightarrow> sysmon \<Rightarrow> sys_effect list \<times> sysmon" where
  "sys_run [] st = ([], st)"
| "sys_run (i # is) st = (case ThreadSysmon i st of (es, st) \<Rightarrow> case sys_run is st of (es', st) \<Rightarrow> (es @ es', st))"

section \<open>Properties\<close>

text \<open>The error flags.\<close>

lemma error_bit_inj: "error_bit e = error_bit f \<longleftrightarrow> e = f"
  by (cases e; cases f) simp_all

lemma getErrorFlag_bit: "getErrorFlag e st \<longleftrightarrow> bit (errorflags st) (error_bit e)"
proof -
  have n: "error_bit e < 32" by (cases e) simp_all
  have "errorflags st AND push_bit (error_bit e) 1 = (if bit (errorflags st) (error_bit e) then push_bit (error_bit e) 1 else 0)"
    using n by (intro bit_word_eqI) (auto simp: bit_simps)
  moreover have "push_bit (error_bit e) 1 \<noteq> (0 :: u32)" using n by (simp add: push_bit_eq_mult exp_eq_zero_iff)
  ultimately show ?thesis by (simp add: getErrorFlag_def word_gt_0)
qed

lemma getErrorFlag_set: "getErrorFlag e (setErrorFlag f st) \<longleftrightarrow> e = f \<or> getErrorFlag e st"
proof -
  have "error_bit e < 32" by (cases e) simp_all
  then show ?thesis
    by (auto simp: getErrorFlag_bit setErrorFlag_def sysmon_blink_pattern_def bit_simps error_bit_inj)
qed

text \<open>What is not an output on the LEDs.\<close>

fun led_effect :: "sys_effect \<Rightarrow> bool" where
  "led_effect (Led1 _) = True"
| "led_effect (Led2 _) = True"
| "led_effect _ = False"

definition card_effects :: "sys_effect list \<Rightarrow> sys_effect list" where
  "card_effects es = filter (\<lambda>e. \<not> led_effect e) es"

text \<open>A pass in terms of the timer and the mount state.\<close>

lemma blink_card: "card_effects (fst (blink pi st)) = []" "sdtmr (snd (blink pi st)) = sdtmr st"
  "fs_ready (snd (blink pi st)) = fs_ready st"
  by (simp_all add: blink_def card_effects_def Let_def)

lemma check_card: "sdtmr (overcurrent_check i st) = sdtmr st" "fs_ready (overcurrent_check i st) = fs_ready st"
  "sdtmr (monitor_v50 v st) = sdtmr st" "fs_ready (monitor_v50 v st) = fs_ready st"
  by (simp_all add: overcurrent_check_def setErrorFlag_def sysmon_blink_pattern_def monitor_v50_def)

definition mounts :: "sys_input \<Rightarrow> bool" where
  "mounts i \<longleftrightarrow> \<not> connect_fails i \<and> \<not> mount_fails i"

lemma pass_card:
  assumes "ThreadSysmon i st = (es, st')"
  shows "card i \<Longrightarrow> mounts i \<Longrightarrow> sdtmr st' = timer_present (sdtmr st) \<and>
      card_effects es = (if timer_present (sdtmr st) = 4
        then (if fs_ready st then [] else [Sdc_Connect, F_Mount]) @ [Patch_LoadStart_SD] else []) \<and>
      (fs_ready st' \<longleftrightarrow> fs_ready st \<or> timer_present (sdtmr st) = 4)"
    and "\<not> card i \<Longrightarrow> sdtmr st' = timer_absent (sdtmr st) \<and>
      card_effects es = (if timer_absent (sdtmr st) = - 1 then [Patch_Stop, Sdc_Disconnect] else []) \<and>
      (fs_ready st' \<longleftrightarrow> fs_ready st \<and> timer_absent (sdtmr st) \<noteq> - 1)"
proof -
  obtain ls st1 where b: "blink (pattern_index st) (overcurrent_check i st) = (ls, st1)" by fastforce
  then have c: "card_effects ls = []" "sdtmr st1 = sdtmr st" "fs_ready st1 = fs_ready st"
    using blink_card [of "pattern_index st" "overcurrent_check i st"] check_card(1,2) by simp_all
  have app: "card_effects (ls @ es) = card_effects es" for es using c(1) by (simp add: card_effects_def)
  show "sdtmr st' = timer_present (sdtmr st) \<and>
      card_effects es = (if timer_present (sdtmr st) = 4
        then (if fs_ready st then [] else [Sdc_Connect, F_Mount]) @ [Patch_LoadStart_SD] else []) \<and>
      (fs_ready st' \<longleftrightarrow> fs_ready st \<or> timer_present (sdtmr st) = 4)" if "card i" "mounts i"
    using assms b c that app
    by (auto simp: ThreadSysmon_def card_present_def sdcard_attemptMountIfUnmounted_def InsertHandler_def Let_def check_card mounts_def
        card_effects_def split: if_splits)
  show "sdtmr st' = timer_absent (sdtmr st) \<and>
      card_effects es = (if timer_absent (sdtmr st) = - 1 then [Patch_Stop, Sdc_Disconnect] else []) \<and>
      (fs_ready st' \<longleftrightarrow> fs_ready st \<and> timer_absent (sdtmr st) \<noteq> - 1)" if "\<not> card i"
    using assms b c that app
    by (auto simp: ThreadSysmon_def card_absent_def sdcard_unmount_def RemoveHandler_def Let_def check_card card_effects_def split: if_splits)
qed

text \<open>Runs of passes.\<close>

lemma present_settled:
  assumes "\<forall>i \<in> set inps. card i \<and> mounts i" and "sdtmr st \<in> {4, 5}" and "sys_run inps st = (es, st')"
  shows "card_effects es = [] \<and> sdtmr st' \<in> {4, 5} \<and> fs_ready st' = fs_ready st"
  using assms
proof (induction "inps" arbitrary: st es)
  case (Cons i inps)
  obtain es1 st1 es2 where r: "ThreadSysmon i st = (es1, st1)" "sys_run inps st1 = (es2, st')" "es = es1 @ es2"
    using Cons.prems(3) by (auto split: prod.splits)
  have t: "timer_present (sdtmr st) = 5" using Cons.prems(2) by (auto simp: timer_present_def)
  have "sdtmr st1 = 5" "card_effects es1 = []" "fs_ready st1 = fs_ready st"
    using pass_card(1) [OF r(1)] Cons.prems(1) t by simp_all
  then show ?case using Cons.IH [OF _ _ r(2)] Cons.prems(1) r(3) by (simp add: card_effects_def)
qed (simp add: card_effects_def)

lemma absent_settled:
  assumes "\<forall>i \<in> set inps. \<not> card i" and "sdtmr st < 0" and "sys_run inps st = (es, st')"
  shows "card_effects es = [] \<and> sdtmr st' < 0 \<and> fs_ready st' = fs_ready st"
  using assms
proof (induction "inps" arbitrary: st es)
  case (Cons i inps)
  obtain es1 st1 es2 where r: "ThreadSysmon i st = (es1, st1)" "sys_run inps st1 = (es2, st')" "es = es1 @ es2"
    using Cons.prems(3) by (auto split: prod.splits)
  have t: "timer_absent (sdtmr st) = - 2" using Cons.prems(2) by (auto simp: timer_absent_def Let_def)
  have "sdtmr st1 = - 2" "card_effects es1 = []" "fs_ready st1 = fs_ready st"
    using pass_card(2) [OF r(1)] Cons.prems(1) t by simp_all
  then show ?case using Cons.IH [OF _ _ r(2)] Cons.prems(1) r(3) by (simp add: card_effects_def)
qed (simp add: card_effects_def)

lemma card_effects_append: "card_effects (xs @ ys) = card_effects xs @ card_effects ys"
  by (simp add: card_effects_def)

lemma inserted:
  assumes "\<forall>i \<in> set inps. card i \<and> mounts i" and "sdtmr st < 4" and "4 - max (- 1) (sdtmr st) \<le> int (length inps)"
    and "sys_run inps st = (es, st')"
  shows "card_effects es = (if fs_ready st then [] else [Sdc_Connect, F_Mount]) @ [Patch_LoadStart_SD] \<and>
    sdtmr st' \<in> {4, 5} \<and> fs_ready st'"
  using assms
proof (induction "inps" arbitrary: st es)
  case (Cons i inps)
  obtain es1 st1 es2 where r: "ThreadSysmon i st = (es1, st1)" "sys_run inps st1 = (es2, st')" "es = es1 @ es2"
    using Cons.prems(4) by (auto split: prod.splits)
  note p = pass_card(1) [OF r(1)]
  have i: "card i" "mounts i" "\<forall>i \<in> set inps. card i \<and> mounts i" using Cons.prems(1) by simp_all
  show ?case
  proof (cases "sdtmr st = 3")
    case True
    then have "timer_present (sdtmr st) = 4" by (simp add: timer_present_def)
    then have "sdtmr st1 = 4" "fs_ready st1" "card_effects es1 = (if fs_ready st then [] else [Sdc_Connect, F_Mount]) @ [Patch_LoadStart_SD]"
      using p i by simp_all
    then show ?thesis using present_settled [OF i(3) _ r(2)] r(3) by (simp add: card_effects_append)
  next
    case False
    let ?t = "timer_present (sdtmr st)"
    have t: "?t < 4" "?t \<noteq> 4" "4 - max (- 1) ?t \<le> int (length inps)"
      using False Cons.prems(2,3) by (auto simp: timer_present_def Let_def max_def split: if_splits)
    then have "sdtmr st1 = ?t" "fs_ready st1 = fs_ready st" "card_effects es1 = []" using p i by simp_all
    then show ?thesis using Cons.IH [OF i(3) _ _ r(2)] t r(3) by (simp add: card_effects_append)
  qed
qed (auto simp: max_def split: if_splits)

lemma removed:
  assumes "\<forall>i \<in> set inps. \<not> card i" and "0 \<le> sdtmr st" and "2 \<le> length inps" and "sys_run inps st = (es, st')"
  shows "card_effects es = [Patch_Stop, Sdc_Disconnect] \<and> sdtmr st' < 0 \<and> \<not> fs_ready st'"
proof -
  obtain i j ks where l: "inps = i # j # ks" using assms(3) by (cases "inps"; cases "tl inps") auto
  obtain es1 st1 es2 st2 es3 where r: "ThreadSysmon i st = (es1, st1)" "ThreadSysmon j st1 = (es2, st2)"
      "sys_run ks st2 = (es3, st')" "es = es1 @ es2 @ es3"
    using assms(4) l by (auto split: prod.splits)
  note p = pass_card(2) [OF r(1)] pass_card(2) [OF r(2)]
  have c: "\<not> card i" "\<not> card j" "\<forall>k \<in> set ks. \<not> card k" using assms(1) l by simp_all
  show ?thesis
  proof (cases "sdtmr st = 0")
    case True
    then have "sdtmr st1 = - 1" "card_effects es1 = [Patch_Stop, Sdc_Disconnect]" "\<not> fs_ready st1"
      using p(1) c by (simp_all add: timer_absent_def)
    moreover from this have "sdtmr st2 = - 2" "card_effects es2 = []" "\<not> fs_ready st2"
      using p(2) c by (simp_all add: timer_absent_def)
    ultimately show ?thesis using absent_settled [OF c(3) _ r(3)] r(4) by (simp add: card_effects_append)
  next
    case False
    then have "timer_absent (sdtmr st) = 0" using assms(2) by (auto simp: timer_absent_def Let_def)
    then have "sdtmr st1 = 0" "card_effects es1 = []" using p(1) c by simp_all
    moreover from this have "sdtmr st2 = - 1" "card_effects es2 = [Patch_Stop, Sdc_Disconnect]" "\<not> fs_ready st2"
      using p(2) c by (simp_all add: timer_absent_def)
    ultimately show ?thesis using absent_settled [OF c(3) _ r(3)] r(4) by (simp add: card_effects_append)
  qed
qed

lemma sys_run_append:
  "sys_run (xs @ ys) st = (case sys_run xs st of (es, st1) \<Rightarrow> case sys_run ys st1 of (es', st2) \<Rightarrow> (es @ es', st2))"
  by (induction xs arbitrary: st) (auto split: prod.split)

text \<open>
  C29: A card that is put in and stays for at least five passes is mounted and its patch started exactly
  once, and when it is taken out and stays out for at least two passes the patch is stopped and the
  card unmounted exactly once, in this order, however long either lasts.
\<close>

lemma card_inserted_and_removed:
  assumes "sdtmr st < 4" and "\<not> fs_ready st" and "\<forall>i \<in> set ins. card i \<and> mounts i" and "5 \<le> length ins"
    and "\<forall>i \<in> set outs. \<not> card i" and "2 \<le> length outs" and "sys_run (ins @ outs) st = (es, st')"
  shows "card_effects es = [Sdc_Connect, F_Mount, Patch_LoadStart_SD, Patch_Stop, Sdc_Disconnect] \<and>
    sdtmr st' < 0 \<and> \<not> fs_ready st'"
proof -
  obtain es1 st1 es2 where r: "sys_run ins st = (es1, st1)" "sys_run outs st1 = (es2, st')" "es = es1 @ es2"
    using assms(7) by (auto simp: sys_run_append split: prod.splits)
  have "4 - max (- 1) (sdtmr st) \<le> int (length ins)" using assms(4) by (simp add: max_def)
  from inserted [OF assms(3,1) this r(1)] have 1: "card_effects es1 = [Sdc_Connect, F_Mount, Patch_LoadStart_SD]" "sdtmr st1 \<in> {4, 5}"
    using assms(2) by simp_all
  from 1(2) have "0 \<le> sdtmr st1" by auto
  from removed [OF assms(5) this assms(6) r(2)] 1(1) r(3) show ?thesis by (simp add: card_effects_append)
qed

definition card_input :: "bool \<Rightarrow> sys_input" where
  "card_input c = \<lparr>overcurrent = False, adc3 = 0, card = c, connect_fails = False, mount_fails = False\<rparr>"

lemma card_inserted_and_removed_witness:
  "card_effects (fst (sys_run (replicate 7 (card_input True) @ replicate 3 (card_input False)) (sysmon_init False))) =
   [Sdc_Connect, F_Mount, Patch_LoadStart_SD, Patch_Stop, Sdc_Disconnect]"
proof -
  let ?inps = "replicate 7 (card_input True) @ replicate 3 (card_input False)"
  obtain es st' where r: "sys_run ?inps (sysmon_init False) = (es, st')" by (rule prod.exhaust)
  from card_inserted_and_removed [OF _ _ _ _ _ _ r] show ?thesis
    unfolding r by (simp add: sysmon_init_def card_input_def mounts_def)
qed

text \<open>
  One pass without contact, from a card that is in and mounted, does not unmount it, but makes the
  timer start again: four passes later the patch of the card is loaded and started once more.
\<close>

lemma card_bounce_restarts:
  assumes "sdtmr st = 5" and "fs_ready st" and "\<not> card i" and "\<forall>j \<in> set js. card j \<and> mounts j" and "4 \<le> length js"
    and "sys_run (i # js) st = (es, st')"
  shows "card_effects es = [Patch_LoadStart_SD]"
proof -
  obtain es1 st1 es2 where r: "ThreadSysmon i st = (es1, st1)" "sys_run js st1 = (es2, st')" "es = es1 @ es2"
    using assms(6) by (auto split: prod.splits)
  have 1: "sdtmr st1 = 0" "card_effects es1 = []" "fs_ready st1"
    using pass_card(2) [OF r(1)] assms(1-3) by (simp_all add: timer_absent_def)
  then show ?thesis using inserted [OF assms(4) _ _ r(2)] assms(5) r(3) by (simp add: card_effects_append)
qed

text \<open>The LEDs.\<close>

definition steady :: "bool \<Rightarrow> sysmon \<Rightarrow> bool" where
  "steady c st \<longleftrightarrow> (if c then sdtmr st \<in> {4, 5} else sdtmr st < 0)"

lemma steady_pass:
  assumes "\<not> overcurrent i" and "card i = c" and "steady c st" and "isEnabled st" and "pattern_index st \<le> 30"
  shows "\<exists>st'. ThreadSysmon i st = ([Led1 (bit (pattern st) (pattern_index st)), Led2 (bit (pattern st) (pattern_index st + 1))], st') \<and>
    steady c st' \<and> isEnabled st' \<and> repeat_pattern st' = repeat_pattern st \<and>
    (if pattern_index st = 30 then pattern_index st' = 0 \<and> pattern st' = (if repeat_pattern st then pattern st else BLINK_OK)
     else pattern_index st' = pattern_index st + 2 \<and> pattern st' = pattern st)"
proof -
  have "timer_present (sdtmr st) = 5" if "sdtmr st \<in> {4, 5}" using that by (auto simp: timer_present_def)
  moreover have "timer_absent (sdtmr st) = - 2" if "sdtmr st < 0" using that by (auto simp: timer_absent_def Let_def)
  ultimately show ?thesis
    using assms by (auto simp: ThreadSysmon_def blink_def overcurrent_check_def card_present_def card_absent_def
        steady_def monitor_v50_def Let_def split: if_splits)
qed

lemma pattern_rest:
  assumes "\<forall>i \<in> set inps. \<not> overcurrent i \<and> card i = c" and "steady c st" and "isEnabled st"
    and "pattern_index st = 2 * k" and "k + length inps = 16" and "inps \<noteq> []" and "sys_run inps st = (es, st')"
  shows "es = concat (map (\<lambda>j. [Led1 (bit (pattern st) (2 * j)), Led2 (bit (pattern st) (2 * j + 1))]) [k..<16]) \<and>
    pattern_index st' = 0 \<and> pattern st' = (if repeat_pattern st then pattern st else BLINK_OK)"
  using assms
proof (induction inps arbitrary: st es k)
  case (Cons i inps)
  have i: "pattern_index st \<le> 30" using Cons.prems(4,5) by simp
  obtain st1 where r: "ThreadSysmon i st = ([Led1 (bit (pattern st) (2 * k)), Led2 (bit (pattern st) (2 * k + 1))], st1)"
    "steady c st1" "isEnabled st1" "repeat_pattern st1 = repeat_pattern st"
    "if k = 15 then pattern_index st1 = 0 \<and> pattern st1 = (if repeat_pattern st then pattern st else BLINK_OK)
     else pattern_index st1 = 2 * (k + 1) \<and> pattern st1 = pattern st"
    using steady_pass [OF _ _ Cons.prems(2,3) i, of i] Cons.prems(1,4) by auto
  obtain es' where s: "sys_run inps st1 = (es', st')" "es = [Led1 (bit (pattern st) (2 * k)), Led2 (bit (pattern st) (2 * k + 1))] @ es'"
    using Cons.prems(7) r(1) by (auto split: prod.splits)
  show ?case
  proof (cases "inps = []")
    case True
    then have "k = 15" using Cons.prems(5) by simp
    then show ?thesis using True r(5) s by (simp add: upt_rec)
  next
    case False
    then have k: "k < 15" using Cons.prems(5) by (cases inps) auto
    then have "[k..<16] = k # [k + 1..<16]" by (simp add: upt_rec)
    then show ?thesis using Cons.IH [OF _ r(2,3) _ _ False s(1), of "k + 1"] Cons.prems(1,5) r(4,5) s(2) k by simp
  qed
qed simp

text \<open>
  From the start of a pattern, and while nothing happens to the card switch, sixteen passes show
  its 32 bits, the even ones on the first LED and the odd ones on the second; then the pattern starts
  again if it repeats, and gives way to the pattern of normal operation otherwise.
\<close>

lemma pattern_shown:
  assumes "\<forall>i \<in> set inps. \<not> overcurrent i \<and> card i = c" and "steady c st" and "isEnabled st"
    and "pattern_index st = 0" and "length inps = 16" and "sys_run inps st = (es, st')"
  shows "es = concat (map (\<lambda>j. [Led1 (bit (pattern st) (2 * j)), Led2 (bit (pattern st) (2 * j + 1))]) [0..<16]) \<and>
    pattern_index st' = 0 \<and> pattern st' = (if repeat_pattern st then pattern st else BLINK_OK)"
proof -
  have "inps \<noteq> []" using assms(5) by auto
  from pattern_rest [OF assms(1-3) _ _ this assms(6), of 0] show ?thesis using assms(4,5) by simp
qed

lemma pattern_shown_witness:
  "pattern (snd (sys_run (replicate 16 (card_input False)) (sysmon_init False))) = BLINK_OK"
proof -
  obtain es st' where r: "sys_run (replicate 16 (card_input False)) (sysmon_init False) = (es, st')" by (rule prod.exhaust)
  from pattern_shown [OF _ _ _ _ _ r, of False] show ?thesis
    unfolding r by (simp add: sysmon_init_def card_input_def steady_def)
qed

end
