(* ===== verification/Crc32.thy ===== *)
theory Crc32
  imports Prelude
begin

text \<open>
  The CRC-32 of firmware/crc32.c, which guards a firmware image before it is written to flash and
  identifies the firmware to the host. Whole words go through the CRC unit of the microcontroller, with
  the bits reversed on the way in and out, and the last bytes are done in software. The unit is a
  parameter: a function from its data register and the word written to the new data register.
\<close>

section \<open>The code\<close>

definition rbit :: "u32 \<Rightarrow> u32" where
  "rbit w = horner_sum of_bool 2 (map (bit w) (rev [0..<32]))"

definition crc_step :: "u32 \<Rightarrow> u32" where
  "crc_step x = (if x AND 1 \<noteq> 0 then drop_bit 1 x XOR 0xEDB88320 else drop_bit 1 x)"

definition crc_tail :: "u8 \<Rightarrow> u32 \<Rightarrow> u32" where
  "crc_tail b x = (crc_step ^^ 8) (x XOR ucast b)"

fun crc_words :: "(u32 \<Rightarrow> u32 \<Rightarrow> u32) \<Rightarrow> u8 list \<Rightarrow> u32 \<Rightarrow> u8 list \<times> u32" where
  "crc_words unit (a # b # c # d # bs) dr = crc_words unit bs (unit dr (rbit (le32 a b c d)))"
| "crc_words unit bs dr = (bs, dr)"

text \<open>Writing 1 to the control register resets the data register.\<close>

definition CalcCRC32 :: "(u32 \<Rightarrow> u32 \<Rightarrow> u32) \<Rightarrow> u8 list \<Rightarrow> u32" where
  "CalcCRC32 unit bs =
     (case crc_words unit bs 0xFFFFFFFF of (rest, dr) \<Rightarrow> fold crc_tail rest (rbit dr) XOR 0xFFFFFFFF)"

section \<open>The unit and the reference\<close>

text \<open>
  The reference manual of the unit: a word is combined with the register and divided by the
  polynomial 0x04C11DB7, most significant bit first.
\<close>

definition unit_step :: "u32 \<Rightarrow> u32" where
  "unit_step x = (if bit x 31 then push_bit 1 x XOR 0x04C11DB7 else push_bit 1 x)"

definition crc_unit :: "u32 \<Rightarrow> u32 \<Rightarrow> u32" where
  "crc_unit dr w = (unit_step ^^ 32) (dr XOR w)"

text \<open>CRC-32 as it is usually defined: the bytes in order, each least significant bit first.\<close>

definition crc32_reference :: "u8 list \<Rightarrow> u32" where
  "crc32_reference bs =
     (fold (\<lambda>v r. if v \<noteq> bit r 0 then drop_bit 1 r XOR 0xEDB88320 else drop_bit 1 r)
       (concat (map (\<lambda>b. map (bit b) [0..<8]) bs)) 0xFFFFFFFF) XOR 0xFFFFFFFF"

section \<open>Reversing bits\<close>

lemma bit_rbit: "bit (rbit w) n \<longleftrightarrow> n < 32 \<and> bit w (31 - n)"
  by (auto simp: rbit_def bit_horner_sum_bit_word_iff rev_nth)

lemma rbit_xor: "rbit (x XOR y) = rbit x XOR rbit y"
  by (rule bit_word_eqI) (simp add: bit_rbit bit_simps)

lemma rbit_rbit [simp]: "rbit (rbit w) = w"
  by (rule bit_word_eqI) (auto simp: bit_rbit)

lemma rbit_push: "rbit (push_bit 1 x) = drop_bit 1 (rbit x)"
  by (rule bit_word_eqI) (auto simp: bit_rbit bit_simps simp del: push_bit_Suc)

lemma low_bit_and: "x AND 1 \<noteq> 0 \<longleftrightarrow> bit x 0" for x :: u32
  by (simp add: and_one_eq odd_iff_mod_2_eq_one bit_0)

lemma rbit_ones: "rbit 0xFFFFFFFF = 0xFFFFFFFF"
  by (simp add: rbit_def upt_rec)

lemma rbit_polynomial: "rbit 0x04C11DB7 = 0xEDB88320"
  by (simp add: rbit_def upt_rec)

lemma rbit_unit_step: "rbit (unit_step x) = crc_step (rbit x)"
  unfolding unit_step_def crc_step_def low_bit_and
  by (simp add: bit_rbit rbit_xor rbit_push rbit_polynomial del: push_bit_Suc One_nat_def)

lemma rbit_unit: "rbit (crc_unit dr w) = (crc_step ^^ 32) (rbit dr XOR rbit w)"
proof -
  have "rbit ((unit_step ^^ n) x) = (crc_step ^^ n) (rbit x)" for n x
    by (induction n) (simp_all add: rbit_unit_step)
  then show ?thesis by (simp add: crc_unit_def rbit_xor)
qed

section \<open>A word is four bytes\<close>

lemma crc_step_xor: "crc_step (x XOR y) = crc_step x XOR crc_step y"
proof -
  have drop: "drop_bit 1 (x XOR y) = drop_bit 1 x XOR drop_bit 1 y"
    by (rule bit_word_eqI) (simp add: bit_simps)
  show ?thesis unfolding crc_step_def low_bit_and drop
    by (auto simp: bit_simps ac_simps)
qed

lemma crc_steps_xor: "(crc_step ^^ n) (x XOR y) = (crc_step ^^ n) x XOR (crc_step ^^ n) y"
  by (induction n) (simp_all add: crc_step_xor)

text \<open>While the low bits are zero a step only shifts.\<close>

lemma crc_steps_shift: "(\<forall>i < n. \<not> bit x i) \<Longrightarrow> (crc_step ^^ n) x = drop_bit n x"
proof (induction n)
  case (Suc n)
  then have "(crc_step ^^ n) x = drop_bit n x" by simp
  moreover have "\<not> bit (drop_bit n x) 0" using Suc.prems by (simp add: bit_drop_bit_eq)
  then have "crc_step (drop_bit n x) = drop_bit 1 (drop_bit n x)" by (simp only: crc_step_def low_bit_and if_False)
  moreover have "drop_bit 1 (drop_bit n x) = drop_bit (Suc n) x" by simp
  ultimately show ?case by (simp only: funpow.simps o_apply)
qed simp

lemma crc_byte_first:
  assumes "\<forall>i < 8. \<not> bit y i"
  shows "(crc_step ^^ (8 + n)) (x XOR (ucast b XOR y)) = (crc_step ^^ n) (crc_tail b x XOR drop_bit 8 y)"
proof -
  have "(crc_step ^^ 8) (x XOR (ucast b XOR y)) = crc_tail b x XOR drop_bit 8 y"
    by (simp only: xor.assoc [symmetric] crc_steps_xor crc_tail_def) (simp only: crc_steps_shift [OF assms])
  then show ?thesis by (simp add: funpow_add add.commute [of 8])
qed

lemma crc_word: "(crc_step ^^ 32) (x XOR le32 a b c d) = crc_tail d (crc_tail c (crc_tail b (crc_tail a x)))"
proof -
  have le: "le32 a b c d = ucast a XOR push_bit 8 (ucast b XOR push_bit 8 (ucast c XOR push_bit 8 (ucast d)))"
    by (rule bit_word_eqI) (auto simp: bit_le32 bit_simps dest: bit_imp_le_length)
  have drop: "drop_bit 8 (push_bit 8 (y :: u32)) = y" if "\<forall>i \<ge> 24. \<not> bit y i" for y
    using that by (intro bit_word_eqI) (auto simp: bit_simps not_le [symmetric])
  have low: "\<forall>i < 8. \<not> bit (push_bit 8 y) i" for y :: u32 by (simp add: bit_simps)
  have small: "\<forall>i \<ge> 24. \<not> bit (ucast b XOR push_bit 8 (ucast c XOR push_bit 8 (ucast d)) :: u32) i"
    "\<forall>i \<ge> 24. \<not> bit (ucast c XOR push_bit 8 (ucast d) :: u32) i" "\<forall>i \<ge> 24. \<not> bit (ucast d :: u32) i"
    by (auto simp: bit_simps dest: bit_imp_le_length)
  have "(crc_step ^^ (8 + (8 + (8 + (8 + 0))))) (x XOR le32 a b c d) = crc_tail d (crc_tail c (crc_tail b (crc_tail a x)))"
    unfolding le crc_byte_first [OF low] drop [OF small(1)] drop [OF small(2)] drop [OF small(3)]
    by (simp add: funpow_add crc_tail_def)
  then show ?thesis by simp
qed

lemma crc_words_correct:
  "crc_words crc_unit bs dr = (rest, dr') \<Longrightarrow> fold crc_tail rest (rbit dr') = fold crc_tail bs (rbit dr)"
proof (induction crc_unit bs dr rule: crc_words.induct)
  case (1 a b c d bs dr)
  then show ?case by (simp add: rbit_unit crc_word)
qed auto

lemma crc_tail_bits:
  "crc_tail b r = fold (\<lambda>v r. if v \<noteq> bit r 0 then drop_bit 1 r XOR 0xEDB88320 else drop_bit 1 r) (map (bit b) [0..<8]) r"
proof -
  let ?f = "\<lambda>v r :: u32. if v \<noteq> bit r 0 then drop_bit 1 r XOR 0xEDB88320 else drop_bit 1 r"
  have step: "crc_step (r XOR (of_bool v XOR push_bit 1 y)) = ?f v r XOR y" if "\<not> bit y 31" for v r and y :: u32
  proof -
    have y: "drop_bit 1 (push_bit 1 y) = y"
      using that by (intro bit_word_eqI) (auto simp: bit_simps less_Suc_eq numeral_eq_Suc simp del: push_bit_Suc)
    have "\<not> bit (push_bit 1 y) 0" by (simp add: bit_simps del: push_bit_Suc)
    then have "crc_step (push_bit 1 y) = y" using y by (simp only: crc_step_def low_bit_and if_False)
    moreover have "crc_step (of_bool v) = (if v then 0xEDB88320 else 0)" by (simp add: crc_step_def)
    moreover have "crc_step r = (if bit r 0 then drop_bit 1 r XOR 0xEDB88320 else drop_bit 1 r)"
      by (simp only: crc_step_def low_bit_and)
    ultimately show ?thesis by (simp add: crc_step_xor xor.assoc xor.left_commute)
  qed
  have bits: "(crc_step ^^ n) (r XOR ucast (w :: u8)) = fold ?f (map (bit w) [0..<n]) r"
    if "\<forall>i \<ge> n. \<not> bit w i" "n \<le> 8" for n w r
    using that
  proof (induction n arbitrary: w r)
    case 0
    then have "w = 0" by (intro bit_word_eqI) simp
    then show ?case by simp
  next
    case (Suc n)
    let ?w = "drop_bit 1 w"
    have w: "\<not> bit w k" if "8 \<le> k" for k using that by (auto dest: bit_imp_le_length)
    have "ucast w = (of_bool (bit w 0) XOR push_bit 1 (ucast ?w) :: u32)"
    proof (rule bit_word_eqI)
      fix m :: nat
      show "bit (ucast w :: u32) m = bit (of_bool (bit w 0) XOR push_bit 1 (ucast ?w) :: u32) m" if "m < LENGTH(32)"
        using that by (cases m) (auto simp: bit_simps w dest: bit_imp_le_length simp del: push_bit_Suc)
    qed
    moreover have "\<not> bit (ucast ?w :: u32) 31" by (simp add: bit_simps w)
    ultimately have "crc_step (r XOR ucast w) = ?f (bit w 0) r XOR ucast ?w" using step by simp
    moreover have "(crc_step ^^ n) (?f (bit w 0) r XOR ucast ?w) = fold ?f (map (bit ?w) [0..<n]) (?f (bit w 0) r)"
      using Suc.prems by (intro Suc.IH) (auto simp: bit_simps)
    moreover have "map (bit w) [0..<Suc n] = bit w 0 # map (bit ?w) [0..<n]"
      by (simp add: map_upt_Suc bit_simps del: upt_Suc)
    ultimately show ?case by (simp add: funpow_Suc_right del: funpow.simps upt_Suc)
  qed
  show ?thesis unfolding crc_tail_def by (rule bits) (auto dest: bit_imp_le_length)
qed

section \<open>Properties\<close>

text \<open>
  C27: With the CRC unit of the reference manual, CalcCRC32 computes the standard CRC-32 of the bytes,
  for every length: the words through the unit and the last bytes in software fit together.
\<close>

lemma crc32_correct:
  assumes "unit = crc_unit"
  shows "CalcCRC32 unit bs = crc32_reference bs"
proof -
  obtain rest dr where w: "crc_words crc_unit bs 0xFFFFFFFF = (rest, dr)" by (rule prod.exhaust)
  have "fold crc_tail bs r = fold (\<lambda>v r. if v \<noteq> bit r 0 then drop_bit 1 r XOR 0xEDB88320 else drop_bit 1 r)
      (concat (map (\<lambda>b. map (bit b) [0..<8]) bs)) r" for r
    by (induction bs arbitrary: r) (simp_all add: crc_tail_bits)
  then show ?thesis
    using crc_words_correct [OF w] by (simp add: CalcCRC32_def crc32_reference_def assms w rbit_ones)
qed

text \<open>The check value of CRC-32, for the text 123456789.\<close>

lemma crc32_correct_witness: "CalcCRC32 crc_unit (map of_nat [49..<58]) = 0xCBF43926"
  unfolding crc32_correct [OF refl] by code_simp

end
