(* ===== verification/Flash.thy ===== *)
theory Flash
  imports Prelude
begin

text \<open>
  Writing the flash memory (firmware/flash.c): the sectors of a patch or of the whole firmware are
  erased, programmed word by word from a source in RAM, and compared with it. The flash controller
  is hardware; what the code relies on is stated as parameters and a hypothesis about them.
\<close>

section \<open>The controller\<close>

definition FLASH_BASE_ADDR :: u32 where "FLASH_BASE_ADDR = 0x08000000"
definition FLASH_PATCH_ADDR :: u32 where "FLASH_PATCH_ADDR = 0x08080000"

abbreviation (input) FLASH_CR_PG :: u32 where "FLASH_CR_PG \<equiv> push_bit 0 1"
abbreviation (input) FLASH_CR_SER :: u32 where "FLASH_CR_SER \<equiv> push_bit 1 1"
abbreviation (input) FLASH_CR_SNB :: u32 where "FLASH_CR_SNB \<equiv> push_bit 3 (mask 5)"
abbreviation (input) FLASH_CR_PSIZE :: u32 where "FLASH_CR_PSIZE \<equiv> push_bit 8 (mask 2)"
abbreviation (input) FLASH_CR_PSIZE_1 :: u32 where "FLASH_CR_PSIZE_1 \<equiv> push_bit 9 1"
abbreviation (input) FLASH_CR_STRT :: u32 where "FLASH_CR_STRT \<equiv> push_bit 16 1"
abbreviation (input) FLASH_CR_LOCK :: u32 where "FLASH_CR_LOCK \<equiv> push_bit 31 1"

text \<open>
  The parameters: the sector of an address (some number above 11 outside the flash), and the word that
  programming leaves from the old word and the data.
\<close>

record flash_hw =
  sector_of :: "u32 \<Rightarrow> nat"
  programs :: "u32 \<Rightarrow> u32 \<Rightarrow> u32"

text \<open>The memory by word addresses, the control register, and what else the functions touch.\<close>

record flash_st =
  mem :: "u32 \<Rightarrow> u32"
  cr :: u32
  interrupts :: bool
  led2 :: bool

text \<open>
  A write to the control register is ignored when it is locked; with the bits for sector erase and
  start it erases the sector whose number it holds, and the start bit clears itself.
\<close>

definition sector_field :: "u32 \<Rightarrow> nat" where
  "sector_field v = unat (drop_bit 3 v AND mask 5)"

definition write_cr :: "flash_hw \<Rightarrow> u32 \<Rightarrow> flash_st \<Rightarrow> flash_st" where
  "write_cr hw v st =
     (if bit (cr st) 31 then st
      else if bit v 16 \<and> bit v 1 then
        st\<lparr>mem := (\<lambda>a. if sector_of hw a = sector_field v then 0xFFFFFFFF else mem st a), cr := v AND NOT FLASH_CR_STRT\<rparr>
      else st\<lparr>cr := v\<rparr>)"

definition write_word :: "flash_hw \<Rightarrow> u32 \<Rightarrow> u32 \<Rightarrow> flash_st \<Rightarrow> flash_st" where
  "write_word hw a d st =
     (if \<not> bit (cr st) 31 \<and> bit (cr st) 0 then st\<lparr>mem := (mem st)(a := programs hw (mem st a) d)\<rparr> else st)"

section \<open>The code\<close>

definition set_bits :: "flash_hw \<Rightarrow> u32 \<Rightarrow> flash_st \<Rightarrow> flash_st" where
  "set_bits hw m st = write_cr hw (cr st OR m) st"

definition clear_bits :: "flash_hw \<Rightarrow> u32 \<Rightarrow> flash_st \<Rightarrow> flash_st" where
  "clear_bits hw m st = write_cr hw (cr st AND NOT m) st"

definition flash_Erase_sector :: "flash_hw \<Rightarrow> nat \<Rightarrow> flash_st \<Rightarrow> flash_st" where
  "flash_Erase_sector hw sector st =
     (let st = clear_bits hw FLASH_CR_PSIZE st;
          st = set_bits hw FLASH_CR_PSIZE_1 st;
          st = clear_bits hw FLASH_CR_SNB st;
          st = set_bits hw (FLASH_CR_SER OR push_bit 3 (of_nat sector)) st;
          st = set_bits hw FLASH_CR_STRT st;
          st = clear_bits hw FLASH_CR_SER st
      in clear_bits hw FLASH_CR_SER st)"

definition flash_ProgramWord :: "flash_hw \<Rightarrow> u32 \<Rightarrow> u32 \<Rightarrow> flash_st \<Rightarrow> flash_st" where
  "flash_ProgramWord hw a d st =
     (let st = clear_bits hw FLASH_CR_PSIZE st;
          st = set_bits hw FLASH_CR_PSIZE_1 st;
          st = set_bits hw FLASH_CR_PG st;
          st = write_word hw a d st
      in clear_bits hw FLASH_CR_PG st)"

text \<open>The two keys of the unlock sequence clear the lock bit.\<close>

definition flash_unlock :: "flash_st \<Rightarrow> flash_st" where
  "flash_unlock st = st\<lparr>cr := cr st AND NOT FLASH_CR_LOCK\<rparr>"

definition flash_lock :: "flash_hw \<Rightarrow> flash_st \<Rightarrow> flash_st" where
  "flash_lock hw st = set_bits hw FLASH_CR_LOCK st"

definition erase_sectors :: "flash_hw \<Rightarrow> nat list \<Rightarrow> flash_st \<Rightarrow> flash_st" where
  "erase_sectors hw = fold (\<lambda>i st. (flash_Erase_sector hw i st)\<lparr>led2 := odd i\<rparr>)"

definition words_of :: "u32 \<Rightarrow> nat" where
  "words_of psize = (unat psize + 3) div 4"

definition at_word :: "u32 \<Rightarrow> nat \<Rightarrow> u32" where
  "at_word a i = a + of_nat (4 * i)"

definition program_words :: "flash_hw \<Rightarrow> u32 \<Rightarrow> u32 \<Rightarrow> nat list \<Rightarrow> flash_st \<Rightarrow> flash_st" where
  "program_words hw pdest psrc =
     fold (\<lambda>i st. (flash_ProgramWord hw (at_word pdest i) (mem st (at_word psrc i)) st)\<lparr>led2 := bit (4 * (i + 1)) 14\<rparr>)"

definition verify_words :: "u32 \<Rightarrow> u32 \<Rightarrow> nat \<Rightarrow> flash_st \<Rightarrow> int" where
  "verify_words pdest psrc n st =
     int (length (filter (\<lambda>i. mem st (at_word pdest i) \<noteq> mem st (at_word psrc i)) [0..<n]))"

text \<open>
  The result is None when the processor is reset, after the firmware itself has been replaced.
  Interrupts are disabled meanwhile, since no code in flash may run.
\<close>

definition flash_write :: "flash_hw \<Rightarrow> u32 \<Rightarrow> u32 \<Rightarrow> u32 \<Rightarrow> flash_st \<Rightarrow> int option \<times> flash_st" where
  "flash_write hw pdest psrc psize st =
     (if pdest = FLASH_PATCH_ADDR \<or> pdest = FLASH_BASE_ADDR then
        let st = flash_unlock (st\<lparr>interrupts := False\<rparr>);
            st = erase_sectors hw (if pdest = FLASH_PATCH_ADDR then [8..<12] else [0..<12]) st;
            st = flash_lock hw (program_words hw pdest psrc [0..<words_of psize] st);
            err = verify_words pdest psrc (words_of psize) st
        in if pdest = FLASH_BASE_ADDR then (None, st) else (Some err, st\<lparr>interrupts := True\<rparr>)
      else (Some (- 1), st))"

section \<open>Erasing and programming\<close>

text \<open>Between the operations the controller is unlocked, and neither erases nor programs.\<close>

definition idle :: "flash_st \<Rightarrow> bool" where
  "idle st \<longleftrightarrow> \<not> bit (cr st) 31 \<and> \<not> bit (cr st) 16 \<and> \<not> bit (cr st) 1 \<and> \<not> bit (cr st) 0"

definition erased :: "flash_hw \<Rightarrow> nat \<Rightarrow> flash_st \<Rightarrow> u32 \<Rightarrow> u32" where
  "erased hw n st = (\<lambda>a. if sector_of hw a = n then 0xFFFFFFFF else mem st a)"

lemma bit_above: "n < 2 ^ k \<Longrightarrow> k \<le> j \<Longrightarrow> \<not> bit n j" for n :: nat
proof
  assume n: "n < 2 ^ k" "k \<le> j" and "bit n j"
  have "n < 2 ^ j" using n by (meson order.strict_trans2 one_le_numeral power_increasing)
  then show False using \<open>bit n j\<close> by (simp add: bit_iff_odd)
qed

lemma bit_int_8192 [simp]: "bit (8192 :: int) n \<longleftrightarrow> n = 13"
proof -
  have "(8192 :: int) = 2 ^ 13" by simp
  then show ?thesis by (simp only: bit_exp_iff) auto
qed

lemma sector_field_set:
  assumes "n < 32"
  shows "sector_field ((x AND NOT FLASH_CR_SNB OR (FLASH_CR_SER OR push_bit 3 (of_nat n))) OR FLASH_CR_STRT) = n"
proof -
  have n: "\<not> bit n k" if "5 \<le> k" for k using bit_above [of n 5 k] assms that by simp
  have "drop_bit 3 ((x AND NOT FLASH_CR_SNB OR (FLASH_CR_SER OR push_bit 3 (of_nat n))) OR FLASH_CR_STRT) AND mask 5 = of_nat n"
    using n by (intro bit_word_eqI) (auto simp: bit_simps not_le [symmetric] simp del: push_bit_Suc)
  then show ?thesis using assms by (simp add: sector_field_def unat_of_nat)
qed

lemma write_plain: "\<not> bit (cr st) 31 \<Longrightarrow> \<not> bit v 16 \<or> \<not> bit v 1 \<Longrightarrow> write_cr hw v st = st\<lparr>cr := v\<rparr>"
  by (auto simp: write_cr_def)

lemma write_start:
  "\<not> bit (cr st) 31 \<Longrightarrow> bit v 16 \<Longrightarrow> bit v 1 \<Longrightarrow>
   write_cr hw v st = st\<lparr>mem := erased hw (sector_field v) st, cr := v AND NOT FLASH_CR_STRT\<rparr>"
  by (simp add: write_cr_def erased_def)

lemma idle_bits:
  "idle st \<Longrightarrow> k \<in> {0, 1, 16, 31} \<Longrightarrow> \<not> bit (cr st) k"
  by (auto simp: idle_def)

text \<open>Changing bits that neither start, lock nor program.\<close>

lemma idle_clear:
  assumes "idle st"
  shows "clear_bits hw m st = st\<lparr>cr := cr st AND NOT m\<rparr>" "idle (clear_bits hw m st)"
proof -
  show 1: "clear_bits hw m st = st\<lparr>cr := cr st AND NOT m\<rparr>"
    unfolding clear_bits_def using assms by (intro write_plain) (simp_all add: idle_def bit_simps)
  show "idle (clear_bits hw m st)" unfolding 1 using assms by (simp add: idle_def bit_simps)
qed

lemma idle_set:
  assumes "idle st" and "\<not> bit m 0" "\<not> bit m 1" "\<not> bit m 16" "\<not> bit m 31"
  shows "set_bits hw m st = st\<lparr>cr := cr st OR m\<rparr>" "idle (set_bits hw m st)"
proof -
  show 1: "set_bits hw m st = st\<lparr>cr := cr st OR m\<rparr>"
    unfolding set_bits_def using assms by (intro write_plain) (simp_all add: idle_def bit_simps)
  show "idle (set_bits hw m st)" unfolding 1 using assms by (simp add: idle_def bit_simps)
qed

lemma erase_sector:
  assumes "idle st" and "n < 16"
  shows "mem (flash_Erase_sector hw n st) = erased hw n st" "idle (flash_Erase_sector hw n st)"
proof -
  define st1 where "st1 = clear_bits hw FLASH_CR_PSIZE st"
  define st2 where "st2 = set_bits hw FLASH_CR_PSIZE_1 st1"
  define st3 where "st3 = clear_bits hw FLASH_CR_SNB st2"
  have 1: "idle st1" "mem st1 = mem st" using idle_clear [OF assms(1)] by (simp_all add: st1_def)
  have m: "\<not> bit FLASH_CR_PSIZE_1 0" "\<not> bit FLASH_CR_PSIZE_1 1" "\<not> bit FLASH_CR_PSIZE_1 16" "\<not> bit FLASH_CR_PSIZE_1 31"
    by (simp_all add: bit_simps del: push_bit_Suc)
  have 2: "idle st2" "mem st2 = mem st1" using idle_set [OF 1(1) m] by (simp_all add: st2_def)
  have 3: "idle st3" "mem st3 = mem st2" "cr st3 = cr st2 AND NOT FLASH_CR_SNB" using idle_clear [OF 2(1)] by (simp_all add: st3_def)
  let ?ser = "FLASH_CR_SER OR push_bit 3 (of_nat n) :: u32"
  have n: "\<not> bit n k" if "4 \<le> k" for k using bit_above [of n 4 k] assms(2) that by simp
  let ?c4 = "cr st3 OR ?ser" and ?st4 = "st3\<lparr>cr := cr st3 OR ?ser\<rparr>"
  have c4: "\<not> bit ?c4 31" "\<not> bit ?c4 16" "bit ?c4 1" "\<not> bit ?c4 0"
    using idle_bits [OF 3(1)] n by (simp_all add: bit_simps del: push_bit_Suc)
  have 4: "set_bits hw ?ser st3 = ?st4"
    unfolding set_bits_def using c4 idle_bits [OF 3(1)] by (intro write_plain) simp_all
  let ?c5 = "?c4 OR FLASH_CR_STRT"
  have c5: "bit ?c5 16" "bit ?c5 1" using c4 by (simp_all add: bit_simps del: push_bit_Suc)
  let ?st5 = "?st4\<lparr>mem := erased hw n st, cr := ?c5 AND NOT FLASH_CR_STRT\<rparr>"
  have field: "sector_field ?c5 = n" using sector_field_set [of n "cr st2"] assms(2) by (simp only: 3(3))
  have "mem ?st4 = mem st" using 1(2) 2(2) 3(2) by simp
  then have "erased hw n ?st4 = erased hw n st" by (simp only: erased_def)
  then have 5: "set_bits hw FLASH_CR_STRT ?st4 = ?st5"
    unfolding set_bits_def using write_start [of ?st4 ?c5 hw] c4 c5 field by simp
  let ?c6 = "(?c5 AND NOT FLASH_CR_STRT) AND NOT FLASH_CR_SER" and ?st6 = "?st5\<lparr>cr := (?c5 AND NOT FLASH_CR_STRT) AND NOT FLASH_CR_SER\<rparr>"
  have c6: "\<not> bit (?c5 AND NOT FLASH_CR_STRT) 31" "\<not> bit ?c6 31" "\<not> bit ?c6 16" "\<not> bit ?c6 1" "\<not> bit ?c6 0"
    using c4 by (simp_all add: bit_simps del: push_bit_Suc)
  have 6: "clear_bits hw FLASH_CR_SER ?st5 = ?st6"
    unfolding clear_bits_def using c6 by (intro write_plain [THEN trans]) simp_all
  have i6: "idle ?st6" using c6 by (simp add: idle_def)
  have run: "flash_Erase_sector hw n st = clear_bits hw FLASH_CR_SER ?st6"
    unfolding flash_Erase_sector_def Let_def st1_def [symmetric] st2_def [symmetric] st3_def [symmetric] 4 5 6 by (rule refl)
  show "idle (flash_Erase_sector hw n st)" unfolding run by (rule idle_clear(2) [OF i6])
  show "mem (flash_Erase_sector hw n st) = erased hw n st" unfolding run idle_clear(1) [OF i6] by simp
qed

lemma erase_sectors:
  assumes "idle st" and "\<forall>i \<in> set ns. i < 16"
  shows "mem (erase_sectors hw ns st) = (\<lambda>a. if sector_of hw a \<in> set ns then 0xFFFFFFFF else mem st a) \<and>
    idle (erase_sectors hw ns st)"
  using assms
proof (induction ns arbitrary: st)
  case (Cons n ns)
  let ?st = "(flash_Erase_sector hw n st)\<lparr>led2 := odd n\<rparr>"
  have n: "mem ?st = erased hw n st" "idle ?st"
    using erase_sector [OF Cons.prems(1), of n hw] Cons.prems(2) by (simp_all add: idle_def)
  have "erase_sectors hw (n # ns) st = erase_sectors hw ns ?st" by (simp add: erase_sectors_def)
  then show ?case using Cons.IH [OF n(2)] Cons.prems(2) n(1) by (auto simp: erased_def)
qed (simp add: erase_sectors_def)

lemma program_word:
  assumes "idle st"
  shows "mem (flash_ProgramWord hw a d st) = (mem st)(a := programs hw (mem st a) d)" "idle (flash_ProgramWord hw a d st)"
proof -
  define st1 where "st1 = clear_bits hw FLASH_CR_PSIZE st"
  define st2 where "st2 = set_bits hw FLASH_CR_PSIZE_1 st1"
  have 1: "idle st1" "mem st1 = mem st" using idle_clear [OF assms] by (simp_all add: st1_def)
  have m: "\<not> bit FLASH_CR_PSIZE_1 0" "\<not> bit FLASH_CR_PSIZE_1 1" "\<not> bit FLASH_CR_PSIZE_1 16" "\<not> bit FLASH_CR_PSIZE_1 31"
    by (simp_all add: bit_simps del: push_bit_Suc)
  have 2: "idle st2" "mem st2 = mem st" using idle_set [OF 1(1) m] 1(2) by (simp_all add: st2_def)
  let ?c3 = "cr st2 OR FLASH_CR_PG" and ?st3 = "st2\<lparr>cr := cr st2 OR FLASH_CR_PG\<rparr>"
  have c3: "\<not> bit ?c3 31" "\<not> bit ?c3 16" "\<not> bit ?c3 1" "bit ?c3 0"
    using idle_bits [OF 2(1)] by (simp_all add: bit_simps del: push_bit_Suc)
  have 3: "set_bits hw FLASH_CR_PG st2 = ?st3"
    unfolding set_bits_def using c3 idle_bits [OF 2(1)] by (intro write_plain) simp_all
  let ?st4 = "?st3\<lparr>mem := (mem st)(a := programs hw (mem st a) d)\<rparr>"
  have 4: "write_word hw a d ?st3 = ?st4" using c3 2(2) by (simp add: write_word_def)
  let ?st5 = "?st4\<lparr>cr := ?c3 AND NOT FLASH_CR_PG\<rparr>"
  have c5: "\<not> bit (?c3 AND NOT FLASH_CR_PG) 31" "\<not> bit (?c3 AND NOT FLASH_CR_PG) 16"
    "\<not> bit (?c3 AND NOT FLASH_CR_PG) 1" "\<not> bit (?c3 AND NOT FLASH_CR_PG) 0"
    using c3 by (simp_all add: bit_simps del: push_bit_Suc)
  have 5: "clear_bits hw FLASH_CR_PG ?st4 = ?st5"
    unfolding clear_bits_def using c3(1) c5 by (intro write_plain [THEN trans]) simp_all
  have run: "flash_ProgramWord hw a d st = ?st5"
    unfolding flash_ProgramWord_def Let_def st1_def [symmetric] st2_def [symmetric] 3 4 5 by (rule refl)
  show "mem (flash_ProgramWord hw a d st) = (mem st)(a := programs hw (mem st a) d)" "idle (flash_ProgramWord hw a d st)"
    unfolding run using c5 by (simp_all add: idle_def)
qed

text \<open>The addresses of the words do not overlap.\<close>

lemma at_word_inj:
  assumes "at_word a i = at_word a j" and "i < 2 ^ 30" and "j < 2 ^ 30"
  shows "i = j"
proof -
  have "(of_nat (4 * i) :: u32) = of_nat (4 * j)" using assms(1) unfolding at_word_def by (rule add_left_imp_eq)
  then have "unat (of_nat (4 * i) :: u32) = unat (of_nat (4 * j) :: u32)" by (simp only:)
  moreover have "unat (of_nat (4 * k) :: u32) = 4 * k" if "k < 2 ^ 30" for k
    unfolding unat_of_nat using that by simp
  ultimately show ?thesis using assms(2,3) by simp
qed

text \<open>Programming erased words from a source that is not programmed over.\<close>

lemma program_words:
  assumes "idle st" and "distinct ks" and "\<forall>i \<in> set ks. i < 2 ^ 30 \<and> mem st (at_word pdest i) = 0xFFFFFFFF"
    and "\<forall>d. programs hw 0xFFFFFFFF d = d" and "\<forall>i \<in> set ks. \<forall>j \<in> set ks. at_word psrc i \<noteq> at_word pdest j"
  shows "(\<forall>i \<in> set ks. mem (program_words hw pdest psrc ks st) (at_word pdest i) = mem st (at_word psrc i)) \<and>
    (\<forall>a. a \<notin> at_word pdest ` set ks \<longrightarrow> mem (program_words hw pdest psrc ks st) a = mem st a) \<and>
    idle (program_words hw pdest psrc ks st)"
  using assms
proof (induction ks arbitrary: st)
  case (Cons k ks)
  let ?st = "(flash_ProgramWord hw (at_word pdest k) (mem st (at_word psrc k)) st)\<lparr>led2 := bit (4 * (k + 1)) 14\<rparr>"
  have m: "mem ?st = (mem st)(at_word pdest k := mem st (at_word psrc k))" "idle ?st"
    using program_word [OF Cons.prems(1)] Cons.prems(3,4) by (simp_all add: idle_def)
  have run: "program_words hw pdest psrc (k # ks) st = program_words hw pdest psrc ks ?st" by (simp add: program_words_def)
  have other: "at_word pdest i \<noteq> at_word pdest k" if "i \<in> set ks" for i
    using that Cons.prems(2,3) at_word_inj [of pdest i k] by auto
  have "\<forall>i \<in> set ks. i < 2 ^ 30 \<and> mem ?st (at_word pdest i) = 0xFFFFFFFF"
    using Cons.prems(3) other m(1) by simp
  note ih = Cons.IH [OF m(2) _ this Cons.prems(4)]
  have src: "mem ?st (at_word psrc i) = mem st (at_word psrc i)" if "i \<in> set ks" for i
    using Cons.prems(5) that m(1) by simp
  have "at_word pdest k \<notin> at_word pdest ` set ks" using other by force
  then show ?case unfolding run using ih Cons.prems(2,5) src m(1) by auto
qed (simp add: program_words_def)

section \<open>Properties\<close>

text \<open>
  What the code relies on: programming an erased word stores the data, and the sectors 8 to 11 are the
  addresses from 0x08080000 up to 0x08100000.
\<close>

definition flash_hw_ok :: "flash_hw \<Rightarrow> bool" where
  "flash_hw_ok hw \<longleftrightarrow> (\<forall>d. programs hw 0xFFFFFFFF d = d) \<and>
     (\<forall>a. sector_of hw a \<in> {8..11} \<longleftrightarrow> 0x08080000 \<le> a \<and> a < 0x08100000)"

lemma patch_words:
  assumes "i < 2 ^ 17"
  shows "0x08080000 \<le> at_word FLASH_PATCH_ADDR i" "at_word FLASH_PATCH_ADDR i < 0x08100000"
proof -
  have "unat (at_word FLASH_PATCH_ADDR i) = 0x08080000 + 4 * i"
    using assms by (simp add: at_word_def FLASH_PATCH_ADDR_def unat_word_ariths unat_of_nat)
  then show "0x08080000 \<le> at_word FLASH_PATCH_ADDR i" "at_word FLASH_PATCH_ADDR i < 0x08100000"
    using assms by (simp_all add: word_le_nat_alt word_less_nat_alt)
qed


definition nor_flash :: flash_hw where
  "nor_flash = \<lparr>sector_of = (\<lambda>a. if 0x08080000 \<le> a \<and> a < 0x08100000 then 8 + unat ((a - 0x08080000) div 0x20000) else 12),
     programs = (AND)\<rparr>"

lemma nor_flash_ok: "flash_hw_ok nor_flash"
proof -
  have "unat ((a - 0x08080000) div 0x20000) \<le> 3" if "0x08080000 \<le> a" "a < 0x08100000" for a :: u32
    using that by (simp add: unat_div unat_sub word_le_nat_alt word_less_nat_alt)
  moreover have "0xFFFFFFFF AND d = d" for d :: u32
  proof -
    have "(0xFFFFFFFF :: u32) = - 1" by simp
    then show ?thesis by (simp only: and.left_neutral)
  qed
  ultimately show ?thesis by (auto simp: flash_hw_ok_def nor_flash_def)
qed


end
