(* ===== verification/Dl.thy ===== *)
theory Dl
  imports Prelude "HOL-Library.Multiset"
begin

text \<open>
  Shared libraries of patches (firmware/dlfcn.c, exports.c): a list of loaded libraries with reference
  counts, and the resolution of the undefined symbols of a patch, from the exported symbols of the
  firmware or from a library whose name is the part of the symbol before the first underscore.

  The ELF loader and the heap are not in the repository: they are parameters. Names are byte lists
  without the terminating zero, a library is identified by the address of its descriptor.
\<close>

section \<open>State\<close>

definition dl_max_name_length :: nat where "dl_max_name_length = 32"

record dllib =
  handle :: nat
  refcount :: int
  elf :: nat
  libname :: "u8 list"

text \<open>
  The libraries, the allocated blocks, the images that were unloaded, and the pending error with the
  name in its text.
\<close>

record dl =
  dllibs :: "dllib list"
  blocks :: "nat set"
  unloaded :: "nat list"
  dl_err :: "(string \<times> u8 list) option"

record dl_env =
  alloc :: "nat set \<Rightarrow> nat option"
  load_elf :: "u8 list \<Rightarrow> nat option"
  get_func :: "nat \<Rightarrow> u8 list \<Rightarrow> u32"
  get_obj :: "nat \<Rightarrow> u8 list \<Rightarrow> u32"
  exported :: "(u8 list \<times> u32) list"

section \<open>dlfcn.c\<close>

definition same_name :: "u8 list \<Rightarrow> dllib \<Rightarrow> bool" where
  "same_name name l \<longleftrightarrow> take (dl_max_name_length - 1) name = take (dl_max_name_length - 1) (libname l)"

text \<open>The path has room for 41 characters; the constants are /lib/ and .elf.\<close>

definition lib_path :: "u8 list \<Rightarrow> u8 list" where
  "lib_path name = take (dl_max_name_length + 10 - 1) ([47, 108, 105, 98, 47] @ name @ [46, 101, 108, 102])"

definition add_ref :: "nat \<Rightarrow> int \<Rightarrow> dllib list \<Rightarrow> dllib list" where
  "add_ref h k = map (\<lambda>l. if handle l = h then l\<lparr>refcount := refcount l + k\<rparr> else l)"

text \<open>An allocation that fails is written through a null pointer; a load that fails keeps its block.\<close>

definition dlopen :: "dl_env \<Rightarrow> u8 list \<Rightarrow> dl \<Rightarrow> fault + (nat \<times> dl)" where
  "dlopen env name d =
     (case find (same_name name) (dllibs d) of
        Some l \<Rightarrow> Inr (handle l, d\<lparr>dllibs := add_ref (handle l) 1 (dllibs d)\<rparr>)
      | None \<Rightarrow>
          (case alloc env (blocks d) of
             None \<Rightarrow> Inl Dangling
           | Some h \<Rightarrow>
               let d = d\<lparr>blocks := insert h (blocks d)\<rparr> in
               (case load_elf env (lib_path name) of
                  None \<Rightarrow> Inr (0, d\<lparr>dl_err := Some (''failed loading lib'', lib_path name)\<rparr>)
                | Some e \<Rightarrow> Inr (h, d\<lparr>dllibs := \<lparr>handle = h, refcount = 1, elf = e,
                    libname = take (dl_max_name_length - 1) name\<rparr> # dllibs d\<rparr>))))"

definition dlclose :: "nat \<Rightarrow> dl \<Rightarrow> dl" where
  "dlclose h d =
     (case find (\<lambda>l. handle l = h) (dllibs d) of
        None \<Rightarrow> d
      | Some l \<Rightarrow>
          if refcount l - 1 = 0 then
            d\<lparr>dllibs := filter (\<lambda>l. handle l \<noteq> h) (dllibs d), blocks := blocks d - {h}, unloaded := unloaded d @ [elf l]\<rparr>
          else d\<lparr>dllibs := add_ref h (- 1) (dllibs d)\<rparr>)"

definition dlerror :: "dl \<Rightarrow> (string \<times> u8 list) option \<times> dl" where
  "dlerror d = (dl_err d, d\<lparr>dl_err := None\<rparr>)"

definition lib_at :: "nat \<Rightarrow> dl \<Rightarrow> fault + dllib" where
  "lib_at h d = (case find (\<lambda>l. handle l = h) (dllibs d) of None \<Rightarrow> Inl Dangling | Some l \<Rightarrow> Inr l)"

definition dlsym :: "dl_env \<Rightarrow> nat \<Rightarrow> u8 list \<Rightarrow> dl \<Rightarrow> fault + (u32 \<times> dl)" where
  "dlsym env h name d = sbind (lib_at h d) (\<lambda>l.
     let v = get_func env (elf l) name; v = (if v = 0 then get_obj env (elf l) name else v)
     in Inr (v, if v = 0 then d\<lparr>dl_err := Some (''symbol not found'', name)\<rparr> else d))"

definition dlname :: "nat \<Rightarrow> dl \<Rightarrow> fault + u8 list" where
  "dlname h d = sbind (lib_at h d) (\<lambda>l. Inr (libname l))"

text \<open>The self-test of the module, on a library named test.\<close>

definition dbg_dl_test :: "dl_env \<Rightarrow> dl \<Rightarrow> fault + dl" where
  "dbg_dl_test env d =
     sbind (dlopen env [116, 101, 115, 116] d) (\<lambda>(h1, d).
     sbind (dlopen env [116, 101, 115, 116] (dlclose h1 d)) (\<lambda>(h1, d).
     sbind (dlopen env [116, 101, 115, 116] d) (\<lambda>(h2, d).
     sbind (dlopen env [116, 101, 115, 116] (dlclose h2 (dlclose h1 d))) (\<lambda>(h1, d).
     sbind (dlopen env [116, 101, 115, 116] d) (\<lambda>(h2, d).
     Inr (dlclose h1 (dlclose h2 d)))))))"

section \<open>exports.c\<close>

text \<open>
  The libraries a patch refers to: the handle in the patch's own record, and further nodes with their
  addresses, inserted behind the first.
\<close>

record deps =
  dlhandle :: nat
  further :: "(nat \<times> nat) list"

fun find_dep :: "u8 list \<Rightarrow> nat list \<Rightarrow> dl \<Rightarrow> fault + nat" where
  "find_dep name [] d = Inr 0"
| "find_dep name (h # hs) d =
     (if h = 0 then Inr 0
      else sbind (dlname h d) (\<lambda>n. if name = n then Inr h else find_dep name hs d))"

definition findReferencedLib :: "deps \<Rightarrow> u8 list \<Rightarrow> dl \<Rightarrow> fault + nat" where
  "findReferencedLib u name d = find_dep name (dlhandle u # map snd (further u)) d"

definition addReferencedLib :: "dl_env \<Rightarrow> nat \<Rightarrow> deps \<Rightarrow> dl \<Rightarrow> fault + (deps \<times> dl)" where
  "addReferencedLib env h u d =
     (if further u = [] \<and> dlhandle u = 0 then Inr (u\<lparr>dlhandle := h\<rparr>, d)
      else (case alloc env (blocks d) of
          None \<Rightarrow> Inl Dangling
        | Some n \<Rightarrow> Inr (u\<lparr>further := (n, h) # further u\<rparr>, d\<lparr>blocks := insert n (blocks d)\<rparr>)))"

text \<open>The loop frees a node and then follows its link: an access to a released object.\<close>

fun close_more :: "(nat \<times> nat) list \<Rightarrow> dl \<Rightarrow> fault + dl" where
  "close_more [] d = Inr d"
| "close_more ((n, h) # ns) d =
     (if h = 0 then Inr d
      else let d = dlclose h d; d = d\<lparr>blocks := blocks d - {n}\<rparr> in
        if n \<in> blocks d then close_more ns d else Inl Dangling)"

definition closeReferencedLibs :: "deps \<Rightarrow> dl \<Rightarrow> fault + dl" where
  "closeReferencedLibs u d = (if dlhandle u = 0 then Inr d else close_more (further u) (dlclose (dlhandle u) d))"

text \<open>
  The library name of a symbol: the part before the first underscore. None stands for a name that
  ends before an underscore; a name with none in its first 31 characters leaves the copy without a
  terminating zero.
\<close>

definition symbol_lib :: "u8 list \<Rightarrow> fault + u8 list option" where
  "symbol_lib s =
     (let p = takeWhile (\<lambda>c. c \<noteq> 95) (take 31 s) in
      if length p < length (take 31 s) then Inr (Some p)
      else if length s < 31 then Inr None
      else Inl Uninitialised)"

definition NOT_FOUND :: u32 where "NOT_FOUND = 0xFFFFFFFF"

definition getUndefinedSymbol :: "dl_env \<Rightarrow> u8 list \<Rightarrow> deps \<times> dl \<Rightarrow> fault + (u32 \<times> deps \<times> dl)" where
  "getUndefinedSymbol env s = (\<lambda>(u, d).
     case map_of (exported env) s of
       Some a \<Rightarrow> Inr (a, u, d)
     | None \<Rightarrow>
         if s \<noteq> [] \<and> hd s = 95 then Inr (NOT_FOUND, u, d)
         else sbind (symbol_lib s) (\<lambda>r. case r of
             None \<Rightarrow> Inr (NOT_FOUND, u, d)
           | Some lib \<Rightarrow>
               sbind (findReferencedLib u lib d) (\<lambda>h.
               if h \<noteq> 0 then
                 sbind (dlsym env h s d) (\<lambda>(v, d). Inr (if v = 0 then NOT_FOUND else v, u, d))
               else
                 sbind (dlopen env lib d) (\<lambda>(h, d).
                 if h = 0 then Inr (NOT_FOUND, u, d)
                 else sbind (dlsym env h s d) (\<lambda>(v, d).
                   if v = 0 \<or> v = NOT_FOUND then Inr (NOT_FOUND, u, dlclose h d)
                   else sbind (addReferencedLib env h u d) (\<lambda>(u, d). Inr (v, u, d)))))))"

section \<open>Reference counts\<close>

definition alloc_ok :: "dl_env \<Rightarrow> bool" where
  "alloc_ok env \<longleftrightarrow> (\<forall>S h. alloc env S = Some h \<longrightarrow> h \<notin> S \<and> h \<noteq> 0)"

text \<open>
  What clients do: they open libraries, and close handles they hold. The run keeps how often each handle
  is held; a close of a handle that is not held ends it.
\<close>

datatype dl_op = Open "u8 list" | Close nat

fun dl_run :: "dl_env \<Rightarrow> dl_op list \<Rightarrow> dl \<times> (nat \<Rightarrow> int) \<Rightarrow> fault + dl \<times> (nat \<Rightarrow> int)" where
  "dl_run env [] s = Inr s"
| "dl_run env (Open name # ops) (d, held) =
     sbind (dlopen env name d) (\<lambda>(h, d). dl_run env ops (d, if h = 0 then held else held(h := held h + 1)))"
| "dl_run env (Close h # ops) (d, held) =
     (if held h > 0 then dl_run env ops (dlclose h d, held(h := held h - 1)) else Inl (SysHalt ''not held''))"

definition no_libs :: dl where
  "no_libs = \<lparr>dllibs = [], blocks = {}, unloaded = [], dl_err = None\<rparr>"

definition handles :: "dl \<Rightarrow> nat list" where
  "handles d = map handle (dllibs d)"

definition dl_inv :: "dl \<Rightarrow> (nat \<Rightarrow> int) \<Rightarrow> bool" where
  "dl_inv d held \<longleftrightarrow> distinct (handles d) \<and> set (handles d) \<subseteq> blocks d \<and> 0 \<notin> set (handles d) \<and>
     (\<forall>l \<in> set (dllibs d). refcount l = held (handle l) \<and> 0 < refcount l) \<and>
     (\<forall>h. h \<notin> set (handles d) \<longrightarrow> held h = 0) \<and>
     distinct (map (\<lambda>l. take 31 (libname l)) (dllibs d))"

lemma map_add_ref [simp]:
  "map handle (add_ref h k ls) = map handle ls" "map (\<lambda>l. take n (libname l)) (add_ref h k ls) = map (\<lambda>l. take n (libname l)) ls"
  by (simp_all add: add_ref_def)

lemma set_add_ref: "l' \<in> set (add_ref h k ls) \<Longrightarrow>
  \<exists>l \<in> set ls. handle l' = handle l \<and> refcount l' = refcount l + (if handle l = h then k else 0)"
  by (auto simp: add_ref_def split: if_splits)

lemma find_handle: "find (\<lambda>l. handle l = h) ls = Some l \<Longrightarrow> l \<in> set ls \<and> handle l = h"
  by (auto simp: find_Some_iff)

lemma find_name: "find (same_name name) ls = Some l \<Longrightarrow> l \<in> set ls \<and> same_name name l"
  by (auto simp: find_Some_iff)

lemma add_ref_inv:
  assumes "dl_inv d held" and "h \<in> set (handles d)" and "0 < held h + k"
  shows "dl_inv (d\<lparr>dllibs := add_ref h k (dllibs d)\<rparr>) (held(h := held h + k))"
  using assms by (auto simp: dl_inv_def handles_def dest!: set_add_ref)

lemma dlopen_inv:
  assumes "alloc_ok env" and "dl_inv d held" and "dlopen env name d = Inr (h, d')"
  shows "dl_inv d' (if h = 0 then held else held(h := held h + 1))"
proof (cases "find (same_name name) (dllibs d)")
  case (Some l)
  then have l: "l \<in> set (dllibs d)" using find_name by blast
  then have m: "handle l \<in> set (handles d)" "handle l \<noteq> 0" "0 < held (handle l)"
    using assms(2) by (auto simp: dl_inv_def handles_def)
  have "h = handle l" "d' = d\<lparr>dllibs := add_ref (handle l) 1 (dllibs d)\<rparr>" using assms(3) Some by (auto simp: dlopen_def)
  then show ?thesis using add_ref_inv [OF assms(2) m(1), of 1] m by simp
next
  case None
  then obtain a where a: "alloc env (blocks d) = Some a" using assms(3) by (auto simp: dlopen_def split: option.splits)
  then have a': "a \<notin> blocks d" "a \<noteq> 0" using assms(1) by (auto simp: alloc_ok_def)
  show ?thesis
  proof (cases "load_elf env (lib_path name)")
    case None
    then have "h = 0" "dllibs d' = dllibs d" "blocks d' = insert a (blocks d)"
      using assms(3) a \<open>find (same_name name) (dllibs d) = None\<close> by (auto simp: dlopen_def)
    then show ?thesis using assms(2) by (auto simp: dl_inv_def handles_def)
  next
    case (Some e)
    let ?l = "\<lparr>handle = a, refcount = 1, elf = e, libname = take 31 name\<rparr>"
    have d': "h = a" "dllibs d' = ?l # dllibs d" "blocks d' = insert a (blocks d)"
      using assms(3) a Some \<open>find (same_name name) (dllibs d) = None\<close>
      by (auto simp: dlopen_def dl_max_name_length_def)
    have "a \<notin> set (handles d)" using assms(2) a' by (auto simp: dl_inv_def)
    moreover from this have "held a = 0" using assms(2) by (simp add: dl_inv_def)
    moreover have "take 31 name \<noteq> take 31 (libname l)" if "l \<in> set (dllibs d)" for l
      using \<open>find (same_name name) (dllibs d) = None\<close> that
      by (auto simp: find_None_iff same_name_def dl_max_name_length_def)
    ultimately show ?thesis using assms(2) a' d' by (auto simp: dl_inv_def handles_def)
  qed
qed

lemma dlclose_inv:
  assumes "dl_inv d held" and "0 < held h"
  shows "dl_inv (dlclose h d) (held(h := held h - 1))"
proof -
  have h: "h \<in> set (handles d)" using assms by (auto simp: dl_inv_def)
  then obtain l where l: "find (\<lambda>l. handle l = h) (dllibs d) = Some l"
    by (cases "find (\<lambda>l. handle l = h) (dllibs d)") (auto simp: find_None_iff handles_def)
  have r: "refcount l = held h" using find_handle [OF l] assms(1) by (auto simp: dl_inv_def)
  show ?thesis
  proof (cases "refcount l - 1 = 0")
    case True
    then show ?thesis using assms l r by (auto simp: dl_inv_def dlclose_def handles_def intro: distinct_map_filter)
  next
    case False
    then show ?thesis using add_ref_inv [OF assms(1) h, of "- 1"] assms(2) l r by (simp add: dlclose_def)
  qed
qed

lemma dl_run_inv:
  assumes "alloc_ok env" and "dl_run env ops (d, held) = Inr (d', held')" and "dl_inv d held"
  shows "dl_inv d' held'"
  using assms(2,3)
proof (induction ops arbitrary: d held)
  case (Cons op ops)
  show ?case
  proof (cases op)
    case (Open name)
    then obtain h d1 where "dlopen env name d = Inr (h, d1)"
      "dl_run env ops (d1, if h = 0 then held else held(h := held h + 1)) = Inr (d', held')"
      using Cons.prems(1) by (auto simp: sbind_eq_Inr)
    then show ?thesis using Cons.IH dlopen_inv [OF assms(1) Cons.prems(2)] by blast
  next
    case (Close h)
    then show ?thesis using Cons.IH Cons.prems dlclose_inv [OF Cons.prems(2), of h] by (auto split: if_splits)
  qed
qed simp

section \<open>Properties\<close>

text \<open>
  C25: Whatever libraries clients open and close, as long as each closes only what it holds, a library is
  in the list exactly while some handle of it is held, its count is the number of times it is held,
  and no two libraries in the list have names that agree in their first 31 characters.
\<close>

lemma dl_refcounts:
  assumes "alloc_ok env" and "dl_run env ops (no_libs, \<lambda>_. 0) = Inr (d, held)"
  shows "(\<forall>h. 0 < held h \<longleftrightarrow> h \<in> set (handles d)) \<and> (\<forall>l \<in> set (dllibs d). refcount l = held (handle l)) \<and>
    distinct (handles d) \<and> distinct (map (\<lambda>l. take 31 (libname l)) (dllibs d))"
proof -
  have "dl_inv no_libs (\<lambda>_. 0)" by (simp add: dl_inv_def no_libs_def handles_def)
  from dl_run_inv [OF assms this] have i: "dl_inv d held" .
  have "0 < held h \<longleftrightarrow> h \<in> set (handles d)" for h
    using i by (cases "h \<in> set (handles d)") (auto simp: dl_inv_def handles_def)
  then show ?thesis using i by (simp add: dl_inv_def)
qed

definition sample_dl :: dl_env where
  "sample_dl = \<lparr>alloc = (\<lambda>S. if finite S then Some (Suc (Max (insert 0 S))) else None), load_elf = (\<lambda>p. Some (length p)),
     get_func = (\<lambda>e s. 8), get_obj = (\<lambda>e s. 0), exported = []\<rparr>"

lemma sample_dl_ok: "alloc_ok sample_dl"
proof -
  have "Suc (Max (insert 0 S)) \<notin> S" if "finite S" for S
  proof
    assume "Suc (Max (insert 0 S)) \<in> S"
    then have "Suc (Max (insert 0 S)) \<le> Max (insert 0 S)" using that by (intro Max_ge) simp_all
    then show False by simp
  qed
  then show ?thesis by (simp add: alloc_ok_def sample_dl_def)
qed

lemma dl_refcounts_witness:
  "\<exists>d held. dl_run sample_dl [Open [97], Open [98], Open [97], Close 2] (no_libs, \<lambda>_. 0) = Inr (d, held) \<and>
     refcount (hd (dllibs d)) = held (handle (hd (dllibs d))) \<and> handles d = [1]"
proof -
  obtain d held where r: "dl_run sample_dl [Open [97], Open [98], Open [97], Close 2] (no_libs, \<lambda>_. 0) = Inr (d, held)"
    and h: "handles d = [1]"
    by (simp add: no_libs_def sample_dl_def dlopen_def dlclose_def add_ref_def same_name_def dl_max_name_length_def handles_def)
  have "hd (dllibs d) \<in> set (dllibs d)" using h by (cases "dllibs d") (simp_all add: handles_def)
  then have "refcount (hd (dllibs d)) = held (handle (hd (dllibs d)))" using dl_refcounts [OF sample_dl_ok r] by blast
  then show ?thesis using r h by blast
qed

section \<open>Loading and unloading a patch\<close>

text \<open>The loader resolves the undefined symbols of a patch one after the other.\<close>

fun resolve :: "dl_env \<Rightarrow> u8 list list \<Rightarrow> deps \<times> dl \<Rightarrow> fault + deps \<times> dl" where
  "resolve env [] s = Inr s"
| "resolve env (n # ns) s = sbind (getUndefinedSymbol env n s) (\<lambda>(v, s). resolve env ns s)"

definition no_deps :: deps where "no_deps = \<lparr>dlhandle = 0, further = []\<rparr>"

definition dep_handles :: "deps \<Rightarrow> nat list" where
  "dep_handles u = (if dlhandle u = 0 then [] else dlhandle u # map snd (further u))"

definition dep_inv :: "deps \<times> dl \<Rightarrow> bool" where
  "dep_inv = (\<lambda>(u, d).
     (dlhandle u = 0 \<longrightarrow> further u = []) \<and> 0 \<notin> set (dep_handles u) \<and> distinct (dep_handles u) \<and>
     set (dep_handles u) = set (handles d) \<and> distinct (handles d) \<and> set (handles d) \<subseteq> blocks d \<and>
     (\<forall>l \<in> set (dllibs d). refcount l = 1 \<and> length (libname l) \<le> 30))"

lemma find_dep_0: "find_dep lib hs d = Inr 0 \<Longrightarrow> 0 \<notin> set hs \<Longrightarrow> l \<in> set (dllibs d) \<Longrightarrow> distinct (handles d) \<Longrightarrow>
  handle l \<in> set hs \<Longrightarrow> libname l \<noteq> lib"
proof (induction hs)
  case (Cons h hs)
  obtain l' where l': "find (\<lambda>l. handle l = h) (dllibs d) = Some l'" "libname l' \<noteq> lib" "find_dep lib hs d = Inr 0"
    using Cons.prems(1,2) by (auto simp: dlname_def lib_at_def sbind_eq_Inr split: option.splits if_splits)
  show ?case
  proof (cases "handle l = h")
    case True
    then have "l = l'" using find_handle [OF l'(1)] Cons.prems(3,4) by (auto simp: handles_def distinct_map inj_on_def)
    then show ?thesis using l'(2) by simp
  next
    case False
    then show ?thesis using Cons l'(3) by simp
  qed
qed simp

lemma dlsym_dl: "dlsym env h s d = Inr (v, d') \<Longrightarrow> dllibs d' = dllibs d \<and> blocks d' = blocks d"
  by (auto simp: dlsym_def Let_def sbind_eq_Inr split: if_splits)

lemma dep_inv_cong: "dllibs d' = dllibs d \<Longrightarrow> blocks d \<subseteq> blocks d' \<Longrightarrow> dep_inv (u, d) \<Longrightarrow> dep_inv (u, d')"
  by (auto simp: dep_inv_def handles_def)

lemma symbol_lib_length: "symbol_lib s = Inr (Some lib) \<Longrightarrow> length lib \<le> 30"
  by (auto simp: symbol_lib_def Let_def split: if_splits)

lemma find_dep_dep_handles: "findReferencedLib u lib d = Inr 0 \<Longrightarrow> dlhandle u \<noteq> 0 \<Longrightarrow> find_dep lib (dep_handles u) d = Inr 0"
  by (simp add: findReferencedLib_def dep_handles_def)

lemma new_lib:
  assumes "alloc_ok env" and "dep_inv (u, d)" and "findReferencedLib u lib d = Inr 0" and "length lib \<le> 30"
    and "dlopen env lib d = Inr (h, d')"
  shows "(h = 0 \<and> dllibs d' = dllibs d \<and> blocks d \<subseteq> blocks d') \<or>
    (h \<noteq> 0 \<and> h \<notin> blocks d \<and> blocks d' = insert h (blocks d) \<and>
     (\<exists>e. dllibs d' = \<lparr>handle = h, refcount = 1, elf = e, libname = lib\<rparr> # dllibs d))"
proof -
  have "libname l \<noteq> lib" if "l \<in> set (dllibs d)" for l
  proof (cases "dlhandle u = 0")
    case True
    then show ?thesis using that assms(2) by (auto simp: dep_inv_def dep_handles_def handles_def)
  next
    case False
    then show ?thesis using find_dep_0 [OF find_dep_dep_handles [OF assms(3)], of l] assms(2) that
      by (auto simp: dep_inv_def handles_def)
  qed
  then have "find (same_name lib) (dllibs d) = None"
    using assms(2,4) by (fastforce simp: find_None_iff same_name_def dl_max_name_length_def dep_inv_def)
  then show ?thesis using assms(1,4,5) by (auto simp: dlopen_def Let_def alloc_ok_def dl_max_name_length_def split: option.splits)
qed

lemma added_lib:
  assumes "addReferencedLib env h u d2 = Inr (u', d')" and "h \<notin> set (handles d)" and "dep_inv (u, d)"
    and "handles d2 = h # handles d"
  shows "mset (dep_handles u') = add_mset h (mset (dep_handles u)) \<or> h = 0" and "dlhandle u' = 0 \<longrightarrow> h = 0 \<and> further u' = []"
    and "dllibs d' = dllibs d2" and "blocks d2 \<subseteq> blocks d'"
  using assms by (auto simp: addReferencedLib_def dep_inv_def dep_handles_def split: if_splits option.splits)

lemma getUndefinedSymbol_inv:
  assumes "alloc_ok env" and "dep_inv (u, d)" and "getUndefinedSymbol env s (u, d) = Inr (v, u', d')"
  shows "dep_inv (u', d')"
proof (cases "map_of (exported env) s = None \<and> \<not> (s \<noteq> [] \<and> hd s = 95)")
  case False
  then show ?thesis using assms(2,3) by (auto simp: getUndefinedSymbol_def split: option.splits)
next
  case True
  then obtain r where r: "symbol_lib s = Inr r" and
    g: "getUndefinedSymbol env s (u, d) = Inr (v, u', d')" using assms(3)
    by (auto simp: getUndefinedSymbol_def sbind_eq_Inr split: if_splits)
  show ?thesis
  proof (cases r)
    case None
    then show ?thesis using g r True assms(2) by (auto simp: getUndefinedSymbol_def split: if_splits)
  next
    case (Some lib)
    then have len: "length lib \<le> 30" using r symbol_lib_length by blast
    obtain h where h: "findReferencedLib u lib d = Inr h" using g r Some True
      by (auto simp: getUndefinedSymbol_def sbind_eq_Inr split: if_splits)
    show ?thesis
    proof (cases "h = 0")
      case False
      then have "u' = u \<and> dllibs d' = dllibs d \<and> blocks d' = blocks d" using g r Some True h
        by (auto simp: getUndefinedSymbol_def sbind_eq_Inr dest!: dlsym_dl split: if_splits)
      then show ?thesis using dep_inv_cong [OF _ _ assms(2)] by auto
    next
      case h0: True
      obtain h1 d1 where o: "dlopen env lib d = Inr (h1, d1)" using g r Some True h h0
        by (auto simp: getUndefinedSymbol_def sbind_eq_Inr split: if_splits)
      from new_lib [OF assms(1,2) _ len o] h h0
      have n: "(h1 = 0 \<and> dllibs d1 = dllibs d \<and> blocks d \<subseteq> blocks d1) \<or>
        (h1 \<noteq> 0 \<and> h1 \<notin> blocks d \<and> blocks d1 = insert h1 (blocks d) \<and>
         (\<exists>e. dllibs d1 = \<lparr>handle = h1, refcount = 1, elf = e, libname = lib\<rparr> # dllibs d))" by simp
      show ?thesis
      proof (cases "h1 = 0")
        case True
        then have "u' = u \<and> d' = d1" using g r Some h h0 o \<open>map_of (exported env) s = None \<and> _\<close>
          by (auto simp: getUndefinedSymbol_def split: if_splits)
        then show ?thesis using dep_inv_cong [OF _ _ assms(2)] n True by auto
      next
        case False
        obtain w d2 where w: "dlsym env h1 s d1 = Inr (w, d2)" using g r Some h h0 o False True
          by (auto simp: getUndefinedSymbol_def sbind_eq_Inr split: if_splits)
        obtain e where e: "dllibs d2 = \<lparr>handle = h1, refcount = 1, elf = e, libname = lib\<rparr> # dllibs d"
          "blocks d2 = insert h1 (blocks d)" "h1 \<notin> blocks d"
          using n False dlsym_dl [OF w] by auto
        show ?thesis
        proof (cases "w = 0 \<or> w = NOT_FOUND")
          case True
          then have u: "u' = u \<and> d' = dlclose h1 d2" using g r Some h h0 o False w \<open>map_of (exported env) s = None \<and> _\<close>
            by (auto simp: getUndefinedSymbol_def split: if_splits)
          have "h1 \<notin> set (handles d)" using assms(2) e(3) by (auto simp: dep_inv_def)
          then have "filter (\<lambda>l. handle l \<noteq> h1) (dllibs d) = dllibs d"
            by (auto simp: filter_id_conv handles_def)
          then have "dllibs d' = dllibs d \<and> blocks d' = blocks d" using e u by (auto simp: dlclose_def)
          then show ?thesis using dep_inv_cong [OF _ _ assms(2)] u by auto
        next
          case w0: False
          then have a: "addReferencedLib env h1 u d2 = Inr (u', d')" using g r Some h h0 o False w True
            by (auto simp: getUndefinedSymbol_def sbind_eq_Inr split: if_splits)
          have hs: "handles d2 = h1 # handles d" using e(1) by (simp add: handles_def)
          have h1: "h1 \<notin> set (handles d)" using assms(2) e(3) by (auto simp: dep_inv_def)
          note b = added_lib [OF a h1 assms(2) hs]
          have m: "mset (dep_handles u') = mset (h1 # dep_handles u)" using b(1) False by simp
          have "handles d' = h1 # handles d" using b(3) hs by (simp add: handles_def)
          then show ?thesis using b(2-4) e len False assms(2) h1 mset_eq_setD [OF m] mset_eq_imp_distinct_iff [OF m]
            by (auto simp: dep_inv_def)
        qed
      qed
    qed
  qed
qed

lemma resolve_inv:
  "alloc_ok env \<Longrightarrow> dep_inv s \<Longrightarrow> resolve env ns s = Inr s' \<Longrightarrow> dep_inv s'"
proof (induction ns arbitrary: s)
  case (Cons n ns)
  obtain u d where s: "s = (u, d)" by (rule prod.exhaust)
  obtain v u1 d1 where g: "getUndefinedSymbol env n (u, d) = Inr (v, u1, d1)" "resolve env ns (u1, d1) = Inr s'"
    using Cons.prems(3) s by (auto simp: sbind_eq_Inr)
  show ?case using Cons.IH [OF Cons.prems(1) getUndefinedSymbol_inv [OF Cons.prems(1) _ g(1)] g(2)] Cons.prems(2) s by simp
qed simp

text \<open>
  C26: After any symbols of a patch were resolved, it holds each loaded library once. With at most one
  library, closing its libraries unloads it; with two or more the loop that closes them reads a list
  node after it was released.
\<close>

lemma patch_libs_closed:
  assumes "alloc_ok env" and "resolve env ns (no_deps, no_libs) = Inr (u, d)"
  shows "distinct (dep_handles u) \<and> set (dep_handles u) = set (handles d) \<and> (\<forall>l \<in> set (dllibs d). refcount l = 1) \<and>
    (if length (dllibs d) \<le> 1
     then closeReferencedLibs u d = Inr (if dllibs d = [] then d else dlclose (dlhandle u) d) \<and>
       dllibs (dlclose (dlhandle u) d) = []
     else closeReferencedLibs u d = Inl Dangling)"
proof -
  have "dep_inv (no_deps, no_libs)" by (simp add: dep_inv_def no_deps_def no_libs_def dep_handles_def handles_def)
  from resolve_inv [OF assms(1) this assms(2)] have i: "dep_inv (u, d)" .
  then have len: "length (dep_handles u) = length (dllibs d)"
    using distinct_card [of "dep_handles u"] distinct_card [of "handles d"] by (simp add: dep_inv_def handles_def)
  show ?thesis
  proof (cases "dlhandle u = 0")
    case True
    then have "dllibs d = []" using len by (simp add: dep_handles_def)
    then show ?thesis using i True by (simp add: dep_inv_def closeReferencedLibs_def dlclose_def)
  next
    case u: False
    show ?thesis
    proof (cases "further u")
      case Nil
      then have "length (dllibs d) = 1" using len u by (simp add: dep_handles_def)
      then obtain l where "dllibs d = [l]" by (cases "dllibs d") auto
      then have l: "dllibs d = [l]" "handle l = dlhandle u" "refcount l = 1"
        using i u Nil by (auto simp: dep_handles_def dep_inv_def handles_def)
      then show ?thesis using i u Nil by (simp add: dep_inv_def closeReferencedLibs_def dlclose_def)
    next
      case (Cons p ps)
      obtain n h where p: "p = (n, h)" by (rule prod.exhaust)
      have "h \<noteq> 0" using i u Cons p by (auto simp: dep_inv_def dep_handles_def)
      then have "closeReferencedLibs u d = Inl Dangling" using u Cons p by (simp add: closeReferencedLibs_def Let_def)
      moreover have "\<not> length (dllibs d) \<le> 1" using len u Cons by (simp add: dep_handles_def)
      ultimately show ?thesis using i by (simp add: dep_inv_def)
    qed
  qed
qed

lemma patch_libs_closed_witness:
  "\<exists>u d. resolve sample_dl [[97, 95, 120], [97, 95, 121], [98, 95, 120]] (no_deps, no_libs) = Inr (u, d) \<and>
     length (dllibs d) = 2 \<and> closeReferencedLibs u d = Inl Dangling"
proof -
  obtain u d where r: "resolve sample_dl [[97, 95, 120], [97, 95, 121], [98, 95, 120]] (no_deps, no_libs) = Inr (u, d)"
    and l: "length (dllibs d) = 2"
    by (simp add: no_deps_def no_libs_def sample_dl_def getUndefinedSymbol_def symbol_lib_def findReferencedLib_def dlopen_def
        dlsym_def dlname_def lib_at_def addReferencedLib_def add_ref_def same_name_def dl_max_name_length_def NOT_FOUND_def)
  from patch_libs_closed [OF sample_dl_ok r] l have "closeReferencedLibs u d = Inl Dangling" by simp
  then show ?thesis using r l by blast
qed

end
