(* ===== verification/Codec.thy ===== *)
theory Codec
  imports Midi_Clock Spilink
begin

text \<open>
  The audio codec (firmware/codec.c, codec\_ADAU1961\_SAI.c): the set-up of its registers over I2C,
  the search for the clock of another board, and the interrupts at the end of every transmitted audio
  buffer, which run the SPI link and start the audio cycle.
\<close>

section \<open>The registers\<close>

text \<open>The addresses of the registers R0 to R42.\<close>

definition ADAU1961_REG :: "u16 list" where
  "ADAU1961_REG =
     [0x4000, 0x4002, 0x4008, 0x4009, 0x400A, 0x400B, 0x400C, 0x400D, 0x400E, 0x400F, 0x4010, 0x4011, 0x4012, 0x4013, 0x4014,
      0x4015, 0x4016, 0x4017, 0x4018, 0x4019, 0x401A, 0x401B, 0x401C, 0x401D, 0x401E, 0x401F, 0x4020, 0x4021, 0x4022, 0x4023,
      0x4024, 0x4025, 0x4026, 0x4027, 0x4028, 0x4029, 0x402A, 0x402B, 0x402C, 0x402D, 0x402F, 0x4030, 0x4031]"

text \<open>The transfers that took place, the reception buffer, the error flag and whether the DMA streams were set.\<close>

datatype bus_event = Write u16 u8 | Write6 u16 "u8 list" | Read6 u16

record codec_hw =
  bus :: "bus_event list"
  i2crxbuf :: "u8 list"
  codec_error :: bool
  dma_ready :: bool

text \<open>
  The results of the I2C driver by the number of the transfer, and the lengths between the frame of
  the link and the edge of the frame clock that a second board measures until it gives up.
\<close>

record codec_env =
  transfer_ok :: "nat \<Rightarrow> bool"
  reply :: "nat \<Rightarrow> u8 list"
  fs_counts :: "nat list"

definition ADAU1961_WriteRegister :: "codec_env \<Rightarrow> nat \<Rightarrow> u8 \<Rightarrow> codec_hw \<Rightarrow> fault + codec_hw" where
  "ADAU1961_WriteRegister env r v st =
     (if transfer_ok env (length (bus st)) then Inr (st\<lparr>bus := bus st @ [Write (ADAU1961_REG ! r) v]\<rparr>)
      else Inl (SysHalt ''CodecI2CWrite''))"

definition ADAU1961_WriteRegister6 :: "codec_env \<Rightarrow> nat \<Rightarrow> u8 list \<Rightarrow> codec_hw \<Rightarrow> fault + codec_hw" where
  "ADAU1961_WriteRegister6 env r vs st =
     (if transfer_ok env (length (bus st)) then Inr (st\<lparr>bus := bus st @ [Write6 (ADAU1961_REG ! r) vs]\<rparr>)
      else Inl (SysHalt ''CodecI2CWrite6''))"

definition ADAU1961_ReadRegister6 :: "codec_env \<Rightarrow> nat \<Rightarrow> codec_hw \<Rightarrow> fault + codec_hw" where
  "ADAU1961_ReadRegister6 env r st =
     (if transfer_ok env (length (bus st))
      then Inr (st\<lparr>bus := bus st @ [Read6 (ADAU1961_REG ! r)], i2crxbuf := reply env (length (bus st))\<rparr>)
      else Inl (SysHalt ''CodecI2CRead6''))"

definition write_registers :: "codec_env \<Rightarrow> (nat \<times> u8) list \<Rightarrow> codec_hw \<Rightarrow> fault + codec_hw" where
  "write_registers env = sfold (\<lambda>(r, v). ADAU1961_WriteRegister env r v)"

definition pll48k_pulldown :: "u8 list" where
  "pll48k_pulldown = [0x1F, 0x40, 0x04, 0x7F, 0x31, 0x01]"

definition pllreg :: "u16 \<Rightarrow> u8 list option" where
  "pllreg samplerate =
     (if samplerate = 48000 then Some [0x1F, 0x40, 0x04, 0x81, 0x31, 0x01]
      else if samplerate = 44100 then Some [0x02, 0x71, 0x01, 0x93, 0x29, 0x01]
      else None)"

text \<open>The loop that waits for the lock of the clock generator; 0 tries left is the failure.\<close>

fun pll_wait :: "codec_env \<Rightarrow> nat \<Rightarrow> codec_hw \<Rightarrow> fault + (nat \<times> codec_hw)" where
  "pll_wait env 0 st = Inr (0, st)"
| "pll_wait env (Suc i) st =
     sbind (ADAU1961_ReadRegister6 env 1 st) (\<lambda>st.
     if bit (i2crxbuf st ! 5) 1 then Inr (Suc i, st) else pll_wait env i st)"

definition setup_before_serial :: "(nat \<times> u8) list" where
  "setup_before_serial = map (\<lambda>r. (r, 0)) [2..<15]"

definition setup_after_serial :: "(nat \<times> u8) list" where
  "setup_after_serial =
     [(16, 0x00), (17, 0x00), (18, 0x00), (19, 0x10), (20, 0x00), (21, 0x00), (22, 0x00), (23, 0x00), (24, 0x00), (25, 0x00),
      (26, 0x00), (27, 0x00), (28, 0x00), (29, 0x02), (30, 0x02), (31, 0x02), (32, 0x02), (33, 0x02), (34, 0x00), (35, 0x00),
      (36, 0x00), (37, 0x00), (38, 0x00), (39, 0x00), (40, 0xAA), (41, 0xAA), (42, 0x00),
      (19, 0x03), (36, 0x03), (31, 0xE7), (32, 0xE7), (26, 0x05), (27, 0x11), (22, 0x21), (24, 0x41), (35, 0x03),
      (4, 0x01), (5, 0x08), (6, 0x01), (7, 0x08), (8, 0x43), (9, 0x43), (33, 0x03), (28, 0x01), (29, 0xC3), (30, 0xC3)]"

text \<open>
  The second board shifts its clock until the edges are near each other, and then uses the DMA streams
  of the codec. The result says whether the function returns: it does not for another sample rate,
  without a lock, or when the edges never meet.
\<close>

definition serial_port :: "codec_env \<Rightarrow> u8 list \<Rightarrow> bool \<Rightarrow> codec_hw \<Rightarrow> fault + (bool \<times> codec_hw)" where
  "serial_port env pll isMaster st =
     sbind (ADAU1961_WriteRegister env 15 1 st) (\<lambda>st.
     if isMaster then Inr (True, st)
     else
       sbind (ADAU1961_WriteRegister6 env 1 pll48k_pulldown st) (\<lambda>st.
       if \<exists>i \<in> set (fs_counts env). 1 < i \<and> i < 5 then
         sbind (ADAU1961_WriteRegister6 env 1 pll st) (\<lambda>st.
         if dma_ready st then Inr (True, st) else Inl Dangling)
       else Inr (False, st)))"

definition codec_ADAU1961_hw_init :: "codec_env \<Rightarrow> u16 \<Rightarrow> bool \<Rightarrow> codec_hw \<Rightarrow> fault + (bool \<times> codec_hw)" where
  "codec_ADAU1961_hw_init env samplerate isMaster st =
     sbind (ADAU1961_WriteRegister env 0 0 st) (\<lambda>st.
     case pllreg samplerate of
       None \<Rightarrow> Inr (False, st)
     | Some pll \<Rightarrow>
         sbind (ADAU1961_WriteRegister6 env 1 pll st) (\<lambda>st.
         sbind (pll_wait env 100 st) (\<lambda>(i, st).
         if i = 0 then Inr (False, st\<lparr>codec_error := True\<rparr>)
         else
           sbind (ADAU1961_WriteRegister env 0 9 st) (\<lambda>st.
           sbind (write_registers env setup_before_serial st) (\<lambda>st.
           sbind (serial_port env pll isMaster st) (\<lambda>(r, st).
           if r then sbind (write_registers env setup_after_serial st) (\<lambda>st. Inr (True, st))
           else Inr (False, st)))))))"

section \<open>The clock of another board\<close>

text \<open>
  A loop of the form while (--j) that polls a pin: it leaves at the first level wanted, or with 0. The pin
  is a function of the number of the poll.
\<close>

fun wait_pad :: "(nat \<Rightarrow> bool) \<Rightarrow> nat \<Rightarrow> nat \<Rightarrow> nat \<times> nat" where
  "wait_pad p 0 t = (0, t)"
| "wait_pad p (Suc j) t = (if j = 0 then (0, t) else if p t then (j, t + 1) else wait_pad p j (t + 1))"

definition check_clock_is_present :: "(nat \<Rightarrow> bool) \<Rightarrow> fault + nat" where
  "check_clock_is_present pad =
     (case wait_pad (\<lambda>t. \<not> pad t) 100 0 of (_, t) \<Rightarrow>
      case wait_pad pad 100 t of (i, t) \<Rightarrow>
      case wait_pad (\<lambda>t. \<not> pad t) 1000 t of (j, t) \<Rightarrow>
        if j = 0 \<or> i = 0 then Inl (SysHalt ''CodecSyncFail'') else Inr t)"

text \<open>waitSync, for a falling or a rising edge; None is the endless loop of its failure.\<close>

definition waitSync :: "bool \<Rightarrow> (nat \<Rightarrow> bool) \<Rightarrow> nat option" where
  "waitSync rising pad =
     (case wait_pad (\<lambda>t. rising \<noteq> (\<not> pad t)) 1000000 0 of (_, t) \<Rightarrow>
      case wait_pad (\<lambda>t. rising \<noteq> pad t) 1000000 t of (i, t) \<Rightarrow>
      case wait_pad (\<lambda>t. rising \<noteq> (\<not> pad t)) 1000000 t of (j, t) \<Rightarrow>
        if j = 0 \<or> i = 0 then None else Some t)"

text \<open>A second board checks the clock first; the streams of the DMA are set after the registers.\<close>

definition codec_ADAU1961_i2s_init ::
  "codec_env \<Rightarrow> (nat \<Rightarrow> bool) \<Rightarrow> (nat \<Rightarrow> bool) \<Rightarrow> u16 \<Rightarrow> bool \<Rightarrow> codec_hw \<Rightarrow> fault + (bool \<times> codec_hw)" where
  "codec_ADAU1961_i2s_init env mco nss samplerate isMaster st =
     sbind (if isMaster then Inr 0 else check_clock_is_present mco) (\<lambda>_.
     sbind (codec_ADAU1961_hw_init env samplerate isMaster st) (\<lambda>(r, st).
     if r then
       let st = st\<lparr>dma_ready := True\<rparr> in
       Inr (isMaster \<or> waitSync True nss \<noteq> None, st)
     else Inr (False, st)))"

section \<open>The audio buffers\<close>

text \<open>
  The two buffers each way; ct is the bit of the transmitting DMA stream that says which buffer it
  sends, out\_first which buffer the audio thread was given.
\<close>

record codec =
  ct :: bool
  buf :: "int list"
  buf2 :: "int list"
  rbuf :: "int list"
  rbuf2 :: "int list"
  out_first :: bool
  cpu :: codec_state
  link :: spilink
  input_events :: evt_queue

definition codec_clearbuffer :: "codec \<Rightarrow> codec" where
  "codec_clearbuffer d = d\<lparr>buf := replicate 32 0, buf2 := replicate 32 0\<rparr>"

definition start_cycle :: "codec \<Rightarrow> codec" where
  "start_cycle d =
     (if ct d then d\<lparr>cpu := computebufI (rbuf2 d) (buf d) (cpu d), out_first := True\<rparr>
      else d\<lparr>cpu := computebufI (rbuf d) (buf2 d) (cpu d), out_first := False\<rparr>)"

definition dma_sai_a_interrupt_spilink_master :: "u32 list \<Rightarrow> lcd \<Rightarrow> codec \<Rightarrow> codec" where
  "dma_sai_a_interrupt_spilink_master ls lcd d =
     (case spilink_master_process ls lcd (link d, input_events d) of
        (l, q) \<Rightarrow> start_cycle (d\<lparr>link := l, input_events := q\<rparr>))"

definition dma_sai_a_interrupt_spilink_slave :: "codec \<Rightarrow> codec" where
  "dma_sai_a_interrupt_spilink_slave d = start_cycle (d\<lparr>link := spilink_slave_process (link d)\<rparr>)"

section \<open>The set-up of the first board\<close>

definition write_event :: "nat \<times> u8 \<Rightarrow> bus_event" where
  "write_event = (\<lambda>(r, v). Write (ADAU1961_REG ! r) v)"

definition pll_locked :: "codec_env \<Rightarrow> nat \<Rightarrow> bool" where
  "pll_locked env n \<longleftrightarrow> bit (reply env n ! 5) 1"

lemma write_registers_ok:
  assumes "\<forall>n. transfer_ok env n"
  shows "write_registers env ws st = Inr (st\<lparr>bus := bus st @ map write_event ws\<rparr>)"
  unfolding write_registers_def
proof (induction ws arbitrary: st)
  case (Cons w ws)
  obtain r v where w: "w = (r, v)" by (rule prod.exhaust)
  show ?case using Cons.IH [of "st\<lparr>bus := bus st @ [Write (ADAU1961_REG ! r) v]\<rparr>"] assms
    by (simp add: w ADAU1961_WriteRegister_def write_event_def)
qed simp

lemma pll_wait_fails:
  assumes "\<forall>n. transfer_ok env n" and "\<forall>j < i. \<not> pll_locked env (length (bus st) + j)"
  shows "\<exists>st'. pll_wait env i st = Inr (0, st') \<and> bus st' = bus st @ replicate i (Read6 (ADAU1961_REG ! 1))"
  using assms(2)
proof (induction i arbitrary: st)
  case (Suc i)
  define st1 where "st1 = st\<lparr>bus := bus st @ [Read6 (ADAU1961_REG ! 1)], i2crxbuf := reply env (length (bus st))\<rparr>"
  have r: "ADAU1961_ReadRegister6 env 1 st = Inr st1" using assms(1) by (simp add: ADAU1961_ReadRegister6_def st1_def)
  have n: "\<not> bit (i2crxbuf st1 ! 5) 1" using Suc.prems by (force simp: st1_def pll_locked_def)
  have "\<forall>j < i. \<not> pll_locked env (length (bus st1) + j)" using Suc.prems by (auto simp: st1_def)
  from Suc.IH [OF this] show ?case using r n by (auto simp: st1_def)
qed simp

lemma pll_wait_locks:
  assumes "\<forall>n. transfer_ok env n" and "k < i" and "pll_locked env (length (bus st) + k)"
    and "\<forall>j < k. \<not> pll_locked env (length (bus st) + j)"
  shows "\<exists>st'. pll_wait env i st = Inr (i - k, st') \<and> bus st' = bus st @ replicate (k + 1) (Read6 (ADAU1961_REG ! 1)) \<and>
    codec_error st' = codec_error st \<and> dma_ready st' = dma_ready st"
  using assms(2-4)
proof (induction k arbitrary: i st)
  case 0
  then obtain i' where i: "i = Suc i'" by (cases i) auto
  show ?case using 0 assms(1) by (simp add: i ADAU1961_ReadRegister6_def pll_locked_def)
next
  case (Suc k)
  then obtain i' where i: "i = Suc i'" by (cases i) auto
  define st1 where "st1 = st\<lparr>bus := bus st @ [Read6 (ADAU1961_REG ! 1)], i2crxbuf := reply env (length (bus st))\<rparr>"
  have r: "ADAU1961_ReadRegister6 env 1 st = Inr st1" using assms(1) by (simp add: ADAU1961_ReadRegister6_def st1_def)
  have n: "\<not> bit (i2crxbuf st1 ! 5) 1" using Suc.prems(3) by (force simp: st1_def pll_locked_def)
  have "k < i'" "pll_locked env (length (bus st1) + k)" "\<forall>j < k. \<not> pll_locked env (length (bus st1) + j)"
    using Suc.prems i by (auto simp: st1_def)
  from Suc.IH [OF this] show ?case using r n i by (auto simp: st1_def)
qed

section \<open>Periods\<close>

text \<open>
  One period of the audio hardware: the transmitting stream changes its buffer, which the interrupt
  follows; the receiving stream, a little later, fills the buffer that the code does not read; the
  audio thread computes its block, with a state of its own, into the buffer it was given; and the
  packet of the other board arrives. The buffer sent in the period is the one of the bit ct.
\<close>

type_synonym period_input = "(u32 list \<times> lcd \<times> spilink_data) \<times> int list"

definition sent :: "codec \<Rightarrow> int list" where
  "sent d = (if ct d then buf2 d else buf d)"

definition received :: "int list \<Rightarrow> codec \<Rightarrow> codec" where
  "received x d = (if ct d then d\<lparr>rbuf := x\<rparr> else d\<lparr>rbuf2 := x\<rparr>)"

definition computed :: "int list \<Rightarrow> codec \<Rightarrow> codec" where
  "computed y d = (if out_first d then d\<lparr>buf := y\<rparr> else d\<lparr>buf2 := y\<rparr>)"

definition packet_arrives :: "spilink_data \<Rightarrow> codec \<Rightarrow> codec" where
  "packet_arrives p d = d\<lparr>link := (link d)\<lparr>spilink_rx := (spilink_rx (link d))[half (spilink_toggle (link d)) := p]\<rparr>\<rparr>"

fun audio_run ::
  "('s \<Rightarrow> int list \<Rightarrow> int list \<times> 's) \<Rightarrow> period_input list \<Rightarrow> 's \<times> codec \<Rightarrow> int list list \<times> 's \<times> codec" where
  "audio_run dsp [] s = ([], s)"
| "audio_run dsp (((ls, lcd, p), x) # xs) (s, d) =
     (let d = dma_sai_a_interrupt_spilink_master ls lcd (d\<lparr>ct := \<not> ct d\<rparr>);
          (y, s) = dsp s (inbuf (cpu d));
          d = packet_arrives p (computed y (received x d));
          (out, s', d') = audio_run dsp xs (s, d)
      in (sent d # out, s', d'))"

text \<open>The blocks of the audio thread alone.\<close>

fun dsp_run :: "('s \<Rightarrow> int list \<Rightarrow> int list \<times> 's) \<Rightarrow> int list list \<Rightarrow> 's \<Rightarrow> int list list \<times> 's" where
  "dsp_run dsp [] s = ([], s)"
| "dsp_run dsp (x # xs) s = (case dsp s x of (y, s) \<Rightarrow> case dsp_run dsp xs s of (ys, s) \<Rightarrow> (y # ys, s))"

definition next_sent :: "codec \<Rightarrow> int list" where
  "next_sent d = (if ct d then buf d else buf2 d)"

definition next_read :: "codec \<Rightarrow> int list" where
  "next_read d = (if ct d then rbuf d else rbuf2 d)"

text \<open>One period.\<close>

lemma length_32: "length x = 32 \<Longrightarrow> map (\<lambda>i. x ! i) [0..<32] = x"
  using map_nth [of x] by simp

lemma computebufI_frame: "inbuf (computebufI x z st) = map (\<lambda>i. x ! i) [0..<32]"
  "compute_signals (computebufI x z st) = compute_signals st + 1"
  by (simp_all add: computebufI_def Let_def split: prod.split)

lemma period_step:
  assumes "d1 = dma_sai_a_interrupt_spilink_master ls lcd (d\<lparr>ct := \<not> ct d\<rparr>)"
    and "d2 = packet_arrives p (computed y (received x d1))" and "length (next_read d) = 32"
    and "spilink_master_process ls lcd (link d, input_events d) = (l, q)"
  shows "inbuf (cpu d1) = next_read d" "sent d2 = next_sent d" "next_sent d2 = y" "next_read d2 = x"
    "midi_clock (cpu d2) = clock_step (midi_clock (cpu d))"
    "compute_signals (cpu d2) = compute_signals (cpu d) + 1"
    "link d2 = l\<lparr>spilink_rx := (spilink_rx l)[half (spilink_toggle l) := p]\<rparr>" "input_events d2 = q"
  using assms
  by (auto simp: dma_sai_a_interrupt_spilink_master_def start_cycle_def packet_arrives_def computed_def received_def sent_def
      next_sent_def next_read_def computebufI_frame computebufI_clock length_32)

section \<open>Properties\<close>


definition sample_board :: codec where
  "sample_board = codec_clearbuffer \<lparr>ct = False, buf = [], buf2 = [], rbuf = replicate 32 0, rbuf2 = replicate 32 0,
     out_first = False, cpu = sample_codec, link = master_link, input_events = initial_queue\<rparr>"

definition sample_period :: period_input where
  "sample_period = ((replicate 6 5, replicate 1024 7, event_packet), replicate 32 9)"


text \<open>
  C31: With a working I2C bus and the sample rate of the firmware, the set-up of the first board returns
  exactly when the clock generator locks within a hundred reads; the core clock is switched to it only after
  the lock, and all registers are then written. Without a lock the error flag is set, the core stays off,
  and the set-up does not return.
\<close>

lemma codec_master_setup:
  assumes "\<forall>n. transfer_ok env n" and "bus st = []"
  shows "\<exists>st'. (\<forall>j < 100. \<not> pll_locked env (2 + j)) \<and> codec_ADAU1961_hw_init env 48000 True st = Inr (False, st') \<and>
      codec_error st' \<and> bus st' = [Write (ADAU1961_REG ! 0) 0, Write6 (ADAU1961_REG ! 1) [0x1F, 0x40, 0x04, 0x81, 0x31, 0x01]]
        @ replicate 100 (Read6 (ADAU1961_REG ! 1)) \<or>
    (\<exists>k < 100. pll_locked env (2 + k) \<and> (\<forall>j < k. \<not> pll_locked env (2 + j)) \<and>
      codec_ADAU1961_hw_init env 48000 True st = Inr (True, st') \<and> codec_error st' = codec_error st \<and>
      bus st' = [Write (ADAU1961_REG ! 0) 0, Write6 (ADAU1961_REG ! 1) [0x1F, 0x40, 0x04, 0x81, 0x31, 0x01]]
        @ replicate (k + 1) (Read6 (ADAU1961_REG ! 1)) @ [Write (ADAU1961_REG ! 0) 9]
        @ map write_event (setup_before_serial @ [(15, 1)] @ setup_after_serial))"
proof -
  let ?b = "[Write (ADAU1961_REG ! 0) 0, Write6 (ADAU1961_REG ! 1) [0x1F, 0x40, 0x04, 0x81, 0x31, 0x01]]"
  let ?st2 = "st\<lparr>bus := ?b\<rparr>"
  have start: "ADAU1961_WriteRegister env 0 0 st = Inr (st\<lparr>bus := [Write (ADAU1961_REG ! 0) 0]\<rparr>)"
    "ADAU1961_WriteRegister6 env 1 [0x1F, 0x40, 0x04, 0x81, 0x31, 0x01] (st\<lparr>bus := [Write (ADAU1961_REG ! 0) 0]\<rparr>) = Inr ?st2"
    using assms by (simp_all add: ADAU1961_WriteRegister_def ADAU1961_WriteRegister6_def)
  show ?thesis
  proof (cases "\<forall>j < 100. \<not> pll_locked env (2 + j)")
    case True
    then obtain st' where "pll_wait env 100 ?st2 = Inr (0, st')" "bus st' = ?b @ replicate 100 (Read6 (ADAU1961_REG ! 1))"
      using pll_wait_fails [OF assms(1), of 100 ?st2] by auto
    then have "codec_ADAU1961_hw_init env 48000 True st = Inr (False, st'\<lparr>codec_error := True\<rparr>)"
      using start by (simp add: codec_ADAU1961_hw_init_def pllreg_def)
    then show ?thesis using True \<open>bus st' = _\<close> by (intro exI [of _ "st'\<lparr>codec_error := True\<rparr>"] disjI1) simp
  next
    case False
    define k where "k = (LEAST j. pll_locked env (2 + j))"
    have k: "pll_locked env (2 + k)" "k < 100" "\<forall>j < k. \<not> pll_locked env (2 + j)"
    proof -
      obtain j where j: "j < 100" "pll_locked env (2 + j)" using False by blast
      show "pll_locked env (2 + k)" unfolding k_def by (rule LeastI [where P = "\<lambda>j. pll_locked env (2 + j)", OF j(2)])
      have "k \<le> j" unfolding k_def by (rule Least_le [where P = "\<lambda>j. pll_locked env (2 + j)", OF j(2)])
      then show "k < 100" using j(1) by simp
      show "\<forall>j < k. \<not> pll_locked env (2 + j)" unfolding k_def
        using not_less_Least [where P = "\<lambda>j. pll_locked env (2 + j)"] by blast
    qed
    obtain st3 where w: "pll_wait env 100 ?st2 = Inr (100 - k, st3)"
      "bus st3 = ?b @ replicate (k + 1) (Read6 (ADAU1961_REG ! 1))" "codec_error st3 = codec_error st"
      using pll_wait_locks [OF assms(1) k(2), of ?st2] k(1,3) by auto
    have one: "ADAU1961_WriteRegister env r v st = Inr (st\<lparr>bus := bus st @ [write_event (r, v)]\<rparr>)" for r v st
      using assms(1) by (simp add: ADAU1961_WriteRegister_def write_event_def)
    have "codec_ADAU1961_hw_init env 48000 True st = Inr (True, st3\<lparr>bus := bus st3 @ [write_event (0, 9)]
        @ map write_event setup_before_serial @ [write_event (15, 1)] @ map write_event setup_after_serial\<rparr>)"
      using start w(1) k(2) unfolding codec_ADAU1961_hw_init_def pllreg_def
      by (simp add: one write_registers_ok [OF assms(1)] serial_port_def)
    then show ?thesis using k w(2,3)
      by (intro exI [of _ "st3\<lparr>bus := bus st3 @ [write_event (0, 9)] @ map write_event setup_before_serial
        @ [write_event (15, 1)] @ map write_event setup_after_serial\<rparr>"] disjI2 exI [of _ k]) (simp add: write_event_def)
  qed
qed

definition sample_codec_env :: codec_env where
  "sample_codec_env = \<lparr>transfer_ok = (\<lambda>n. True), reply = (\<lambda>n. [0, 0, 0, 0, 0, if 5 \<le> n then 3 else 1]), fs_counts = [9, 3]\<rparr>"

definition codec_off :: codec_hw where
  "codec_off = \<lparr>bus = [], i2crxbuf = replicate 8 0, codec_error = False, dma_ready = False\<rparr>"

lemma sample_codec_env_ok: "transfer_ok sample_codec_env n" "pll_locked sample_codec_env n \<longleftrightarrow> 5 \<le> n" "fs_counts sample_codec_env = [9, 3]"
proof -
  have "bit (3 :: u8) 1" "\<not> bit (1 :: u8) 1" by (simp_all add: bit_simps bit_1_iff)
  then show "transfer_ok sample_codec_env n" "pll_locked sample_codec_env n \<longleftrightarrow> 5 \<le> n" "fs_counts sample_codec_env = [9, 3]"
    by (simp_all add: sample_codec_env_def pll_locked_def)
qed

lemma codec_master_setup_witness:
  "\<exists>st'. codec_ADAU1961_hw_init sample_codec_env 48000 True codec_off = Inr (True, st') \<and> \<not> codec_error st' \<and>
     bus st' ! 6 = Write (ADAU1961_REG ! 0) 9"
proof -
  have off: "bus codec_off = []" "\<forall>n. transfer_ok sample_codec_env n" by (simp_all add: codec_off_def sample_codec_env_ok)
  have some: "pll_locked sample_codec_env (2 + 3)" by (simp add: sample_codec_env_ok)
  obtain st' k where
    k: "k < 100" "pll_locked sample_codec_env (2 + k)" "\<forall>j < k. \<not> pll_locked sample_codec_env (2 + j)" and
    r: "codec_ADAU1961_hw_init sample_codec_env 48000 True codec_off = Inr (True, st')" "codec_error st' = codec_error codec_off"
    "bus st' = [Write (ADAU1961_REG ! 0) 0, Write6 (ADAU1961_REG ! 1) [0x1F, 0x40, 0x04, 0x81, 0x31, 0x01]]
        @ replicate (k + 1) (Read6 (ADAU1961_REG ! 1)) @ [Write (ADAU1961_REG ! 0) 9]
        @ map write_event (setup_before_serial @ [(15, 1)] @ setup_after_serial)"
    using codec_master_setup [OF off(2,1)]
  proof (elim exE disjE conjE)
    assume a: "\<forall>j < 100. \<not> pll_locked sample_codec_env (2 + j)"
    show thesis using a [rule_format, of 3] some by simp
  qed (rule that; assumption)
  have "k = 3" using k(2) k(3) [rule_format, of 3] sample_codec_env_ok(2) by (cases "3 < k") auto
  then have "bus st' ! 6 = Write (ADAU1961_REG ! 0) 9" unfolding r(3) by (simp add: nth_append)
  then show ?thesis using r by (auto simp: codec_off_def)
qed

text \<open>
  On the second board the set-up cannot complete: when the clock is there, the bus works, the clock
  generator locks and the edges meet, it clears the interrupts of a DMA stream through a pointer that is
  set only after the registers.
\<close>

lemma codec_slave_null_stream:
  assumes "\<forall>n. transfer_ok env n" and "bus st = []" and "\<not> dma_ready st" and "check_clock_is_present mco = Inr t0"
    and "k < 100" and "pll_locked env (2 + k)" and "\<forall>j < k. \<not> pll_locked env (2 + j)"
    and "i \<in> set (fs_counts env)" and "1 < i" and "i < 5"
  shows "codec_ADAU1961_i2s_init env mco nss 48000 False st = Inl Dangling"
proof -
  let ?b = "[Write (ADAU1961_REG ! 0) 0, Write6 (ADAU1961_REG ! 1) [0x1F, 0x40, 0x04, 0x81, 0x31, 0x01]]"
  obtain st3 where w: "pll_wait env 100 (st\<lparr>bus := ?b\<rparr>) = Inr (100 - k, st3)" "dma_ready st3 = dma_ready st"
    using pll_wait_locks [OF assms(1,5), of "st\<lparr>bus := ?b\<rparr>"] assms(6,7) by auto
  have one: "ADAU1961_WriteRegister env r v st = Inr (st\<lparr>bus := bus st @ [write_event (r, v)]\<rparr>)"
    "ADAU1961_WriteRegister6 env r vs st = Inr (st\<lparr>bus := bus st @ [Write6 (ADAU1961_REG ! r) vs]\<rparr>)" for r v vs st
    using assms(1) by (simp_all add: ADAU1961_WriteRegister_def ADAU1961_WriteRegister6_def write_event_def)
  have "\<exists>i \<in> set (fs_counts env). 1 < i \<and> i < 5" using assms(8-10) by blast
  then have "codec_ADAU1961_hw_init env 48000 False st = Inl Dangling"
    using w assms(2,3,5) unfolding codec_ADAU1961_hw_init_def pllreg_def
    by (simp add: one write_registers_ok [OF assms(1)] serial_port_def write_event_def)
  then show ?thesis using assms(4) by (simp add: codec_ADAU1961_i2s_init_def)
qed

text \<open>A clock whose pin changes its level at every poll.\<close>

lemma codec_slave_null_stream_witness:
  "codec_ADAU1961_i2s_init sample_codec_env even odd 48000 False codec_off = Inl Dangling"
proof -
  have step: "wait_pad p j t = (if j = 1 then (0, t) else if p t then (j - 1, t + 1) else wait_pad p (j - 1) (t + 1))"
    if "0 < j" for p j t using that by (cases j) simp_all
  have "wait_pad (\<lambda>t. \<not> even t) 100 0 = (98, 2)" by (simp add: step [of 100] step [of 99])
  moreover have "wait_pad even 100 2 = (99, 3)" by (simp add: step [of 100])
  moreover have "wait_pad (\<lambda>t. \<not> even t) 1000 3 = (999, 4)" by (simp add: step [of 1000])
  ultimately have "check_clock_is_present even = Inr 4" by (simp add: check_clock_is_present_def)
  from codec_slave_null_stream [OF _ _ _ this, of sample_codec_env codec_off 3 3 odd]
  show ?thesis by (simp add: sample_codec_env_ok) (simp add: codec_off_def)
qed

text \<open>Nor does it return otherwise.\<close>

lemma codec_slave_never_returns:
  assumes "\<not> dma_ready st" and "codec_ADAU1961_i2s_init env mco nss rate False st = Inr (r, st')"
  shows "\<not> r"
proof -
  have s: "serial_port env pll False st1 = Inr (r', st2) \<Longrightarrow> \<not> dma_ready st1 \<Longrightarrow> \<not> r'" for pll st1 r' st2
    by (auto simp: serial_port_def ADAU1961_WriteRegister_def ADAU1961_WriteRegister6_def sbind_eq_Inr split: if_splits)
  have w: "ADAU1961_WriteRegister env x v st1 = Inr st2 \<Longrightarrow> dma_ready st2 = dma_ready st1" for x v st1 st2
    by (auto simp: ADAU1961_WriteRegister_def split: if_splits)
  have w6: "ADAU1961_WriteRegister6 env x vs st1 = Inr st2 \<Longrightarrow> dma_ready st2 = dma_ready st1" for x vs st1 st2
    by (auto simp: ADAU1961_WriteRegister6_def split: if_splits)
  have ws: "write_registers env xs st1 = Inr st2 \<Longrightarrow> dma_ready st2 = dma_ready st1" for xs st1 st2
    unfolding write_registers_def by (induction xs arbitrary: st1) (auto simp: sbind_eq_Inr dest!: w)
  have pw: "pll_wait env i st1 = Inr (j, st2) \<Longrightarrow> dma_ready st2 = dma_ready st1" for i j st1 st2
    by (induction i arbitrary: st1) (auto simp: sbind_eq_Inr ADAU1961_ReadRegister6_def split: if_splits)
  show ?thesis using assms
    by (auto simp: codec_ADAU1961_i2s_init_def codec_ADAU1961_hw_init_def sbind_eq_Inr Let_def
        dest!: s w w6 ws pw split: if_splits option.splits)
qed

end
