(* ===== verification/Filters.thy ===== *)
theory Filters
  imports Axo_Math
begin

text \<open>
  The digital filters that patches use (api/axoloti\_filters.h) and the fast logarithm
  (firmware/axoloti\_math.c). A filter of second order computes each output from the last inputs and
  outputs with fixed-point coefficients. The sine functions of the CMSIS library and the floating-point
  reciprocal are parameters.
\<close>

section \<open>Filters\<close>

definition BUFSIZE :: nat where "BUFSIZE = 16"
definition HALFQ31 :: int where "HALFQ31 = 2 ^ 30"

record biquad_state =
  filter_x_n1 :: int
  filter_x_n2 :: int
  filter_y_n1 :: int
  filter_y_n2 :: int

record biquad_coefficients =
  cyn_1 :: int
  cyn_2 :: int
  cxn_0 :: int
  cxn_1 :: int
  cxn_2 :: int

definition biquad_clearstate :: biquad_state where
  "biquad_clearstate = \<lparr>filter_x_n1 = 0, filter_x_n2 = 0, filter_y_n1 = 0, filter_y_n2 = 0\<rparr>"

definition biquad_accu :: "biquad_coefficients \<Rightarrow> biquad_state \<Rightarrow> int \<Rightarrow> int" where
  "biquad_accu c st x =
     (let accu = smmul (cxn_0 c) x;
          accu = smmla (cxn_1 c) (filter_x_n1 st) accu;
          accu = smmla (cxn_2 c) (filter_x_n2 st) accu;
          accu = smmls (cyn_1 c) (filter_y_n1 st) accu
      in smmls (cyn_2 c) (filter_y_n2 st) accu)"

definition biquad_step :: "biquad_coefficients \<Rightarrow> biquad_state \<Rightarrow> int \<Rightarrow> int \<times> biquad_state" where
  "biquad_step c st x =
     (let y = wrap32 (biquad_accu c st x * 16) in
      (ssat y 28, \<lparr>filter_x_n1 = x, filter_x_n2 = filter_x_n1 st, filter_y_n1 = y, filter_y_n2 = filter_y_n1 st\<rparr>))"

fun biquad_loop :: "biquad_coefficients \<Rightarrow> biquad_state \<Rightarrow> int list \<Rightarrow> int list \<times> biquad_state" where
  "biquad_loop c st [] = ([], st)"
| "biquad_loop c st (x # xs) =
     (case biquad_step c st x of (y, st) \<Rightarrow> case biquad_loop c st xs of (ys, st) \<Rightarrow> (y # ys, st))"

definition biquad_dsp :: "biquad_state \<Rightarrow> biquad_coefficients \<Rightarrow> int list \<Rightarrow> int list \<times> biquad_state" where
  "biquad_dsp st c inbuffer = biquad_loop c st (take BUFSIZE inbuffer)"

text \<open>
  The coefficients, from a frequency and the inverse of the quality factor. The parameters are the
  sine, the cosine and the reciprocal, which the code computes in floating point from HALFQ31 + alpha.
  An unsigned operand of a multiplication is read as a signed one.
\<close>

record filter_math =
  arm_sin_q31 :: "int \<Rightarrow> int"
  arm_cos_q31 :: "int \<Rightarrow> int"
  a0_inv_q31 :: "int \<Rightarrow> int"

definition biquad_lp_coefs :: "filter_math \<Rightarrow> u32 \<Rightarrow> u32 \<Rightarrow> biquad_coefficients" where
  "biquad_lp_coefs fm filter_W0 q_inv =
     (let w = uint (drop_bit 1 filter_W0); sinW0 = arm_sin_q31 fm w; cosW0 = arm_cos_q31 fm w; q = sint q_inv;
          alpha = smmul sinW0 q; inv = a0_inv_q31 fm (wrap32 (HALFQ31 + alpha));
          c0 = smmul (smmul (wrap32 (HALFQ31 - cosW0 div 2)) inv) q
      in \<lparr>cyn_1 = smmul (wrap32 (- cosW0)) inv, cyn_2 = smmul (wrap32 (HALFQ31 - alpha)) inv,
          cxn_0 = c0, cxn_1 = wrap32 (c0 * 2), cxn_2 = c0\<rparr>)"

definition biquad_bp_coefs :: "filter_math \<Rightarrow> u32 \<Rightarrow> u32 \<Rightarrow> biquad_coefficients" where
  "biquad_bp_coefs fm filter_W0 q_inv =
     (let w = uint (drop_bit 1 filter_W0); sinW0 = arm_sin_q31 fm w; cosW0 = arm_cos_q31 fm w; q = sint q_inv;
          alpha = smmul sinW0 q; inv = a0_inv_q31 fm (wrap32 (HALFQ31 + alpha));
          c0 = smmul alpha inv
      in \<lparr>cyn_1 = smmul (wrap32 (- cosW0)) inv, cyn_2 = smmul (wrap32 (HALFQ31 - alpha)) inv,
          cxn_0 = c0, cxn_1 = 0, cxn_2 = wrap32 (- c0)\<rparr>)"

definition biquad_hp_coefs :: "filter_math \<Rightarrow> u32 \<Rightarrow> u32 \<Rightarrow> biquad_coefficients" where
  "biquad_hp_coefs fm filter_W0 q_inv =
     (let w = uint (drop_bit 1 filter_W0); sinW0 = arm_sin_q31 fm w; cosW0 = arm_cos_q31 fm w; q = sint q_inv;
          alpha = smmul sinW0 q; inv = a0_inv_q31 fm (wrap32 (HALFQ31 + alpha));
          c0 = smmul (smmul (wrap32 (HALFQ31 + cosW0 div 2)) inv) q
      in \<lparr>cyn_1 = smmul (wrap32 (- cosW0)) inv, cyn_2 = smmul (wrap32 (HALFQ31 - alpha)) inv,
          cxn_0 = c0, cxn_1 = wrap32 (- wrap32 (c0 * 2)), cxn_2 = c0\<rparr>)"

text \<open>
  The older low-pass filter, with the sine table of the firmware, coefficients that change with every
  buffer, and saturation of the value it feeds back.
\<close>

definition init_filter_biquad_A :: biquad_state where
  "init_filter_biquad_A = biquad_clearstate"

fun filter_A_loop :: "int \<Rightarrow> int \<Rightarrow> int \<Rightarrow> int \<Rightarrow> biquad_state \<Rightarrow> int list \<Rightarrow> int list \<times> biquad_state" where
  "filter_A_loop a1 a2 b0 b1 v [] = ([], v)"
| "filter_A_loop a1 a2 b0 b1 v (x # xs) =
     (let accu = smmul b0 x;
          accu = smmla b0 (filter_x_n2 v) accu;
          accu = smmla b1 (filter_x_n1 v) accu;
          accu = smmla a1 (filter_y_n1 v) accu;
          accu = smmla a2 (filter_y_n2 v) accu;
          y = ssat accu 28 * 16;
          v = \<lparr>filter_x_n1 = x, filter_x_n2 = filter_x_n1 v, filter_y_n1 = y, filter_y_n2 = filter_y_n1 v\<rparr>
      in case filter_A_loop a1 a2 b0 b1 v xs of (ys, v) \<Rightarrow> (y # ys, v))"

definition f_filter_biquad_A ::
  "filter_math \<Rightarrow> int list \<Rightarrow> biquad_state \<Rightarrow> int list \<Rightarrow> u32 \<Rightarrow> u32 \<Rightarrow> fault + (int list \<times> biquad_state)" where
  "f_filter_biquad_A fm sine2t v sourcebuf filter_W0 q_inv =
     sbind (sin_q31 sine2t (sint filter_W0)) (\<lambda>sinW0.
     sbind (sin_q31 sine2t (sint (filter_W0 + 0x40000000))) (\<lambda>cosW0.
       let alpha = smmul sinW0 (sint q_inv); inv = a0_inv_q31 fm (wrap32 (HALFQ31 + alpha));
           a1 = smmul cosW0 inv; a2 = smmul (wrap32 (- wrap32 (HALFQ31 - alpha))) inv;
           b0 = smmul (wrap32 (HALFQ31 - cosW0 div 2)) inv; b1 = b0 div 2
       in Inr (filter_A_loop a1 a2 b0 b1 v (take BUFSIZE sourcebuf))))"

section \<open>The logarithm\<close>

text \<open>
  The conversion of an unsigned integer to a float: the exponent field and the 23 bits of the mantissa,
  rounded to nearest, ties to even.
\<close>

fun log2_floor :: "nat \<Rightarrow> nat" where
  "log2_floor n = (if n < 2 then 0 else Suc (log2_floor (n div 2)))"

declare log2_floor.simps [simp del]

definition round_even :: "nat \<Rightarrow> nat \<Rightarrow> nat" where
  "round_even n s =
     (let q = n div 2 ^ s; r = n mod 2 ^ s in
      if 2 * r > 2 ^ s \<or> 2 * r = 2 ^ s \<and> odd q then q + 1 else q)"

definition float_parts :: "u32 \<Rightarrow> nat \<times> nat" where
  "float_parts i =
     (let n = unat i; e = log2_floor n in
      if n = 0 then (0, 0)
      else if e \<le> 23 then (127 + e, n * 2 ^ (23 - e) - 2 ^ 23)
      else
        let q = round_even n (e - 23) in
        if q = 2 ^ 24 then (127 + e + 1, 0) else (127 + e, q - 2 ^ 23))"

definition FastLog :: "u32 \<Rightarrow> u32" where
  "FastLog i = (case float_parts i of (e, m) \<Rightarrow> push_bit 23 (of_nat e) + of_nat (m div 2 ^ 10))"

section \<open>The error of a filter step\<close>

text \<open>The exact sum of the difference equation.\<close>

definition exact_sum :: "biquad_coefficients \<Rightarrow> biquad_state \<Rightarrow> int \<Rightarrow> int" where
  "exact_sum c st x = cxn_0 c * x + cxn_1 c * filter_x_n1 st + cxn_2 c * filter_x_n2 st
     - cyn_1 c * filter_y_n1 st - cyn_2 c * filter_y_n2 st"

definition sum_small :: "biquad_coefficients \<Rightarrow> biquad_state \<Rightarrow> int \<Rightarrow> bool" where
  "sum_small c st x \<longleftrightarrow>
     \<bar>cxn_0 c * x\<bar> + \<bar>cxn_1 c * filter_x_n1 st\<bar> + \<bar>cxn_2 c * filter_x_n2 st\<bar>
     + \<bar>cyn_1 c * filter_y_n1 st\<bar> + \<bar>cyn_2 c * filter_y_n2 st\<bar> \<le> 2 ^ 59 - 6 * 2 ^ 32"

fun stays_small :: "biquad_coefficients \<Rightarrow> biquad_state \<Rightarrow> int list \<Rightarrow> bool" where
  "stays_small c st [] = True"
| "stays_small c st (x # xs) \<longleftrightarrow> sum_small c st x \<and> stays_small c (snd (biquad_step c st x)) xs"

lemma div_bounds: "p - 2 ^ 32 < (p div 2 ^ 32) * 2 ^ 32" "(p div 2 ^ 32) * 2 ^ 32 \<le> p" for p :: int
proof -
  have "p = (p div 2 ^ 32) * 2 ^ 32 + p mod 2 ^ 32" by (rule div_mult_mod_eq [symmetric])
  moreover have "0 \<le> p mod 2 ^ 32" "p mod 2 ^ 32 < 2 ^ 32" by simp_all
  ultimately show "p - 2 ^ 32 < (p div 2 ^ 32) * 2 ^ 32" "(p div 2 ^ 32) * 2 ^ 32 \<le> p" by linarith+
qed

lemma multiply_add: "smmla a b acc = wrap32 (acc + (a * b) div 2 ^ 32)"
  "smmls a b acc = wrap32 (acc + (- (a * b)) div 2 ^ 32)"
proof -
  show "smmla a b acc = wrap32 (acc + (a * b) div 2 ^ 32)" by (simp add: smmla_def)
  have "acc * 2 ^ 32 - a * b = - (a * b) + acc * 2 ^ 32" by simp
  then have "(acc * 2 ^ 32 - a * b) div 2 ^ 32 = acc + (- (a * b)) div 2 ^ 32"
    by (simp only: div_mult_self1 [of "2 ^ 32 :: int"]) simp
  then show "smmls a b acc = wrap32 (acc + (- (a * b)) div 2 ^ 32)" by (simp add: smmls_def)
qed

text \<open>Five truncated products, summed without a wrap.\<close>

lemma five_bounds:
  fixes p q r s t a b c d e :: int
  assumes "\<bar>p\<bar> + \<bar>q\<bar> + \<bar>r\<bar> + \<bar>s\<bar> + \<bar>t\<bar> \<le> 2 ^ 59 - 6 * 2 ^ 32"
    and "p - 2 ^ 32 < a * 2 ^ 32" "a * 2 ^ 32 \<le> p" and "q - 2 ^ 32 < b * 2 ^ 32" "b * 2 ^ 32 \<le> q"
    and "r - 2 ^ 32 < c * 2 ^ 32" "c * 2 ^ 32 \<le> r" and "s - 2 ^ 32 < d * 2 ^ 32" "d * 2 ^ 32 \<le> s"
    and "t - 2 ^ 32 < e * 2 ^ 32" "e * 2 ^ 32 \<le> t"
  shows "int32 (a + b)" "int32 (a + b + c)" "int32 (a + b + c + d)" "int32 (a + b + c + d + e)" "int32 ((a + b + c + d + e) * 16)"
    "p + q + r + s + t - 5 * 2 ^ 32 < (a + b + c + d + e) * 2 ^ 32" "(a + b + c + d + e) * 2 ^ 32 \<le> p + q + r + s + t"
proof -
  note abs = abs_ge_self [of p] abs_ge_minus_self [of p] abs_ge_self [of q] abs_ge_minus_self [of q] abs_ge_self [of r]
    abs_ge_minus_self [of r] abs_ge_self [of s] abs_ge_minus_self [of s] abs_ge_self [of t] abs_ge_minus_self [of t]
  note all = assms [simplified] abs
  show "int32 (a + b)" using all unfolding int32_def by simp
  show "int32 (a + b + c)" using all unfolding int32_def by simp
  show "int32 (a + b + c + d)" using all unfolding int32_def by simp
  show "int32 (a + b + c + d + e)" using all unfolding int32_def by simp
  show "int32 ((a + b + c + d + e) * 16)" using all unfolding int32_def by simp
  show "p + q + r + s + t - 5 * 2 ^ 32 < (a + b + c + d + e) * 2 ^ 32" using all by simp
  show "(a + b + c + d + e) * 2 ^ 32 \<le> p + q + r + s + t" using all by simp
qed

lemma biquad_error:
  assumes "sum_small c st x"
  shows "\<exists>y. biquad_step c st x = (ssat y 28, \<lparr>filter_x_n1 = x, filter_x_n2 = filter_x_n1 st, filter_y_n1 = y, filter_y_n2 = filter_y_n1 st\<rparr>) \<and>
    exact_sum c st x - 5 * 2 ^ 32 < y * 2 ^ 28 \<and> y * 2 ^ 28 \<le> exact_sum c st x"
proof -
  let ?p = "cxn_0 c * x" and ?q = "cxn_1 c * filter_x_n1 st" and ?r = "cxn_2 c * filter_x_n2 st"
    and ?s = "- (cyn_1 c * filter_y_n1 st)" and ?t = "- (cyn_2 c * filter_y_n2 st)"
  let ?A = "?p div 2 ^ 32 + ?q div 2 ^ 32 + ?r div 2 ^ 32 + ?s div 2 ^ 32 + ?t div 2 ^ 32"
  have "\<bar>?p\<bar> + \<bar>?q\<bar> + \<bar>?r\<bar> + \<bar>?s\<bar> + \<bar>?t\<bar> \<le> 2 ^ 59 - 6 * 2 ^ 32" using assms by (simp add: sum_small_def)
  note b = five_bounds [OF this div_bounds [of ?p] div_bounds [of ?q] div_bounds [of ?r] div_bounds [of ?s] div_bounds [of ?t]]
  have "biquad_accu c st x = ?A"
    unfolding biquad_accu_def Let_def multiply_add smmul_def
    by (simp only: wrap32_id [OF b(1)] wrap32_id [OF b(2)] wrap32_id [OF b(3)] wrap32_id [OF b(4)])
  then have y: "wrap32 (biquad_accu c st x * 16) = ?A * 16" by (simp only: wrap32_id [OF b(5)])
  have "?A * 16 * 2 ^ 28 = ?A * 2 ^ 32" by simp
  moreover have "?p + ?q + ?r + ?s + ?t = exact_sum c st x" by (simp add: exact_sum_def)
  ultimately show ?thesis using b(6,7) unfolding biquad_step_def Let_def y by (intro exI [of _ "?A * 16"]) simp
qed

text \<open>Two buffers in sequence are filtered as one.\<close>

lemma biquad_loop_append:
  "biquad_loop c st (xs @ zs) =
     (case biquad_loop c st xs of (ys, st) \<Rightarrow> case biquad_loop c st zs of (ws, st) \<Rightarrow> (ys @ ws, st))"
  by (induction xs arbitrary: st) (simp_all split: prod.split)

text \<open>
  The difference equation at one place of the sequences of inputs and of values fed back, which start
  with the two of the history: the value is at most the exact sum and less than 80 units below it.
\<close>

definition follows_equation :: "biquad_coefficients \<Rightarrow> int list \<Rightarrow> int list \<Rightarrow> nat \<Rightarrow> bool" where
  "follows_equation c X Y i \<longleftrightarrow>
     (let S = cxn_0 c * X ! (i + 2) + cxn_1 c * X ! (i + 1) + cxn_2 c * X ! i - cyn_1 c * Y ! (i + 1) - cyn_2 c * Y ! i
      in S - 5 * 2 ^ 32 < Y ! (i + 2) * 2 ^ 28 \<and> Y ! (i + 2) * 2 ^ 28 \<le> S)"

lemma biquad_loop_equation:
  assumes "stays_small c st xs" and "biquad_loop c st xs = (out, st')"
  shows "\<exists>ys. length ys = length xs \<and> out = map (\<lambda>y. ssat y 28) ys \<and>
    (\<forall>i < length xs. follows_equation c (filter_x_n2 st # filter_x_n1 st # xs) (filter_y_n2 st # filter_y_n1 st # ys) i)"
  using assms
proof (induction xs arbitrary: st out)
  case (Cons x xs)
  obtain y where y: "biquad_step c st x = (ssat y 28, \<lparr>filter_x_n1 = x, filter_x_n2 = filter_x_n1 st, filter_y_n1 = y, filter_y_n2 = filter_y_n1 st\<rparr>)"
    "exact_sum c st x - 5 * 2 ^ 32 < y * 2 ^ 28" "y * 2 ^ 28 \<le> exact_sum c st x"
    using biquad_error [of c st x] Cons.prems(1) by auto
  let ?st = "\<lparr>filter_x_n1 = x, filter_x_n2 = filter_x_n1 st, filter_y_n1 = y, filter_y_n2 = filter_y_n1 st\<rparr>"
  obtain out2 where o2: "biquad_loop c ?st xs = (out2, st')" "out = ssat y 28 # out2"
    using Cons.prems(2) y(1) by (auto split: prod.splits)
  have "stays_small c ?st xs" using Cons.prems(1) y(1) by simp
  from Cons.IH [OF this o2(1)] obtain ys where ys: "length ys = length xs" "out2 = map (\<lambda>y. ssat y 28) ys"
    "\<forall>i < length xs. follows_equation c (filter_x_n1 st # x # xs) (filter_y_n1 st # y # ys) i"
    by auto
  have "follows_equation c (filter_x_n2 st # filter_x_n1 st # x # xs) (filter_y_n2 st # filter_y_n1 st # y # ys) 0"
    using y(2,3) by (simp add: follows_equation_def exact_sum_def)
  moreover have "follows_equation c (filter_x_n2 st # filter_x_n1 st # x # xs) (filter_y_n2 st # filter_y_n1 st # y # ys) (Suc i) =
    follows_equation c (filter_x_n1 st # x # xs) (filter_y_n1 st # y # ys) i" for i
    by (simp add: follows_equation_def)
  ultimately have "\<forall>i < length (x # xs).
    follows_equation c (filter_x_n2 st # filter_x_n1 st # x # xs) (filter_y_n2 st # filter_y_n1 st # y # ys) i"
    using ys(3) by (auto simp: less_Suc_eq_0_disj)
  then show ?case using ys(1,2) o2(2) by (intro exI [of _ "y # ys"]) simp
qed simp

section \<open>Properties\<close>

text \<open>
  C32: While the products of a buffer do not overflow, the filter computes its difference equation: each
  value it feeds back differs from the exact one by less than 80 units (five truncated products,
  scaled), the values across the buffer and its history are linked by the equation, and each
  output is the value limited to 28 bits.
\<close>

lemma biquad_difference_equation:
  assumes "length inbuffer = BUFSIZE" and "stays_small c st inbuffer" and "biquad_dsp st c inbuffer = (out, st')"
  shows "\<exists>ys. length ys = BUFSIZE \<and> out = map (\<lambda>y. ssat y 28) ys \<and>
    (\<forall>i < BUFSIZE. follows_equation c (filter_x_n2 st # filter_x_n1 st # inbuffer) (filter_y_n2 st # filter_y_n1 st # ys) i)"
  using biquad_loop_equation [OF assms(2), of out st'] assms(1,3) by (simp add: biquad_dsp_def)

definition half_gain :: biquad_coefficients where
  "half_gain = \<lparr>cyn_1 = 0, cyn_2 = 0, cxn_0 = 2 ^ 27, cxn_1 = 0, cxn_2 = 0\<rparr>"

lemma biquad_difference_equation_witness:
  "\<exists>ys. fst (biquad_dsp biquad_clearstate half_gain (replicate 16 1000)) = map (\<lambda>y. ssat y 28) ys \<and> ys ! 0 \<le> 500"
proof -
  obtain out st' where r: "biquad_dsp biquad_clearstate half_gain (replicate 16 1000) = (out, st')" by (rule prod.exhaust)
  have "stays_small half_gain st (replicate n 1000)" for n st
    by (induction n arbitrary: st) (simp_all add: sum_small_def half_gain_def)
  then have s: "stays_small half_gain biquad_clearstate (replicate 16 1000)" by blast
  from biquad_difference_equation [OF _ s r] obtain ys where "out = map (\<lambda>y. ssat y 28) ys"
    and e: "\<forall>i < BUFSIZE. follows_equation half_gain (0 # 0 # replicate 16 1000) (0 # 0 # ys) i"
    by (auto simp: BUFSIZE_def biquad_clearstate_def)
  moreover have "ys ! 0 \<le> 500" using e [rule_format, of 0] by (simp add: BUFSIZE_def follows_equation_def half_gain_def)
  ultimately show ?thesis using r by auto
qed

text \<open>
  At powers of two the logarithm is exact; between them the fraction only adds to its lowest 13 bits.
\<close>

lemma log2_floor_eq: "2 ^ e \<le> n \<Longrightarrow> n < 2 ^ Suc e \<Longrightarrow> log2_floor n = e"
proof (induction e arbitrary: n)
  case (Suc e)
  then have "2 ^ e \<le> n div 2" "n div 2 < 2 ^ Suc e" by auto
  then have "log2_floor (n div 2) = e" by (rule Suc.IH)
  moreover have "2 \<le> n" using Suc.prems(1) by (simp add: order.trans [of 2 "2 * 2 ^ e"])
  ultimately show ?case by (subst log2_floor.simps) simp
qed (subst log2_floor.simps, simp)

lemma FastLog_power:
  assumes "k < 32"
  shows "FastLog (2 ^ k) = push_bit 23 (of_nat (127 + k))"
proof -
  have "(2 :: nat) ^ k < 2 ^ 32" using assms by (rule power_strict_increasing) simp
  then have "unat (of_nat (2 ^ k) :: u32) = 2 ^ k" unfolding unat_of_nat by simp
  then have n: "unat (2 ^ k :: u32) = 2 ^ k" by simp
  have l: "log2_floor (2 ^ k) = k" by (rule log2_floor_eq) simp_all
  have "float_parts (2 ^ k) = (127 + k, 0)"
  proof (cases "k \<le> 23")
    case True
    then have "(2 :: nat) ^ k * 2 ^ (23 - k) = 2 ^ 23" by (simp add: power_add [symmetric])
    then show ?thesis using True by (simp add: float_parts_def n l)
  next
    case False
    then have "k = 23 + (k - 23)" by simp
    then have "(2 :: nat) ^ k = 2 ^ 23 * 2 ^ (k - 23)" by (metis power_add)
    then have "round_even (2 ^ k) (k - 23) = 2 ^ 23" by (simp add: round_even_def)
    then show ?thesis using False by (simp add: float_parts_def n l)
  qed
  then show ?thesis by (simp add: FastLog_def)
qed

end
