(* ===== verification/Usb_Config.thy ===== *)
theory Usb_Config
  imports Prelude
begin

text \<open>
  The USB descriptors of the device (firmware/usbcfg.c): the configuration with the MIDI and the bulk
  interface, the strings with the serial number, and the vendor requests of the Windows driver.

  The macros that expand to descriptors and the kernel version are of ChibiOS, which is not in the
  repository: they are parameters, with the layout of the USB specification as the hypothesis.
\<close>

section \<open>Parameters\<close>

record usb_macros =
  desc_device :: "u16 \<Rightarrow> u8 \<Rightarrow> u8 \<Rightarrow> u8 \<Rightarrow> u8 \<Rightarrow> u16 \<Rightarrow> u16 \<Rightarrow> u16 \<Rightarrow> u8 \<Rightarrow> u8 \<Rightarrow> u8 \<Rightarrow> u8 \<Rightarrow> u8 list"
  desc_configuration :: "u16 \<Rightarrow> u8 \<Rightarrow> u8 \<Rightarrow> u8 \<Rightarrow> u8 \<Rightarrow> u8 \<Rightarrow> u8 list"
  desc_association :: "u8 \<Rightarrow> u8 \<Rightarrow> u8 \<Rightarrow> u8 \<Rightarrow> u8 \<Rightarrow> u8 \<Rightarrow> u8 list"
  desc_interface :: "u8 \<Rightarrow> u8 \<Rightarrow> u8 \<Rightarrow> u8 \<Rightarrow> u8 \<Rightarrow> u8 \<Rightarrow> u8 \<Rightarrow> u8 list"
  desc_endpoint :: "u8 \<Rightarrow> u8 \<Rightarrow> u16 \<Rightarrow> u8 \<Rightarrow> u8 list"
  kernel_version :: "u8 list"

definition le16 :: "u16 \<Rightarrow> u8 list" where
  "le16 w = [ucast w, ucast (drop_bit 8 w)]"

text \<open>The type codes of descriptors in the USB specification.\<close>

definition USB_DESCRIPTOR_DEVICE :: u8 where "USB_DESCRIPTOR_DEVICE = 1"
definition USB_DESCRIPTOR_CONFIGURATION :: u8 where "USB_DESCRIPTOR_CONFIGURATION = 2"
definition USB_DESCRIPTOR_STRING :: u8 where "USB_DESCRIPTOR_STRING = 3"

definition usb_macros_ok :: "usb_macros \<Rightarrow> bool" where
  "usb_macros_ok m \<longleftrightarrow>
     desc_device m = (\<lambda>bcd cls sub prot size vendor prod rel im ip is n.
       [18, 1] @ le16 bcd @ [cls, sub, prot, size] @ le16 vendor @ le16 prod @ le16 rel @ [im, ip, is, n]) \<and>
     desc_configuration m = (\<lambda>total n v i attr power. [9, 2] @ le16 total @ [n, v, i, attr, power]) \<and>
     desc_association m = (\<lambda>first n cls sub prot i. [8, 11, first, n, cls, sub, prot, i]) \<and>
     desc_interface m = (\<lambda>n alt neps cls sub prot i. [9, 4, n, alt, neps, cls, sub, prot, i]) \<and>
     desc_endpoint m = (\<lambda>a attr size interval. [7, 5, a, attr] @ le16 size @ [interval]) \<and>
     length (kernel_version m) = 3"

section \<open>The descriptors\<close>

definition USBD1_DATA_REQUEST_EP :: u8 where "USBD1_DATA_REQUEST_EP = 1"
definition USBD1_DATA_AVAILABLE_EP :: u8 where "USBD1_DATA_AVAILABLE_EP = 1"
definition USBD2_DATA_REQUEST_EP :: u8 where "USBD2_DATA_REQUEST_EP = 2"
definition USBD2_DATA_AVAILABLE_EP :: u8 where "USBD2_DATA_AVAILABLE_EP = 2"

definition vcom_device_descriptor_data :: "usb_macros \<Rightarrow> u8 list" where
  "vcom_device_descriptor_data m = desc_device m 0x0200 0xEF 2 1 0x40 0x16C0 0x0442 0x0200 1 5 3 1"

definition vcom_configuration_descriptor_data :: "usb_macros \<Rightarrow> u8 list" where
  "vcom_configuration_descriptor_data m =
     desc_configuration m 140 3 1 5 0xC0 50
     @ desc_association m 0 2 1 3 0 0
     @ [0x09, 0x04, 0x00, 0x00, 0x00, 0x01, 0x01, 0x00, 0x00]
     @ [0x09, 0x24, 0x01, 0x00, 0x01, 0x09, 0x00, 0x01, 0x01]
     @ [0x09, 0x04, 0x01, 0x00, 0x02, 0x01, 0x03, 0x00, 0x00]
     @ [0x07, 0x24, 0x01, 0x00, 0x01, 0x41, 0x00]
     @ [0x06, 0x24, 0x02, 0x01, 0x01, 0x05]
     @ [0x06, 0x24, 0x02, 0x02, 0x02, 0x06]
     @ [0x09, 0x24, 0x03, 0x01, 0x03, 0x01, 0x02, 0x01, 0x06]
     @ [0x09, 0x24, 0x03, 0x02, 0x04, 0x01, 0x01, 0x01, 0x02]
     @ [0x09, 0x05, 0x01, 0x02, 0x40, 0x00, 0x00, 0x00, 0x00]
     @ [0x05, 0x25, 0x01, 0x01, 0x01]
     @ [0x09, 0x05, 0x81, 0x02, 0x40, 0x00, 0x00, 0x00, 0x00]
     @ [0x05, 0x25, 0x01, 0x01, 0x03]
     @ desc_association m 2 1 0xFF 0 0 4
     @ desc_interface m 2 0 2 0xFF 0 0 4
     @ desc_endpoint m USBD2_DATA_AVAILABLE_EP 2 0x0040 0
     @ desc_endpoint m (USBD2_DATA_REQUEST_EP OR 0x80) 2 0x0040 0"

text \<open>A string of 16 bit characters, of ASCII characters here.\<close>

definition wide :: "string \<Rightarrow> u8 list" where
  "wide s = concat (map (\<lambda>c. [of_char c, 0]) s)"

definition vcom_string0 :: "u8 list" where "vcom_string0 = [4, USB_DESCRIPTOR_STRING] @ le16 0x0409"
definition vcom_string1 :: "u8 list" where "vcom_string1 = [16, USB_DESCRIPTOR_STRING] @ wide ''Axoloti''"
definition vcom_string2 :: "u8 list" where "vcom_string2 = [56, USB_DESCRIPTOR_STRING] @ wide ''ChibiOS/RT Virtual COM Port''"
definition vcom_string3 :: "usb_macros \<Rightarrow> u8 list" where
  "vcom_string3 m = [8, USB_DESCRIPTOR_STRING] @ concat (map (\<lambda>v. [48 + v, 0]) (kernel_version m))"
definition vcom_string4 :: "u8 list" where "vcom_string4 = [46, USB_DESCRIPTOR_STRING] @ wide ''Axoloti Bulk Interface''"
definition vcom_string5 :: "u8 list" where "vcom_string5 = [26, USB_DESCRIPTOR_STRING] @ wide ''Axoloti Core''"
definition vcom_string6 :: "u8 list" where "vcom_string6 = [26, USB_DESCRIPTOR_STRING] @ wide ''Axoloti MIDI''"
definition vcid_string :: "u8 list" where "vcid_string = [18, USB_DESCRIPTOR_STRING] @ wide ''MSFT100'' @ [20, 0]"

definition vcom_strings :: "usb_macros \<Rightarrow> u8 list list" where
  "vcom_strings m = [vcom_string0, vcom_string1, vcom_string2, vcom_string3 m, vcom_string4, vcom_string5, vcom_string6]"

text \<open>The serial number string, which is filled in when it is requested: 48 zeros of two bytes.\<close>

definition descriptor_serial_string :: "u8 list" where
  "descriptor_serial_string = [50, USB_DESCRIPTOR_STRING] @ wide (replicate 48 CHR ''0'')"

definition hex_char :: "u32 \<Rightarrow> u8" where
  "hex_char c = (if c < 10 then ucast c + 48 else ucast c + 65 - 10)"

definition inttohex :: "u32 \<Rightarrow> nat \<Rightarrow> u8 list \<Rightarrow> fault + u8 list" where
  "inttohex v p = sfold (\<lambda>nibble s. upd_e s (p + 2 * nibble) (hex_char (drop_bit (28 - nibble * 4) v AND 15))) [0..<8]"

text \<open>
  The answer to a descriptor request; None stands for the null pointer that refuses it. The unique
  identifier of the chip is the three words at 0x1FFF7A10.
\<close>

definition get_descriptor ::
  "usb_macros \<Rightarrow> u32 list \<Rightarrow> u8 \<Rightarrow> u8 \<Rightarrow> u8 list \<Rightarrow> fault + (u8 list option \<times> u8 list)" where
  "get_descriptor m uid dtype dindex serial =
     (if dtype = USB_DESCRIPTOR_DEVICE then Inr (Some (vcom_device_descriptor_data m), serial)
      else if dtype = USB_DESCRIPTOR_CONFIGURATION then Inr (Some (vcom_configuration_descriptor_data m), serial)
      else if dtype = USB_DESCRIPTOR_STRING then
        if dindex = 3 then
          sbind (inttohex (uid ! 0) 2 serial) (\<lambda>serial.
          sbind (inttohex (uid ! 1) (2 + 16) serial) (\<lambda>serial.
          sbind (inttohex (uid ! 2) (2 + 32) serial) (\<lambda>serial. Inr (Some serial, serial))))
        else if dindex < 9 then sbind (nth_e (vcom_strings m) (unat dindex)) (\<lambda>s. Inr (Some s, serial))
        else if dindex = 0xEE then Inr (Some vcid_string, serial)
        else Inr (None, serial)
      else Inr (None, serial))"

section \<open>Vendor requests\<close>

definition mscompatid :: "u8 list" where
  "mscompatid =
     [0x40, 0, 0, 0] @ [0, 1] @ [4, 0] @ [2] @ replicate 7 0
     @ [0] @ [1] @ replicate 8 0 @ replicate 8 0 @ replicate 6 0
     @ [2] @ [1] @ [0x57, 0x49, 0x4E, 0x55, 0x53, 0x42, 0, 0] @ replicate 8 0 @ replicate 6 0"

definition msdescriptor0 :: "u8 list" where
  "msdescriptor0 = [0x0A, 0, 0, 0] @ [0, 1] @ [5, 0] @ [0, 0]"

definition msdescriptor1 :: "u8 list" where
  "msdescriptor1 =
     [0x94, 0, 0, 0] @ [0, 1] @ [5, 0] @ [1, 0] @ [0x8A, 0, 0, 0] @ [7, 0, 0, 0] @ [0x2A, 0]
     @ wide ''DeviceInterfaceGUIDs'' @ [0, 0]
     @ [0x50, 0, 0, 0]
     @ wide ''{88BAE032-5A81-49f0-BC3D-A4FF138216D6}'' @ [0, 0, 0, 0]"

text \<open>usbSetupTransfer sends the first n bytes from an address.\<close>

definition usbSetupTransfer :: "u8 list \<Rightarrow> u8 \<Rightarrow> fault + u8 list option" where
  "usbSetupTransfer d n = (if unat n \<le> length d then Inr (Some (take (unat n) d)) else Inl OutOfBounds)"

definition specialRequestsHook :: "u8 list \<Rightarrow> fault + u8 list option" where
  "specialRequestsHook setup =
     (if setup ! 0 = 0xC0 \<and> setup ! 1 = 0x14 \<and> setup ! 2 = 0 \<and> setup ! 3 = 0 \<and> setup ! 4 = 4
      then usbSetupTransfer mscompatid (setup ! 6)
      else if setup ! 0 = 0xC1 \<and> setup ! 1 = 0x14 \<and> setup ! 2 = 0 \<and> setup ! 3 = 0 \<and> setup ! 4 = 5
      then usbSetupTransfer msdescriptor0 (setup ! 6)
      else if setup ! 0 = 0xC1 \<and> setup ! 1 = 0x14 \<and> setup ! 2 = 2 \<and> setup ! 3 = 0 \<and> setup ! 4 = 5
      then usbSetupTransfer msdescriptor1 (setup ! 6)
      else Inr None)"

text \<open>The events of the driver, with the calls into it: the endpoints start with the configuration.\<close>

datatype usb_event_type = USB_EVENT_RESET | USB_EVENT_ADDRESS | USB_EVENT_CONFIGURED | USB_EVENT_UNCONFIGURED | USB_EVENT_SUSPEND
  | USB_EVENT_WAKEUP | USB_EVENT_STALLED

datatype usb_driver_state = USB_ACTIVE | USB_SELECTED | USB_other

datatype usb_call = UsbInitEndpointI u8 | UsbDisableEndpointsI

definition usb_event :: "usb_driver_state \<Rightarrow> usb_event_type \<Rightarrow> usb_call list" where
  "usb_event state event = (case event of
       USB_EVENT_CONFIGURED \<Rightarrow>
         (case state of
            USB_ACTIVE \<Rightarrow> [UsbInitEndpointI USBD1_DATA_REQUEST_EP, UsbInitEndpointI USBD2_DATA_REQUEST_EP]
          | USB_SELECTED \<Rightarrow> [UsbDisableEndpointsI]
          | USB_other \<Rightarrow> [])
     | _ \<Rightarrow> [])"

section \<open>Walking through descriptors\<close>

text \<open>A host takes a configuration apart by the length at the start of each descriptor.\<close>

function descriptors :: "u8 list \<Rightarrow> u8 list list option" where
  "descriptors [] = Some []"
| "descriptors (n # bs) =
     (if unat n < 2 \<or> length (n # bs) < unat n then None
      else map_option ((#) (take (unat n) (n # bs))) (descriptors (drop (unat n) (n # bs))))"
  by pat_completeness auto
termination
proof (relation "measure length")
  fix n :: u8 and bs
  assume "\<not> (unat n < 2 \<or> length (n # bs) < unat n)"
  then have "0 < unat n" by simp
  then show "(drop (unat n) (n # bs), n # bs) \<in> measure length" by simp
qed simp

text \<open>The interfaces with the descriptors that follow each.\<close>

fun interfaces :: "u8 list list \<Rightarrow> (u8 list \<times> u8 list list) list" where
  "interfaces [] = []"
| "interfaces (d # ds) =
     (if d ! 1 = 4 then (d, takeWhile (\<lambda>e. e ! 1 \<noteq> 4) ds) # interfaces ds else interfaces ds)"

definition endpoints :: "u8 list list \<Rightarrow> u8 list" where
  "endpoints ds = map (\<lambda>e. e ! 2) (filter (\<lambda>e. e ! 1 = 5) ds)"

section \<open>The serial number\<close>

lemma inttohex_loop:
  assumes "p + 2 * n \<le> length s + 1"
  shows "\<exists>s'. sfold (\<lambda>nibble s. upd_e s (p + 2 * nibble) (hex_char (drop_bit (28 - nibble * 4) v AND 15))) [0..<n] s = Inr s' \<and>
    length s' = length s \<and> (\<forall>j < n. s' ! (p + 2 * j) = hex_char (drop_bit (28 - j * 4) v AND 15)) \<and>
    (\<forall>k. (\<forall>j < n. k \<noteq> p + 2 * j) \<longrightarrow> s' ! k = s ! k)"
  using assms
proof (induction n)
  case (Suc n)
  let ?f = "\<lambda>nibble s. upd_e s (p + 2 * nibble) (hex_char (drop_bit (28 - nibble * 4) v AND 15))"
  have "p + 2 * n \<le> length s + 1" using Suc.prems by simp
  from Suc.IH [OF this] obtain s' where s': "sfold ?f [0..<n] s = Inr s'" "length s' = length s"
    "\<forall>j < n. s' ! (p + 2 * j) = hex_char (drop_bit (28 - j * 4) v AND 15)"
    "\<forall>k. (\<forall>j < n. k \<noteq> p + 2 * j) \<longrightarrow> s' ! k = s ! k" by blast
  have i: "p + 2 * n < length s'" using Suc.prems s'(2) by simp
  have "sfold ?f [0..<Suc n] s = Inr (s'[p + 2 * n := hex_char (drop_bit (28 - n * 4) v AND 15)])"
    using s'(1) i by (simp add: sfold_append)
  then show ?case using s'(2-4) i by (auto simp: nth_list_update less_Suc_eq)
qed simp

definition hex_digit :: "u8 \<Rightarrow> nat" where
  "hex_digit c = (if c < 58 then unat c - 48 else unat c - 55)"

definition of_hex :: "u8 list \<Rightarrow> nat" where
  "of_hex cs = fold (\<lambda>c n. n * 16 + hex_digit c) cs 0"

lemma nibble: "unat (drop_bit k v AND 15) = unat v div 2 ^ k mod 16" for v :: u32
proof -
  have "drop_bit k v AND 15 = drop_bit k v AND mask 4" by (simp add: mask_eq_exp_minus_1)
  then have "unat (drop_bit k v AND 15) = unat (take_bit 4 (drop_bit k v))" by (simp only: take_bit_eq_mask)
  moreover have "unat (take_bit 4 (drop_bit k v)) = take_bit 4 (drop_bit k (unat v))"
    by (rule bit_eqI) (auto simp: bit_simps)
  moreover have "take_bit 4 (drop_bit k (unat v)) = unat v div 2 ^ k mod 16" by (simp add: take_bit_eq_mod drop_bit_eq_div)
  ultimately show ?thesis by (simp only:)
qed

lemma hex_digit_char: "unat c < 16 \<Longrightarrow> hex_digit (hex_char c) = unat c" for c :: u32
proof -
  assume c: "unat c < 16"
  define n where "n = unat c"
  have "c = of_nat n" "n < 16" using c by (simp_all add: n_def)
  then have "n \<in> {0..<16}" by simp
  then have "n \<in> set [0..<16]" by simp
  then show ?thesis unfolding n_def [symmetric] \<open>c = of_nat n\<close>
    by (simp add: upt_rec) (elim disjE; simp add: hex_digit_def hex_char_def)
qed

lemma nibbles_value:
  "((((((((0 * 16 + n div 2 ^ 28 mod 16) * 16 + n div 2 ^ 24 mod 16) * 16 + n div 2 ^ 20 mod 16) * 16 + n div 2 ^ 16 mod 16) * 16
    + n div 2 ^ 12 mod 16) * 16 + n div 2 ^ 8 mod 16) * 16 + n div 2 ^ 4 mod 16) * 16 + n mod 16) = n"
  if "n < 2 ^ 32" for n :: nat
proof -
  have s: "n div 2 ^ (k + 4) * 16 + n div 2 ^ k mod 16 = n div 2 ^ k" for k
  proof -
    have "n div 2 ^ (k + 4) = n div 2 ^ k div 16" by (simp add: power_add div_mult2_eq)
    then show ?thesis by simp
  qed
  have "n div 2 ^ 28 mod 16 = n div 2 ^ 28" using that by simp
  then show ?thesis using s [of 24] s [of 20] s [of 16] s [of 12] s [of 8] s [of 4] s [of 0] by simp
qed

lemma inttohex_value:
  assumes "p + 15 \<le> length s"
  shows "\<exists>s'. inttohex v p s = Inr s' \<and> length s' = length s \<and> of_hex (map (\<lambda>j. s' ! (p + 2 * j)) [0..<8]) = unat v \<and>
    (\<forall>k. k < p \<or> p + 15 \<le> k \<longrightarrow> s' ! k = s ! k)"
proof -
  have "p + 2 * 8 \<le> length s + 1" using assms by simp
  from inttohex_loop [OF this, of v] obtain s' where s': "inttohex v p s = Inr s'" "length s' = length s"
    "\<forall>j < 8. s' ! (p + 2 * j) = hex_char (drop_bit (28 - j * 4) v AND 15)"
    "\<forall>k. (\<forall>j < 8. k \<noteq> p + 2 * j) \<longrightarrow> s' ! k = s ! k" unfolding inttohex_def by blast
  have d: "hex_digit (s' ! (p + 2 * j)) = unat v div 2 ^ (28 - j * 4) mod 16" if "j < 8" for j
  proof -
    have "unat (drop_bit (28 - j * 4) v AND 15) < 16" by (simp add: nibble)
    then show ?thesis using s'(3) that by (simp add: hex_digit_char nibble)
  qed
  have "[0..<8] = [0, 1, 2, 3, 4, 5, 6, 7 :: nat]" by (simp add: upt_rec)
  then have "of_hex (map (\<lambda>j. s' ! (p + 2 * j)) [0..<8]) = unat v"
    using d [of 0] d [of 1] d [of 2] d [of 3] d [of 4] d [of 5] d [of 6] d [of 7] nibbles_value [of "unat v"]
      unsigned_less [of v] by (simp add: of_hex_def)
  moreover have "\<forall>k. k < p \<or> p + 15 \<le> k \<longrightarrow> s' ! k = s ! k" using s'(4) by auto
  ultimately show ?thesis using s' by blast
qed

section \<open>Properties\<close>

lemma device_configuration:
  assumes "usb_macros_ok m"
  shows "vcom_configuration_descriptor_data m =
    [9, 2, 140, 0, 3, 1, 5, 192, 50, 8, 11, 0, 2, 1, 3, 0, 0, 9, 4, 0, 0, 0, 1, 1, 0, 0, 9, 36, 1, 0, 1, 9, 0, 1, 1,
     9, 4, 1, 0, 2, 1, 3, 0, 0, 7, 36, 1, 0, 1, 65, 0, 6, 36, 2, 1, 1, 5, 6, 36, 2, 2, 2, 6, 9, 36, 3, 1, 3, 1, 2, 1, 6,
     9, 36, 3, 2, 4, 1, 1, 1, 2, 9, 5, 1, 2, 64, 0, 0, 0, 0, 5, 37, 1, 1, 1, 9, 5, 129, 2, 64, 0, 0, 0, 0, 5, 37, 1, 1, 3,
     8, 11, 2, 1, 255, 0, 0, 4, 9, 4, 2, 0, 2, 255, 0, 0, 4, 7, 5, 2, 2, 64, 0, 0, 7, 5, 130, 2, 64, 0, 0]"
  using assms by (simp add: vcom_configuration_descriptor_data_def usb_macros_ok_def le16_def USBD2_DATA_AVAILABLE_EP_def
      USBD2_DATA_REQUEST_EP_def drop_bit_eq_div)

text \<open>
  The configuration that the host gets is well formed: its total length is the announced one, a walk
  by the lengths of the descriptors ends exactly at the end, the announced three interfaces follow in order,
  each with as many endpoints as it announces, and the endpoints are 1 and 2 in both directions.
\<close>

lemma configuration_well_formed:
  assumes "usb_macros_ok m"
  shows "\<exists>ds. descriptors (vcom_configuration_descriptor_data m) = Some ds \<and> concat ds = vcom_configuration_descriptor_data m \<and>
    length (vcom_configuration_descriptor_data m) = unat (hd ds ! 2) + 256 * unat (hd ds ! 3) \<and>
    length (interfaces ds) = unat (hd ds ! 4) \<and>
    map (\<lambda>(i, es). (i ! 2, unat (i ! 4), endpoints es)) (interfaces ds) = [(0, 0, []), (1, 2, [1, 0x81]), (2, 2, [2, 0x82])]"
  unfolding device_configuration [OF assms] by (simp add: endpoints_def)

definition spec_macros :: usb_macros where
  "spec_macros =
     \<lparr>desc_device = (\<lambda>bcd cls sub prot size vendor prod rel im ip is n.
        [18, 1] @ le16 bcd @ [cls, sub, prot, size] @ le16 vendor @ le16 prod @ le16 rel @ [im, ip, is, n]),
      desc_configuration = (\<lambda>total n v i attr power. [9, 2] @ le16 total @ [n, v, i, attr, power]),
      desc_association = (\<lambda>first n cls sub prot i. [8, 11, first, n, cls, sub, prot, i]),
      desc_interface = (\<lambda>n alt neps cls sub prot i. [9, 4, n, alt, neps, cls, sub, prot, i]),
      desc_endpoint = (\<lambda>a attr size interval. [7, 5, a, attr] @ le16 size @ [interval]),
      kernel_version = [4, 0, 0]\<rparr>"

lemma spec_macros_ok: "usb_macros_ok spec_macros"
  by (simp add: usb_macros_ok_def spec_macros_def)

lemma configuration_well_formed_witness:
  "\<exists>ds. descriptors (vcom_configuration_descriptor_data spec_macros) = Some ds \<and>
     map (\<lambda>(i, es). endpoints es) (interfaces ds) = [[], [1, 0x81], [2, 0x82]]"
proof -
  from configuration_well_formed [OF spec_macros_ok] obtain ds where
    ds: "descriptors (vcom_configuration_descriptor_data spec_macros) = Some ds"
    "map (\<lambda>(i, es). (i ! 2, unat (i ! 4), endpoints es)) (interfaces ds) = [(0, 0, []), (1, 2, [1, 0x81]), (2, 2, [2, 0x82])]"
    by (elim exE conjE) (rule that)
  have "map (\<lambda>(i, es). endpoints es) (interfaces ds) =
    map (snd \<circ> snd) (map (\<lambda>(i, es). (i ! 2, unat (i ! 4), endpoints es)) (interfaces ds))" by (simp add: case_prod_beta comp_def)
  then show ?thesis using ds(1) unfolding ds(2) by simp
qed



text \<open>
  The vendor requests send as many bytes as the low byte of the length asks for, so a host that asks
  for more than a descriptor has reads the memory behind it; the second descriptor announces 148 bytes
  and has 146, so asking for the announced length is enough.
\<close>

lemma vendor_request_overread:
  "(\<forall>n. specialRequestsHook [0xC0, 0x14, 0, 0, 4, 0, n, 0] = (if n \<le> 64 then Inr (Some (take (unat n) mscompatid)) else Inl OutOfBounds)) \<and>
   (\<forall>n. specialRequestsHook [0xC1, 0x14, 0, 0, 5, 0, n, 0] = (if n \<le> 10 then Inr (Some (take (unat n) msdescriptor0)) else Inl OutOfBounds)) \<and>
   (\<forall>n. specialRequestsHook [0xC1, 0x14, 2, 0, 5, 0, n, 0] = (if n \<le> 146 then Inr (Some (take (unat n) msdescriptor1)) else Inl OutOfBounds)) \<and>
   take 4 msdescriptor1 = le32_bytes 148"
proof -
  have "length mscompatid = 64" "length msdescriptor0 = 10" "length msdescriptor1 = 146" "take 4 msdescriptor1 = le32_bytes 148"
    by (simp_all add: mscompatid_def msdescriptor0_def msdescriptor1_def wide_def le32_bytes_def byte_of_def drop_bit_eq_div)
  then show ?thesis by (simp add: specialRequestsHook_def usbSetupTransfer_def word_le_nat_alt)
qed

end
