(* ===== verification/Vfile.thy ===== *)
theory Vfile
  imports Prelude
begin

text \<open>
  The memory pools (firmware/axoloti\_memory.c) and the files of the ELF loader (vfile\_ops.h,
  vfile\_ops/vfile\_mem.c, vfile\_fatfs.c): one interface with a provider for an image in memory and one
  for a file on the SD card. The heaps of ChibiOS and FatFs are not in the repository: the allocator of
  a heap is a parameter, and so are the files on the card, as contents by name.
\<close>

section \<open>Memory pools\<close>

datatype heap = Sram1 | Sram2 | Sram3 | Ccm | Sdram

definition mem_type_can_execute :: u32 where "mem_type_can_execute = push_bit 2 1"
definition mem_type_hint_no_dma :: u32 where "mem_type_hint_no_dma = push_bit 16 1"
definition mem_type_hint_large :: u32 where "mem_type_hint_large = push_bit 17 1"
definition mem_type_hint_tiny_dma :: u32 where "mem_type_hint_tiny_dma = push_bit 18 1"

text \<open>A heap gives an address for a size, an alignment and the blocks in use, or none.\<close>

type_synonym heaps = "heap \<Rightarrow> nat \<Rightarrow> nat \<Rightarrow> int set \<Rightarrow> int option"

definition heap_take :: "heaps \<Rightarrow> heap \<Rightarrow> nat \<Rightarrow> nat \<Rightarrow> int set \<Rightarrow> int option \<times> int set" where
  "heap_take hs h sz align S = (case hs h sz align S of None \<Rightarrow> (None, S) | Some a \<Rightarrow> (Some a, insert a S))"

definition ax_malloc_align :: "heaps \<Rightarrow> nat \<Rightarrow> u32 \<Rightarrow> nat \<Rightarrow> int set \<Rightarrow> int option \<times> int set" where
  "ax_malloc_align hs sz mem_type align S =
     (let sz = (if sz = 0 then 4 else sz) in
      if mem_type AND mem_type_can_execute \<noteq> 0 then heap_take hs Sram1 sz align S
      else if mem_type AND mem_type_hint_large \<noteq> 0 then heap_take hs Sdram sz align S
      else if mem_type AND mem_type_hint_tiny_dma \<noteq> 0 then heap_take hs Sram2 sz align S
      else if mem_type AND mem_type_hint_no_dma \<noteq> 0 then
        (case heap_take hs Ccm sz align S of
           (Some a, S) \<Rightarrow> (Some a, S)
         | (None, S) \<Rightarrow> heap_take hs Sram3 sz align S)
      else heap_take hs Sram3 sz align S)"

definition ax_malloc :: "heaps \<Rightarrow> nat \<Rightarrow> u32 \<Rightarrow> int set \<Rightarrow> int option \<times> int set" where
  "ax_malloc hs sz mem_type S = ax_malloc_align hs sz mem_type 8 S"

definition ax_free :: "int \<Rightarrow> int set \<Rightarrow> int set" where
  "ax_free p S = (if p \<noteq> 0 then S - {p} else S)"

text \<open>The free memory of a heap is what chHeapStatus reports; the second function asks for the third heap.\<close>

definition sram1_available :: "(heap \<Rightarrow> int) \<Rightarrow> int" where "sram1_available status = status Sram1"
definition sram2_available :: "(heap \<Rightarrow> int) \<Rightarrow> int" where "sram2_available status = status Sram3"
definition sram3_available :: "(heap \<Rightarrow> int) \<Rightarrow> int" where "sram3_available status = status Sram3"
definition ccmram_available :: "(heap \<Rightarrow> int) \<Rightarrow> int" where "ccmram_available status = status Ccm"
definition sdram_available :: "(heap \<Rightarrow> int) \<Rightarrow> int" where "sdram_available status = status Sdram"

section \<open>Files in memory\<close>

record mem_fd =
  base_addr :: int
  fp :: int

text \<open>The bytes of the memory, the blocks in use and the descriptors by their address.\<close>

record mem_files =
  memory :: "int \<Rightarrow> u8"
  in_use :: "int set"
  fds :: "int \<Rightarrow> mem_fd option"

definition fd_at :: "int \<Rightarrow> mem_files \<Rightarrow> fault + mem_fd" where
  "fd_at f v = (case fds v f of None \<Rightarrow> Inl Dangling | Some d \<Rightarrow> Inr d)"

text \<open>The path is the address of the image. The handle 0 is the failure.\<close>

definition mem_fopen :: "heaps \<Rightarrow> int \<Rightarrow> mem_files \<Rightarrow> int \<times> mem_files" where
  "mem_fopen hs path v =
     (case ax_malloc hs 8 0 (in_use v) of
        (None, S) \<Rightarrow> (0, v)
      | (Some f, S) \<Rightarrow> (f, v\<lparr>in_use := S, fds := (fds v)(f \<mapsto> \<lparr>base_addr = path, fp = path\<rparr>)\<rparr>))"

definition mem_fclose :: "int \<Rightarrow> mem_files \<Rightarrow> fault + mem_files" where
  "mem_fclose f v = sbind (fd_at f v) (\<lambda>d. Inr (v\<lparr>in_use := ax_free (base_addr d) (in_use v)\<rparr>))"

definition mem_fclose_flash :: "int \<Rightarrow> mem_files \<Rightarrow> fault + mem_files" where
  "mem_fclose_flash f v = Inr v"

definition mem_fread :: "int \<Rightarrow> int \<Rightarrow> mem_files \<Rightarrow> fault + (u8 list \<times> mem_files)" where
  "mem_fread f sz v = sbind (fd_at f v) (\<lambda>d.
     Inr (map (\<lambda>i. memory v (fp d + int i)) [0..<nat sz], v\<lparr>fds := (fds v)(f \<mapsto> d\<lparr>fp := fp d + int (nat sz)\<rparr>)\<rparr>))"

definition mem_fseek :: "int \<Rightarrow> int \<Rightarrow> mem_files \<Rightarrow> fault + mem_files" where
  "mem_fseek f pos v = sbind (fd_at f v) (\<lambda>d. Inr (v\<lparr>fds := (fds v)(f \<mapsto> d\<lparr>fp := base_addr d + pos\<rparr>)\<rparr>))"

definition mem_ftell :: "int \<Rightarrow> mem_files \<Rightarrow> fault + int" where
  "mem_ftell f v = sbind (fd_at f v) (\<lambda>d. Inr (fp d - base_addr d))"

section \<open>Files on the card\<close>

record ff_file =
  content :: "u8 list"
  fpos :: nat

record ff_files =
  ff_in_use :: "int set"
  open_files :: "int \<Rightarrow> ff_file option"

definition ff_at :: "int \<Rightarrow> ff_files \<Rightarrow> fault + ff_file" where
  "ff_at f v = (case open_files v f of None \<Rightarrow> Inl Dangling | Some d \<Rightarrow> Inr d)"

text \<open>The size of a file object is a parameter of FatFs; a file that is not there cannot be opened.\<close>

definition ff_fopen ::
  "heaps \<Rightarrow> nat \<Rightarrow> (u8 list \<Rightarrow> u8 list option) \<Rightarrow> u8 list \<Rightarrow> ff_files \<Rightarrow> int \<times> ff_files" where
  "ff_fopen hs sizeof_FIL disk path v =
     (case ax_malloc hs sizeof_FIL 0 (ff_in_use v) of
        (None, S) \<Rightarrow> (0, v)
      | (Some f, S) \<Rightarrow>
          (case disk path of
             None \<Rightarrow> (0, v\<lparr>ff_in_use := ax_free f S\<rparr>)
           | Some c \<Rightarrow> (f, v\<lparr>ff_in_use := S, open_files := (open_files v)(f \<mapsto> \<lparr>content = c, fpos = 0\<rparr>)\<rparr>)))"

definition ff_fclose :: "int \<Rightarrow> ff_files \<Rightarrow> fault + ff_files" where
  "ff_fclose f v =
     (if f \<noteq> 0 then sbind (ff_at f v) (\<lambda>d. Inr (v\<lparr>ff_in_use := ax_free f (ff_in_use v), open_files := (open_files v)(f := None)\<rparr>))
      else Inr v)"

text \<open>FatFs reads what is left at most, and moves within the file only.\<close>

definition ff_fread :: "int \<Rightarrow> int \<Rightarrow> ff_files \<Rightarrow> fault + (u8 list \<times> ff_files)" where
  "ff_fread f sz v = sbind (ff_at f v) (\<lambda>d.
     let bs = take (nat sz) (drop (fpos d) (content d)) in
     Inr (bs, v\<lparr>open_files := (open_files v)(f \<mapsto> d\<lparr>fpos := fpos d + length bs\<rparr>)\<rparr>))"

definition ff_fseek :: "int \<Rightarrow> int \<Rightarrow> ff_files \<Rightarrow> fault + ff_files" where
  "ff_fseek f pos v = sbind (ff_at f v) (\<lambda>d.
     Inr (v\<lparr>open_files := (open_files v)(f \<mapsto> d\<lparr>fpos := min (nat (pos mod 2 ^ 32)) (length (content d))\<rparr>)\<rparr>))"

definition ff_ftell :: "int \<Rightarrow> ff_files \<Rightarrow> fault + int" where
  "ff_ftell f v = sbind (ff_at f v) (\<lambda>d. Inr (int (fpos d)))"

section \<open>The interface\<close>

text \<open>
  What the loader relies on: reads and moves inside the file. A provider has a state, the content of the
  file that a handle stands for, and its position.
\<close>

datatype vop = Vf_read int | Vf_seek int

text \<open>The contract: a file is its content and a position; None is a use outside the file.\<close>

fun file_run :: "u8 list \<Rightarrow> int \<Rightarrow> vop list \<Rightarrow> u8 list list option" where
  "file_run c p [] = Some []"
| "file_run c p (Vf_read n # ops) =
     (if 0 \<le> n \<and> p + n \<le> int (length c)
      then map_option ((#) (take (nat n) (drop (nat p) c))) (file_run c (p + n) ops) else None)"
| "file_run c p (Vf_seek q # ops) = (if 0 \<le> q \<and> q \<le> int (length c) then file_run c q ops else None)"

fun vf_run ::
  "(int \<Rightarrow> 's \<Rightarrow> fault + (u8 list \<times> 's)) \<Rightarrow> (int \<Rightarrow> 's \<Rightarrow> fault + 's) \<Rightarrow> vop list \<Rightarrow> 's \<Rightarrow> fault + u8 list list" where
  "vf_run rd sk [] s = Inr []"
| "vf_run rd sk (Vf_read n # ops) s = sbind (rd n s) (\<lambda>(bs, s). sbind (vf_run rd sk ops s) (\<lambda>out. Inr (bs # out)))"
| "vf_run rd sk (Vf_seek q # ops) s = sbind (sk q s) (\<lambda>s. vf_run rd sk ops s)"

locale vfile =
  fixes rd :: "int \<Rightarrow> 's \<Rightarrow> fault + (u8 list \<times> 's)"
    and sk :: "int \<Rightarrow> 's \<Rightarrow> fault + 's"
    and at :: "u8 list \<Rightarrow> int \<Rightarrow> 's \<Rightarrow> bool"
  assumes read_law: "at c p s \<Longrightarrow> 0 \<le> n \<Longrightarrow> p + n \<le> int (length c) \<Longrightarrow>
      \<exists>s'. rd n s = Inr (take (nat n) (drop (nat p) c), s') \<and> at c (p + n) s'"
    and seek_law: "at c p s \<Longrightarrow> 0 \<le> q \<Longrightarrow> q \<le> int (length c) \<Longrightarrow> \<exists>s'. sk q s = Inr s' \<and> at c q s'"
begin

lemma run_correct: "at c p s \<Longrightarrow> file_run c p ops = Some out \<Longrightarrow> vf_run rd sk ops s = Inr out"
proof (induction ops arbitrary: p s out)
  case (Cons op ops)
  show ?case
  proof (cases op)
    case (Vf_read n)
    then obtain out' where o: "0 \<le> n" "p + n \<le> int (length c)" "file_run c (p + n) ops = Some out'"
      "out = take (nat n) (drop (nat p) c) # out'"
      using Cons.prems(2) by (auto split: if_splits)
    from read_law [OF Cons.prems(1) o(1,2)] obtain s' where
      "rd n s = Inr (take (nat n) (drop (nat p) c), s')" "at c (p + n) s'" by blast
    then show ?thesis using Cons.IH o Vf_read by simp
  next
    case (Vf_seek q)
    then have o: "0 \<le> q" "q \<le> int (length c)" "file_run c q ops = Some out"
      using Cons.prems(2) by (auto split: if_splits)
    from seek_law [OF Cons.prems(1) o(1,2)] obtain s' where "sk q s = Inr s'" "at c q s'" by blast
    then show ?thesis using Cons.IH o Vf_seek by simp
  qed
qed simp

end

text \<open>An image in memory, and a file on the card.\<close>

definition mem_at :: "int \<Rightarrow> u8 list \<Rightarrow> int \<Rightarrow> mem_files \<Rightarrow> bool" where
  "mem_at f c p v \<longleftrightarrow> 0 \<le> p \<and> (\<exists>d. fds v f = Some d \<and> fp d = base_addr d + p \<and>
     (\<forall>i < length c. memory v (base_addr d + int i) = c ! i))"

definition ff_positioned :: "int \<Rightarrow> u8 list \<Rightarrow> int \<Rightarrow> ff_files \<Rightarrow> bool" where
  "ff_positioned f c p v \<longleftrightarrow> 0 \<le> p \<and> length c < 2 ^ 32 \<and> open_files v f = Some \<lparr>content = c, fpos = nat p\<rparr>"

interpretation memf: vfile "mem_fread f" "mem_fseek f" "mem_at f" for f
proof (unfold_locales, goal_cases)
  case (1 c p v n)
  then obtain d where d: "fds v f = Some d" "fp d = base_addr d + p" "\<forall>i < length c. memory v (base_addr d + int i) = c ! i" "0 \<le> p"
    by (auto simp: mem_at_def)
  have "map (\<lambda>i. memory v (fp d + int i)) [0..<nat n] = take (nat n) (drop (nat p) c)"
  proof (rule nth_equalityI)
    show "length (map (\<lambda>i. memory v (fp d + int i)) [0..<nat n]) = length (take (nat n) (drop (nat p) c))"
      using 1 d(4) by simp
    fix i
    assume "i < length (map (\<lambda>i. memory v (fp d + int i)) [0..<nat n])"
    then have i: "i < nat n" "nat p + i < length c" using 1 d(4) by auto
    have "fp d + int i = base_addr d + int (nat p + i)" using d(2,4) by simp
    then have "memory v (fp d + int i) = c ! (nat p + i)" using d(3) i(2) by metis
    then show "map (\<lambda>i. memory v (fp d + int i)) [0..<nat n] ! i = take (nat n) (drop (nat p) c) ! i"
      using i by simp
  qed
  then show ?case using d 1(2) by (auto simp: mem_fread_def fd_at_def mem_at_def)
next
  case (2 c p v q)
  then show ?case by (auto simp: mem_fseek_def fd_at_def mem_at_def)
qed

interpretation fff: vfile "ff_fread f" "ff_fseek f" "ff_positioned f" for f
proof (unfold_locales, goal_cases)
  case (1 c p v n)
  then show ?case by (auto simp: ff_fread_def ff_at_def ff_positioned_def Let_def nat_add_distrib min_def)
next
  case (2 c p v q)
  then have "q mod 2 ^ 32 = q" by (auto simp: ff_positioned_def)
  then show ?case using 2 by (auto simp: ff_fseek_def ff_at_def ff_positioned_def)
qed

section \<open>Properties\<close>

text \<open>
  The loader reads the same bytes from a patch in memory or in flash as from the file on the card: for
  every sequence of reads and moves inside the image, both providers give the parts of the content that
  the contract says.
\<close>

lemma vfile_providers_agree:
  assumes "\<forall>i < length c. memory v (path + int i) = c ! i" and "mem_fopen hs path v = (f, v1)" and "f \<noteq> 0"
    and "disk name = Some c" and "length c < 2 ^ 32" and "ff_fopen hs n disk name w = (g, w1)" and "g \<noteq> 0"
    and "file_run c 0 ops = Some out"
  shows "vf_run (mem_fread f) (mem_fseek f) ops v1 = Inr out \<and> vf_run (ff_fread g) (ff_fseek g) ops w1 = Inr out"
proof
  have "mem_at f c 0 v1" using assms(1-3) by (auto simp: mem_fopen_def mem_at_def split: prod.splits option.splits)
  then show "vf_run (mem_fread f) (mem_fseek f) ops v1 = Inr out" using assms(8) by (rule memf.run_correct)
  have "ff_positioned g c 0 w1" using assms(4-7) by (auto simp: ff_fopen_def ff_positioned_def split: prod.splits option.splits)
  then show "vf_run (ff_fread g) (ff_fseek g) ops w1 = Inr out" using assms(8) by (rule fff.run_correct)
qed

definition sample_heaps :: heaps where
  "sample_heaps h sz align S = (if 8 \<in> S then None else Some 8)"

lemma vfile_providers_agree_witness:
  "vf_run (mem_fread 8) (mem_fseek 8) [Vf_seek 1, Vf_read 2, Vf_read 1] (snd (mem_fopen sample_heaps 100
     \<lparr>memory = (\<lambda>a. word_of_int (a - 100)), in_use = {100}, fds = (\<lambda>_. None)\<rparr>)) = Inr [[1, 2], [3]] \<and>
   vf_run (ff_fread 8) (ff_fseek 8) [Vf_seek 1, Vf_read 2, Vf_read 1] (snd (ff_fopen sample_heaps 552 (\<lambda>_. Some [0, 1, 2, 3]) []
     \<lparr>ff_in_use = {}, open_files = (\<lambda>_. None)\<rparr>)) = Inr [[1, 2], [3]]"
proof -
  let ?v = "\<lparr>memory = (\<lambda>a. word_of_int (a - 100)), in_use = {100}, fds = (\<lambda>_. None)\<rparr> :: mem_files"
  let ?w = "\<lparr>ff_in_use = {}, open_files = (\<lambda>_. None)\<rparr> :: ff_files"
  obtain f v1 where v: "mem_fopen sample_heaps 100 ?v = (f, v1)" by (rule prod.exhaust)
  obtain g w1 where w: "ff_fopen sample_heaps 552 (\<lambda>_. Some [0, 1, 2, 3]) [] ?w = (g, w1)" by (rule prod.exhaust)
  have fg: "f = 8" "g = 8"
    using v w by (simp_all add: mem_fopen_def ff_fopen_def ax_malloc_def ax_malloc_align_def heap_take_def sample_heaps_def)
  have c: "\<forall>i < length [0, 1, 2, 3 :: u8]. memory ?v (100 + int i) = [0, 1, 2, 3] ! i"
    by (auto simp: less_Suc_eq numeral_eq_Suc)
  have "file_run [0, 1, 2, 3] 0 [Vf_seek 1, Vf_read 2, Vf_read 1] = Some [[1, 2], [3]]" by simp
  from vfile_providers_agree [OF c v _ _ _ w _ this] show ?thesis unfolding v w fg by simp
qed

text \<open>Closing a file in memory releases the image, and keeps the descriptor.\<close>

lemma mem_fclose_keeps_descriptor:
  assumes "mem_fopen hs path v = (f, v1)" and "f \<noteq> 0" and "f \<noteq> path" and "path \<noteq> 0"
  shows "\<exists>v2. mem_fclose f v1 = Inr v2 \<and> f \<in> in_use v2 \<and> path \<notin> in_use v2"
  using assms
  by (auto simp: mem_fopen_def mem_fclose_def fd_at_def ax_free_def ax_malloc_def ax_malloc_align_def heap_take_def
      split: prod.splits option.splits if_splits)

end
