(* ===== verification/Spec2Isabelle.thy ===== *)
theory Spec2Isabelle
  imports Midi_Core Usbh_System Parameters Lcd Patch Midi_Clock Pconn_Upload Ui_Props
    Spilink Exceptions Sysmon Crc32 Flash Dl Codec Filters Usb_Config Vfile
begin

text \<open>
  A verification library of the Axoloti firmware (src/firmware and the patch API of src/api):
  the program on the microcontroller of a programmable synthesizer board. It receives MIDI and
  audio, loads patches (programs compiled on a host computer), runs them in an audio thread, and
  serves a USB connection to the host and a control surface with a display and encoders.

  Theories and the code they model

  Prelude: machine integers, faults (an access out of bounds, an uninitialised value, a halt of
  the system, a use of a released object), checked array accesses, strings.

  Midi\_Message, Midi\_Buffer, Midi\_Decoder, Midi\_Core: the MIDI subsystem. Midi\_Message is the USB
  MIDI packet (api/midi.h, midi\_encoder.c); Midi\_Buffer the ring buffers between interrupts and
  threads (midi\_buffer.c); Midi\_Decoder the decoder of serial MIDI (midi\_decoder.c); Midi\_Core the
  devices, the routing tables and midiSend (midi.c, midi\_routing.c, midi\_din.c, midi\_gpio.c,
  midi\_usb.c, midi\_usbh.c). Messages flow: serial bytes or USB transfers, decoder or callback, routing,
  input buffer, patches; and midiSend of a patch, routing, output buffer, transmitter thread.

  Usbh\_Desc, Usbh\_Core, Usbh\_Host, Usbh\_Enum, Hid\_Fifo, Hid\_Report, Usbh\_Hid, Usbh\_Midi, Usbh\_System:
  the USB host (STM32\_USB\_Host\_Library, usbh\_conf.c, usbh\_midi\_core.c, usbh\_vendor.c). Usbh\_Desc has
  the descriptors of a device and their parsers (usbh\_ctlreq.c); Usbh\_Core the pipes, the transfers
  and the control requests with their state machine (usbh\_pipes.c, usbh\_ioreq.c, usbh\_ctlreq.c);
  Usbh\_Host the host state machine, the table of class drivers, the interrupts and the host thread
  (usbh\_core.c, usbh\_conf.c); Usbh\_Enum the proofs about enumeration. Hid\_Fifo, Hid\_Report and Usbh\_Hid
  are the driver of mice and keyboards (usbh\_hid.c, usbh\_hid\_parser.c, usbh\_hid\_mouse.c,
  usbh\_hid\_keybd.c), Usbh\_Midi the drivers of MIDI devices (usbh\_midi\_core.c) and of the Access Virus
  (usbh\_vendor.c), and Usbh\_System the host with the three drivers of the firmware.

  Patch\_Index, Patch, Midi\_Clock: patch.c. Patch\_Index has the text handling of the loader (the
  lines of the patch bank, addresses in hexadecimal, indices packed into names); Patch the
  slots, the audio thread and the worker thread that loads and stops patches; Midi\_Clock the
  interrupt that starts the audio cycle and the MIDI clock in it.

  Axo\_Math, Parameters: the fixed-point arithmetic of api/axoloti\_math.h and the patch parameters
  (parameters.c, api/parameters.h, api/parameter\_functions.h) with the encoder code of ui.c.

  Font, Lcd: the font, the frame buffer, the drawing functions and the LED display of the
  control surface (glcdfont.c, axoloti\_control.c). Lcd\_Safe says for every drawing function when it
  stays inside the frame buffer.

  Ui\_Event, Ui\_State, Ui\_Pages, Ui\_Menu, Ui\_Paint, Ui\_Nav, Ui\_Handlers, Ui\_Paint\_Safe, Ui\_Props: the
  user interface. Ui\_Event
  is the queue of button and encoder events (input\_evt.h, ui.c); Ui\_State the menu tree, the
  variables of the pages and the quadrants of the screen (ui.h, menu\_content, qgfx.c); Ui\_Pages the
  event handlers of the pages with functions of their own (menu\_content); Ui\_Menu the navigation
  stack, the handlers of the standard pages (ui\_nodes, patch\_wrapper.cpp) and the poll of the
  queue (ui.c); Ui\_Paint the painting thread and the painting functions of all pages. Ui\_Nav has the
  invariant, Ui\_Handlers and Ui\_Paint\_Safe the proofs that every handler and every painting function
  keeps it, and Ui\_Props the runs of the interface.

  Fault\_Monad, Pconn\_Stream, Pconn, Pconn\_Props, Pconn\_Transfer, Pconn\_Upload: the USB bulk connection
  (pconnection.c). Fault\_Monad has the state passing operations the handlers are written in and
  the triples that carry invariants through them; Pconn\_Stream the input stream over packets and
  the locked transmissions; Pconn the handler of every request and the two threads; the other
  three the safety and the data transfer properties.

  Spilink: the exchange of packets with a second board over SPI (spilink.c, spilink\_lld.h, spidb.c):
  the master sends the screen and the LEDs in pieces and receives input events. Exceptions: the error
  reports that survive a reset in the backup RAM (exceptions.c). Sysmon: the monitor thread with the
  LED patterns, the error flags and the card switch (sysmon.c), and the mounting of the card
  (sdcard.c). Crc32, Flash: the checksum of a firmware image and the writing of the flash memory
  (crc32.c, flash.c). Dl: shared libraries of patches and the resolution of symbols (dlfcn.c,
  exports.c). Vfile: the memory pools and the two kinds of files of the ELF loader
  (axoloti\_memory.c, vfile\_ops). Codec: the registers of the audio codec, the clock of a second
  board, and the interrupts in which the audio cycle, the MIDI clock and the SPI link meet
  (codec.c, codec\_ADAU1961\_SAI.c). Filters: the filters of second order and the logarithm of the
  patch API (api/axoloti\_filters.h, axoloti\_math.c). Usb\_Config: the USB descriptors and the
  control requests (usbcfg.c).

  How the model corresponds to the code

  A struct is a record with the fields of the code, an enum a datatype, an integer a word of its
  width or an int with the wrap-around written out (wrap32). An access that C leaves undefined is
  a fault value, and theorems either show that it does not occur or show an input that causes
  it. A function of the code is a definition of the same name; a loop is a recursive function of
  its own. The audio thread, the worker thread and the interrupts are interleaved by a step
  relation (sys\_step in Patch), the events of the user interface by another (ui\_step in Ui\_Props),
  or by explicit schedules.

  Parameters of the model, which stand for code that is not in src/firmware or is hardware: the
  ELF loader's view of a patch image and the functions of the image, the allocator, the file
  system (contents by name), the USB driver (the results of the coming receptions and
  transmissions), the HAL driver of the USB host controller (ll\_env: the result of each transfer, its
  size and the bytes received; the calls to it are a log in the state), the sine and pitch tables that floating-point code fills
  at start-up, the sample memory, and for the connection handlers the calls into the rest of the
  firmware (ext, with a log of the calls made), the CRC unit, the flash controller, the working
  directory of the file system, the packets of the other board, the results of mounting a card, the
  I2C driver, the pins that are polled, the sine and the reciprocal of the filters, and the macros
  for USB descriptors.

  Groups of lemmas

  Buffers: a ring buffer refines a queue, so nothing is lost, repeated or reordered, and the
  producer overwrites nothing unread (input\_buffer\_fifo); the queue laws are a locale that both
  buffers interpret. Decoder: it never reaches its halt, decodes what the encoder of the same
  messages produced, passes real-time bytes transparently, and the two sequences it gets wrong.
  Routing: delivery of every message to exactly the mapped devices, the round trip of the tables
  through their files, and a port that is enabled without a route. USB host: a
  configuration is parsed into the table its descriptors mean, a device that answers is enumerated
  within 62 polls of the thread and a device that stalls never, the driver a device gets, a MIDI device comes up
  with its two endpoints, a transfer delivers its packets up to the first zero word, transmissions keep
  order, the moves of a mouse add up; and the defects of the retry, of the unset callback and of the
  shutdown after a failed start.
  Patches: no interleaving makes an instance be used after its release, a stop completes, the
  outcome of a load on every branch, the mix of the outputs. Parameters: the clamping functions
  are monotone and stay in range, and the encoder keeps the range. Display: drawing functions
  change exactly their rectangle, numbers print right, and the overruns at the edges. Connection:
  the transmit mutex and the file object are used correctly for every input, a memory read
  reaches the host complete, written memory and files have the content sent, names arrive, and the
  request to start a patch by index fails. User interface: turns of an encoder are counted
  exactly, the open pages stay a path of the menu tree with every cursor in its page, a poll
  ends, painting stays inside the buffers, and the parameter page calls through a null pointer when no
  patch is loaded. Link: 74 exchanges bring the whole screen to the other board and every packet is
  handled once and in order. Reports: the first one reaches the host after the reset. Libraries:
  the counts are those of the holders, and closing two of them reads a released node. Flash, CRC,
  card: the words are stored and nothing else changes, the checksum is CRC-32, and inserting and
  removing a card has its five effects once and in order. Codec: the audio passes the buffers without
  a gap and together with the link and the MIDI clock, and the set-up ends exactly with a lock; on a
  second board it uses a null pointer. Loader files: memory and card give the same bytes (a locale
  that both providers interpret). Filters: the error of a step is below 80 units. USB: the descriptors
  are well formed, and three requests read behind their data.

  Bounds and fuel

  The loops over ring buffers carry fuel: a buffer of 32 entries holds at most 31 messages, so
  fuel 32 ends every loop, and the theorems that need it say so (midiSend, ThreadMidiOut, the MIDI
  loop of the audio cycle). The worker of Patch runs with fuel 6, one unit per step: a load and a
  stop have at most six steps. BulkReader takes the number of requests to serve, and its property
  holds for every number. A poll of the user interface has fuel 6, since at most five events wait;
  poll\_ends shows that more fuel changes nothing. All other recursions terminate by structure or by a measure.

  Not modelled

  Hardware set-up and register access (board.c, sdram.c, main.c, adc code, the SAI, DMA and SPI
  registers, the wait for the flash controller), the pages of objects and of single parameters
  (object.c, param.c), which cannot be opened because patch\_getNObjects returns 0, the
  floating-point code (level meters, tables, conversions), USBH\_DeInit (never called) and the CDC class
  (not built) of the USB host library, the SD card mounter, and the vendored libraries (STM32 HAL,
  CMSIS, FatFs and ChibiOS headers). The handles of the USB class drivers share one static buffer
  (fakemalloc in usbh\_conf.c); the model keeps one handle for each type of driver, since a device has one driver
  at a time.
\<close>

end
